(* ===== verification/Prelude.thy ===== *)
theory Prelude
  imports Main "HOL-Library.Word"
begin

text \<open>
  Shared vocabulary of the development: the Rust standard-library operations the modelled
  code uses (byte classes, \<open>str::split_once\<close>, \<open>strip_prefix\<close>, checked and saturating
  integer arithmetic), the gRPC status codes the handlers answer with, and the generic
  lemmas on association lists and lists that the components share.

  A Rust \<open>str\<close>/\<open>String\<close> is a \<open>string\<close>, read as its UTF-8 bytes: \<open>length\<close> is
  \<open>str::len\<close>. A \<open>HashMap\<close>/\<open>DashMap\<close> the code only looks up in is a map
  \<open>'k \<rightharpoonup> 'v\<close>; one the code iterates over is an association list in iteration order.
\<close>

named_theorems defs_of \<open>definitions of the model, unfolded together\<close>
named_theorems inv_intros \<open>preservation of component invariants\<close>

subsection \<open>gRPC status codes\<close>

text \<open>
  A \<open>tonic::Status\<close> is its code; the human-readable message is not modelled.
\<close>

datatype status =
    InvalidArgument | NotFound | PermissionDenied | Unauthenticated
  | ResourceExhausted | FailedPrecondition | Unimplemented | Unavailable
  | DeadlineExceeded | Internal

subsection \<open>Bytes\<close>

definition byte :: "char \<Rightarrow> nat" where
  "byte c = of_char c"

definition is_ascii_digit :: "char \<Rightarrow> bool" where
  "is_ascii_digit c \<longleftrightarrow> 48 \<le> byte c \<and> byte c \<le> 57"

definition is_ascii_lower :: "char \<Rightarrow> bool" where
  "is_ascii_lower c \<longleftrightarrow> 97 \<le> byte c \<and> byte c \<le> 122"

definition is_ascii_upper :: "char \<Rightarrow> bool" where
  "is_ascii_upper c \<longleftrightarrow> 65 \<le> byte c \<and> byte c \<le> 90"

definition is_ascii_alphanumeric :: "char \<Rightarrow> bool" where
  "is_ascii_alphanumeric c \<longleftrightarrow> is_ascii_digit c \<or> is_ascii_lower c \<or> is_ascii_upper c"

lemmas byte_classes =
  byte_def is_ascii_digit_def is_ascii_lower_def is_ascii_upper_def is_ascii_alphanumeric_def

text \<open>
  \<open>char::is_control\<close> is general category Cc: U+0000-U+001F, U+007F and U+0080-U+009F.
  In UTF-8 the last range is the two-byte sequences \<open>C2 80\<close> to \<open>C2 9F\<close>, and no other
  well-formed sequence contains these byte pairs or a byte below \<open>0x20\<close>.
\<close>

fun has_control :: "string \<Rightarrow> bool" where
  "has_control [] = False"
| "has_control [c] = (byte c < 32 \<or> byte c = 127)"
| "has_control (c # d # s) =
     (byte c < 32 \<or> byte c = 127 \<or>
      (byte c = 194 \<and> 128 \<le> byte d \<and> byte d \<le> 159) \<or> has_control (d # s))"

lemma has_control_mem: "c \<in> set s \<Longrightarrow> byte c < 32 \<or> byte c = 127 \<Longrightarrow> has_control s"
  by (induction s rule: has_control.induct) auto

subsection \<open>Splitting and prefixes\<close>

fun split_once :: "char \<Rightarrow> string \<Rightarrow> (string \<times> string) option" where
  "split_once d [] = None"
| "split_once d (c # s) =
     (if c = d then Some ([], s)
      else map_option (\<lambda>(a, b). (c # a, b)) (split_once d s))"

lemma split_once_append [simp]: "d \<notin> set a \<Longrightarrow> split_once d (a @ d # b) = Some (a, b)"
  by (induction a) auto

lemma split_once_Some:
  "split_once d s = Some (a, b) \<Longrightarrow> s = a @ d # b \<and> d \<notin> set a"
  by (induction s arbitrary: a b) (auto split: if_splits)

lemma split_once_None: "split_once d s = None \<longleftrightarrow> d \<notin> set s"
  by (induction s) auto

fun strip_prefix :: "string \<Rightarrow> string \<Rightarrow> string option" where
  "strip_prefix [] s = Some s"
| "strip_prefix (p # ps) [] = None"
| "strip_prefix (p # ps) (c # s) = (if p = c then strip_prefix ps s else None)"

lemma strip_prefix_Some: "strip_prefix p s = Some t \<longleftrightarrow> s = p @ t"
  by (induction p s rule: strip_prefix.induct) auto

subsection \<open>Machine integers\<close>

definition checked_add :: "'a::len word \<Rightarrow> 'a word \<Rightarrow> 'a word option" where
  "checked_add a b = (if unat a + unat b < 2 ^ LENGTH('a) then Some (a + b) else None)"

lemma checked_add_Some: "checked_add a b = Some c \<Longrightarrow> unat c = unat a + unat b"
  by (auto simp: checked_add_def unat_word_ariths split: if_splits)

definition sat_sub :: "'a::len word \<Rightarrow> 'a word \<Rightarrow> 'a word" where
  "sat_sub a b = (if a \<le> b then 0 else a - b)"

lemma unat_sat_sub: "unat (sat_sub a b) = unat a - unat b"
  by (auto simp: sat_sub_def word_le_nat_alt unat_sub not_le)

subsection \<open>Association lists in iteration order\<close>

text \<open>
  \<open>find\<close> on the entries, as the code's \<open>iter().find(..)\<close> does.
\<close>

lemma find_Some_D: "find P xs = Some x \<Longrightarrow> x \<in> set xs \<and> P x"
  by (induction xs) (auto split: if_splits)

lemma find_None_D: "find P xs = None \<Longrightarrow> x \<in> set xs \<Longrightarrow> \<not> P x"
  by (induction xs) (auto split: if_splits)

lemma map_of_filter_key:
  "map_of (filter (\<lambda>(k, v). P k) kvs) k = (if P k then map_of kvs k else None)"
  by (induction kvs) auto

lemma map_le_SomeD: "m \<subseteq>\<^sub>m m' \<Longrightarrow> m k = Some v \<Longrightarrow> m' k = Some v"
  by (metis domI map_le_def)

lemma distinct_fst_map_of:
  "distinct (map fst kvs) \<Longrightarrow> (k, v) \<in> set kvs \<Longrightarrow> map_of kvs k = Some v"
  by simp

lemma distinct_fst_filter: "distinct (map fst kvs) \<Longrightarrow> distinct (map fst (filter P kvs))"
  by (induction kvs) auto

subsection \<open>Trimming and number parsing\<close>

text \<open>
  \<open>str::trim\<close> removes Unicode \<open>White_Space\<close>: the UTF-8 encodings of these code points.
  Encodings are self-synchronising, so on well-formed text a suffix match is a match of
  whole characters.
\<close>

definition white_space :: "nat list list" where
  "white_space =
     map (\<lambda>b. [b]) [9, 10, 11, 12, 13, 32] @ [[194, 133], [194, 160], [225, 154, 128]] @
     map (\<lambda>b. [226, 128, b]) ([128..<139] @ [168, 169, 175]) @ [[226, 129, 159], [227, 128, 128]]"

definition ws_codes :: "string list" where
  "ws_codes = map (map char_of) white_space"

definition strip_one :: "string list \<Rightarrow> string \<Rightarrow> string option" where
  "strip_one ps s = (case filter (\<lambda>p. strip_prefix p s \<noteq> None \<and> p \<noteq> []) ps of
     [] \<Rightarrow> None | p # _ \<Rightarrow> strip_prefix p s)"

lemma strip_one_shorter: "strip_one ps s = Some t \<Longrightarrow> length t < length s"
  by (auto simp: strip_one_def filter_eq_Cons_iff strip_prefix_Some split: list.splits)

function strip_all :: "string list \<Rightarrow> string \<Rightarrow> string" where
  "strip_all ps s = (case strip_one ps s of None \<Rightarrow> s | Some t \<Rightarrow> strip_all ps t)"
  by pat_completeness auto
termination
  by (relation "measure (length \<circ> snd)") (auto dest: strip_one_shorter)

declare strip_all.simps [simp del]

definition trim_start :: "string \<Rightarrow> string" where
  "trim_start s = strip_all ws_codes s"

definition trim :: "string \<Rightarrow> string" where
  "trim s = rev (strip_all (map rev ws_codes) (rev (trim_start s)))"

definition trim_end :: "string \<Rightarrow> string" where
  "trim_end s = rev (strip_all (map rev ws_codes) (rev s))"

lemma strip_all_id: "strip_one ps s = None \<Longrightarrow> strip_all ps s = s"
  by (simp add: strip_all.simps)

definition ascii_lower :: "char \<Rightarrow> char" where
  "ascii_lower c = (if is_ascii_upper c then char_of (byte c + 32) else c)"

text \<open>\<open>i64::from_str\<close>: an optional sign and decimal digits, within range.\<close>

definition digits_val :: "string \<Rightarrow> int option" where
  "digits_val s =
     (if s \<noteq> [] \<and> list_all is_ascii_digit s
      then Some (foldl (\<lambda>n c. 10 * n + (int (byte c) - 48)) 0 s) else None)"

definition i64_max :: int where
  "i64_max = 9223372036854775807"

definition parse_i64 :: "string \<Rightarrow> int option" where
  "parse_i64 s =
     (let v = (case s of
                 [] \<Rightarrow> None
               | c # ds \<Rightarrow>
                   if c = CHR ''-'' then map_option uminus (digits_val ds)
                   else if c = CHR ''+'' then digits_val ds
                   else digits_val s)
      in case v of None \<Rightarrow> None | Some n \<Rightarrow> if - i64_max - 1 \<le> n \<and> n \<le> i64_max then Some n else None)"

text \<open>Two's-complement wrap-around of \<open>i64\<close> arithmetic in a release build.\<close>

definition wrap_i64 :: "int \<Rightarrow> int" where
  "wrap_i64 n = (n + i64_max + 1) mod (2 * (i64_max + 1)) - (i64_max + 1)"

lemma wrap_i64_id: "- i64_max - 1 \<le> n \<Longrightarrow> n \<le> i64_max \<Longrightarrow> wrap_i64 n = n"
  by (simp add: wrap_i64_def i64_max_def)

lemma wrap_i64_over:
  assumes "i64_max < n" "n \<le> 2 * i64_max + 1"
  shows "wrap_i64 n = n - 2 * (i64_max + 1)"
proof -
  let ?k = "2 * (i64_max + 1)"
  have "(n + i64_max + 1) mod ?k = (n + i64_max + 1 - ?k) mod ?k"
    by (rule minus_mod_self2[symmetric])
  also have "\<dots> = n + i64_max + 1 - ?k"
    by (rule mod_pos_pos_trivial) (use assms in simp_all)
  finally have "(n + i64_max + 1) mod ?k = n + i64_max + 1 - ?k" .
  then show ?thesis by (simp add: wrap_i64_def)
qed

subsection \<open>Characters of a string\<close>

text \<open>Every character of a well-formed \<open>str\<close> starts with the byte that is not \<open>10xxxxxx\<close>.\<close>

definition is_cont :: "char \<Rightarrow> bool" where
  "is_cont c \<longleftrightarrow> 128 \<le> byte c \<and> byte c < 192"

text \<open>\<open>chars().count()\<close>.\<close>

definition char_count :: "string \<Rightarrow> nat" where
  "char_count s = length (filter (\<lambda>c. \<not> is_cont c) s)"

text \<open>The first \<open>n\<close> characters.\<close>

fun take_chars :: "nat \<Rightarrow> string \<Rightarrow> string" where
  "take_chars n [] = []"
| "take_chars n (c # s) =
     (if is_cont c then c # take_chars n s
      else (case n of 0 \<Rightarrow> [] | Suc m \<Rightarrow> c # take_chars m s))"

lemma char_count_simps [simp]:
  "char_count [] = 0"
  "char_count (c # s) = (if is_cont c then char_count s else Suc (char_count s))"
  by (simp_all add: char_count_def)

lemma char_count_append [simp]: "char_count (s @ t) = char_count s + char_count t"
  by (simp add: char_count_def)

lemma char_count_take_chars: "char_count (take_chars n s) = min n (char_count s)"
  by (induction n s rule: take_chars.induct) (auto split: nat.splits)

lemma take_chars_prefix: "\<exists>t. s = take_chars n s @ t"
  by (induction n s rule: take_chars.induct) (auto split: nat.splits)

text \<open>\<open>str::contains\<close>.\<close>

fun contains :: "string \<Rightarrow> string \<Rightarrow> bool" where
  "contains p [] = (p = [])"
| "contains p (c # s) = (strip_prefix p (c # s) \<noteq> None \<or> contains p s)"

subsection \<open>Printing numbers\<close>

definition digit_char :: "nat \<Rightarrow> char" where
  "digit_char d = char_of (if d < 10 then 48 + d else 87 + d)"

fun dec :: "nat \<Rightarrow> string" where
  "dec n = (if n < 10 then [digit_char n] else dec (n div 10) @ [digit_char (n mod 10)])"

declare dec.simps [simp del]

lemma byte_digit_char: "d < 16 \<Longrightarrow> byte (digit_char d) = (if d < 10 then 48 + d else 87 + d)"
proof -
  assume "d < 16"
  then have "(48 + d) mod 256 = 48 + d" "(87 + d) mod 256 = 87 + d"
    by (intro mod_less, simp)+
  then show ?thesis by (simp only: digit_char_def byte_def of_char_of if_distrib[of "\<lambda>n. n mod 256"] if_cancel)
qed

lemma digit_char_inj: "a < 16 \<Longrightarrow> b < 16 \<Longrightarrow> digit_char a = digit_char b \<Longrightarrow> a = b"
proof -
  assume "a < 16" "b < 16" "digit_char a = digit_char b"
  then have "(if a < 10 then 48 + a else 87 + a) = (if b < 10 then 48 + b else 87 + b)"
    by (metis byte_digit_char)
  then show ?thesis by (simp split: if_splits)
qed

lemma dec_nonempty [simp]: "dec n \<noteq> []"
  by (subst dec.simps) simp

lemma dec_inj: "dec m = dec n \<Longrightarrow> m = n"
proof (induction m arbitrary: n rule: dec.induct)
  case (1 m)
  have short: "length (dec k) = 1 \<longleftrightarrow> k < 10" for k
    by (subst dec.simps) simp
  have iff: "m < 10 \<longleftrightarrow> n < 10" using short[of m] short[of n] 1(2) by simp
  show ?case
  proof (cases "m < 10")
    case True
    then show ?thesis
      using 1(2) iff digit_char_inj[of m n] by (simp add: dec.simps[of m] dec.simps[of n])
  next
    case False
    with iff have "\<not> n < 10" by simp
    note False = False this
    then have "dec (m div 10) = dec (n div 10)" "digit_char (m mod 10) = digit_char (n mod 10)"
      using 1(2) by (simp_all add: dec.simps[of m] dec.simps[of n])
    then have "m div 10 = n div 10" "m mod 10 = n mod 10"
      using 1(1) False digit_char_inj[of "m mod 10" "n mod 10"] by auto
    then show ?thesis by (metis div_mult_mod_eq)
  qed
qed

text \<open>Lowercase hexadecimal, two digits a byte.\<close>

definition hex_byte :: "8 word \<Rightarrow> string" where
  "hex_byte b = [digit_char (unat b div 16), digit_char (unat b mod 16)]"

definition hex_bytes :: "8 word list \<Rightarrow> string" where
  "hex_bytes bs = concat (map hex_byte bs)"

definition is_lower_hex :: "char \<Rightarrow> bool" where
  "is_lower_hex c \<longleftrightarrow> is_ascii_digit c \<or> (97 \<le> byte c \<and> byte c \<le> 102)"

lemma length_hex_bytes [simp]: "length (hex_bytes bs) = 2 * length bs"
  by (induction bs) (simp_all add: hex_bytes_def hex_byte_def)

lemma digit_char_hex: "d < 16 \<Longrightarrow> is_lower_hex (digit_char d)"
  by (simp add: is_lower_hex_def is_ascii_digit_def byte_digit_char)

lemma hex_bytes_lower: "list_all is_lower_hex (hex_bytes bs)"
proof (induction bs)
  case (Cons b bs)
  have "unat b < 256" using unsigned_less[of b] by simp
  then show ?case using Cons digit_char_hex[of "unat b div 16"] digit_char_hex[of "unat b mod 16"]
    by (simp add: hex_bytes_def hex_byte_def)
qed (simp add: hex_bytes_def)

end
