(* ===== verification/Registry.thy ===== *)
theory Registry
  imports Prelude
begin

text \<open>
  The id registries of \<open>muxrd/src/multiplexer/herdr/registry.rs\<close>: a stable, monotonic
  numeric id (\<open>u32\<close> for panes, \<open>u64\<close> for tabs) for every opaque herdr string id.
  Each registry is the data behind its mutex; an operation is one critical section, so any
  concurrent use is some sequence of these operations. The locale \<open>id_registry\<close> is
  the contract the rest of the daemon relies on; both registries are interpreted in it.
\<close>

subsection \<open>The contract\<close>

text \<open>
  \<open>room r\<close> is how many fresh ids are left before the code pins \<open>next_id\<close> (and ids
  start to alias).
\<close>

fun run_assigns :: "('r \<Rightarrow> 'k \<Rightarrow> 'p \<Rightarrow> 'r \<times> 'i) \<Rightarrow> 'r \<Rightarrow> ('k \<times> 'p) list \<Rightarrow> 'r" where
  "run_assigns assign r [] = r"
| "run_assigns assign r ((k, p) # ops) = run_assigns assign (fst (assign r k p)) ops"

lemma run_assigns_snoc [simp]:
  "run_assigns assign r (ops @ [(k, p)]) = fst (assign (run_assigns assign r ops) k p)"
  by (induction assign r ops rule: run_assigns.induct) auto

locale id_registry =
  fixes inv :: "'r \<Rightarrow> bool"
    and room :: "'r \<Rightarrow> nat"
    and get :: "'r \<Rightarrow> 'k \<Rightarrow> 'i option"
    and rlookup :: "'r \<Rightarrow> 'i \<Rightarrow> 'k option"
    and assign :: "'r \<Rightarrow> 'k \<Rightarrow> 'p \<Rightarrow> 'r \<times> 'i"
  assumes rev_get: "inv r \<Longrightarrow> rlookup r i = Some k \<longleftrightarrow> get r k = Some i"
    and assign_inv: "inv r \<Longrightarrow> 0 < room r \<Longrightarrow> inv (fst (assign r k p))"
    and assign_get: "inv r \<Longrightarrow> 0 < room r \<Longrightarrow> get (fst (assign r k p)) k = Some (snd (assign r k p))"
    and assign_known: "inv r \<Longrightarrow> get r k = Some i \<Longrightarrow> snd (assign r k p) = i"
    and assign_other: "inv r \<Longrightarrow> 0 < room r \<Longrightarrow> get r k' = Some i \<Longrightarrow> get (fst (assign r k p)) k' = Some i"
    and assign_room: "room r \<le> Suc (room (fst (assign r k p)))"
begin

abbreviation run :: "'r \<Rightarrow> ('k \<times> 'p) list \<Rightarrow> 'r" where
  "run \<equiv> run_assigns assign"

lemma get_inj: "inv r \<Longrightarrow> get r k = Some i \<Longrightarrow> get r k' = Some i \<Longrightarrow> k = k'"
  using rev_get[of r i k] rev_get[of r i k'] by simp

lemma room_step: "length ops < room r \<Longrightarrow> length ops \<le> room (fst (assign r k p))"
  using assign_room[of r k p] by linarith

lemma run_inv: "inv r \<Longrightarrow> length ops \<le> room r \<Longrightarrow> inv (run r ops)"
proof (induction ops arbitrary: r)
  case (Cons op ops)
  obtain k p where "op = (k, p)" by (cases op)
  with Cons show ?case using room_step[of ops r k p] by (auto intro!: Cons.IH assign_inv)
qed simp

lemma run_stable: "inv r \<Longrightarrow> length ops \<le> room r \<Longrightarrow> get r k = Some i \<Longrightarrow> get (run r ops) k = Some i"
proof (induction ops arbitrary: r)
  case (Cons op ops)
  obtain k' p where "op = (k', p)" by (cases op)
  with Cons show ?case
    using room_step[of ops r k' p] by (auto intro!: Cons.IH assign_inv assign_other)
qed simp

text \<open>An id handed out resolves back to its key after any further operations.\<close>

lemma handed_out_resolves:
  assumes "inv r" "length ops < room r"
  shows "rlookup (run (fst (assign r k p)) ops) (snd (assign r k p)) = Some k"
proof -
  have room: "0 < room r" "length ops \<le> room (fst (assign r k p))"
    using assms room_step[of ops r k p] by auto
  have inv': "inv (fst (assign r k p))" using assms(1) room(1) by (rule assign_inv)
  have "get (run (fst (assign r k p)) ops) k = Some (snd (assign r k p))"
    using inv' room(2) by (rule run_stable) (rule assign_get[OF assms(1) room(1)])
  then show ?thesis using rev_get[OF run_inv[OF inv' room(2)]] by simp
qed

lemma run_room: "room r \<le> length ops + room (run r ops)"
proof (induction ops arbitrary: r)
  case (Cons op ops)
  obtain k p where op: "op = (k, p)" by (cases op)
  show ?case using Cons[of "fst (assign r k p)"] assign_room[of r k p] op by simp
qed simp

text \<open>Two different keys never share an id, whatever happens between the two requests.\<close>

lemma handed_out_distinct:
  assumes "inv r" "length ops + 1 < room r" "k \<noteq> k'"
  shows "snd (assign (run (fst (assign r k p)) ops) k' p') \<noteq> snd (assign r k p)"
proof -
  let ?r1 = "fst (assign r k p)" and ?i = "snd (assign r k p)" and ?ops = "ops @ [(k', p')]"
  have room: "0 < room r" "length ?ops \<le> room ?r1" "length ops < room ?r1"
    using assms(2) assign_room[of r k p] by auto
  have inv1: "inv ?r1" using assms(1) room(1) by (rule assign_inv)
  have inv2: "inv (run ?r1 ops)" using inv1 room(3) by (auto intro: run_inv)
  have inv3: "inv (run ?r1 ?ops)" using inv1 room(2) by (rule run_inv)
  have k: "get (run ?r1 ?ops) k = Some ?i"
    using inv1 room(2) by (rule run_stable) (rule assign_get[OF assms(1) room(1)])
  have "0 < room (run ?r1 ops)" using run_room[of ?r1 ops] room(3) by simp
  then have k': "get (run ?r1 ?ops) k' = Some (snd (assign (run ?r1 ops) k' p'))"
    using assign_get[OF inv2] by simp
  show ?thesis using get_inj[OF inv3 k, of k'] k' assms(3) by auto
qed

end

subsection \<open>Panes\<close>

record pane_entry =
  herdr_pane_id :: string
  terminal_id :: string

record pane_inner =
  next_pane_id :: "32 word"
  pane_by_herdr :: "string \<rightharpoonup> 32 word"
  pane_by_id :: "32 word \<rightharpoonup> pane_entry"

definition FIRST_ID :: "32 word" where
  "FIRST_ID = 1"

definition new_pane_registry :: pane_inner where
  "new_pane_registry =
     \<lparr>next_pane_id = FIRST_ID, pane_by_herdr = Map.empty, pane_by_id = Map.empty\<rparr>"

definition refresh_terminal :: "pane_inner \<Rightarrow> 32 word \<Rightarrow> string \<Rightarrow> pane_inner" where
  "refresh_terminal r i t =
     (case pane_by_id r i of
        None \<Rightarrow> r
      | Some e \<Rightarrow>
          if terminal_id e \<noteq> t then r\<lparr>pane_by_id := (pane_by_id r)(i \<mapsto> e\<lparr>terminal_id := t\<rparr>)\<rparr> else r)"

definition assign_or_get_inner :: "pane_inner \<Rightarrow> string \<Rightarrow> string \<Rightarrow> bool \<Rightarrow> pane_inner \<times> 32 word" where
  "assign_or_get_inner r h t refresh =
     (case pane_by_herdr r h of
        Some i \<Rightarrow> (if refresh then refresh_terminal r i t else r, i)
      | None \<Rightarrow>
          let i = next_pane_id r;
              next = (case checked_add i 1 of Some n \<Rightarrow> n | None \<Rightarrow> i)
          in (\<lparr>next_pane_id = next,
               pane_by_herdr = (pane_by_herdr r)(h \<mapsto> i),
               pane_by_id = (pane_by_id r)(i \<mapsto> \<lparr>herdr_pane_id = h, terminal_id = t\<rparr>)\<rparr>, i))"

definition assign_or_get :: "pane_inner \<Rightarrow> string \<Rightarrow> string \<Rightarrow> pane_inner \<times> 32 word" where
  "assign_or_get r h t = assign_or_get_inner r h t True"

definition assign_or_get_keep_terminal :: "pane_inner \<Rightarrow> string \<Rightarrow> string \<Rightarrow> pane_inner \<times> 32 word" where
  "assign_or_get_keep_terminal r h t = assign_or_get_inner r h t (t \<noteq> [])"

definition id_for_herdr_pane :: "pane_inner \<Rightarrow> string \<Rightarrow> 32 word option" where
  "id_for_herdr_pane r h = pane_by_herdr r h"

definition herdr_pane_id_of :: "pane_inner \<Rightarrow> 32 word \<Rightarrow> string option" where
  "herdr_pane_id_of r i = map_option herdr_pane_id (pane_by_id r i)"

definition terminal_id_of :: "pane_inner \<Rightarrow> 32 word \<Rightarrow> string option" where
  "terminal_id_of r i = map_option terminal_id (pane_by_id r i)"

text \<open>
  The two maps are inverse to each other, ids are handed out from 1 up to \<open>next_id\<close>.
\<close>

definition pane_inv :: "pane_inner \<Rightarrow> bool" where
  "pane_inv r \<longleftrightarrow>
     (\<forall>h i. pane_by_herdr r h = Some i \<longleftrightarrow> herdr_pane_id_of r i = Some h) \<and>
     (\<forall>i. pane_by_id r i \<noteq> None \<longrightarrow> FIRST_ID \<le> i \<and> i < next_pane_id r) \<and>
     FIRST_ID \<le> next_pane_id r"

definition pane_room :: "pane_inner \<Rightarrow> nat" where
  "pane_room r = 4294967295 - unat (next_pane_id r)"

text \<open>The three ways an assignment is requested, for runs that mix them.\<close>

datatype pane_req = Fresh string | Keep string

fun pane_assign :: "pane_inner \<Rightarrow> string \<Rightarrow> pane_req \<Rightarrow> pane_inner \<times> 32 word" where
  "pane_assign r h (Fresh t) = assign_or_get r h t"
| "pane_assign r h (Keep t) = assign_or_get_keep_terminal r h t"

lemma pane_inv_new: "pane_inv new_pane_registry"
  by (simp add: pane_inv_def new_pane_registry_def herdr_pane_id_of_def)

text \<open>Below the pin, the successor is the plain increment.\<close>

lemma pane_room_next:
  assumes "0 < pane_room r"
  shows "checked_add (next_pane_id r) 1 = Some (next_pane_id r + 1)"
    and "unat (next_pane_id r + 1) = Suc (unat (next_pane_id r))"
proof -
  have lt: "unat (next_pane_id r) < 4294967295"
    using assms by (simp add: pane_room_def)
  then show "checked_add (next_pane_id r) 1 = Some (next_pane_id r + 1)"
    by (simp add: checked_add_def)
  then show "unat (next_pane_id r + 1) = Suc (unat (next_pane_id r))"
    using checked_add_Some by fastforce
qed

lemma refresh_terminal_frame [simp]:
  "pane_by_herdr (refresh_terminal r i t) = pane_by_herdr r"
  "next_pane_id (refresh_terminal r i t) = next_pane_id r"
  "herdr_pane_id_of (refresh_terminal r i t) j = herdr_pane_id_of r j"
  "pane_by_id (refresh_terminal r i t) j = None \<longleftrightarrow> pane_by_id r j = None"
  by (auto simp: refresh_terminal_def herdr_pane_id_of_def split: option.splits)

lemma refresh_terminal_inv [simp]: "pane_inv (refresh_terminal r i t) = pane_inv r"
  by (simp add: pane_inv_def)

lemma assign_inner_known:
  "pane_by_herdr r h = Some i \<Longrightarrow>
     assign_or_get_inner r h t b = (if b then refresh_terminal r i t else r, i)"
  by (simp add: assign_or_get_inner_def)

lemma assign_inner_fresh:
  assumes "pane_by_herdr r h = None" "0 < pane_room r"
  shows "assign_or_get_inner r h t b =
    (\<lparr>next_pane_id = next_pane_id r + 1,
      pane_by_herdr = (pane_by_herdr r)(h \<mapsto> next_pane_id r),
      pane_by_id = (pane_by_id r)(next_pane_id r \<mapsto> \<lparr>herdr_pane_id = h, terminal_id = t\<rparr>)\<rparr>,
     next_pane_id r)"
  using assms pane_room_next(1)[of r] by (simp add: assign_or_get_inner_def Let_def)

lemma pane_next_unused:
  "pane_inv r \<Longrightarrow> pane_by_id r (next_pane_id r) = None"
  by (auto simp: pane_inv_def)

lemma pane_next_unused_herdr:
  "pane_inv r \<Longrightarrow> pane_by_herdr r h \<noteq> Some (next_pane_id r)"
  using pane_next_unused[of r] by (auto simp: pane_inv_def herdr_pane_id_of_def)

lemma assign_inner_inv [inv_intros]:
  assumes inv: "pane_inv r" and room: "0 < pane_room r"
  shows "pane_inv (fst (assign_or_get_inner r h t b))"
proof (cases "pane_by_herdr r h")
  case (Some i)
  then show ?thesis using inv by (simp add: assign_inner_known)
next
  case None
  let ?n = "next_pane_id r"
  have n: "?n < ?n + 1" "FIRST_ID \<le> ?n"
    using pane_room_next(2)[OF room] inv by (auto simp: word_less_nat_alt pane_inv_def)
  have nb: "herdr_pane_id_of r j \<noteq> Some h" for j
    using inv None unfolding pane_inv_def by (metis option.distinct(1))
  have dom: "FIRST_ID \<le> i \<and> i < ?n + 1" if "pane_by_id r i \<noteq> None" for i
    using inv that n(1) by (meson pane_inv_def less_trans)
  show ?thesis
    using inv n nb dom pane_next_unused_herdr[OF inv] pane_next_unused[OF inv]
    unfolding assign_inner_fresh[OF None room]
    by (auto simp: pane_inv_def herdr_pane_id_of_def split: if_splits)
qed

lemma pane_assign_inner: "\<exists>t b. pane_assign r h p = assign_or_get_inner r h t b"
  by (cases p) (auto simp: assign_or_get_def assign_or_get_keep_terminal_def)

interpretation panes: id_registry pane_inv pane_room id_for_herdr_pane herdr_pane_id_of pane_assign
proof
  fix r :: pane_inner and i k assume "pane_inv r"
  then show "herdr_pane_id_of r i = Some k \<longleftrightarrow> id_for_herdr_pane r k = Some i"
    by (simp add: pane_inv_def id_for_herdr_pane_def)
next
  fix r k p assume "pane_inv r" "0 < pane_room r"
  then show "pane_inv (fst (pane_assign r k p))"
    using pane_assign_inner[of r k p] by (auto intro: assign_inner_inv)
next
  fix r k p assume "pane_inv r" "0 < pane_room r"
  then show "id_for_herdr_pane (fst (pane_assign r k p)) k = Some (snd (pane_assign r k p))"
    using pane_assign_inner[of r k p]
    by (cases "pane_by_herdr r k")
       (auto simp: id_for_herdr_pane_def assign_inner_known assign_inner_fresh)
next
  fix r k p i assume "pane_inv r" "id_for_herdr_pane r k = Some i"
  then show "snd (pane_assign r k p) = i"
    using pane_assign_inner[of r k p] by (auto simp: id_for_herdr_pane_def assign_inner_known)
next
  fix r k k' p i assume "pane_inv r" "0 < pane_room r" "id_for_herdr_pane r k' = Some i"
  then show "id_for_herdr_pane (fst (pane_assign r k p)) k' = Some i"
    using pane_assign_inner[of r k p]
    by (cases "pane_by_herdr r k")
       (auto simp: id_for_herdr_pane_def assign_inner_known assign_inner_fresh)
next
  fix r k p
  obtain t b where a: "pane_assign r k p = assign_or_get_inner r k t b"
    using pane_assign_inner by blast
  show "pane_room r \<le> Suc (pane_room (fst (pane_assign r k p)))"
    unfolding a
    by (cases "pane_by_herdr r k"; cases "checked_add (next_pane_id r) 1")
       (auto simp: pane_room_def assign_or_get_inner_def Let_def dest: checked_add_Some)
qed

subsection \<open>Tabs\<close>

record tab_inner =
  next_tab_id :: "64 word"
  tab_by_herdr :: "string \<rightharpoonup> 64 word"
  tab_by_id :: "64 word \<rightharpoonup> string"

definition new_tab_registry :: tab_inner where
  "new_tab_registry =
     \<lparr>next_tab_id = ucast FIRST_ID, tab_by_herdr = Map.empty, tab_by_id = Map.empty\<rparr>"

definition tab_assign_or_get :: "tab_inner \<Rightarrow> string \<Rightarrow> tab_inner \<times> 64 word" where
  "tab_assign_or_get r h =
     (case tab_by_herdr r h of
        Some i \<Rightarrow> (r, i)
      | None \<Rightarrow>
          let i = next_tab_id r;
              next = (case checked_add i 1 of Some n \<Rightarrow> n | None \<Rightarrow> i)
          in (\<lparr>next_tab_id = next,
               tab_by_herdr = (tab_by_herdr r)(h \<mapsto> i),
               tab_by_id = (tab_by_id r)(i \<mapsto> h)\<rparr>, i))"

definition herdr_tab_id :: "tab_inner \<Rightarrow> 64 word \<Rightarrow> string option" where
  "herdr_tab_id r i = tab_by_id r i"

definition tab_inv :: "tab_inner \<Rightarrow> bool" where
  "tab_inv r \<longleftrightarrow>
     (\<forall>h i. tab_by_herdr r h = Some i \<longleftrightarrow> tab_by_id r i = Some h) \<and>
     (\<forall>i. tab_by_id r i \<noteq> None \<longrightarrow> 1 \<le> i \<and> i < next_tab_id r) \<and>
     1 \<le> next_tab_id r"

definition tab_room :: "tab_inner \<Rightarrow> nat" where
  "tab_room r = 18446744073709551615 - unat (next_tab_id r)"

lemma tab_inv_new: "tab_inv new_tab_registry"
  by (simp add: tab_inv_def new_tab_registry_def FIRST_ID_def)

lemma tab_assign_known: "tab_by_herdr r h = Some i \<Longrightarrow> tab_assign_or_get r h = (r, i)"
  by (simp add: tab_assign_or_get_def)

lemma tab_room_next:
  assumes "0 < tab_room r"
  shows "checked_add (next_tab_id r) 1 = Some (next_tab_id r + 1)"
    and "unat (next_tab_id r + 1) = Suc (unat (next_tab_id r))"
proof -
  have "unat (next_tab_id r) < 18446744073709551615"
    using assms by (simp add: tab_room_def)
  then show "checked_add (next_tab_id r) 1 = Some (next_tab_id r + 1)"
    by (simp add: checked_add_def)
  then show "unat (next_tab_id r + 1) = Suc (unat (next_tab_id r))"
    using checked_add_Some by fastforce
qed

lemma tab_assign_fresh:
  assumes "tab_by_herdr r h = None" "0 < tab_room r"
  shows "tab_assign_or_get r h =
    (\<lparr>next_tab_id = next_tab_id r + 1,
      tab_by_herdr = (tab_by_herdr r)(h \<mapsto> next_tab_id r),
      tab_by_id = (tab_by_id r)(next_tab_id r \<mapsto> h)\<rparr>, next_tab_id r)"
  using assms tab_room_next(1)[of r] by (simp add: tab_assign_or_get_def Let_def)

lemma tab_assign_inv [inv_intros]:
  assumes inv: "tab_inv r" and room: "0 < tab_room r"
  shows "tab_inv (fst (tab_assign_or_get r h))"
proof (cases "tab_by_herdr r h")
  case None
  let ?n = "next_tab_id r"
  have n: "?n < ?n + 1" "1 \<le> ?n"
    using tab_room_next(2)[OF room] inv by (auto simp: word_less_nat_alt tab_inv_def)
  have unused: "tab_by_id r ?n = None" "\<And>k. tab_by_herdr r k \<noteq> Some ?n"
    using inv by (auto simp: tab_inv_def)
  have nb: "tab_by_id r j \<noteq> Some h" for j
    using inv None unfolding tab_inv_def by (metis option.distinct(1))
  have dom: "1 \<le> i \<and> i < ?n + 1" if "tab_by_id r i \<noteq> None" for i
    using inv that n(1) by (meson tab_inv_def less_trans)
  show ?thesis
    using inv n nb dom unused unfolding tab_assign_fresh[OF None room]
    by (auto simp: tab_inv_def split: if_splits)
qed (use inv in \<open>simp add: tab_assign_known\<close>)

interpretation tabs: id_registry tab_inv tab_room tab_by_herdr herdr_tab_id
  "\<lambda>r h (_ :: unit). tab_assign_or_get r h"
proof
  fix r i k assume "tab_inv r"
  then show "herdr_tab_id r i = Some k \<longleftrightarrow> tab_by_herdr r k = Some i"
    by (simp add: tab_inv_def herdr_tab_id_def)
next
  fix r k assume "tab_inv r" "0 < tab_room r"
  then show "tab_inv (fst (tab_assign_or_get r k))" by (rule tab_assign_inv)
next
  fix r k assume "tab_inv r" "0 < tab_room r"
  then show "tab_by_herdr (fst (tab_assign_or_get r k)) k = Some (snd (tab_assign_or_get r k))"
    by (cases "tab_by_herdr r k") (auto simp: tab_assign_known tab_assign_fresh)
next
  fix r k i assume "tab_inv r" "tab_by_herdr r k = Some i"
  then show "snd (tab_assign_or_get r k) = i" by (simp add: tab_assign_known)
next
  fix r k k' i assume "tab_inv r" "0 < tab_room r" "tab_by_herdr r k' = Some i"
  then show "tab_by_herdr (fst (tab_assign_or_get r k)) k' = Some i"
    by (cases "tab_by_herdr r k") (auto simp: tab_assign_known tab_assign_fresh)
next
  fix r k
  show "tab_room r \<le> Suc (tab_room (fst (tab_assign_or_get r k)))"
    by (cases "tab_by_herdr r k"; cases "checked_add (next_tab_id r) 1")
       (auto simp: tab_room_def tab_assign_or_get_def Let_def dest: checked_add_Some)
qed

subsection \<open>Properties\<close>

text \<open>
  (pane ids are stable). Start from the empty registry and serve any requests
  \<open>before\<close>, then a request for pane \<open>h\<close>, then any requests \<open>after\<close>, fewer
  than \<open>2^32 - 2\<close> in all: the id returned for \<open>h\<close> still resolves to \<open>h\<close>, and a new
  request for \<open>h\<close> returns the same id.
\<close>

theorem pane_id_stable:
  assumes "length before + length after < 4294967293"
  shows "let r = run_assigns pane_assign new_pane_registry before;
             (r1, i) = pane_assign r h p;
             r2 = run_assigns pane_assign r1 after
         in herdr_pane_id_of r2 i = Some h \<and> snd (pane_assign r2 h q) = i"
proof -
  let ?r = "run_assigns pane_assign new_pane_registry before"
  have room: "pane_room new_pane_registry = 4294967294"
    by (simp add: pane_room_def new_pane_registry_def FIRST_ID_def)
  have inv: "pane_inv ?r" by (rule panes.run_inv) (use assms room pane_inv_new in auto)
  have "length after < pane_room ?r"
    using panes.run_room[of new_pane_registry before] room assms by simp
  note res = panes.handed_out_resolves[OF inv this, of h p]
  have inv2: "pane_inv (run_assigns pane_assign (fst (pane_assign ?r h p)) after)"
    using panes.run_inv panes.assign_inv[OF inv, of h p] panes.room_step[of after ?r h p]
      \<open>length after < pane_room ?r\<close> by auto
  show ?thesis
    using res panes.assign_known[OF inv2] panes.rev_get[OF inv2]
    by (auto simp: Let_def split: prod.splits)
qed

text \<open>
  (no two panes share an id). Two different panes requested in either order, with any
  requests before and between, are never given the same id, so a client's pane reference
  cannot alias another pane.
\<close>

theorem pane_ids_distinct:
  assumes "length before + length between < 4294967292" "h \<noteq> h'"
  shows "let r = run_assigns pane_assign new_pane_registry before;
             (r1, i) = pane_assign r h p;
             (r2, j) = pane_assign (run_assigns pane_assign r1 between) h' q
         in i \<noteq> j"
proof -
  let ?r = "run_assigns pane_assign new_pane_registry before"
  have room: "pane_room new_pane_registry = 4294967294"
    by (simp add: pane_room_def new_pane_registry_def FIRST_ID_def)
  have "pane_inv ?r" by (rule panes.run_inv) (use assms room pane_inv_new in auto)
  moreover have "length between + 1 < pane_room ?r"
    using panes.run_room[of new_pane_registry before] room assms by simp
  ultimately show ?thesis
    using panes.handed_out_distinct[where r = ?r and ops = between and k = h and k' = h' and p = p and p' = q] assms(2)
    by (auto simp: Let_def split: prod.splits)
qed

text \<open>
  (tab ids are stable and distinct): the same contract for the \<open>u64\<close> tab registry.
\<close>

theorem tab_id_stable:
  assumes "length before + length after < 18446744073709551613"
  shows "let assign = (\<lambda>r h (_ :: unit). tab_assign_or_get r h);
             r = run_assigns assign new_tab_registry before;
             (r1, i) = tab_assign_or_get r h;
             r2 = run_assigns assign r1 after
         in herdr_tab_id r2 i = Some h \<and> (\<forall>h'. herdr_tab_id r2 i = Some h' \<longrightarrow> h' = h)"
proof -
  let ?as = "\<lambda>r h (_ :: unit). tab_assign_or_get r h"
  let ?r = "run_assigns ?as new_tab_registry before"
  have room: "tab_room new_tab_registry = 18446744073709551614"
    by (simp add: tab_room_def new_tab_registry_def FIRST_ID_def)
  have inv: "tab_inv ?r" by (rule tabs.run_inv) (use assms room tab_inv_new in auto)
  have "length after < tab_room ?r"
    using tabs.run_room[of new_tab_registry before] room assms by simp
  from tabs.handed_out_resolves[OF inv this, of h] show ?thesis
    by (auto simp: Let_def split: prod.splits)
qed

text \<open>
  (an empty terminal id never clobbers). A source that may lack the relay's attach key
  keeps the recorded one: \<open>assign_or_get_keep_terminal\<close> with an empty \<open>terminal_id\<close>
  leaves a known pane's registry untouched, and with a non-empty one does what
  \<open>assign_or_get\<close> does, after which the pane's terminal id is the reported one.
\<close>

theorem keep_terminal:
  assumes "pane_inv r" "id_for_herdr_pane r h = Some i"
  shows "assign_or_get_keep_terminal r h [] = (r, i) \<and>
    (t \<noteq> [] \<longrightarrow> assign_or_get_keep_terminal r h t = assign_or_get r h t
       \<and> terminal_id_of (fst (assign_or_get r h t)) i = Some t)"
  using assms
  by (auto simp: assign_or_get_keep_terminal_def assign_or_get_def id_for_herdr_pane_def
      assign_inner_known terminal_id_of_def refresh_terminal_def pane_inv_def herdr_pane_id_of_def
      split: option.splits)

text \<open>
  (what happens when the id space is exhausted). With \<open>next_id\<close> pinned at
  \<open>u32::MAX\<close> two fresh panes get the same id, and the first one no longer resolves: the
  behaviour the code accepts instead of a panic.
\<close>

theorem pane_ids_alias_when_exhausted:
  assumes "next_pane_id r = - 1" "pane_by_herdr r h = None" "pane_by_herdr r h' = None" "h \<noteq> h'"
  shows "let (r1, i) = assign_or_get r h t; (r2, j) = assign_or_get r1 h' t'
         in i = j \<and> herdr_pane_id_of r2 i = Some h' \<and> id_for_herdr_pane r2 h = Some i"
  using assms
  by (simp add: assign_or_get_def assign_or_get_inner_def Let_def checked_add_def
      herdr_pane_id_of_def id_for_herdr_pane_def unsigned_minus_1_eq_mask mask_eq_exp_minus_1)

text \<open>Witnesses.\<close>

theorem pane_id_stable_witness:
  "let r = run_assigns pane_assign new_pane_registry [(''p1'', Fresh ''t1'')];
       (r1, i) = pane_assign r ''p2'' (Keep []);
       r2 = run_assigns pane_assign r1 [(''p3'', Fresh ''t3''), (''p1'', Keep ''t9'')]
   in herdr_pane_id_of r2 i = Some ''p2'' \<and> snd (pane_assign r2 ''p2'' (Fresh ''t2'')) = i"
  by (rule pane_id_stable) simp

theorem pane_ids_distinct_witness:
  "let r = run_assigns pane_assign new_pane_registry [(''p1'', Fresh ''t1'')];
       (r1, i) = pane_assign r ''p2'' (Keep []);
       (r2, j) = pane_assign (run_assigns pane_assign r1 []) ''p3'' (Fresh ''t3'')
   in i \<noteq> j"
  by (rule pane_ids_distinct) simp_all

theorem tab_id_stable_witness:
  "let assign = (\<lambda>r h (_ :: unit). tab_assign_or_get r h);
       r = run_assigns assign new_tab_registry [(''t1'', ())];
       (r1, i) = tab_assign_or_get r ''t2'';
       r2 = run_assigns assign r1 [(''t3'', ())]
   in herdr_tab_id r2 i = Some ''t2'' \<and> (\<forall>h'. herdr_tab_id r2 i = Some h' \<longrightarrow> h' = ''t2'')"
  by (rule tab_id_stable) simp

theorem keep_terminal_witness:
  "let r = fst (assign_or_get new_pane_registry ''p1'' ''t1'')
   in assign_or_get_keep_terminal r ''p1'' [] = (r, 1) \<and>
      (''t2'' \<noteq> [] \<longrightarrow> assign_or_get_keep_terminal r ''p1'' ''t2'' = assign_or_get r ''p1'' ''t2''
         \<and> terminal_id_of (fst (assign_or_get r ''p1'' ''t2'')) 1 = Some ''t2'')"
proof -
  let ?r = "fst (assign_or_get new_pane_registry ''p1'' ''t1'')"
  have "pane_inv ?r" unfolding assign_or_get_def
    by (rule assign_inner_inv[OF pane_inv_new])
       (simp add: pane_room_def new_pane_registry_def FIRST_ID_def)
  moreover have "id_for_herdr_pane ?r ''p1'' = Some 1"
    by (simp add: assign_or_get_def assign_or_get_inner_def new_pane_registry_def
        id_for_herdr_pane_def Let_def FIRST_ID_def)
  ultimately show ?thesis unfolding Let_def by (rule keep_terminal)
qed

theorem pane_ids_alias_when_exhausted_witness:
  "let (r1, i) = assign_or_get (new_pane_registry\<lparr>next_pane_id := - 1\<rparr>) ''a'' ''t'';
       (r2, j) = assign_or_get r1 ''b'' ''u''
   in i = j \<and> herdr_pane_id_of r2 i = Some ''b'' \<and> id_for_herdr_pane r2 ''a'' = Some i"
  by (rule pane_ids_alias_when_exhausted) (simp_all add: new_pane_registry_def)

end
