(* ===== verification/Routing.thy ===== *)
theory Routing
  imports Prelude
begin

text \<open>
  Session ids and backend routing: \<open>muxrd/src/multiplexer/routing.rs\<close>, the \<open>BackendSet\<close>
  of \<open>muxrd/src/multiplexer/mod.rs\<close>, \<open>BackendKind\<close> of \<open>muxrd/src/cli.rs\<close>, and
  the session-name guard of \<open>muxrd/src/ipc.rs\<close>. A backend handle (an
  \<open>Arc<dyn MuxBackend>\<close>) is a value of a type variable. zellij's own name check is the
  parameter \<open>zellij_ok\<close>.
\<close>

subsection \<open>Backends\<close>

datatype backend_kind = Zellij | Herdr

fun kind_display :: "backend_kind \<Rightarrow> string" where
  "kind_display Zellij = ''zellij''"
| "kind_display Herdr = ''herdr''"

definition parse_backend_kind :: "string \<Rightarrow> backend_kind option" where
  "parse_backend_kind s =
     (if s = ''zellij'' then Some Zellij
      else if s = ''herdr'' then Some Herdr
      else None)"

lemma parse_kind_display [simp]: "parse_backend_kind (kind_display k) = Some k"
  by (cases k) (simp_all add: parse_backend_kind_def)

lemma parse_kind_Some: "parse_backend_kind s = Some k \<longleftrightarrow> s = kind_display k"
  by (cases k) (auto simp: parse_backend_kind_def)

lemma kind_display_no_colon [simp]: "CHR '':'' \<notin> set (kind_display k)"
  by (cases k) simp_all

text \<open>\<open>(kind, backend)\<close> pairs in detection order.\<close>

type_synonym 'b backend_set = "(backend_kind \<times> 'b) list"

definition backend_get :: "'b backend_set \<Rightarrow> backend_kind \<Rightarrow> 'b option" where
  "backend_get bs kind = map_option snd (find (\<lambda>(k, _). k = kind) bs)"

definition backend_kinds :: "'b backend_set \<Rightarrow> backend_kind list" where
  "backend_kinds bs = map fst bs"

text \<open>\<open>primary\<close> panics on an empty set: \<open>None\<close>.\<close>

fun backend_primary :: "'b backend_set \<Rightarrow> 'b option" where
  "backend_primary [] = None"
| "backend_primary ((k, b) # _) = Some b"

lemma backend_get_mem: "backend_get bs k = Some b \<Longrightarrow> (k, b) \<in> set bs"
  by (auto simp: backend_get_def dest!: find_Some_D)

lemma backend_get_None: "backend_get bs k = None \<longleftrightarrow> k \<notin> fst ` set bs"
  by (force simp: backend_get_def find_None_iff)

subsection \<open>Session names\<close>

definition session_char :: "char \<Rightarrow> bool" where
  "session_char b \<longleftrightarrow> is_ascii_alphanumeric b \<or> b = CHR ''_'' \<or> b = CHR ''-''"

definition validate_session_name :: "(string \<Rightarrow> bool) \<Rightarrow> string \<Rightarrow> bool" where
  "validate_session_name zellij_ok name \<longleftrightarrow>
     zellij_ok name \<and> \<not> (name = [] \<or> \<not> list_all session_char name)"

definition validate_session :: "(string \<Rightarrow> bool) \<Rightarrow> string \<Rightarrow> status + unit" where
  "validate_session zellij_ok s =
     (if validate_session_name zellij_ok s then Inr () else Inl InvalidArgument)"

text \<open>What zellij documents of its own check, as far as the callers need it.\<close>

definition zellij_check :: "string \<Rightarrow> bool" where
  "zellij_check name \<longleftrightarrow> name \<noteq> [] \<and> name \<noteq> ''.'' \<and> name \<noteq> ''..'' \<and> CHR ''/'' \<notin> set name"

lemma session_char_safe: "session_char c \<Longrightarrow> c \<noteq> CHR '':'' \<and> c \<noteq> CHR ''/'' \<and> c \<noteq> CHR ''.'' \<and> 32 < byte c"
  by (auto simp: session_char_def byte_classes)

lemma validate_session_name_safe:
  assumes "validate_session_name zellij_ok s"
  shows "s \<noteq> []" "CHR '':'' \<notin> set s" "CHR ''/'' \<notin> set s" "CHR ''.'' \<notin> set s"
  using assms session_char_safe by (auto simp: validate_session_name_def list_all_iff)

lemma zellij_check_of_allowlist:
  assumes "s \<noteq> []" "list_all session_char s"
  shows "zellij_check s"
proof -
  have "c \<in> set s \<Longrightarrow> c \<noteq> CHR ''/'' \<and> c \<noteq> CHR ''.''" for c
    using assms(2) session_char_safe by (auto simp: list_all_iff)
  then show ?thesis using assms(1) by (auto simp: zellij_check_def)
qed

subsection \<open>Ids and resolution\<close>

definition make_id :: "backend_kind \<Rightarrow> string \<Rightarrow> string" where
  "make_id kind bare = kind_display kind @ CHR '':'' # bare"

definition is_collapsed_backend_session :: "string \<Rightarrow> bool" where
  "is_collapsed_backend_session sid =
     (case split_once (CHR '':'') sid of Some (p, _) \<Rightarrow> p = ''herdr'' | None \<Rightarrow> False)"

definition resolve_owner :: "'b backend_set \<Rightarrow> string \<Rightarrow> status + backend_kind \<times> 'b \<times> string" where
  "resolve_owner bs sid =
     (case split_once (CHR '':'') sid of
        Some (kind_str, bare) \<Rightarrow>
          (case parse_backend_kind kind_str of
             None \<Rightarrow> Inl InvalidArgument
           | Some kind \<Rightarrow>
               (case backend_get bs kind of
                  None \<Rightarrow> Inl NotFound
                | Some b \<Rightarrow> Inr (kind, b, bare)))
      | None \<Rightarrow>
          (case bs of
             [(kind, b)] \<Rightarrow> Inr (kind, b, sid)
           | _ \<Rightarrow> Inl InvalidArgument))"

definition resolve_session_kind ::
  "(string \<Rightarrow> bool) \<Rightarrow> 'b backend_set \<Rightarrow> string \<Rightarrow> status + backend_kind \<times> 'b \<times> string" where
  "resolve_session_kind zellij_ok bs sid =
     (case resolve_owner bs sid of
        Inl e \<Rightarrow> Inl e
      | Inr (kind, b, bare) \<Rightarrow>
          (case validate_session zellij_ok bare of Inl e \<Rightarrow> Inl e | Inr _ \<Rightarrow> Inr (kind, b, bare)))"

definition resolve_session ::
  "(string \<Rightarrow> bool) \<Rightarrow> 'b backend_set \<Rightarrow> string \<Rightarrow> status + 'b \<times> string" where
  "resolve_session zellij_ok bs sid =
     (case resolve_session_kind zellij_ok bs sid of Inl e \<Rightarrow> Inl e | Inr (_, b, bare) \<Rightarrow> Inr (b, bare))"

lemma split_make_id [simp]: "split_once (CHR '':'') (make_id k s) = Some (kind_display k, s)"
  by (simp add: make_id_def)

lemma make_id_inject [simp]: "make_id k s = make_id k' s' \<longleftrightarrow> k = k' \<and> s = s'"
  by (metis parse_kind_display option.inject prod.inject split_make_id)

lemma collapsed_make_id [simp]: "is_collapsed_backend_session (make_id k s) \<longleftrightarrow> k = Herdr"
  by (cases k) (simp_all add: is_collapsed_backend_session_def)

lemma resolve_owner_Inr:
  "resolve_owner bs sid = Inr (k, b, bare) \<longleftrightarrow>
     (sid = make_id k bare \<and> backend_get bs k = Some b) \<or>
     (CHR '':'' \<notin> set sid \<and> bare = sid \<and> bs = [(k, b)])"
proof (cases "split_once (CHR '':'') sid")
  case None
  then have "CHR '':'' \<notin> set sid" by (simp add: split_once_None)
  then have "sid \<noteq> make_id k bare" by (auto simp: make_id_def)
  with None \<open>CHR '':'' \<notin> set sid\<close> show ?thesis
    by (auto simp: resolve_owner_def split: list.splits)
next
  case (Some ps)
  obtain p s where ps: "ps = (p, s)" by (cases ps)
  have sid: "sid = p @ CHR '':'' # s" using Some ps split_once_Some by blast
  show ?thesis
  proof (cases "parse_backend_kind p")
    case None
    then have "sid \<noteq> make_id k bare" using Some ps by auto
    with None Some ps sid show ?thesis by (auto simp: resolve_owner_def)
  next
    case (Some k')
    then have "sid = make_id k' s" using sid by (simp add: parse_kind_Some make_id_def)
    then show ?thesis
      by (auto simp: resolve_owner_def split: option.splits) (auto simp: make_id_def)
  qed
qed

lemma resolve_session_kind_Inr:
  "resolve_session_kind zok bs sid = Inr (k, b, bare) \<longleftrightarrow>
     resolve_owner bs sid = Inr (k, b, bare) \<and> validate_session_name zok bare"
  by (auto simp: resolve_session_kind_def validate_session_def split: sum.splits if_splits)

lemma resolve_session_Inr:
  "resolve_session zok bs sid = Inr (b, bare) \<longleftrightarrow> (\<exists>k. resolve_session_kind zok bs sid = Inr (k, b, bare))"
  by (auto simp: resolve_session_def split: sum.splits)

lemma resolve_kind_safe:
  assumes "resolve_session_kind zok bs sid = Inr (k, b, bare)"
  shows "bare \<noteq> []" "list_all session_char bare" "CHR ''/'' \<notin> set bare" "CHR ''.'' \<notin> set bare"
    "(k, b) \<in> set bs" "sid = make_id k bare \<or> (sid = bare \<and> length bs = 1)"
  using assms validate_session_name_safe[of zok bare] backend_get_mem[of bs k b]
  by (auto simp: resolve_session_kind_Inr resolve_owner_Inr validate_session_name_def)

subsection \<open>Properties\<close>

text \<open>
  (round trip). The id minted for a session of a running backend resolves back to that
  backend and that bare name, for every name the guard accepts.
\<close>

theorem resolve_make_id:
  assumes "backend_get bs k = Some b" "validate_session_name zok s"
  shows "resolve_session_kind zok bs (make_id k s) = Inr (k, b, s) \<and>
    resolve_session zok bs (make_id k s) = Inr (b, s)"
  using assms by (auto simp: resolve_session_Inr resolve_session_kind_Inr resolve_owner_Inr)

text \<open>
  (no name reaches a backend unchecked). Whatever a client sends as a session id, and
  whatever zellij's own check accepts, a resolved bare name is a non-empty string over
  \<open>[A-Za-z0-9_-]\<close> (so no path separator, no dot, no colon), and the backend returned is a
  member of the server's set under the resolved kind.
\<close>

theorem resolved_name_safe:
  assumes "resolve_session_kind zok bs sid = Inr (k, b, bare)"
  shows "bare \<noteq> [] \<and> list_all session_char bare \<and> CHR ''/'' \<notin> set bare \<and> CHR ''.'' \<notin> set bare
    \<and> (k, b) \<in> set bs \<and> (sid = make_id k bare \<or> (sid = bare \<and> length bs = 1))"
  using resolve_kind_safe[OF assms] by blast

text \<open>The error branches, one by one.\<close>

lemma resolve_error_cases:
  "CHR '':'' \<notin> set p \<Longrightarrow> parse_backend_kind p = None \<Longrightarrow>
     resolve_session_kind zok bs (p @ CHR '':'' # s) = Inl InvalidArgument"
  "k \<notin> fst ` set bs \<Longrightarrow> resolve_session_kind zok bs (make_id k s) = Inl NotFound"
  "CHR '':'' \<notin> set s \<Longrightarrow> 1 < length bs \<Longrightarrow> resolve_session_kind zok bs s = Inl InvalidArgument"
  "\<not> list_all session_char s \<Longrightarrow> k \<in> fst ` set bs \<Longrightarrow>
     resolve_session_kind zok bs (make_id k s) = Inl InvalidArgument"
proof -
  assume p: "CHR '':'' \<notin> set p" "parse_backend_kind p = None"
  then show "resolve_session_kind zok bs (p @ CHR '':'' # s) = Inl InvalidArgument"
    by (simp add: resolve_session_kind_def resolve_owner_def)
next
  assume "k \<notin> fst ` set bs"
  then show "resolve_session_kind zok bs (make_id k s) = Inl NotFound"
    using backend_get_None[of bs k] by (simp add: resolve_session_kind_def resolve_owner_def)
next
  assume s: "CHR '':'' \<notin> set s" "1 < length bs"
  then have "split_once (CHR '':'') s = None" by (simp add: split_once_None)
  moreover obtain a c bs' where "bs = a # c # bs'"
    using s(2) by (cases bs; cases "tl bs") auto
  ultimately show "resolve_session_kind zok bs s = Inl InvalidArgument"
    by (simp add: resolve_session_kind_def resolve_owner_def split: prod.splits)
next
  assume s: "\<not> list_all session_char s" "k \<in> fst ` set bs"
  then obtain b where "backend_get bs k = Some b"
    using backend_get_None[of bs k] by (cases "backend_get bs k") auto
  with s(1) show "resolve_session_kind zok bs (make_id k s) = Inl InvalidArgument"
    by (simp add: resolve_session_kind_def resolve_owner_def validate_session_def
        validate_session_name_def)
qed

text \<open>
  (the error convention). A qualified id with an unknown backend token is
  \<open>InvalidArgument\<close>, one naming a known backend that is not running is \<open>NotFound\<close>,
  an unqualified name on a server with more than one backend is \<open>InvalidArgument\<close>, and a
  name outside the allowlist is \<open>InvalidArgument\<close> whatever backend it names.
\<close>

theorem resolve_errors:
  "(CHR '':'' \<notin> set p \<and> parse_backend_kind p = None \<longrightarrow>
      resolve_session_kind zok bs (p @ CHR '':'' # s) = Inl InvalidArgument) \<and>
   (k \<notin> fst ` set bs \<longrightarrow> resolve_session_kind zok bs (make_id k s) = Inl NotFound) \<and>
   (CHR '':'' \<notin> set s \<and> 1 < length bs \<longrightarrow> resolve_session_kind zok bs s = Inl InvalidArgument) \<and>
   (\<not> list_all session_char s \<and> k \<in> fst ` set bs \<longrightarrow>
      resolve_session_kind zok bs (make_id k s) = Inl InvalidArgument)"
  using resolve_error_cases by blast

text \<open>Witnesses.\<close>

lemma dev_valid: "validate_session_name zellij_check ''dev-1''"
  by (simp add: validate_session_name_def zellij_check_def session_char_def byte_classes)

theorem resolve_make_id_witness:
  "resolve_session_kind zellij_check [(Zellij, 0 :: nat), (Herdr, 1)] (make_id Zellij ''dev-1'') =
     Inr (Zellij, 0, ''dev-1'') \<and>
   resolve_session zellij_check [(Zellij, 0 :: nat), (Herdr, 1)] (make_id Zellij ''dev-1'') = Inr (0, ''dev-1'')"
  by (rule resolve_make_id) (simp_all add: backend_get_def dev_valid)

theorem resolved_name_safe_witness:
  "resolve_session_kind zellij_check [(Zellij, 0 :: nat)] ''dev-1'' = Inr (Zellij, 0, ''dev-1'')
   \<and> CHR ''/'' \<notin> set ''dev-1''"
proof -
  have r: "resolve_session_kind zellij_check [(Zellij, 0 :: nat)] ''dev-1'' = Inr (Zellij, 0, ''dev-1'')"
    by (simp add: resolve_session_kind_Inr resolve_owner_Inr dev_valid)
  from resolved_name_safe[OF r] r show ?thesis by blast
qed

theorem resolve_errors_witness:
  "resolve_session_kind zellij_check [(Zellij, 0 :: nat)] (''tmux'' @ CHR '':'' # ''dev'') = Inl InvalidArgument \<and>
   resolve_session_kind zellij_check [(Zellij, 0 :: nat)] (make_id Herdr ''herdr'') = Inl NotFound \<and>
   resolve_session_kind zellij_check [(Zellij, 0 :: nat), (Herdr, 1)] ''dev'' = Inl InvalidArgument \<and>
   resolve_session_kind zellij_check [(Zellij, 0 :: nat)] (make_id Zellij ''../x'') = Inl InvalidArgument"
  using resolve_errors[of "''tmux''" zellij_check "[(Zellij, 0 :: nat)]" "''dev''" Zellij]
    resolve_errors[of "''tmux''" zellij_check "[(Zellij, 0 :: nat)]" "''herdr''" Herdr]
    resolve_errors[of "''tmux''" zellij_check "[(Zellij, 0 :: nat), (Herdr, 1)]" "''dev''" Zellij]
    resolve_errors[of "''tmux''" zellij_check "[(Zellij, 0 :: nat)]" "''../x''" Zellij]
  by (simp add: parse_backend_kind_def session_char_def byte_classes)

end
