(* ===== verification/ControlRoute.thy ===== *)
theory ControlRoute
  imports Routing
begin

text \<open>
  Routing of view commands to live relays and the read-only gates:
  \<open>muxrd/src/grpc/helpers.rs\<close>, with the handlers of \<open>pane_ops.rs\<close> and \<open>tab_ops.rs\<close>
  that call them. The registry (a \<open>DashMap\<close> the code also iterates over) is an
  association list in iteration order; a relay's unbounded channel is the list of commands
  it has accepted and whether its receiver still exists, so that a \<open>send\<close> is visible in
  the state.
\<close>

subsection \<open>Commands and the registry\<close>

record pane_ref =
  pane_id :: "32 word"
  is_plugin :: bool

record floating_hint =
  target_is_floating :: bool
  floating_visible :: bool
  target_is_focused_floating :: bool

datatype relay_control =
    SwitchTab "64 word"
  | FocusPane pane_ref
  | SwitchSpace string
  | ToggleFullscreen pane_ref "floating_hint option"
  | QueryLayout

record control_entry =
  session :: string
  ce_read_only :: bool
  receiver_open :: bool
  queued :: "relay_control list"

type_synonym control_registry = "(string \<times> control_entry) list"

record proto_ack =
  ok :: bool
  error :: string
  info :: string

text \<open>\<open>tx.send(cmd)\<close>: succeeds exactly when the receiver still exists.\<close>

definition send_to :: "string \<Rightarrow> relay_control \<Rightarrow> control_registry \<Rightarrow> control_registry" where
  "send_to key cmd reg =
     map (\<lambda>(k, e). (k, if k = key \<and> receiver_open e then e\<lparr>queued := queued e @ [cmd]\<rparr> else e)) reg"

definition send_ok :: "string \<Rightarrow> control_registry \<Rightarrow> bool" where
  "send_ok key reg = (case map_of reg key of Some e \<Rightarrow> receiver_open e | None \<Rightarrow> False)"

definition reattach_ack :: proto_ack where
  "reattach_ack = \<lparr>ok = False, error = ''reattach required (no matching connection)'', info = ''''\<rparr>"

definition routed_ack :: "string \<Rightarrow> proto_ack" where
  "routed_ack i = \<lparr>ok = True, error = '''', info = i\<rparr>"

definition via_connection :: string where
  "via_connection = ''routed via relay client (per-connection)''"

definition via_fallback :: string where
  "via_fallback = ''routed via relay client (session fallback, writable)''"

text \<open>The key of the relay an exact per-connection match selects.\<close>

definition exact_match :: "control_registry \<Rightarrow> string \<Rightarrow> string \<Rightarrow> string option" where
  "exact_match reg sess cid =
     (if cid \<noteq> [] then
        (case map_of reg cid of
           Some e \<Rightarrow> if session e = sess then Some cid else None
         | None \<Rightarrow> None)
      else None)"

definition writable_fallback :: "control_registry \<Rightarrow> string \<Rightarrow> string option" where
  "writable_fallback reg sess =
     map_option fst (find (\<lambda>(k, e). session e = sess \<and> \<not> ce_read_only e) reg)"

definition try_route_control ::
  "control_registry \<Rightarrow> string \<Rightarrow> string \<Rightarrow> bool \<Rightarrow> relay_control \<Rightarrow> proto_ack option \<times> control_registry" where
  "try_route_control reg sess cid ro cmd =
     (let exact = exact_match reg sess cid in
      if is_collapsed_backend_session sess then
        (case exact of
           Some tx \<Rightarrow>
             if send_ok tx reg then (Some (routed_ack via_connection), send_to tx cmd reg)
             else (Some reattach_ack, reg)
         | None \<Rightarrow> (Some reattach_ack, reg))
      else
        (case exact of
           Some tx \<Rightarrow>
             if send_ok tx reg then (Some (routed_ack via_connection), send_to tx cmd reg)
             else (None, reg)
         | None \<Rightarrow>
             if ro then (Some reattach_ack, reg)
             else
               (case writable_fallback reg sess of
                  None \<Rightarrow> (None, reg)
                | Some tx \<Rightarrow>
                    if send_ok tx reg then (Some (routed_ack via_fallback), send_to tx cmd reg)
                    else (None, reg))))"

subsection \<open>Gates and validators\<close>

text \<open>The request extension \<open>SessionReadOnly\<close>, absent when the auth layer did not run.\<close>

fun session_is_read_only :: "bool option \<Rightarrow> bool" where
  "session_is_read_only (Some ro) = ro"
| "session_is_read_only None = True"

fun reject_if_read_only :: "bool option \<Rightarrow> status + unit" where
  "reject_if_read_only (Some ro) = (if ro then Inl PermissionDenied else Inr ())"
| "reject_if_read_only None = Inl PermissionDenied"

definition validate_layout_name :: "string \<Rightarrow> status + unit" where
  "validate_layout_name l =
     (if l = [] \<or> \<not> list_all (\<lambda>b. is_ascii_alphanumeric b \<or> b = CHR ''_'' \<or> b = CHR ''-'') l
      then Inl InvalidArgument else Inr ())"

definition MAX_DISPLAY_NAME_LEN :: nat where
  "MAX_DISPLAY_NAME_LEN = 128"

definition validate_display_name :: "string \<Rightarrow> status + unit" where
  "validate_display_name name =
     (if name = [] then Inl InvalidArgument
      else if MAX_DISPLAY_NAME_LEN < length name then Inl InvalidArgument
      else if has_control name then Inl InvalidArgument
      else Inr ())"

text \<open>
  \<open>&id[..n]\<close> panics (here \<open>None\<close>) when \<open>n\<close> is not on a character boundary: at the
  end, or before a byte that is not a UTF-8 continuation byte.
\<close>

definition is_char_boundary :: "string \<Rightarrow> nat \<Rightarrow> bool" where
  "is_char_boundary s n \<longleftrightarrow>
     n = 0 \<or> n = length s \<or> (n < length s \<and> \<not> (128 \<le> byte (s ! n) \<and> byte (s ! n) < 192))"

definition str_prefix :: "string \<Rightarrow> nat \<Rightarrow> string option" where
  "str_prefix s n = (if is_char_boundary s n then Some (take n s) else None)"

definition short_conn :: "string \<Rightarrow> string option" where
  "short_conn s = str_prefix s (min 8 (length s))"

subsection \<open>Backend actions\<close>

record action_ack =
  a_ok :: bool
  a_error :: "string option"
  a_info :: "string option"

datatype resize_kind = Increase | Decrease

datatype resize_dir = DirLeft | DirRight | DirUp | DirDown

datatype scroll_dir =
  ScrUp | ScrDown | ToTop | ToBottom | PageUp | PageDown | HalfPageUp | HalfPageDown

datatype backend_op =
    OpWriteToPane pane_ref string
  | OpFocusPane pane_ref
  | OpClosePane pane_ref
  | OpNewPane bool "string option"
  | OpRenamePane pane_ref string
  | OpResizePane pane_ref resize_kind "resize_dir option"
  | OpTogglePaneFloating pane_ref
  | OpTogglePaneFullscreen pane_ref
  | OpScrollPane pane_ref scroll_dir
  | OpNewTab "string option"
  | OpCloseTab "64 word"
  | OpGoToTab "64 word"
  | OpRenameTab "64 word" string

text \<open>
  How a handler ends: rejected with a status, panicked in its own task, answered by a
  relay, waiting for a relay's reply, or calling \<open>run_action\<close> on a backend with the bare
  session name.
\<close>

datatype 'b outcome =
    Reject status
  | HandlerPanic
  | Answer proto_ack
  | AwaitToggle string
  | RunAction 'b string backend_op

text \<open>
  The result of the blocking action: the task panicked, it failed, or it acked.
\<close>

datatype action_result = JoinError | ActionErr | Acked action_ack

fun run_action :: "action_result \<Rightarrow> status + proto_ack" where
  "run_action JoinError = Inl Internal"
| "run_action ActionErr = Inl Internal"
| "run_action (Acked a) =
     Inr \<lparr>ok = a_ok a,
          error = (case a_error a of Some e \<Rightarrow> e | None \<Rightarrow> ''''),
          info = (case a_info a of Some i \<Rightarrow> i | None \<Rightarrow> '''')\<rparr>"

text \<open>The reply of a routed toggle: delivered, cancelled or timed out.\<close>

datatype toggle_reply = Delivered "string + unit" | Cancelled | Elapsed

fun await_toggle_reply :: "toggle_reply \<Rightarrow> string \<Rightarrow> proto_ack" where
  "await_toggle_reply (Delivered (Inr ())) i = \<lparr>ok = True, error = '''', info = i\<rparr>"
| "await_toggle_reply (Delivered (Inl m)) i = \<lparr>ok = False, error = m, info = ''''\<rparr>"
| "await_toggle_reply Cancelled i =
     \<lparr>ok = False, error = ''relay connection dropped the fullscreen toggle before applying it'', info = ''''\<rparr>"
| "await_toggle_reply Elapsed i =
     \<lparr>ok = False, error = ''timed out waiting for the relay to apply the fullscreen toggle'', info = ''''\<rparr>"

subsection \<open>Facts about routing\<close>

lemma map_of_send_to:
  "map_of (send_to key cmd reg) k =
     map_option (\<lambda>e. if k = key \<and> receiver_open e then e\<lparr>queued := queued e @ [cmd]\<rparr> else e) (map_of reg k)"
  by (induction reg) (auto simp: send_to_def)

lemma send_to_keys [simp]: "map fst (send_to key cmd reg) = map fst reg"
  by (induction reg) (auto simp: send_to_def)

lemma exact_match_Some:
  "exact_match reg sess cid = Some k \<Longrightarrow>
     k = cid \<and> cid \<noteq> [] \<and> (\<exists>e. map_of reg cid = Some e \<and> session e = sess)"
  by (auto simp: exact_match_def split: if_splits option.splits)

lemma writable_fallback_Some:
  assumes "writable_fallback reg sess = Some k" "distinct (map fst reg)"
  shows "\<exists>e. map_of reg k = Some e \<and> session e = sess \<and> \<not> ce_read_only e"
  using assms by (force simp: writable_fallback_def dest!: find_Some_D)

text \<open>
  The only way a routed command changes the registry: one send, to the exact match or, for
  a read-write caller on a session that is not collapsed, to the writable fallback.
\<close>

lemma try_route_control_cases:
  "try_route_control reg sess cid ro cmd = (res, reg') \<Longrightarrow>
     reg' = reg \<or>
     (\<exists>k. reg' = send_to k cmd reg \<and> send_ok k reg \<and>
        (exact_match reg sess cid = Some k \<or>
         (\<not> ro \<and> \<not> is_collapsed_backend_session sess \<and> writable_fallback reg sess = Some k)))"
  by (auto simp: try_route_control_def Let_def split: if_splits option.splits)

text \<open>The relays whose queue a routing step changed.\<close>

definition reached :: "control_registry \<Rightarrow> control_registry \<Rightarrow> string \<Rightarrow> bool" where
  "reached reg reg' k \<longleftrightarrow> map_of reg' k \<noteq> map_of reg k"

lemma reached_send_to: "reached reg (send_to key cmd reg) k \<Longrightarrow> k = key"
  by (auto simp: reached_def map_of_send_to map_option_case split: option.splits if_splits)

lemma reached_cases:
  assumes "try_route_control reg sess cid ro cmd = (res, reg')" "reached reg reg' k"
  shows "reg' = send_to k cmd reg \<and>
     (exact_match reg sess cid = Some k \<or>
      (\<not> ro \<and> \<not> is_collapsed_backend_session sess \<and> writable_fallback reg sess = Some k))"
  using try_route_control_cases[OF assms(1)] assms(2) reached_send_to[of reg _ cmd k]
  by (auto simp: reached_def)

subsection \<open>Properties\<close>

lemma route_isolated:
  assumes "try_route_control reg sess cid ro cmd = (res, reg')"
    and "ro \<or> is_collapsed_backend_session sess"
    and "reached reg reg' k"
  shows "k = cid" "cid \<noteq> []" "map_option session (map_of reg cid) = Some sess"
  using reached_cases[OF assms(1,3)] assms(2) exact_match_Some[of reg sess cid k] by auto

text \<open>
  C2 (view isolation). A command from a read-only caller, or one on a collapsed (herdr)
  session from anyone, can only reach the relay whose connection id the caller presented,
  and only when that relay is attached to the session the request names. No other relay's
  queue changes, whatever the registry holds.
\<close>

theorem route_isolation:
  assumes "try_route_control reg sess cid ro cmd = (res, reg')"
    and "ro \<or> is_collapsed_backend_session sess"
    and "reached reg reg' k"
  shows "k = cid \<and> cid \<noteq> [] \<and> map_option session (map_of reg cid) = Some sess"
  using route_isolated[OF assms] by blast

text \<open>
  (who receives a command). Any relay a command reaches is attached to the session the
  request names, exactly one command is appended to its queue, and it is either the
  caller's own relay or, for a read-write caller, a relay opened with a writable token.
\<close>

theorem route_reaches_session_only:
  assumes "distinct (map fst reg)"
    and "try_route_control reg sess cid ro cmd = (res, reg')"
    and "reached reg reg' k"
  shows "\<exists>e. map_of reg k = Some e \<and> session e = sess \<and>
          map_of reg' k = Some (e\<lparr>queued := queued e @ [cmd]\<rparr>) \<and>
          (k = cid \<or> (\<not> ro \<and> \<not> ce_read_only e))"
proof -
  note c = reached_cases[OF assms(2,3)]
  obtain e where e: "map_of reg k = Some e" "session e = sess" "k = cid \<or> (\<not> ro \<and> \<not> ce_read_only e)"
    using c exact_match_Some[of reg sess cid k] writable_fallback_Some[OF _ assms(1), of sess k] by blast
  then have "receiver_open e" "map_of reg' k = Some (e\<lparr>queued := queued e @ [cmd]\<rparr>)"
    using assms(3) c by (auto simp: reached_def map_of_send_to split: if_splits)
  with e show ?thesis by blast
qed

lemma route_ack_cases:
  assumes "distinct (map fst reg)" "try_route_control reg sess cid ro cmd = (Some ack, reg')"
  shows "ok ack \<Longrightarrow> \<exists>k. reached reg reg' k" "\<not> ok ack \<Longrightarrow> reg' = reg"
proof -
  have sent: "reached reg (send_to k cmd reg) k" if "send_ok k reg" for k
    using that by (auto simp: send_ok_def reached_def map_of_send_to split: option.splits)
      (metis append_self_conv control_entry.select_convs(4) control_entry.surjective
        control_entry.update_convs(4) list.distinct(1))
  show "ok ack \<Longrightarrow> \<exists>k. reached reg reg' k"
    using assms(2) sent
    by (auto simp: try_route_control_def Let_def routed_ack_def reattach_ack_def
        split: if_splits option.splits)
  show "\<not> ok ack \<Longrightarrow> reg' = reg"
    using assms(2) by (auto simp: try_route_control_def Let_def routed_ack_def
        split: if_splits option.splits)
qed

text \<open>
  (acks are truthful). An \<open>ok\<close> answer means the command was queued on some relay, and
  a failed answer means no queue changed.
\<close>

theorem route_ack_truthful:
  assumes "distinct (map fst reg)" "try_route_control reg sess cid ro cmd = (Some ack, reg')"
  shows "(ok ack \<longrightarrow> (\<exists>k. reached reg reg' k)) \<and> (\<not> ok ack \<longrightarrow> reg' = reg)"
  using route_ack_cases[OF assms] by blast

text \<open>
  (collapsed sessions fail closed). On a herdr session the caller always gets an answer,
  never the daemon-global path, and without a live exact match that answer is the
  reattach refusal.
\<close>

theorem collapsed_fails_closed:
  assumes "is_collapsed_backend_session sess"
  shows "fst (try_route_control reg sess cid ro cmd) \<noteq> None \<and>
    (exact_match reg sess cid = None \<or> \<not> send_ok cid reg \<longrightarrow>
       try_route_control reg sess cid ro cmd = (Some reattach_ack, reg))"
  using assms
  by (auto simp: try_route_control_def Let_def dest: exact_match_Some split: option.splits if_splits)

text \<open>
  (a gap in the read-only rule). For a read-only caller on a session that is not
  collapsed, \<open>try_route_control\<close> answers \<open>None\<close> in exactly one case: its own relay is
  still registered but its receiver is gone. The handler then falls through to the
  daemon-global action, which the function's contract says a read-only caller never does.
\<close>

theorem read_only_fallthrough:
  assumes "\<not> is_collapsed_backend_session sess"
  shows "fst (try_route_control reg sess cid True cmd) = None \<longleftrightarrow>
     exact_match reg sess cid = Some cid \<and> \<not> send_ok cid reg"
  using assms
  by (auto simp: try_route_control_def Let_def dest: exact_match_Some split: option.splits if_splits)

text \<open>
  C26 (a bare id escapes the collapsed rule). On a daemon that runs only herdr a session id without a
  backend prefix still resolves to herdr, but the collapsed rule looks for the prefix. A writable
  caller that names the session this way and gives no connection id steers another client's relay.
\<close>

theorem bare_herdr_id_steers_others:
  assumes "validate_session zok sid = Inr ()" "reg = (k, e) # rest"
    and "session e = sid" "\<not> ce_read_only e" "receiver_open e"
  shows "resolve_session_kind zok [(Herdr, b)] sid = Inr (Herdr, b, sid) \<and>
    try_route_control reg sid [] False cmd = (Some (routed_ack via_fallback), send_to k cmd reg)"
proof -
  have "list_all session_char sid"
    using assms(1) by (auto simp: validate_session_def validate_session_name_def split: if_splits)
  then have "CHR '':'' \<notin> set sid" using session_char_safe by (auto simp: list_all_iff)
  then have "split_once (CHR '':'') sid = None" by (simp add: split_once_None)
  then show ?thesis using assms
    by (simp add: resolve_session_kind_def resolve_owner_def try_route_control_def exact_match_def
        writable_fallback_def send_ok_def is_collapsed_backend_session_def)
qed

text \<open>The two branches of the breadcrumb.\<close>

lemma short_conn_cases:
  "list_all (\<lambda>c. byte c < 128) cid \<Longrightarrow> short_conn cid = Some (take 8 cid)"
  "8 < length cid \<Longrightarrow> 128 \<le> byte (cid ! 8) \<Longrightarrow> byte (cid ! 8) < 192 \<Longrightarrow> short_conn cid = None"
proof -
  assume ascii: "list_all (\<lambda>c. byte c < 128) cid"
  have "is_char_boundary cid (min 8 (length cid))"
    using ascii by (auto simp: is_char_boundary_def list_all_length min_def not_le)
  then show "short_conn cid = Some (take 8 cid)"
    by (simp add: short_conn_def str_prefix_def min_def)
next
  assume "8 < length cid" "128 \<le> byte (cid ! 8)" "byte (cid ! 8) < 192"
  then show "short_conn cid = None"
    by (simp add: short_conn_def str_prefix_def is_char_boundary_def min_def)
qed

text \<open>
  (\<open>short_conn\<close> can panic). A breadcrumb of an ASCII id is its first eight bytes, and
  an id whose ninth byte continues a multi-byte character panics the handler.
\<close>

theorem short_conn_panics:
  "(list_all (\<lambda>c. byte c < 128) cid \<longrightarrow> short_conn cid = Some (take 8 cid)) \<and>
   (8 < length cid \<and> 128 \<le> byte (cid ! 8) \<and> byte (cid ! 8) < 192 \<longrightarrow> short_conn cid = None)"
  using short_conn_cases[of cid] by blast

text \<open>Witnesses: two relays on one session, a read-only one and a writable one.\<close>

definition demo_reg :: control_registry where
  "demo_reg =
     [(''c1'', \<lparr>session = ''zellij:dev'', ce_read_only = True, receiver_open = True, queued = []\<rparr>),
      (''c2'', \<lparr>session = ''zellij:dev'', ce_read_only = False, receiver_open = True, queued = []\<rparr>),
      (''c3'', \<lparr>session = ''herdr:herdr'', ce_read_only = False, receiver_open = True, queued = []\<rparr>),
      (''c4'', \<lparr>session = ''zellij:dev'', ce_read_only = True, receiver_open = False, queued = []\<rparr>)]"

lemmas demo_eval =
  demo_reg_def try_route_control_def exact_match_def writable_fallback_def send_ok_def send_to_def
  is_collapsed_backend_session_def Let_def reached_def routed_ack_def reattach_ack_def

theorem route_isolation_witness:
  "''c1'' \<noteq> [] \<and> map_option session (map_of demo_reg ''c1'') = Some ''zellij:dev''"
proof -
  let ?reg' = "send_to ''c1'' (SwitchTab 3) demo_reg"
  have r: "try_route_control demo_reg ''zellij:dev'' ''c1'' True (SwitchTab 3) =
     (Some (routed_ack via_connection), ?reg')"
    by (simp add: demo_eval)
  have "reached demo_reg ?reg' ''c1''" by (simp add: demo_eval)
  from route_isolation[OF r _ this] show ?thesis by simp
qed

theorem route_reaches_session_only_witness:
  "\<exists>e. map_of demo_reg ''c2'' = Some e \<and> session e = ''zellij:dev'' \<and>
     map_of (send_to ''c2'' (SwitchTab 3) demo_reg) ''c2'' = Some (e\<lparr>queued := queued e @ [SwitchTab 3]\<rparr>) \<and>
     (''c2'' = [] \<or> (\<not> False \<and> \<not> ce_read_only e))"
  by (rule route_reaches_session_only[where res = "Some (routed_ack via_fallback)"])
     (simp_all add: demo_eval)

theorem route_ack_truthful_witness:
  "\<exists>k. reached demo_reg (send_to ''c2'' (SwitchTab 3) demo_reg) k"
  using route_ack_truthful[where ack = "routed_ack via_fallback" and sess = "''zellij:dev''"
        and cid = "''gone''" and ro = False and cmd = "SwitchTab 3" and reg = demo_reg
        and reg' = "send_to ''c2'' (SwitchTab 3) demo_reg"]
  by (simp add: demo_eval)

theorem collapsed_fails_closed_witness:
  "try_route_control demo_reg ''herdr:herdr'' ''c2'' False (SwitchTab 3) = (Some reattach_ack, demo_reg)"
  using collapsed_fails_closed[of "''herdr:herdr''" demo_reg "''c2''" False "SwitchTab 3"]
  by (simp add: demo_eval)

theorem read_only_fallthrough_witness:
  "fst (try_route_control demo_reg ''zellij:dev'' ''c4'' True (SwitchTab 3)) = None"
  by (subst read_only_fallthrough) (simp_all add: demo_eval)

theorem short_conn_panics_witness:
  "short_conn ''0123456789'' = Some ''01234567'' \<and>
   short_conn (replicate 7 (CHR ''a'') @ [char_of (226 :: nat), char_of (130 :: nat), char_of (172 :: nat)]) = None"
  using short_conn_panics[of "''0123456789''"]
    short_conn_panics[of "replicate 7 (CHR ''a'') @ [char_of (226 :: nat), char_of (130 :: nat), char_of (172 :: nat)]"]
  by (simp add: byte_def nth_append)

theorem bare_herdr_id_steers_others_witness:
  "try_route_control [(''c9'', \<lparr>session = ''herdr'', ce_read_only = False, receiver_open = True, queued = []\<rparr>)]
     ''herdr'' [] False (SwitchTab 3) =
   (Some (routed_ack via_fallback), [(''c9'', \<lparr>session = ''herdr'', ce_read_only = False, receiver_open = True,
     queued = [SwitchTab 3]\<rparr>)])"
  using bare_herdr_id_steers_others[OF _ refl, of "\<lambda>_. True" "''herdr''"
      "\<lparr>session = ''herdr'', ce_read_only = False, receiver_open = True, queued = []\<rparr>" "()" "''c9''" "[]" "SwitchTab 3"]
  by (simp add: validate_session_def validate_session_name_def session_char_def byte_classes send_to_def)

end
