(* ===== verification/PaneOps.thy ===== *)
theory PaneOps
  imports ControlRoute
begin

text \<open>
  The pane and tab handlers of \<open>muxrd/src/grpc/pane_ops.rs\<close> and \<open>tab_ops.rs\<close>, each a
  function from the request's read-only extension, the request and the service state to how
  the handler ends and the control registry after it. \<open>info\<close> logging is on (the binary's
  default filter), so the log breadcrumb of a routed handler is evaluated.
\<close>

record 'b service =
  zellij_ok :: "string \<Rightarrow> bool"
  backends :: "'b backend_set"
  control :: control_registry

type_synonym 'b handler_result = "'b outcome \<times> control_registry"

record pane_target =
  pt_session :: string
  pt_pane_id :: "32 word"
  pt_is_plugin :: bool
  pt_connection_id :: string

definition pane_ref_of :: "pane_target \<Rightarrow> pane_ref" where
  "pane_ref_of t = \<lparr>pane_id = pt_pane_id t, is_plugin = pt_is_plugin t\<rparr>"

text \<open>The guards every handler is built from: \<open>?\<close> on a status result.\<close>

definition gate :: "status + unit \<Rightarrow> 'b outcome \<Rightarrow> 'b outcome" where
  "gate g k = (case g of Inl e \<Rightarrow> Reject e | Inr _ \<Rightarrow> k)"

definition with_session :: "'b service \<Rightarrow> string \<Rightarrow> ('b \<Rightarrow> string \<Rightarrow> 'b outcome) \<Rightarrow> 'b outcome" where
  "with_session svc sid k =
     (case resolve_session (zellij_ok svc) (backends svc) sid of
        Inl e \<Rightarrow> Reject e
      | Inr (b, bare) \<Rightarrow> k b bare)"

definition MAX_WRITE_TO_PANE_BYTES :: nat where
  "MAX_WRITE_TO_PANE_BYTES = 1024 * 1024"

definition write_to_pane_impl ::
  "'b service \<Rightarrow> bool option \<Rightarrow> pane_target option \<Rightarrow> string \<Rightarrow> 'b outcome" where
  "write_to_pane_impl svc ext target data =
     gate (reject_if_read_only ext)
       (if MAX_WRITE_TO_PANE_BYTES < length data then Reject InvalidArgument
        else
          (case target of
             None \<Rightarrow> Reject InvalidArgument
           | Some t \<Rightarrow>
               with_session svc (pt_session t)
                 (\<lambda>b s. RunAction b s (OpWriteToPane (pane_ref_of t) data))))"

text \<open>
  The routed handlers share their tail: the breadcrumb, the routing attempt, the fallback.
\<close>

definition routed_tail ::
  "'b service \<Rightarrow> string \<Rightarrow> string \<Rightarrow> bool \<Rightarrow> relay_control \<Rightarrow> (proto_ack \<Rightarrow> 'b outcome) \<Rightarrow> backend_op
     \<Rightarrow> 'b handler_result" where
  "routed_tail svc sid cid ro cmd answer op =
     (case resolve_session (zellij_ok svc) (backends svc) sid of
        Inl e \<Rightarrow> (Reject e, control svc)
      | Inr (b, bare) \<Rightarrow>
          (case short_conn cid of
             None \<Rightarrow> (HandlerPanic, control svc)
           | Some _ \<Rightarrow>
               (case try_route_control (control svc) sid cid ro cmd of
                  (Some ack, reg) \<Rightarrow> (answer ack, reg)
                | (None, reg) \<Rightarrow> (RunAction b bare op, reg))))"

definition focus_pane_impl :: "'b service \<Rightarrow> bool option \<Rightarrow> pane_target \<Rightarrow> 'b handler_result" where
  "focus_pane_impl svc ext t =
     routed_tail svc (pt_session t) (pt_connection_id t) (session_is_read_only ext)
       (FocusPane (pane_ref_of t)) Answer (OpFocusPane (pane_ref_of t))"

definition close_pane_impl :: "'b service \<Rightarrow> bool option \<Rightarrow> pane_target \<Rightarrow> 'b outcome" where
  "close_pane_impl svc ext t =
     gate (reject_if_read_only ext)
       (with_session svc (pt_session t) (\<lambda>b s. RunAction b s (OpClosePane (pane_ref_of t))))"

definition new_pane_impl :: "'b service \<Rightarrow> bool option \<Rightarrow> string \<Rightarrow> bool \<Rightarrow> string \<Rightarrow> 'b outcome" where
  "new_pane_impl svc ext sid is_floating name =
     gate (reject_if_read_only ext)
       (with_session svc sid
         (\<lambda>b s. if name = [] then RunAction b s (OpNewPane is_floating None)
                else gate (validate_display_name name)
                       (RunAction b s (OpNewPane is_floating (Some name)))))"

definition rename_pane_impl ::
  "'b service \<Rightarrow> bool option \<Rightarrow> pane_target option \<Rightarrow> string \<Rightarrow> 'b outcome" where
  "rename_pane_impl svc ext target name =
     gate (reject_if_read_only ext)
       (case target of
          None \<Rightarrow> Reject InvalidArgument
        | Some t \<Rightarrow>
            with_session svc (pt_session t)
              (\<lambda>b s. gate (if name \<noteq> [] then validate_display_name name else Inr ())
                       (RunAction b s (OpRenamePane (pane_ref_of t) name))))"

definition resize_kind_of :: "int \<Rightarrow> resize_kind" where
  "resize_kind_of n = (if n = 1 then Decrease else Increase)"

definition resize_dir_of :: "int \<Rightarrow> resize_dir option" where
  "resize_dir_of n =
     (if n = 1 then Some DirLeft else if n = 2 then Some DirRight
      else if n = 3 then Some DirUp else if n = 4 then Some DirDown else None)"

definition resize_pane_impl ::
  "'b service \<Rightarrow> bool option \<Rightarrow> pane_target option \<Rightarrow> int \<Rightarrow> int \<Rightarrow> 'b outcome" where
  "resize_pane_impl svc ext target resize direction =
     gate (reject_if_read_only ext)
       (case target of
          None \<Rightarrow> Reject InvalidArgument
        | Some t \<Rightarrow>
            with_session svc (pt_session t)
              (\<lambda>b s. RunAction b s
                 (OpResizePane (pane_ref_of t) (resize_kind_of resize) (resize_dir_of direction))))"

definition toggle_pane_floating_impl :: "'b service \<Rightarrow> bool option \<Rightarrow> pane_target \<Rightarrow> 'b outcome" where
  "toggle_pane_floating_impl svc ext t =
     gate (reject_if_read_only ext)
       (with_session svc (pt_session t) (\<lambda>b s. RunAction b s (OpTogglePaneFloating (pane_ref_of t))))"

text \<open>
  A client's floating hint counts only when the request attests it. A routing refusal is
  answered at once; a queued toggle waits for the relay's reply.
\<close>

definition toggle_pane_fullscreen_impl ::
  "'b service \<Rightarrow> bool option \<Rightarrow> pane_target option \<Rightarrow> bool \<Rightarrow> floating_hint \<Rightarrow> 'b handler_result" where
  "toggle_pane_fullscreen_impl svc ext target has_hint h =
     (case reject_if_read_only ext of
        Inl e \<Rightarrow> (Reject e, control svc)
      | Inr _ \<Rightarrow>
          (case target of
             None \<Rightarrow> (Reject InvalidArgument, control svc)
           | Some t \<Rightarrow>
               routed_tail svc (pt_session t) (pt_connection_id t) (session_is_read_only ext)
                 (ToggleFullscreen (pane_ref_of t) (if has_hint then Some h else None))
                 (\<lambda>ack. if \<not> ok ack then Answer ack else AwaitToggle (info ack))
                 (OpTogglePaneFullscreen (pane_ref_of t))))"

definition scroll_dir_of :: "int \<Rightarrow> scroll_dir" where
  "scroll_dir_of n =
     (if n = 1 then ScrDown else if n = 2 then ToTop else if n = 3 then ToBottom
      else if n = 4 then PageUp else if n = 5 then PageDown
      else if n = 6 then HalfPageUp else if n = 7 then HalfPageDown else ScrUp)"

definition scroll_pane_impl :: "'b service \<Rightarrow> pane_target option \<Rightarrow> int \<Rightarrow> 'b outcome" where
  "scroll_pane_impl svc target direction =
     (case target of
        None \<Rightarrow> Reject InvalidArgument
      | Some t \<Rightarrow>
          with_session svc (pt_session t)
            (\<lambda>b s. RunAction b s (OpScrollPane (pane_ref_of t) (scroll_dir_of direction))))"

subsection \<open>Tabs\<close>

definition new_tab_impl :: "'b service \<Rightarrow> bool option \<Rightarrow> string \<Rightarrow> string \<Rightarrow> 'b outcome" where
  "new_tab_impl svc ext sid name =
     gate (reject_if_read_only ext)
       (with_session svc sid
         (\<lambda>b s. if name = [] then RunAction b s (OpNewTab None)
                else gate (validate_display_name name) (RunAction b s (OpNewTab (Some name)))))"

definition close_tab_impl :: "'b service \<Rightarrow> bool option \<Rightarrow> string \<Rightarrow> 64 word \<Rightarrow> 'b outcome" where
  "close_tab_impl svc ext sid tab =
     gate (reject_if_read_only ext) (with_session svc sid (\<lambda>b s. RunAction b s (OpCloseTab tab)))"

definition go_to_tab_impl ::
  "'b service \<Rightarrow> bool option \<Rightarrow> string \<Rightarrow> string \<Rightarrow> 64 word \<Rightarrow> 'b handler_result" where
  "go_to_tab_impl svc ext sid cid tab =
     routed_tail svc sid cid (session_is_read_only ext) (SwitchTab tab) Answer (OpGoToTab tab)"

definition rename_tab_impl :: "'b service \<Rightarrow> bool option \<Rightarrow> string \<Rightarrow> 64 word \<Rightarrow> string \<Rightarrow> 'b outcome" where
  "rename_tab_impl svc ext sid tab name =
     gate (reject_if_read_only ext)
       (with_session svc sid
         (\<lambda>b s. gate (validate_display_name name) (RunAction b s (OpRenameTab tab name))))"

subsection \<open>Every request in one step\<close>

datatype request =
    WriteToPaneReq "pane_target option" string
  | FocusPaneReq pane_target
  | ClosePaneReq pane_target
  | NewPaneReq string bool string
  | RenamePaneReq "pane_target option" string
  | ResizePaneReq "pane_target option" int int
  | TogglePaneFloatingReq pane_target
  | ToggleFullscreenReq "pane_target option" bool floating_hint
  | ScrollReq "pane_target option" int
  | NewTabReq string string
  | CloseTabReq string "64 word"
  | GoToTabReq string string "64 word"
  | RenameTabReq string "64 word" string

fun handle :: "'b service \<Rightarrow> bool option \<Rightarrow> request \<Rightarrow> 'b handler_result" where
  "handle svc ext (WriteToPaneReq t d) = (write_to_pane_impl svc ext t d, control svc)"
| "handle svc ext (FocusPaneReq t) = focus_pane_impl svc ext t"
| "handle svc ext (ClosePaneReq t) = (close_pane_impl svc ext t, control svc)"
| "handle svc ext (NewPaneReq s f n) = (new_pane_impl svc ext s f n, control svc)"
| "handle svc ext (RenamePaneReq t n) = (rename_pane_impl svc ext t n, control svc)"
| "handle svc ext (ResizePaneReq t r d) = (resize_pane_impl svc ext t r d, control svc)"
| "handle svc ext (TogglePaneFloatingReq t) = (toggle_pane_floating_impl svc ext t, control svc)"
| "handle svc ext (ToggleFullscreenReq t b h) = toggle_pane_fullscreen_impl svc ext t b h"
| "handle svc ext (ScrollReq t d) = (scroll_pane_impl svc t d, control svc)"
| "handle svc ext (NewTabReq s n) = (new_tab_impl svc ext s n, control svc)"
| "handle svc ext (CloseTabReq s t) = (close_tab_impl svc ext s t, control svc)"
| "handle svc ext (GoToTabReq s c t) = go_to_tab_impl svc ext s c t"
| "handle svc ext (RenameTabReq s t n) = (rename_tab_impl svc ext s t n, control svc)"

text \<open>The requests a read-only token may make (navigation and scrolling).\<close>

fun navigation :: "request \<Rightarrow> bool" where
  "navigation (FocusPaneReq _) = True"
| "navigation (GoToTabReq _ _ _) = True"
| "navigation (ScrollReq _ _) = True"
| "navigation _ = False"

lemmas handler_defs =
  write_to_pane_impl_def focus_pane_impl_def close_pane_impl_def new_pane_impl_def rename_pane_impl_def
  resize_pane_impl_def toggle_pane_floating_impl_def toggle_pane_fullscreen_impl_def scroll_pane_impl_def
  new_tab_impl_def close_tab_impl_def go_to_tab_impl_def rename_tab_impl_def

lemma gate_RunAction: "gate g k = RunAction b s op \<longleftrightarrow> g = Inr () \<and> k = RunAction b s op"
  by (auto simp: gate_def split: sum.splits)

lemma with_session_RunAction:
  "with_session svc sid k = RunAction b s op \<longleftrightarrow>
     (\<exists>b' s'. resolve_session (zellij_ok svc) (backends svc) sid = Inr (b', s') \<and> k b' s' = RunAction b s op)"
  by (auto simp: with_session_def split: sum.splits)

lemma routed_tail_RunAction:
  assumes "routed_tail svc sid cid ro cmd answer op = (RunAction b s op', reg)"
    and "\<And>ack. answer ack \<noteq> RunAction b s op'"
  shows "resolve_session (zellij_ok svc) (backends svc) sid = Inr (b, s) \<and> op' = op \<and> reg = control svc
    \<and> try_route_control (control svc) sid cid ro cmd = (None, control svc)"
  using assms
  by (auto simp: routed_tail_def try_route_control_def Let_def
      split: sum.splits option.splits prod.splits if_splits)

lemmas run_action_simps = gate_RunAction with_session_RunAction

text \<open>A backend is only ever called with the name \<open>resolve_session\<close> returned.\<close>

lemma handle_RunAction_resolved:
  assumes "handle svc ext req = (RunAction b s op, reg)"
  shows "\<exists>sid. resolve_session (zellij_ok svc) (backends svc) sid = Inr (b, s)"
proof (cases req)
  case (FocusPaneReq t)
  with assms show ?thesis by (auto simp: handler_defs dest!: routed_tail_RunAction)
next
  case (GoToTabReq x y z)
  with assms show ?thesis by (auto simp: handler_defs dest!: routed_tail_RunAction)
next
  case (ToggleFullscreenReq t h1 h2)
  with assms show ?thesis
    by (auto simp: handler_defs dest!: routed_tail_RunAction split: sum.splits option.splits if_splits)
qed (use assms in \<open>auto simp: handler_defs run_action_simps split: option.splits if_splits\<close>)

subsection \<open>Properties\<close>

lemma mutation_denied:
  assumes "\<not> navigation req" "ext \<noteq> Some False"
  shows "handle svc ext req = (Reject PermissionDenied, control svc)"
proof -
  have "reject_if_read_only ext = Inl PermissionDenied"
    using assms(2) by (cases ext) auto
  then show ?thesis using assms(1) by (cases req) (simp_all add: handler_defs gate_def)
qed

text \<open>
  (mutations are refused to read-only tokens). Every request other than focus,
  go-to-tab and scroll is rejected with \<open>PermissionDenied\<close> when the token is read-only or
  the auth layer's extension is missing, before anything else is looked at, and no relay
  receives a command.
\<close>

theorem read_only_mutation_denied:
  assumes "\<not> navigation req" "ext \<noteq> Some False"
  shows "handle svc ext req = (Reject PermissionDenied, control svc)"
  using assms by (rule mutation_denied)

text \<open>The display name a backend call carries, and its payload.\<close>

fun op_name :: "backend_op \<Rightarrow> string option" where
  "op_name (OpNewPane _ n) = n"
| "op_name (OpRenamePane _ n) = (if n = [] then None else Some n)"
| "op_name (OpNewTab n) = n"
| "op_name (OpRenameTab _ n) = Some n"
| "op_name _ = None"

fun op_payload :: "backend_op \<Rightarrow> string" where
  "op_payload (OpWriteToPane _ d) = d"
| "op_payload _ = []"

lemma display_name_ok:
  "validate_display_name n = Inr () \<longleftrightarrow> n \<noteq> [] \<and> length n \<le> 128 \<and> \<not> has_control n"
  by (auto simp: validate_display_name_def MAX_DISPLAY_NAME_LEN_def)

lemma backend_calls_cases:
  assumes "handle svc ext req = (RunAction b s op, reg)"
  shows "s \<noteq> []" "list_all session_char s" "b \<in> snd ` set (backends svc)"
    "op_name op = Some n \<Longrightarrow> n \<noteq> [] \<and> length n \<le> 128 \<and> \<not> has_control n"
    "length (op_payload op) \<le> 1048576"
proof -
  obtain sid k where r: "resolve_session_kind (zellij_ok svc) (backends svc) sid = Inr (k, b, s)"
    using handle_RunAction_resolved[OF assms] by (auto simp: resolve_session_Inr)
  note safe = resolve_kind_safe[OF r]
  show "s \<noteq> []" "list_all session_char s" by (fact safe)+
  show "b \<in> snd ` set (backends svc)"
    by (rule image_eqI[where x = "(k, b)"]) (simp_all add: safe)
  have clean: "validate_display_name m = Inr x \<Longrightarrow> m \<noteq> [] \<and> length m \<le> 128 \<and> \<not> has_control m" for m x
    by (cases x) (simp add: display_name_ok)
  have routed: "routed_tail svc i c ro cmd answer op' = (RunAction b s op, reg) \<Longrightarrow>
     (\<And>ack. answer ack \<noteq> RunAction b s op) \<Longrightarrow> op = op'" for i c ro cmd answer op'
    by (rule routed_tail_RunAction[THEN conjunct2, THEN conjunct1])
  have "(op_name op = Some n \<longrightarrow> n \<noteq> [] \<and> length n \<le> 128 \<and> \<not> has_control n) \<and>
      length (op_payload op) \<le> 1048576"
  proof (cases req)
    case (FocusPaneReq t)
    with assms show ?thesis by (auto simp: handler_defs dest!: routed)
  next
    case (GoToTabReq x y z)
    with assms show ?thesis by (auto simp: handler_defs dest!: routed)
  next
    case (ToggleFullscreenReq t h1 h2)
    with assms show ?thesis
      by (auto simp: handler_defs split: sum.splits option.splits if_splits dest!: routed)
  qed (use assms in \<open>auto simp: handler_defs run_action_simps MAX_WRITE_TO_PANE_BYTES_def
      split: option.splits if_splits dest: clean\<close>)
  then show "op_name op = Some n \<Longrightarrow> n \<noteq> [] \<and> length n \<le> 128 \<and> \<not> has_control n"
    "length (op_payload op) \<le> 1048576" by auto
qed

text \<open>
  (what reaches a backend is bounded and clean). When a handler calls a backend, the
  backend is one the server runs, the session name is a non-empty word over
  \<open>[A-Za-z0-9_-]\<close>, a display name it carries is non-empty, at most 128 bytes and free of
  control characters (so it cannot smuggle a terminal escape), and a pane write is at most
  one mebibyte.
\<close>

theorem backend_calls_safe:
  assumes "handle svc ext req = (RunAction b s op, reg)"
  shows "s \<noteq> [] \<and> list_all session_char s \<and> b \<in> snd ` set (backends svc) \<and>
    (\<forall>n. op_name op = Some n \<longrightarrow> n \<noteq> [] \<and> length n \<le> 128 \<and> \<not> has_control n) \<and>
    length (op_payload op) \<le> 1048576"
  using backend_calls_cases[OF assms] by blast

fun request_connection :: "request \<Rightarrow> string" where
  "request_connection (FocusPaneReq t) = pt_connection_id t"
| "request_connection (GoToTabReq _ c _) = c"
| "request_connection (ToggleFullscreenReq (Some t) _ _) = pt_connection_id t"
| "request_connection _ = []"

lemma read_only_not_False: "ext \<noteq> Some False \<Longrightarrow> session_is_read_only ext"
  by (cases ext) auto



text \<open>
  (when a read-only caller reaches a backend). Besides scrolling, the only backend call
  a read-only caller can cause is a focus or tab switch on a session that is not collapsed,
  whose own relay is still registered but whose receiver is gone.
\<close>

theorem read_only_backend_calls:
  assumes "ext \<noteq> Some False" "handle svc ext req = (RunAction b s op, reg)"
  shows "(\<exists>t d. req = ScrollReq t d) \<or>
     (\<exists>sid. \<not> is_collapsed_backend_session sid \<and>
        exact_match (control svc) sid (request_connection req) = Some (request_connection req) \<and>
        \<not> send_ok (request_connection req) (control svc))"
proof -
  have nav: "navigation req"
    using mutation_denied[of req ext svc] assms by auto
  have tail: "\<not> is_collapsed_backend_session sid \<and> exact_match (control svc) sid cid = Some cid \<and>
      \<not> send_ok cid (control svc)"
    if "routed_tail svc sid cid True cmd Answer op' = (RunAction b s op, reg)" for sid cid cmd op'
  proof -
    have t: "try_route_control (control svc) sid cid True cmd = (None, control svc)"
      using routed_tail_RunAction[OF that] by simp
    then have nc: "\<not> is_collapsed_backend_session sid"
      by (auto simp: try_route_control_def Let_def split: if_splits option.splits)
    show ?thesis using nc t
      by (auto simp: try_route_control_def Let_def dest: exact_match_Some split: option.splits if_splits)
  qed
  show ?thesis
    using nav assms(2) read_only_not_False[OF assms(1)]
    by (cases req) (auto simp: handler_defs dest!: tail)
qed

text \<open>Witnesses.\<close>

definition demo_service :: "nat service" where
  "demo_service = \<lparr>zellij_ok = zellij_check, backends = [(Zellij, 0)], control = demo_reg\<rparr>"

definition demo_target :: "string \<Rightarrow> pane_target" where
  "demo_target cid =
     \<lparr>pt_session = ''zellij:dev'', pt_pane_id = 7, pt_is_plugin = False, pt_connection_id = cid\<rparr>"

lemma demo_resolves: "resolve_session (zellij_ok demo_service) (backends demo_service) ''zellij:dev'' = Inr (0, ''dev'')"
  by (simp add: demo_service_def resolve_session_def resolve_session_kind_def resolve_owner_def
      parse_backend_kind_def backend_get_def validate_session_def validate_session_name_def
      zellij_check_def session_char_def byte_classes)

theorem read_only_mutation_denied_witness:
  "handle demo_service (Some True) (ClosePaneReq (demo_target ''c1'')) =
     (Reject PermissionDenied, control demo_service)"
  by (rule read_only_mutation_denied) simp_all

lemma demo_rename:
  "handle demo_service (Some False) (RenameTabReq ''zellij:dev'' 3 ''logs'') =
     (RunAction 0 ''dev'' (OpRenameTab 3 ''logs''), control demo_service)"
  by (simp add: rename_tab_impl_def gate_def with_session_def demo_resolves
      validate_display_name_def MAX_DISPLAY_NAME_LEN_def byte_def)

theorem backend_calls_safe_witness:
  "list_all session_char ''dev'' \<and> length ''logs'' \<le> 128 \<and> \<not> has_control ''logs''"
  using backend_calls_safe[OF demo_rename] by simp



lemma demo_fallthrough:
  "handle demo_service (Some True) (FocusPaneReq (demo_target ''c4'')) =
     (RunAction 0 ''dev'' (OpFocusPane (pane_ref_of (demo_target ''c4''))), demo_reg)"
  using demo_resolves
  by (simp add: focus_pane_impl_def routed_tail_def demo_target_def short_conn_def str_prefix_def
      is_char_boundary_def demo_service_def demo_eval)

theorem read_only_backend_calls_witness:
  "(\<exists>t d. FocusPaneReq (demo_target ''c4'') = ScrollReq t d) \<or>
     (\<exists>sid. \<not> is_collapsed_backend_session sid \<and>
        exact_match (control demo_service) sid ''c4'' = Some ''c4'' \<and>
        \<not> send_ok ''c4'' (control demo_service))"
  using read_only_backend_calls[OF _ demo_fallthrough] by (simp add: demo_target_def)

end
