(* ===== verification/AttachEviction.thy ===== *)
theory AttachEviction
  imports Prelude
begin

text \<open>
  Attach eviction (\<open>AttachReq.client_instance_id\<close>): the registry of evictable attaches and
  its leases in \<open>muxrd/src/relay/types.rs\<close>. A shared \<open>Arc<EvictSignal>\<close> is an address
  into \<open>fired\<close>, so that firing the old holder's signal is visible to its lease. The token
  identity (a domain-separated SHA-256, \<open>muxrd/src/auth.rs\<close>) is the parameter
  \<open>ident\<close>. A lock-protected registry operation is one step; the step relation interleaves
  the registrations and lease drops of any number of relays.
\<close>

definition MAX_CLIENT_INSTANCE_ID_LEN :: nat where
  "MAX_CLIENT_INSTANCE_ID_LEN = 128"

record 'h attach_key =
  key_token :: 'h
  instance_id :: string

definition new_attach_key :: "(string \<Rightarrow> 'h) \<Rightarrow> string option \<Rightarrow> string \<Rightarrow> 'h attach_key option" where
  "new_attach_key ident token client =
     (case token of
        None \<Rightarrow> None
      | Some t \<Rightarrow>
          if client = [] \<or> MAX_CLIENT_INSTANCE_ID_LEN < length client then None
          else Some \<lparr>key_token = ident t, instance_id = client\<rparr>)"

record attach_slot =
  slot_connection :: string
  slot_signal :: nat
  slot_arrival :: "64 word"

record 'h attach_registry =
  slots :: "'h attach_key \<rightharpoonup> attach_slot"
  fired :: "nat \<Rightarrow> bool"
  next_signal :: nat

record 'h lease =
  lease_key :: "'h attach_key option"
  lease_connection :: string
  lease_signal :: "nat option"

definition empty_attach_registry :: "'h attach_registry" where
  "empty_attach_registry = \<lparr>slots = Map.empty, fired = (\<lambda>_. False), next_signal = 0\<rparr>"

text \<open>\<open>next_attach_arrival\<close>: the process-wide counter and the stamp.\<close>

definition next_attach_arrival :: "64 word \<Rightarrow> 64 word \<times> 64 word" where
  "next_attach_arrival c = (c + 1, c + 1)"

definition fire :: "nat \<Rightarrow> 'h attach_registry \<Rightarrow> 'h attach_registry" where
  "fire g r = r\<lparr>fired := (fired r)(g := True)\<rparr>"

definition register ::
  "'h attach_registry \<Rightarrow> 'h attach_key option \<Rightarrow> string \<Rightarrow> 64 word
     \<Rightarrow> 'h attach_registry \<times> 'h lease \<times> string option" where
  "register r key conn arrival =
     (case key of
        None \<Rightarrow> (r, \<lparr>lease_key = None, lease_connection = conn, lease_signal = None\<rparr>, None)
      | Some k \<Rightarrow>
          let g = next_signal r;
              r1 = r\<lparr>next_signal := Suc g, fired := (fired r)(g := False)\<rparr>;
              new_slot = \<lparr>slot_connection = conn, slot_signal = g, slot_arrival = arrival\<rparr>;
              l = \<lparr>lease_key = Some k, lease_connection = conn, lease_signal = Some g\<rparr>
          in (case slots r k of
                None \<Rightarrow> (r1\<lparr>slots := (slots r)(k \<mapsto> new_slot)\<rparr>, l, None)
              | Some old \<Rightarrow>
                  if slot_arrival old > arrival then (fire g r1, l, None)
                  else (fire (slot_signal old) (r1\<lparr>slots := (slots r)(k \<mapsto> new_slot)\<rparr>), l,
                        Some (slot_connection old))))"

definition deregister :: "'h attach_registry \<Rightarrow> 'h attach_key \<Rightarrow> string \<Rightarrow> 'h attach_registry \<times> bool" where
  "deregister r k conn =
     (case slots r k of
        Some s \<Rightarrow> if slot_connection s = conn then (r\<lparr>slots := (slots r)(k := None)\<rparr>, True) else (r, False)
      | None \<Rightarrow> (r, False))"

definition holder :: "'h attach_registry \<Rightarrow> 'h attach_key \<Rightarrow> string option" where
  "holder r k = map_option slot_connection (slots r k)"

definition is_evicted :: "'h attach_registry \<Rightarrow> 'h lease \<Rightarrow> bool" where
  "is_evicted r l = (case lease_signal l of Some g \<Rightarrow> fired r g | None \<Rightarrow> False)"

text \<open>\<open>Drop for AttachLease\<close>.\<close>

definition drop_lease :: "'h attach_registry \<Rightarrow> 'h lease \<Rightarrow> 'h attach_registry" where
  "drop_lease r l =
     (case lease_key l of Some k \<Rightarrow> fst (deregister r k (lease_connection l)) | None \<Rightarrow> r)"

subsection \<open>The relays of one process\<close>

record 'h relays =
  registry :: "'h attach_registry"
  live :: "'h lease list"

text \<open>A connection id is minted per attach, so it is not one a live relay has.\<close>

inductive relay_step :: "'h relays \<Rightarrow> 'h relays \<Rightarrow> bool" where
  attach: "conn \<notin> lease_connection ` set (live s) \<Longrightarrow>
     register (registry s) key conn arrival = (r, l, ev) \<Longrightarrow>
     relay_step s \<lparr>registry = r, live = l # live s\<rparr>"
| detach: "l \<in> set (live s) \<Longrightarrow>
     relay_step s \<lparr>registry = drop_lease (registry s) l, live = filter (\<lambda>m. m \<noteq> l) (live s)\<rparr>"

definition init_relays :: "'h relays" where
  "init_relays = \<lparr>registry = empty_attach_registry, live = []\<rparr>"

inductive reachable_relays :: "'h relays \<Rightarrow> bool" where
  start: "reachable_relays init_relays"
| step: "reachable_relays s \<Longrightarrow> relay_step s t \<Longrightarrow> reachable_relays t"

text \<open>
  Live relays have distinct connections and signals; the holder of a key is a live relay
  that is not evicted; a live relay with a key is evicted or is the holder.
\<close>

definition holds :: "'h attach_registry \<Rightarrow> 'h lease \<Rightarrow> bool" where
  "holds r l \<longleftrightarrow>
     (\<exists>k g s. lease_key l = Some k \<and> lease_signal l = Some g \<and> slots r k = Some s \<and>
        slot_signal s = g \<and> slot_connection s = lease_connection l)"

definition lease_ok :: "'h attach_registry \<Rightarrow> 'h lease \<Rightarrow> bool" where
  "lease_ok r l \<longleftrightarrow>
     (lease_key l = None \<longleftrightarrow> lease_signal l = None) \<and>
     (\<forall>g. lease_signal l = Some g \<longrightarrow> g < next_signal r \<and> fired r g = (\<not> holds r l))"

definition slot_ok :: "'h relays \<Rightarrow> 'h attach_key \<Rightarrow> attach_slot \<Rightarrow> bool" where
  "slot_ok s k sl \<longleftrightarrow>
     \<lparr>lease_key = Some k, lease_connection = slot_connection sl, lease_signal = Some (slot_signal sl)\<rparr>
       \<in> set (live s)"

definition relays_inv :: "'h relays \<Rightarrow> bool" where
  "relays_inv s \<longleftrightarrow>
     (\<forall>l\<in>set (live s). lease_ok (registry s) l) \<and>
     (\<forall>l\<in>set (live s). \<forall>m\<in>set (live s). lease_connection l = lease_connection m \<longrightarrow> l = m) \<and>
     (\<forall>l\<in>set (live s). \<forall>m\<in>set (live s).
        lease_signal l = lease_signal m \<longrightarrow> lease_signal l \<noteq> None \<longrightarrow> l = m) \<and>
     (\<forall>k sl. slots (registry s) k = Some sl \<longrightarrow> slot_ok s k sl)"

lemma relays_inv_init: "relays_inv init_relays"
  by (simp add: relays_inv_def init_relays_def empty_attach_registry_def)

subsection \<open>The invariant\<close>

lemmas registry_defs = register_def fire_def deregister_def drop_lease_def Let_def

text \<open>How a registration changes the state, by case.\<close>

lemma register_cases:
  assumes "register r key conn a = (r', l, ev)"
  obtains (inert) "key = None" "r' = r" "l = \<lparr>lease_key = None, lease_connection = conn, lease_signal = None\<rparr>" "ev = None"
  | (vacant) k where "key = Some k" "slots r k = None" "ev = None"
      "l = \<lparr>lease_key = Some k, lease_connection = conn, lease_signal = Some (next_signal r)\<rparr>"
      "r' = \<lparr>slots = (slots r)(k \<mapsto> \<lparr>slot_connection = conn, slot_signal = next_signal r, slot_arrival = a\<rparr>),
             fired = (fired r)(next_signal r := False), next_signal = Suc (next_signal r)\<rparr>"
  | (stale) k old where "key = Some k" "slots r k = Some old" "slot_arrival old > a" "ev = None"
      "l = \<lparr>lease_key = Some k, lease_connection = conn, lease_signal = Some (next_signal r)\<rparr>"
      "r' = \<lparr>slots = slots r, fired = (fired r)(next_signal r := True), next_signal = Suc (next_signal r)\<rparr>"
  | (takeover) k old where "key = Some k" "slots r k = Some old" "\<not> slot_arrival old > a"
      "ev = Some (slot_connection old)"
      "l = \<lparr>lease_key = Some k, lease_connection = conn, lease_signal = Some (next_signal r)\<rparr>"
      "r' = \<lparr>slots = (slots r)(k \<mapsto> \<lparr>slot_connection = conn, slot_signal = next_signal r, slot_arrival = a\<rparr>),
             fired = (fired r)(next_signal r := False, slot_signal old := True), next_signal = Suc (next_signal r)\<rparr>"
proof (cases key)
  case None
  with assms inert show thesis by (simp add: register_def)
next
  case (Some k)
  show thesis
  proof (cases "slots r k")
    case None
    with Some assms vacant show thesis
      by (cases r) (simp add: registry_defs)
  next
    case old: (Some old)
    with Some assms stale takeover show thesis
      by (cases r) (cases "slot_arrival old > a"; simp add: registry_defs)
  qed
qed

lemma slot_holder:
  assumes "relays_inv s" "slots (registry s) k = Some sl"
  shows "\<lparr>lease_key = Some k, lease_connection = slot_connection sl, lease_signal = Some (slot_signal sl)\<rparr>
    \<in> set (live s)" "slot_signal sl < next_signal (registry s)" "\<not> fired (registry s) (slot_signal sl)"
proof -
  show l: "\<lparr>lease_key = Some k, lease_connection = slot_connection sl, lease_signal = Some (slot_signal sl)\<rparr>
    \<in> set (live s)"
    using assms by (auto simp: relays_inv_def slot_ok_def)
  then have "lease_ok (registry s)
      \<lparr>lease_key = Some k, lease_connection = slot_connection sl, lease_signal = Some (slot_signal sl)\<rparr>"
    using assms(1) by (auto simp: relays_inv_def)
  then show "slot_signal sl < next_signal (registry s)" "\<not> fired (registry s) (slot_signal sl)"
    using assms(2) by (auto simp: lease_ok_def holds_def)
qed

lemma live_signal:
  assumes "relays_inv s" "m \<in> set (live s)" "lease_signal m = Some g"
  shows "g < next_signal (registry s)" "fired (registry s) g = (\<not> holds (registry s) m)"
  using assms by (auto simp: relays_inv_def lease_ok_def)

lemma old_lease_ok:
  assumes inv: "relays_inv s" and m: "m \<in> set (live s)"
    and reg: "register (registry s) key conn a = (r', l, ev)"
  shows "lease_ok r' m"
proof (cases "lease_signal m")
  case None
  then show ?thesis using inv m by (auto simp: lease_ok_def relays_inv_def)
next
  case (Some g)
  note g = live_signal[OF inv m Some]
  have key: "lease_key m \<noteq> None" using inv m Some by (auto simp: relays_inv_def lease_ok_def)
  from reg show ?thesis
  proof (cases rule: register_cases)
    case inert
    then show ?thesis using inv m by (auto simp: relays_inv_def)
  next
    case (vacant k)
    then show ?thesis using g Some key by (auto simp: lease_ok_def holds_def)
  next
    case (stale k old)
    then show ?thesis using g Some key by (auto simp: lease_ok_def holds_def)
  next
    case (takeover k old)
    note h = slot_holder[OF inv takeover(2)]
    have same: "m = \<lparr>lease_key = Some k, lease_connection = slot_connection old, lease_signal = Some (slot_signal old)\<rparr>"
      if "g = slot_signal old"
      using inv m h(1) that Some by (auto simp: relays_inv_def)
    show ?thesis
    proof (cases "g = slot_signal old")
      case True
      with takeover g Some key same[OF True] show ?thesis by (auto simp: lease_ok_def holds_def)
    next
      case False
      with takeover g Some key show ?thesis by (auto simp: lease_ok_def holds_def)
    qed
  qed
qed

lemma new_lease_ok:
  assumes inv: "relays_inv s" and reg: "register (registry s) key conn a = (r', l, ev)"
  shows "lease_ok r' l"
  using reg
proof (cases rule: register_cases)
  case (stale k old)
  then show ?thesis using slot_holder(2)[OF inv stale(2)] by (auto simp: lease_ok_def holds_def)
next
  case (takeover k old)
  then show ?thesis using slot_holder(2)[OF inv takeover(2)] by (auto simp: lease_ok_def holds_def)
qed (auto simp: lease_ok_def holds_def)

lemma lease_fields:
  assumes "register r key conn a = (r', l, ev)"
  shows "lease_connection l = conn" "lease_key l = key"
    "lease_signal l = None \<or> lease_signal l = Some (next_signal r)"
    "slots r' k = Some sl \<Longrightarrow> slots r k = Some sl \<or>
       (key = Some k \<and> slot_connection sl = conn \<and> lease_signal l = Some (slot_signal sl))"
  using assms by (cases rule: register_cases; auto split: if_splits)+

lemma attach_inv [inv_intros]:
  assumes inv: "relays_inv s" and fresh: "conn \<notin> lease_connection ` set (live s)"
    and reg: "register (registry s) key conn a = (r', l, ev)"
  shows "relays_inv \<lparr>registry = r', live = l # live s\<rparr>"
proof -
  have sig: "lease_signal m \<noteq> Some (next_signal (registry s))" if "m \<in> set (live s)" for m
    using live_signal(1)[OF inv that] by (cases "lease_signal m") auto
  have slots: "slot_ok \<lparr>registry = r', live = l # live s\<rparr> k sl" if "slots r' k = Some sl" for k sl
  proof -
    from lease_fields(4)[OF reg that] show ?thesis
    proof
      assume "slots (registry s) k = Some sl"
      then show ?thesis using slot_holder(1)[OF inv] by (auto simp: slot_ok_def)
    next
      assume "key = Some k \<and> slot_connection sl = conn \<and> lease_signal l = Some (slot_signal sl)"
      then show ?thesis using lease_fields(1,2)[OF reg] by (cases l) (auto simp: slot_ok_def)
    qed
  qed
  show ?thesis
    using inv fresh sig slots lease_fields(1,3)[OF reg] old_lease_ok[OF inv _ reg] new_lease_ok[OF inv reg]
    unfolding relays_inv_def by (auto simp: image_iff)
qed

lemma drop_lease_holds:
  assumes inv: "relays_inv s" and l: "l \<in> set (live s)"
  shows "drop_lease (registry s) l =
    (if holds (registry s) l then (registry s)\<lparr>slots := (slots (registry s))(the (lease_key l) := None)\<rparr>
     else registry s)"
proof (cases "lease_key l")
  case None
  then show ?thesis by (simp add: drop_lease_def holds_def)
next
  case (Some k)
  show ?thesis
  proof (cases "slots (registry s) k")
    case None
    with Some show ?thesis by (simp add: registry_defs holds_def)
  next
    case sl: (Some sl)
    note h = slot_holder(1)[OF inv sl]
    have eq: "l = \<lparr>lease_key = Some k, lease_connection = slot_connection sl, lease_signal = Some (slot_signal sl)\<rparr>"
      if "slot_connection sl = lease_connection l"
      using inv l h that by (auto simp: relays_inv_def)
    show ?thesis
    proof (cases "slot_connection sl = lease_connection l")
      case True
      then have "holds (registry s) l" using eq[OF True] sl by (cases l) (auto simp: holds_def)
      with True Some sl show ?thesis by (simp add: registry_defs)
    next
      case False
      with Some sl show ?thesis by (auto simp: registry_defs holds_def)
    qed
  qed
qed

lemma detach_inv [inv_intros]:
  assumes inv: "relays_inv s" and l: "l \<in> set (live s)"
  shows "relays_inv \<lparr>registry = drop_lease (registry s) l, live = filter (\<lambda>m. m \<noteq> l) (live s)\<rparr>"
proof -
  let ?r = "registry s" and ?r' = "drop_lease (registry s) l"
  have frame: "fired ?r' = fired ?r" "next_signal ?r' = next_signal ?r"
    by (auto simp: drop_lease_holds[OF inv l])
  have other: "holds ?r' m = holds ?r m" if "m \<in> set (live s)" "m \<noteq> l" for m
  proof (cases "holds ?r l \<and> lease_key m = lease_key l")
    case True
    then obtain k g sl where k: "lease_key l = Some k" "slots ?r k = Some sl"
      "slot_connection sl = lease_connection l" by (auto simp: holds_def)
    moreover have "lease_connection m \<noteq> lease_connection l"
      using inv l that by (auto simp: relays_inv_def)
    ultimately show ?thesis using True by (auto simp: drop_lease_holds[OF inv l] holds_def)
  next
    case False
    then show ?thesis by (auto simp: drop_lease_holds[OF inv l] holds_def)
  qed
  have slots: "slot_ok \<lparr>registry = ?r', live = filter (\<lambda>m. m \<noteq> l) (live s)\<rparr> k sl"
    if "slots ?r' k = Some sl" for k sl
  proof -
    have sl: "slots ?r k = Some sl" "\<not> (holds ?r l \<and> lease_key l = Some k)"
      using that by (auto simp: drop_lease_holds[OF inv l] split: if_splits)
    have "\<lparr>lease_key = Some k, lease_connection = slot_connection sl, lease_signal = Some (slot_signal sl)\<rparr> \<noteq> l"
      using sl by (auto simp: holds_def)
    with slot_holder(1)[OF inv sl(1)] show ?thesis by (auto simp: slot_ok_def)
  qed
  have ok: "lease_ok ?r' m" if "m \<in> set (live s)" "m \<noteq> l" for m
    using inv that other[OF that] by (auto simp: lease_ok_def frame relays_inv_def)
  show ?thesis
    using inv slots ok unfolding relays_inv_def by auto
qed

lemma relay_step_inv: "relay_step s t \<Longrightarrow> relays_inv s \<Longrightarrow> relays_inv t"
  by (induction rule: relay_step.induct) (auto intro: inv_intros)

lemma reachable_relays_inv: "reachable_relays s \<Longrightarrow> relays_inv s"
  by (induction rule: reachable_relays.induct) (auto intro: relays_inv_init relay_step_inv)

lemma not_evicted_holds:
  assumes "relays_inv s" "l \<in> set (live s)" "lease_key l = Some k"
  shows "\<not> is_evicted (registry s) l \<longleftrightarrow> holder (registry s) k = Some (lease_connection l)"
proof -
  obtain g where g: "lease_signal l = Some g"
    using assms by (force simp: relays_inv_def lease_ok_def)
  have "\<not> is_evicted (registry s) l \<longleftrightarrow> holds (registry s) l"
    using live_signal(2)[OF assms(1,2) g] g by (simp add: is_evicted_def)
  also have "\<dots> \<longleftrightarrow> holder (registry s) k = Some (lease_connection l)"
  proof
    assume "holder (registry s) k = Some (lease_connection l)"
    then obtain sl where sl: "slots (registry s) k = Some sl" "slot_connection sl = lease_connection l"
      by (auto simp: holder_def)
    have "l = \<lparr>lease_key = Some k, lease_connection = slot_connection sl, lease_signal = Some (slot_signal sl)\<rparr>"
      using slot_holder(1)[OF assms(1) sl(1)] assms(1,2) sl(2) by (auto simp: relays_inv_def)
    then show "holds (registry s) l" using sl by (cases l) (auto simp: holds_def)
  qed (use assms(3) in \<open>auto simp: holds_def holder_def\<close>)
  finally show ?thesis .
qed

subsection \<open>Properties\<close>

text \<open>
  (at most one live relay per client instance). In every reachable state of any number
  of attaching and detaching relays, two live relays with the same token identity and
  client instance id are never both un-evicted, and the un-evicted one is the registered
  holder of that key.
\<close>

theorem one_relay_per_instance:
  assumes "reachable_relays s" "l \<in> set (live s)" "m \<in> set (live s)"
    and "lease_key l = Some k" "lease_key m = Some k"
    and "\<not> is_evicted (registry s) l" "\<not> is_evicted (registry s) m"
  shows "l = m \<and> holder (registry s) k = Some (lease_connection l)"
proof -
  note inv = reachable_relays_inv[OF assms(1)]
  have "holder (registry s) k = Some (lease_connection l)" "holder (registry s) k = Some (lease_connection m)"
    using not_evicted_holds[OF inv] assms by blast+
  then show ?thesis using inv assms(2,3) by (auto simp: relays_inv_def)
qed

text \<open>
  (a torn-down relay never removes its successor). When an evicted relay's lease is
  dropped the registry is unchanged; when the holder's is, exactly its own key is freed.
  A relay without a key is never evicted and its drop changes nothing.
\<close>

theorem drop_keeps_successor:
  assumes "reachable_relays s" "l \<in> set (live s)"
  shows "(is_evicted (registry s) l \<longrightarrow> drop_lease (registry s) l = registry s) \<and>
    (lease_key l = None \<longrightarrow> \<not> is_evicted (registry s) l \<and> drop_lease (registry s) l = registry s) \<and>
    (\<forall>k. lease_key l = Some k \<and> \<not> is_evicted (registry s) l \<longrightarrow>
       drop_lease (registry s) l = (registry s)\<lparr>slots := (slots (registry s))(k := None)\<rparr>)"
proof -
  note inv = reachable_relays_inv[OF assms(1)]
  have ok: "lease_ok (registry s) l" using inv assms(2) by (auto simp: relays_inv_def)
  have "is_evicted (registry s) l \<longleftrightarrow> lease_key l \<noteq> None \<and> \<not> holds (registry s) l"
    using ok by (cases "lease_signal l") (auto simp: lease_ok_def is_evicted_def)
  moreover have "lease_key l = None \<Longrightarrow> \<not> holds (registry s) l" by (simp add: holds_def)
  ultimately show ?thesis by (auto simp: drop_lease_holds[OF inv assms(2)])
qed

text \<open>
  (the later arrival wins, in either order). Two attaches with the same key that race
  to register end, whichever registers first, with the later arrival holding the key and
  only the earlier one evicted.
\<close>

theorem later_arrival_wins:
  assumes "slots r k = None" "a < b" "ca \<noteq> cb"
  shows "(let (r1, la, _) = register r (Some k) ca a; (r2, lb, ev) = register r1 (Some k) cb b
          in holder r2 k = Some cb \<and> is_evicted r2 la \<and> \<not> is_evicted r2 lb \<and> ev = Some ca) \<and>
         (let (r1, lb, _) = register r (Some k) cb b; (r2, la, ev) = register r1 (Some k) ca a
          in holder r2 k = Some cb \<and> is_evicted r2 la \<and> \<not> is_evicted r2 lb \<and> ev = None)"
  using assms by (auto simp: registry_defs holder_def is_evicted_def)

text \<open>Witnesses: two attaches of one phone, the second after a network change.\<close>

definition demo_key :: "string attach_key" where
  "demo_key = \<lparr>key_token = ''tok'', instance_id = ''phone''\<rparr>"

definition demo_first :: "string lease" where
  "demo_first = \<lparr>lease_key = Some demo_key, lease_connection = ''c1'', lease_signal = Some 0\<rparr>"

definition demo_second :: "string lease" where
  "demo_second = \<lparr>lease_key = Some demo_key, lease_connection = ''c2'', lease_signal = Some 1\<rparr>"

definition demo_registry :: "string attach_registry" where
  "demo_registry =
     \<lparr>slots = [demo_key \<mapsto> \<lparr>slot_connection = ''c2'', slot_signal = 1, slot_arrival = 2\<rparr>],
      fired = (\<lambda>_. False)(0 := True), next_signal = 2\<rparr>"

lemma demo_reachable:
  "reachable_relays \<lparr>registry = demo_registry, live = [demo_second, demo_first]\<rparr>"
proof -
  let ?r1 = "\<lparr>slots = [demo_key \<mapsto> \<lparr>slot_connection = ''c1'', slot_signal = 0, slot_arrival = 1\<rparr>],
    fired = (\<lambda>_. False), next_signal = 1\<rparr>"
  have [simp]: "(\<lambda>_. False)(n := False) = (\<lambda>_. False)" for n :: nat
    by auto
  have "relay_step init_relays \<lparr>registry = ?r1, live = [demo_first]\<rparr>"
    using attach[of "''c1''" init_relays "Some demo_key" 1]
    by (auto simp: init_relays_def empty_attach_registry_def registry_defs demo_first_def fun_eq_iff)
  then have one: "reachable_relays \<lparr>registry = ?r1, live = [demo_first]\<rparr>"
    by (rule reachable_relays.step[OF reachable_relays.start])
  have "relay_step \<lparr>registry = ?r1, live = [demo_first]\<rparr>
      \<lparr>registry = demo_registry, live = [demo_second, demo_first]\<rparr>"
    using attach[of "''c2''" "\<lparr>registry = ?r1, live = [demo_first]\<rparr>" "Some demo_key" 2]
    by (auto simp: registry_defs demo_first_def demo_second_def demo_registry_def fun_upd_twist numeral_2_eq_2)
  then show ?thesis by (rule reachable_relays.step[OF one])
qed

theorem one_relay_per_instance_witness:
  "demo_second = demo_second \<and> holder demo_registry demo_key = Some ''c2''"
  using one_relay_per_instance[OF demo_reachable, of demo_second demo_second demo_key]
  by (simp add: demo_second_def demo_registry_def is_evicted_def)

theorem drop_keeps_successor_witness:
  "is_evicted demo_registry demo_first \<and> drop_lease demo_registry demo_first = demo_registry"
  using drop_keeps_successor[OF demo_reachable, of demo_first]
  by (simp add: demo_first_def demo_registry_def is_evicted_def)

theorem later_arrival_wins_witness:
  "let (r1, lb, _) = register empty_attach_registry (Some demo_key) ''c2'' 2;
       (r2, la, ev) = register r1 (Some demo_key) ''c1'' 1
   in holder r2 demo_key = Some ''c2'' \<and> is_evicted r2 la \<and> \<not> is_evicted r2 lb \<and> ev = None"
  using later_arrival_wins[of empty_attach_registry demo_key 1 2 "''c1''" "''c2''"]
  by (simp add: empty_attach_registry_def)

end
