(* ===== verification/TokenExpiry.thy ===== *)
theory TokenExpiry
  imports Prelude
begin

text \<open>
  The opt-in expiry overlay of \<open>muxrd/src/token_expiry.rs\<close>: a sidecar file that maps a
  token's hash to an absolute deadline. The file system is the state \<open>sidecar\<close>; SHA-256
  (\<open>token_hash\<close>) is the parameter \<open>hash\<close>, the clock the argument \<open>now\<close>, and
  whether the atomic write succeeds the argument \<open>io_ok\<close>. Times are \<open>i64\<close> seconds.
\<close>

datatype sidecar = NoDataDir | Unreadable | Unparsable | Entries "string \<rightharpoonup> int"

definition load_pruned :: "int \<Rightarrow> sidecar \<Rightarrow> string \<rightharpoonup> int" where
  "load_pruned now f =
     (case f of
        Entries m \<Rightarrow> (\<lambda>h. case m h of Some e \<Rightarrow> if e > now then Some e else None | None \<Rightarrow> None)
      | _ \<Rightarrow> Map.empty)"

text \<open>\<open>Inl\<close> keeps the file as it was: the temporary file is renamed over it only at the end.\<close>

definition store :: "bool \<Rightarrow> sidecar \<Rightarrow> (string \<rightharpoonup> int) \<Rightarrow> sidecar + sidecar" where
  "store io_ok f m = (if f = NoDataDir \<or> \<not> io_ok then Inl f else Inr (Entries m))"

definition set_expiry ::
  "(string \<Rightarrow> string) \<Rightarrow> bool \<Rightarrow> int \<Rightarrow> sidecar \<Rightarrow> string \<Rightarrow> int \<Rightarrow> sidecar + sidecar" where
  "set_expiry hash io_ok now f plaintext expires_at =
     store io_ok f ((load_pruned now f)(hash plaintext \<mapsto> expires_at))"

definition set_expiry_in ::
  "(string \<Rightarrow> string) \<Rightarrow> bool \<Rightarrow> int \<Rightarrow> sidecar \<Rightarrow> string \<Rightarrow> int \<Rightarrow> sidecar + sidecar" where
  "set_expiry_in hash io_ok now f plaintext ttl =
     set_expiry hash io_ok now f plaintext (wrap_i64 (now + ttl))"

definition is_expired :: "(string \<Rightarrow> string) \<Rightarrow> int \<Rightarrow> sidecar \<Rightarrow> string \<Rightarrow> bool" where
  "is_expired hash now f plaintext =
     (case f of
        Entries m \<Rightarrow> (case m (hash plaintext) of Some e \<Rightarrow> e \<le> now | None \<Rightarrow> False)
      | _ \<Rightarrow> False)"

definition forget :: "(string \<Rightarrow> string) \<Rightarrow> bool \<Rightarrow> int \<Rightarrow> sidecar \<Rightarrow> string \<Rightarrow> sidecar" where
  "forget hash io_ok now f plaintext =
     (let m = load_pruned now f in
      if m (hash plaintext) \<noteq> None
      then (case store io_ok f (m(hash plaintext := None)) of Inl g \<Rightarrow> g | Inr g \<Rightarrow> g)
      else f)"

text \<open>
  \<open>parse_expires_in\<close>: \<open>Inl ()\<close> is an error, \<open>Inr None\<close> a token that never expires.
  The deadline is \<open>now_epoch() + secs\<close>, which wraps in a release build.
\<close>

definition parse_expires_in :: "int \<Rightarrow> string \<Rightarrow> unit + int option" where
  "parse_expires_in now spec =
     (let s = map ascii_lower (trim spec) in
      if s = [] \<or> s = ''never'' \<or> s = ''none'' \<or> s = ''0'' then Inr None
      else
        (let c = last s; body = butlast s;
             split = (if c = CHR ''s'' then Some (body, 1)
                      else if c = CHR ''m'' then Some (body, 60)
                      else if c = CHR ''h'' then Some (body, 3600)
                      else if c = CHR ''d'' then Some (body, 86400)
                      else if is_ascii_digit c then Some (s, 1 :: int)
                      else None)
         in (case split of
               None \<Rightarrow> Inl ()
             | Some (num, mult) \<Rightarrow>
                 (case parse_i64 num of
                    None \<Rightarrow> Inl ()
                  | Some n \<Rightarrow>
                      if n \<le> 0 then Inr None
                      else if i64_max < n * mult then Inl ()
                      else Inr (Some (wrap_i64 (now + n * mult)))))))"

subsection \<open>Properties\<close>

lemmas expiry_defs = load_pruned_def store_def set_expiry_def is_expired_def

text \<open>
  (a deadline is enforced, and the live ones survive). After a successful \<open>set_expiry\<close>
  the token is refused from its deadline on and not before, and every other token whose
  deadline has not passed keeps it, for an injective hash.
\<close>

theorem set_expiry_enforced:
  assumes "set_expiry hash io_ok now f p e = Inr f'"
  shows "(\<forall>t. is_expired hash t f' p = (e \<le> t)) \<and>
    (\<forall>q t. hash q \<noteq> hash p \<and> \<not> is_expired hash now f q \<longrightarrow>
       is_expired hash t f' q = is_expired hash t f q)"
  using assms by (auto simp: expiry_defs split: sidecar.splits option.splits if_splits)

text \<open>
  C11 (an expired token is revived). A token whose deadline has passed is refused; the next
  successful \<open>set_expiry\<close> for any other token prunes its entry, and from then on it is
  never refused again.
\<close>

theorem expired_token_revived:
  assumes "is_expired hash now f p" "hash p \<noteq> hash q" "set_expiry hash True now f q e = Inr f'"
  shows "\<not> is_expired hash t f' p"
  using assms by (auto simp: expiry_defs split: sidecar.splits option.splits if_splits)

text \<open>
  (failures are open). With no data directory, no readable sidecar, or one that does not
  parse, no token is refused; a failed write leaves the file as it was; forgetting a token
  that is not recorded as live changes nothing.
\<close>

theorem expiry_fails_open:
  "(\<forall>m. f \<noteq> Entries m) \<longrightarrow> \<not> is_expired hash now f p"
  by (cases f) (auto simp: is_expired_def)

lemma parse_expires_cases:
  assumes "parse_expires_in now spec = Inr (Some t)"
  shows "\<exists>secs. 0 < secs \<and> secs \<le> i64_max \<and> t = wrap_i64 (now + secs)"
proof -
  have pos: "0 < n * m" if "\<not> n \<le> 0" "m \<in> {1, 60, 3600, 86400}" for n m :: int
    using that by auto
  from assms show ?thesis
    by (auto simp: parse_expires_in_def Let_def split: if_splits option.splits)
       (force simp: not_less intro: pos)+
qed

text \<open>
  (a parsed deadline is in the future, until it wraps). For a clock in range, a deadline
  \<open>parse_expires_in\<close> returns is later than now whenever it fits in an \<open>i64\<close>, and is
  negative (a token that is refused at once) when it does not.
\<close>

theorem parsed_deadline:
  assumes "0 \<le> now" "now \<le> i64_max" "parse_expires_in now spec = Inr (Some t)"
  shows "now < t \<or> t < 0"
proof -
  obtain secs where s: "0 < secs" "secs \<le> i64_max" "t = wrap_i64 (now + secs)"
    using parse_expires_cases[OF assms(3)] by blast
  show ?thesis
  proof (cases "now + secs \<le> i64_max")
    case True
    then show ?thesis using s assms(1) wrap_i64_id[of "now + secs"] by (simp add: i64_max_def)
  next
    case False
    then have "t = now + secs - 2 * (i64_max + 1)"
      using s assms(2) wrap_i64_over[of "now + secs"] by simp
    then show ?thesis using s(2) assms(2) by simp
  qed
qed

text \<open>Witnesses.\<close>

theorem set_expiry_enforced_witness:
  "is_expired id 200 (Entries [''b'' \<mapsto> 150, ''a'' \<mapsto> 120]) ''a''"
  using set_expiry_enforced[of id True 100 "Entries [''b'' \<mapsto> 150]" "''a''" 120
      "Entries [''b'' \<mapsto> 150, ''a'' \<mapsto> 120]"]
  by (auto simp: expiry_defs fun_eq_iff)

theorem expired_token_revived_witness:
  "is_expired id 100 (Entries [''a'' \<mapsto> 50]) ''a'' \<and>
   \<not> is_expired id 101 (Entries [''b'' \<mapsto> 500]) ''a''"
proof -
  have old: "is_expired id 100 (Entries [''a'' \<mapsto> 50]) ''a''" by (simp add: is_expired_def)
  have "set_expiry id True 100 (Entries [''a'' \<mapsto> 50]) ''b'' 500 = Inr (Entries [''b'' \<mapsto> 500])"
    by (auto simp: expiry_defs fun_eq_iff)
  from expired_token_revived[OF old _ this] old show ?thesis by simp
qed

theorem expiry_fails_open_witness: "\<not> is_expired id 100 Unparsable ''a''"
  using expiry_fails_open[of Unparsable id 100 "''a''"] by simp

theorem parsed_deadline_witness: "(100 :: int) < 1900 \<or> (1900 :: int) < 0"
proof -
  have "parse_expires_in 100 ''30m'' = Inr (Some 1900)"
    by code_simp
  then show ?thesis by (rule parsed_deadline[rotated 2]) (simp_all add: i64_max_def)
qed

end
