(* ===== verification/Auth.thy ===== *)
theory Auth
  imports PaneOps TokenExpiry
begin

text \<open>
  Authentication: the bearer layer of \<open>muxrd/src/auth.rs\<close> and the token handlers of
  \<open>muxrd/src/grpc/token_ops.rs\<close>. zellij's token database is the record \<open>token_db\<close> of
  parameters, \<open>None\<close> where an operation answers with an error.
\<close>

record token_db =
  validate_session_token :: "string \<Rightarrow> bool option"
  is_session_token_read_only :: "string \<Rightarrow> bool option"
  create_session_token :: "string \<Rightarrow> bool \<Rightarrow> string option"
  create_token :: "string option \<Rightarrow> bool \<Rightarrow> (string \<times> string) option"
  revoke_token :: "string \<Rightarrow> bool option"

subsection \<open>The bearer layer\<close>

definition PUBLIC_PATHS :: "string list" where
  "PUBLIC_PATHS = [''/muxr.v1.Muxr/GetVersion'', ''/muxr.v1.Muxr/Login'']"

text \<open>\<open>HeaderValue::to_str\<close> accepts visible ASCII and tab.\<close>

definition header_to_str :: "string \<Rightarrow> string option" where
  "header_to_str v =
     (if list_all (\<lambda>c. byte c = 9 \<or> (32 \<le> byte c \<and> byte c < 127)) v then Some v else None)"

lemma header_to_str_Some: "header_to_str h = Some v \<Longrightarrow> v = h"
  by (simp add: header_to_str_def split: if_splits)

definition check_bearer :: "token_db \<Rightarrow> string option \<Rightarrow> status + bool \<times> string" where
  "check_bearer db authorization =
     (case authorization of
        None \<Rightarrow> Inl Unauthenticated
      | Some h \<Rightarrow>
          (case header_to_str h of
             None \<Rightarrow> Inl Unauthenticated
           | Some v \<Rightarrow>
               (case strip_prefix ''Bearer '' v of
                  None \<Rightarrow> Inl Unauthenticated
                | Some token \<Rightarrow>
                    if token = [] then Inl Unauthenticated
                    else
                      (case validate_session_token db token of
                         None \<Rightarrow> Inl Unauthenticated
                       | Some False \<Rightarrow> Inl Unauthenticated
                       | Some True \<Rightarrow>
                           let ro = (case is_session_token_read_only db token of
                                       Some b \<Rightarrow> b | None \<Rightarrow> True)
                           in Inr (ro, token)))))"

text \<open>
  The extensions stashed on a forwarded request (\<open>None\<close> on a public path).
\<close>

record extensions =
  session_read_only :: bool
  session_token :: string

datatype layer_result = Forward "extensions option" | RejectWith status

definition bearer_layer :: "token_db \<Rightarrow> string \<Rightarrow> string option \<Rightarrow> layer_result" where
  "bearer_layer db path authorization =
     (if path \<in> set PUBLIC_PATHS then Forward None
      else
        (case check_bearer db authorization of
           Inr (ro, token) \<Rightarrow> Forward (Some \<lparr>session_read_only = ro, session_token = token\<rparr>)
         | Inl e \<Rightarrow> RejectWith e))"

subsection \<open>Login and token management\<close>

definition login_impl ::
  "token_db \<Rightarrow> (string \<Rightarrow> bool) \<Rightarrow> string \<Rightarrow> bool \<Rightarrow> status + string \<times> bool" where
  "login_impl db expired auth_token remember_me =
     (if expired auth_token then Inl Unauthenticated
      else
        (case create_session_token db auth_token remember_me of
           None \<Rightarrow> Inl Unauthenticated
         | Some t \<Rightarrow>
             Inr (t, case is_session_token_read_only db t of Some b \<Rightarrow> b | None \<Rightarrow> True)))"

record token_info =
  ti_name :: string
  ti_token :: string
  ti_read_only :: bool
  ti_created_at :: string

definition create_token_impl ::
  "token_db \<Rightarrow> bool option \<Rightarrow> string \<Rightarrow> bool \<Rightarrow> status + token_info" where
  "create_token_impl db ext name ro =
     (case reject_if_read_only ext of
        Inl e \<Rightarrow> Inl e
      | Inr _ \<Rightarrow>
          let n = trim name in
          (case create_token db (if n = [] then None else Some n) ro of
             None \<Rightarrow> Inl Internal
           | Some (token, actual) \<Rightarrow>
               Inr \<lparr>ti_name = actual, ti_token = token, ti_read_only = ro, ti_created_at = ''''\<rparr>))"

text \<open>The rows \<open>list_tokens\<close> answers with, secrets included; \<open>None\<close> is a database error.\<close>

definition list_tokens_impl ::
  "token_info list option \<Rightarrow> bool option \<Rightarrow> status + token_info list" where
  "list_tokens_impl rows ext =
     (case reject_if_read_only ext of
        Inl e \<Rightarrow> Inl e
      | Inr _ \<Rightarrow>
          (case rows of
             None \<Rightarrow> Inl Internal
           | Some ts \<Rightarrow> Inr (map (\<lambda>t. t\<lparr>ti_token := ''''\<rparr>) ts)))"

definition revoke_token_impl :: "token_db \<Rightarrow> bool option \<Rightarrow> string \<Rightarrow> status + bool" where
  "revoke_token_impl db ext name =
     (case reject_if_read_only ext of
        Inl e \<Rightarrow> Inl e
      | Inr _ \<Rightarrow>
          if trim name = [] then Inl InvalidArgument
          else (case revoke_token db name of None \<Rightarrow> Inl Internal | Some removed \<Rightarrow> Inr removed))"

subsection \<open>Version and capabilities\<close>

record backend_info =
  bi_version :: string
  bi_supports_agents :: bool

record version_info =
  vi_zellij_version :: string
  vi_backends :: "(backend_kind \<times> string) list"
  vi_capabilities :: "string list"
  vi_relay_url :: string

definition get_version_impl ::
  "(backend_kind \<times> backend_info) list \<Rightarrow> string option \<Rightarrow> bool \<Rightarrow> version_info" where
  "get_version_impl bs relay_url has_bus =
     (let push_available = (relay_url \<noteq> None \<and> backend_get bs Herdr \<noteq> None)
      in \<lparr>vi_zellij_version =
            foldl (\<lambda>v (k, b). if k = Zellij then bi_version b else v) '''' bs,
          vi_backends = map (\<lambda>(k, b). (k, bi_version b)) bs,
          vi_capabilities =
            [''mouse-input''] @
            (if push_available then [''push-notifications''] else []) @
            (if list_ex (\<lambda>(_, b). bi_supports_agents b) bs then [''agents''] else []) @
            (if has_bus then [''agents-stream''] else []),
          vi_relay_url =
            (if push_available then (case relay_url of Some u \<Rightarrow> u | None \<Rightarrow> '''') else '''')\<rparr>)"

subsection \<open>A whole request\<close>


lemma check_bearer_Inr:
  "check_bearer db a = Inr (ro, t) \<longleftrightarrow>
     a = Some (''Bearer '' @ t) \<and> header_to_str (''Bearer '' @ t) = Some (''Bearer '' @ t) \<and> t \<noteq> [] \<and>
     validate_session_token db t = Some True \<and>
     ro = (is_session_token_read_only db t \<noteq> Some False)"
proof (cases "a = Some (''Bearer '' @ t) \<and> header_to_str (''Bearer '' @ t) = Some (''Bearer '' @ t)")
  case True
  moreover have "strip_prefix ''Bearer '' (''Bearer '' @ t) = Some t"
    by (simp only: strip_prefix_Some)
  ultimately show ?thesis
    by (auto simp: check_bearer_def Let_def simp del: strip_prefix.simps append.simps
        split: option.splits bool.splits if_splits)
next
  case False
  then have "check_bearer db a \<noteq> Inr (ro, t)"
    using header_to_str_Some
    by (auto simp: check_bearer_def strip_prefix_Some Let_def simp del: strip_prefix.simps append.simps
        split: option.splits bool.splits if_splits)
  with False show ?thesis by blast
qed

subsection \<open>Properties\<close>

text \<open>
  (authentication). A request off the public paths is forwarded exactly when its
  authorization header is \<open>Bearer\<close> followed by a non-empty token in visible ASCII that the
  token database validates, and its read-only flag is false only when the database says so:
  an error reading the flag makes the request read-only.
\<close>

theorem bearer_fail_closed:
  assumes "path \<notin> set PUBLIC_PATHS"
  shows "bearer_layer db path a = Forward ext \<longleftrightarrow>
    (\<exists>t. a = Some (''Bearer '' @ t) \<and> header_to_str (''Bearer '' @ t) \<noteq> None \<and> t \<noteq> [] \<and>
       validate_session_token db t = Some True \<and>
       ext = Some \<lparr>session_read_only = (is_session_token_read_only db t \<noteq> Some False), session_token = t\<rparr>)"
proof -
  have "header_to_str v \<noteq> None \<longleftrightarrow> header_to_str v = Some v" for v
    by (simp add: header_to_str_def)
  then show ?thesis
    using assms check_bearer_Inr[of db a]
    by (auto simp: bearer_layer_def split: sum.splits)
       (metis Inl_Inr_False old.sum.exhaust surj_pair)+
qed


text \<open>
  (login). A session token is issued only for an auth token that is not expired and that
  the database exchanges; the caller is told it may write only if the database says so.
  With the expiry overlay this is the point where a pairing token's deadline counts.
\<close>

theorem login_respects_expiry:
  "login_impl db (is_expired hash now f) tok rm = Inr (t, ro) \<longleftrightarrow>
     \<not> is_expired hash now f tok \<and> create_session_token db tok rm = Some t \<and>
     ro = (is_session_token_read_only db t \<noteq> Some False)"
  by (auto simp: login_impl_def split: option.splits if_splits)

text \<open>
  (secrets stay put). Token management is refused to read-only callers, and a listing
  never carries a token's secret.
\<close>

theorem token_admin_gated:
  "(ext \<noteq> Some False \<longrightarrow>
      create_token_impl db ext n ro = Inl PermissionDenied \<and>
      list_tokens_impl rows ext = Inl PermissionDenied \<and>
      revoke_token_impl db ext n = Inl PermissionDenied) \<and>
   (list_tokens_impl rows ext = Inr ts \<longrightarrow> (\<forall>t\<in>set ts. ti_token t = ''''))"
proof -
  have "ext \<noteq> Some False \<Longrightarrow> reject_if_read_only ext = Inl PermissionDenied"
    by (cases ext) auto
  then show ?thesis
    by (auto simp: create_token_impl_def list_tokens_impl_def revoke_token_impl_def
        split: sum.splits option.splits)
qed

text \<open>
  (push is advertised only when it can be delivered). The relay URL and the
  \<open>push-notifications\<close> capability appear together, exactly when a relay is configured and
  a herdr backend runs.
\<close>

theorem push_advertised_iff:
  assumes "u \<noteq> ''''"
  shows "(vi_relay_url (get_version_impl bs (Some u) bus) = u \<longleftrightarrow> Herdr \<in> fst ` set bs) \<and>
    (''push-notifications'' \<in> set (vi_capabilities (get_version_impl bs url bus)) \<longleftrightarrow>
       url \<noteq> None \<and> Herdr \<in> fst ` set bs)"
  using assms backend_get_None[of bs Herdr] by (auto simp: get_version_impl_def Let_def)

text \<open>Witnesses.\<close>

definition demo_db :: token_db where
  "demo_db =
     \<lparr>validate_session_token = (\<lambda>t. Some (t = ''s1'' \<or> t = ''s2'')),
      is_session_token_read_only = (\<lambda>t. if t = ''s1'' then Some False else None),
      create_session_token = (\<lambda>t _. if t = ''pair'' then Some ''s1'' else None),
      create_token = (\<lambda>_ _. None), revoke_token = (\<lambda>_. None)\<rparr>"

theorem bearer_fail_closed_witness:
  "bearer_layer demo_db ''/muxr.v1.Muxr/GetLayout'' (Some ''Bearer s2'') =
     Forward (Some \<lparr>session_read_only = True, session_token = ''s2''\<rparr>)"
  by (subst bearer_fail_closed)
     (auto simp: PUBLIC_PATHS_def demo_db_def header_to_str_def byte_def intro: exI[of _ "''s2''"])


theorem token_admin_gated_witness:
  "list_tokens_impl None (Some True) = Inl PermissionDenied"
  using token_admin_gated[of "Some True" demo_db "''x''" False None "[]"] by simp

theorem push_advertised_iff_witness:
  "''push-notifications'' \<notin> set (vi_capabilities (get_version_impl
     [(Zellij, \<lparr>bi_version = ''0.45.1'', bi_supports_agents = False\<rparr>)] (Some ''https://r'') True))"
  using push_advertised_iff[of "''https://r''"
      "[(Zellij, \<lparr>bi_version = ''0.45.1'', bi_supports_agents = False\<rparr>)]" True "Some ''https://r''"]
  by simp

end
