(* ===== verification/TokenBucket.thy ===== *)
theory TokenBucket
  imports Prelude Complex_Main
begin

text \<open>
  What the two rate limiters of the repository share: \<open>f64\<close> arithmetic on times and
  token counts, and the contract of a keyed token-bucket limiter as a locale.

  A finite \<open>f64\<close> is a rational; every arithmetic operation rounds its exact result with
  the parameter \<open>rnd\<close> (\<open>id\<close> is exact arithmetic). An \<open>Instant\<close> is a number of
  nanoseconds, and \<open>duration_since\<close> saturates, as subtraction of naturals does.
\<close>

definition nanos_per_sec :: nat where
  "nanos_per_sec = 1000000000"

text \<open>\<open>Duration::as_secs_f64\<close>.\<close>

definition as_secs_f64 :: "(rat \<Rightarrow> rat) \<Rightarrow> nat \<Rightarrow> rat" where
  "as_secs_f64 rnd n =
     rnd (rnd (of_nat (n div nanos_per_sec)) +
          rnd (of_nat (n mod nanos_per_sec) / of_nat nanos_per_sec))"

definition secs :: "nat \<Rightarrow> rat" where
  "secs n = of_nat n / 1000000000"

lemma as_secs_f64_id [simp]: "as_secs_f64 id n = secs n"
proof -
  have "(of_nat n :: rat) = of_nat (n div nanos_per_sec * nanos_per_sec + n mod nanos_per_sec)"
    by simp
  also have "\<dots> = of_nat (n div nanos_per_sec) * 1000000000 + of_nat (n mod nanos_per_sec)"
    by (simp only: of_nat_add of_nat_mult) (simp add: nanos_per_sec_def)
  finally show ?thesis by (simp add: as_secs_f64_def secs_def nanos_per_sec_def)
qed

lemma as_secs_f64_zero: "rnd 0 = 0 \<Longrightarrow> as_secs_f64 rnd 0 = 0"
  by (simp add: as_secs_f64_def)

lemma secs_nonneg [simp]: "0 \<le> secs n"
  by (simp add: secs_def)

lemma secs_zero [simp]: "secs 0 = 0"
  by (simp add: secs_def)

lemma secs_add: "secs (m + n) = secs m + secs n"
  by (simp add: secs_def add_divide_distrib)

lemma secs_split: "a \<le> b \<Longrightarrow> b \<le> c \<Longrightarrow> secs (c - a) = secs (b - a) + secs (c - b)"
  using secs_add[of "b - a" "c - b"] by simp

text \<open>Refilling in two steps is refilling once.\<close>

lemma refill_twice:
  fixes x :: rat
  assumes "0 \<le> r" "a \<le> b" "b \<le> c"
  shows "min (min (x + secs (b - a) * r) cap + secs (c - b) * r) cap = min (x + secs (c - a) * r) cap"
proof -
  have "0 \<le> secs (c - b) * r" using assms(1) by simp
  then show ?thesis using secs_split[OF assms(2,3)]
    by (auto simp: min_def algebra_simps)
qed

subsection \<open>The contract of a keyed limiter\<close>

text \<open>
  \<open>acquire s k t\<close> asks for one token for the key \<open>k\<close> at time \<open>t\<close>; \<open>avail s k t\<close> is
  what the key has then. \<open>inv s t K\<close> says that the state is well-formed, has seen no
  time after \<open>t\<close>, and has room for the keys \<open>K\<close>.
\<close>

locale rate_limiter =
  fixes acquire :: "'s \<Rightarrow> 'k \<Rightarrow> nat \<Rightarrow> 's \<times> bool"
    and avail :: "'s \<Rightarrow> 'k \<Rightarrow> nat \<Rightarrow> rat"
    and inv :: "'s \<Rightarrow> nat \<Rightarrow> 'k set \<Rightarrow> bool"
    and cap :: "'s \<Rightarrow> rat"
    and rate :: "'s \<Rightarrow> rat"
  assumes rate_pos: "inv s t K \<Longrightarrow> 0 < rate s"
    and inv_mono: "inv s t K \<Longrightarrow> t \<le> u \<Longrightarrow> inv s u K"
    and acquire_inv: "inv s t K \<Longrightarrow> k \<in> K \<Longrightarrow> inv (fst (acquire s k t)) t K"
    and acquire_cap: "cap (fst (acquire s k t)) = cap s"
    and acquire_rate: "rate (fst (acquire s k t)) = rate s"
    and avail_nonneg: "inv s t K \<Longrightarrow> 0 \<le> avail s k t"
    and acquire_ok: "inv s t K \<Longrightarrow> k \<in> K \<Longrightarrow> snd (acquire s k t) \<longleftrightarrow> 1 \<le> avail s k t"
    and acquire_own: "inv s t K \<Longrightarrow> k \<in> K \<Longrightarrow>
      avail (fst (acquire s k t)) k t = (if 1 \<le> avail s k t then avail s k t - 1 else avail s k t)"
    and acquire_other: "inv s t K \<Longrightarrow> k \<in> K \<Longrightarrow> j \<noteq> k \<Longrightarrow>
      avail (fst (acquire s k t)) j t = avail s j t"
    and refill: "inv s t K \<Longrightarrow> t \<le> u \<Longrightarrow> avail s k u = min (avail s k t + secs (u - t) * rate s) (cap s)"

text \<open>The answers to a sequence of requests.\<close>

fun answers :: "('s \<Rightarrow> 'k \<Rightarrow> nat \<Rightarrow> 's \<times> bool) \<Rightarrow> 's \<Rightarrow> ('k \<times> nat) list \<Rightarrow> ('k \<times> bool) list" where
  "answers acq s [] = []"
| "answers acq s ((k, t) # rs) = (k, snd (acq s k t)) # answers acq (fst (acq s k t)) rs"

definition admitted :: "'k \<Rightarrow> ('k \<times> bool) list \<Rightarrow> nat" where
  "admitted k as = length (filter (\<lambda>a. a = (k, True)) as)"

definition of_key :: "'k \<Rightarrow> ('k \<times> 'a) list \<Rightarrow> ('k \<times> 'a) list" where
  "of_key k xs = filter (\<lambda>x. fst x = k) xs"

lemma admitted_simps [simp]:
  "admitted k [] = 0"
  "admitted k ((j, ok) # as) = (if j = k \<and> ok then Suc (admitted k as) else admitted k as)"
  by (simp_all add: admitted_def)

lemma of_key_simps [simp]:
  "of_key k [] = []"
  "of_key k ((j, x) # xs) = (if j = k then (j, x) # of_key k xs else of_key k xs)"
  by (simp_all add: of_key_def)

context rate_limiter
begin

lemma avail_cap: "inv s t K \<Longrightarrow> avail s k t \<le> cap s"
  using refill[of s t K t k] by simp

text \<open>What a key has at \<open>t\<close> after a request at the earlier or same time \<open>u\<close>.\<close>

lemma avail_after:
  assumes "inv s t K" "t \<le> u" "j \<in> K"
  shows "avail (fst (acquire s j u)) k u =
    (if j = k \<and> 1 \<le> avail s k u then avail s k u - 1 else avail s k u)"
  using acquire_own[OF inv_mono[OF assms(1,2)] assms(3)]
    acquire_other[OF inv_mono[OF assms(1,2)] assms(3), of k]
  by (cases "j = k") simp_all

text \<open>The long-run bound: the tokens at the start plus what has been refilled.\<close>

lemma admitted_bound:
  assumes "inv s t K" "sorted (t # map snd rs)" "fst ` set rs \<subseteq> K" "\<forall>r\<in>set rs. snd r \<le> e" "t \<le> e"
  shows "of_nat (admitted k (answers acquire s rs)) \<le> avail s k t + secs (e - t) * rate s"
  using assms
proof (induction rs arbitrary: s t)
  case Nil
  then show ?case using rate_pos[OF Nil.prems(1)] avail_nonneg[OF Nil.prems(1)]
    by (simp add: add_nonneg_nonneg)
next
  case (Cons r rs)
  obtain j u where r: "r = (j, u)" by (cases r)
  let ?s = "fst (acquire s j u)"
  have u: "t \<le> u" "u \<le> e" "j \<in> K" using Cons.prems r by auto
  note inv = inv_mono[OF Cons.prems(1) u(1)]
  have "of_nat (admitted k (answers acquire ?s rs)) \<le> avail ?s k u + secs (e - u) * rate ?s"
    by (rule Cons.IH) (use Cons.prems r u acquire_inv[OF inv] in auto)
  moreover have "avail s k u \<le> avail s k t + secs (u - t) * rate s"
    using refill[OF Cons.prems(1) u(1), of k] by simp
  ultimately show ?case
    using acquire_ok[OF inv u(3)] secs_split[OF u(1,2)]
    by (auto simp: r acquire_rate avail_after[OF Cons.prems(1) u(1,3)] algebra_simps split: if_splits)
qed

text \<open>A limiter's answers to one key do not depend on the other keys' requests.\<close>

lemma same_avail:
  assumes "inv s t K" "inv s' t K" "avail s k t = avail s' k t" "cap s = cap s'" "rate s = rate s'" "t \<le> u"
  shows "avail s k u = avail s' k u"
  using refill[OF assms(1,6), of k] refill[OF assms(2,6), of k] assms(3-5) by simp

lemma isolation:
  assumes "inv s t K" "inv s' t K" "avail s k t = avail s' k t" "cap s = cap s'" "rate s = rate s'"
    and "sorted (t # map snd rs)" "fst ` set rs \<subseteq> K"
  shows "of_key k (answers acquire s rs) = answers acquire s' (of_key k rs)"
  using assms
proof (induction rs arbitrary: s s' t)
  case Nil
  then show ?case by simp
next
  case (Cons r rs)
  obtain j u where r: "r = (j, u)" by (cases r)
  have u: "t \<le> u" "j \<in> K" "sorted (u # map snd rs)" "fst ` set rs \<subseteq> K" using Cons.prems r by auto
  note inv = inv_mono[OF Cons.prems(1) u(1)] inv_mono[OF Cons.prems(2) u(1)]
  have av: "avail s k u = avail s' k u" by (rule same_avail) (use Cons.prems u in auto)
  have "of_key k (answers acquire (fst (acquire s j u)) rs) =
      answers acquire (if j = k then fst (acquire s' j u) else s') (of_key k rs)"
    by (rule Cons.IH)
       (use Cons.prems av u inv acquire_inv avail_after[OF Cons.prems(1) u(1,2), of k]
         avail_after[OF Cons.prems(2) u(1,2), of k] in \<open>auto simp: acquire_cap acquire_rate\<close>)
  moreover have "j = k \<Longrightarrow> snd (acquire s j u) = snd (acquire s' j u)"
    using acquire_ok[OF inv(1) u(2)] acquire_ok[OF inv(2) u(2)] av by simp
  ultimately show ?case by (cases "j = k") (simp_all add: r)
qed

end

end
