(* ===== verification/RateLimit.thy ===== *)
theory RateLimit
  imports TokenBucket "HOL-Library.AList"
begin

text \<open>
  The per-address limiter in front of the gRPC server, \<open>muxrd/src/ratelimit.rs\<close>. The
  map of buckets is an association list with distinct keys; the check counter is an atomic
  \<open>usize\<close>. A request is handled atomically on its own bucket, so a sequence of requests
  is a fold over \<open>allow\<close>.
\<close>

definition MAX_TRACKED_IPS :: nat where
  "MAX_TRACKED_IPS = 65536"

subsection \<open>Configuration\<close>

datatype f64 = Finite rat | NonFinite

record config =
  rps :: rat
  burst :: rat

definition default_config :: config where
  "default_config = \<lparr>rps = 30, burst = 60\<rparr>"

text \<open>\<open>None\<close> is a variable that is not set.\<close>

definition env_truthy :: "string option \<Rightarrow> bool" where
  "env_truthy v = (case v of Some s \<Rightarrow> s \<noteq> '''' \<and> s \<noteq> ''0'' | None \<Rightarrow> False)"

definition env_f64 :: "(string \<Rightarrow> f64 option) \<Rightarrow> string option \<Rightarrow> f64 option" where
  "env_f64 parse v = (case v of Some s \<Rightarrow> parse (trim s) | None \<Rightarrow> None)"

definition config_from_env ::
  "(string \<Rightarrow> f64 option) \<Rightarrow> (string \<Rightarrow> string option) \<Rightarrow> config option" where
  "config_from_env parse env =
     (if env_truthy (env ''MUXRD_RATE_LIMIT_DISABLE'') then None
      else
        let d = default_config;
            r = (case env_f64 parse (env ''MUXRD_RATE_LIMIT_RPS'') of Some x \<Rightarrow> x | None \<Rightarrow> Finite (rps d));
            b = (case env_f64 parse (env ''MUXRD_RATE_LIMIT_BURST'') of Some x \<Rightarrow> x | None \<Rightarrow> Finite (burst d))
        in Some \<lparr>rps = (case r of Finite x \<Rightarrow> if x > 0 then x else rps d | NonFinite \<Rightarrow> rps d),
                 burst = (case b of Finite x \<Rightarrow> if x \<ge> 1 then x else burst d | NonFinite \<Rightarrow> burst d)\<rparr>)"

subsection \<open>Buckets\<close>

record bucket =
  tokens :: rat
  b_last :: nat

record 'ip limiter =
  cfg :: config
  buckets :: "('ip \<times> bucket) list"
  checks :: "64 word"

definition new_limiter :: "config \<Rightarrow> 'ip limiter" where
  "new_limiter c = \<lparr>cfg = c, buckets = [], checks = 0\<rparr>"

definition entry_of :: "'ip limiter \<Rightarrow> 'ip \<Rightarrow> nat \<Rightarrow> bucket" where
  "entry_of l ip now =
     (case map_of (buckets l) ip of Some b \<Rightarrow> b | None \<Rightarrow> \<lparr>tokens = burst (cfg l), b_last = now\<rparr>)"

definition allow :: "(rat \<Rightarrow> rat) \<Rightarrow> 'ip limiter \<Rightarrow> 'ip \<Rightarrow> nat \<Rightarrow> 'ip limiter \<times> bool" where
  "allow rnd l ip now =
     (let entry = entry_of l ip now;
          elapsed = as_secs_f64 rnd (now - b_last entry);
          t = min (rnd (tokens entry + rnd (elapsed * rps (cfg l)))) (burst (cfg l));
          ok = (1 \<le> t);
          entry' = \<lparr>tokens = (if ok then rnd (t - 1) else t), b_last = now\<rparr>;
          bs = AList.update ip entry' (buckets l);
          bs' = (if unat (checks l) mod MAX_TRACKED_IPS = 0 \<and> MAX_TRACKED_IPS < length bs
                 then filter (\<lambda>(_, b). tokens b < burst (cfg l)) bs
                 else bs)
      in (l\<lparr>buckets := bs', checks := checks l + 1\<rparr>, ok))"

text \<open>
  The tower service: a disabled limiter forwards everything; a request whose peer is not
  known is counted on the unspecified address \<open>unknown_ip\<close>.
\<close>

definition rate_limit_call ::
  "(rat \<Rightarrow> rat) \<Rightarrow> 'ip \<Rightarrow> 'ip limiter option \<Rightarrow> 'ip option \<Rightarrow> nat \<Rightarrow> 'ip limiter option \<times> (status option)" where
  "rate_limit_call rnd unknown_ip limiter peer now =
     (case limiter of
        None \<Rightarrow> (None, None)
      | Some l \<Rightarrow>
          let ip = (case peer of Some a \<Rightarrow> a | None \<Rightarrow> unknown_ip);
              (l', ok) = allow rnd l ip now
          in (Some l', if ok then None else Some ResourceExhausted))"

subsection \<open>The limiter meets the contract\<close>

definition l_avail :: "'ip limiter \<Rightarrow> 'ip \<Rightarrow> nat \<Rightarrow> rat" where
  "l_avail l ip now =
     (case map_of (buckets l) ip of
        Some b \<Rightarrow> min (tokens b + secs (now - b_last b) * rps (cfg l)) (burst (cfg l))
      | None \<Rightarrow> burst (cfg l))"

definition l_inv :: "'ip limiter \<Rightarrow> nat \<Rightarrow> 'ip set \<Rightarrow> bool" where
  "l_inv l now K \<longleftrightarrow>
     0 < rps (cfg l) \<and> 1 \<le> burst (cfg l) \<and>
     (\<forall>(ip, b)\<in>set (buckets l). 0 \<le> tokens b \<and> tokens b < burst (cfg l) \<and> b_last b \<le> now)"

lemma set_update_sub: "set (AList.update k v xs) \<subseteq> insert (k, v) (set xs)"
  by (induction xs) auto

lemma keys_update: "fst ` set (AList.update k v xs) = insert k (fst ` set xs)"
  by (induction xs) auto

text \<open>Every bucket is below the burst after a request, so the sweep has nothing to drop.\<close>

definition below_burst :: "'ip limiter \<Rightarrow> bool" where
  "below_burst l \<longleftrightarrow> (\<forall>(ip, b)\<in>set (buckets l). tokens b < burst (cfg l))"

lemma allow_below:
  assumes "below_burst l" "1 \<le> burst (cfg l)"
    and "\<forall>t. 1 \<le> t \<and> t \<le> burst (cfg l) \<longrightarrow> rnd (t - 1) < burst (cfg l)"
  shows "\<exists>b. tokens b < burst (cfg l) \<and> b_last b = now \<and>
    fst (allow rnd l ip now) = l\<lparr>buckets := AList.update ip b (buckets l), checks := checks l + 1\<rparr>"
proof -
  let ?e = "entry_of l ip now"
  define t where "t = min (rnd (tokens ?e + rnd (as_secs_f64 rnd (now - b_last ?e) * rps (cfg l)))) (burst (cfg l))"
  let ?b = "\<lparr>tokens = (if 1 \<le> t then rnd (t - 1) else t), b_last = now\<rparr>"
  let ?bs = "AList.update ip ?b (buckets l)"
  have b: "tokens ?b < burst (cfg l)" using assms(2,3) by (auto simp: t_def)
  have "filter (\<lambda>(_, b). tokens b < burst (cfg l)) ?bs = ?bs"
    using assms(1) set_update_sub[of ip ?b "buckets l"] b
    by (intro filter_True) (force simp: below_burst_def)
  then have "fst (allow rnd l ip now) = l\<lparr>buckets := ?bs, checks := checks l + 1\<rparr>"
    unfolding allow_def Let_def t_def[symmetric] by simp
  with b show ?thesis by (intro exI[of _ ?b]) simp
qed

text \<open>A request in exact arithmetic.\<close>

lemma l_avail_le: "l_avail l ip now \<le> burst (cfg l)"
  by (auto simp: l_avail_def split: option.splits)


lemma allow_exact:
  assumes "l_inv l now K"
  shows "fst (allow id l ip now) =
      l\<lparr>buckets := AList.update ip \<lparr>tokens = (if 1 \<le> l_avail l ip now then l_avail l ip now - 1 else l_avail l ip now),
                                   b_last = now\<rparr> (buckets l), checks := checks l + 1\<rparr>"
    and "snd (allow id l ip now) = (1 \<le> l_avail l ip now)"
proof -
  have t: "min (tokens (entry_of l ip now) + secs (now - b_last (entry_of l ip now)) * rps (cfg l)) (burst (cfg l))
      = l_avail l ip now"
    by (auto simp: entry_of_def l_avail_def split: option.splits)
  let ?b = "\<lparr>tokens = (if 1 \<le> l_avail l ip now then l_avail l ip now - 1 else l_avail l ip now), b_last = now\<rparr>"
  let ?bs = "AList.update ip ?b (buckets l)"
  have "filter (\<lambda>(_, b). tokens b < burst (cfg l)) ?bs = ?bs"
    using assms set_update_sub[of ip ?b "buckets l"] l_avail_le[of l ip now]
    by (intro filter_True) (force simp: l_inv_def)
  then show "fst (allow id l ip now) = l\<lparr>buckets := ?bs, checks := checks l + 1\<rparr>"
    unfolding allow_def Let_def as_secs_f64_id id_apply t by simp
  show "snd (allow id l ip now) = (1 \<le> l_avail l ip now)"
    unfolding allow_def Let_def as_secs_f64_id id_apply t by simp
qed

lemma l_avail_update:
  "l_avail (l\<lparr>buckets := AList.update k b (buckets l), checks := c\<rparr>) j t =
     (if j = k then min (tokens b + secs (t - b_last b) * rps (cfg l)) (burst (cfg l)) else l_avail l j t)"
  by (simp add: l_avail_def update_conv' split: option.splits)

lemma l_avail_nonneg: "l_inv l now K \<Longrightarrow> 0 \<le> l_avail l ip now"
  by (auto simp: l_avail_def l_inv_def split: option.splits dest!: map_of_SomeD)

lemma l_avail_refill:
  assumes "l_inv l t K" "t \<le> u"
  shows "l_avail l ip u = min (l_avail l ip t + secs (u - t) * rps (cfg l)) (burst (cfg l))"
proof (cases "map_of (buckets l) ip")
  case None
  then show ?thesis using assms(1) by (simp add: l_avail_def l_inv_def)
next
  case (Some b)
  then have "b_last b \<le> t" using assms(1) by (auto simp: l_inv_def dest!: map_of_SomeD)
  then show ?thesis
    using Some assms refill_twice[of "rps (cfg l)" "b_last b" t u "tokens b" "burst (cfg l)"]
    by (simp add: l_avail_def l_inv_def)
qed

lemma allow_inv:
  assumes "l_inv l t K"
  shows "l_inv (fst (allow id l ip t)) t K"
proof -
  let ?a = "l_avail l ip t"
  let ?b = "\<lparr>tokens = (if 1 \<le> ?a then ?a - 1 else ?a), b_last = t\<rparr>"
  have "0 \<le> tokens ?b" "tokens ?b < burst (cfg l)"
    using assms l_avail_nonneg[OF assms, of ip] l_avail_le[of l ip t] by (auto simp: l_inv_def)
  then show ?thesis
    using assms set_update_sub[of ip ?b "buckets l"]
    by (force simp: allow_exact[OF assms] l_inv_def)
qed

interpretation lim: rate_limiter "allow id" l_avail l_inv "\<lambda>l. burst (cfg l)" "\<lambda>l. rps (cfg l)"
proof
  fix s :: "'a limiter" and t u :: nat and K :: "'a set" and k j :: 'a
  show "l_inv s t K \<Longrightarrow> 0 < rps (cfg s)" by (simp add: l_inv_def)
  show "l_inv s t K \<Longrightarrow> t \<le> u \<Longrightarrow> l_inv s u K" by (fastforce simp: l_inv_def)
  show "burst (cfg (fst (allow id s k t))) = burst (cfg s)" "rps (cfg (fst (allow id s k t))) = rps (cfg s)"
    by (simp_all add: allow_def Let_def)
  assume inv: "l_inv s t K"
  show "0 \<le> l_avail s k t" by (rule l_avail_nonneg[OF inv])
  show "k \<in> K \<Longrightarrow> l_inv (fst (allow id s k t)) t K" by (rule allow_inv[OF inv])
  show "k \<in> K \<Longrightarrow> snd (allow id s k t) \<longleftrightarrow> 1 \<le> l_avail s k t" by (rule allow_exact(2)[OF inv])
  show "k \<in> K \<Longrightarrow> l_avail (fst (allow id s k t)) k t =
      (if 1 \<le> l_avail s k t then l_avail s k t - 1 else l_avail s k t)"
    using l_avail_le[of s k t] by (simp add: allow_exact[OF inv] l_avail_update)
  show "k \<in> K \<Longrightarrow> j \<noteq> k \<Longrightarrow> l_avail (fst (allow id s k t)) j t = l_avail s j t"
    by (simp add: allow_exact[OF inv] l_avail_update)
  show "t \<le> u \<Longrightarrow> l_avail s k u = min (l_avail s k t + secs (u - t) * rps (cfg s)) (burst (cfg s))"
    by (rule l_avail_refill[OF inv])
qed

subsection \<open>Properties\<close>

lemma l_inv_new: "0 < rps c \<Longrightarrow> 1 \<le> burst c \<Longrightarrow> l_inv (new_limiter c) t K"
  by (simp add: l_inv_def new_limiter_def)

lemma l_avail_new: "l_avail (new_limiter c) ip t = burst c"
  by (simp add: l_avail_def new_limiter_def)

text \<open>
  (the sustained rate). In exact arithmetic, over any sequence of requests of any number of
  addresses in order of time between \<open>t\<close> and \<open>e\<close>, one address is admitted at most
  \<open>burst\<close> requests plus \<open>rps\<close> for each second.
\<close>

theorem sustained_rate:
  assumes "0 < rps c" "1 \<le> burst c" "sorted (t # map snd rs)" "\<forall>r\<in>set rs. snd r \<le> e" "t \<le> e"
  shows "of_nat (admitted ip (answers (allow id) (new_limiter c) rs)) \<le> burst c + secs (e - t) * rps c"
  using lim.admitted_bound[OF l_inv_new[OF assms(1,2)] assms(3) _ assms(4,5), of UNIV ip]
  by (simp add: l_avail_new) (simp add: new_limiter_def)

text \<open>
  (addresses do not share a bucket). In exact arithmetic the answers one address gets
  are those it would get if it were the only client.
\<close>

theorem addresses_isolated:
  assumes "0 < rps c" "1 \<le> burst c" "sorted (map snd rs)"
  shows "of_key ip (answers (allow id) (new_limiter c) rs) =
    answers (allow id) (new_limiter c) (of_key ip rs)"
  using lim.isolation[of "new_limiter c" 0 UNIV "new_limiter c" ip rs] assms l_inv_new[of c 0 UNIV]
  by simp

lemma allow_same_instant:
  assumes "buckets l = [(ip, \<lparr>tokens = of_nat m, b_last = t\<rparr>)]" "burst (cfg l) = of_nat n" "m \<le> n"
    and rnd: "\<And>k. k \<le> n \<Longrightarrow> rnd (of_nat k) = of_nat k"
  shows "allow rnd l ip t =
    (l\<lparr>buckets := [(ip, \<lparr>tokens = of_nat (m - 1), b_last = t\<rparr>)], checks := checks l + 1\<rparr>, 0 < m)"
proof -
  have r0: "rnd 0 = 0" using rnd[of 0] by simp
  have rm: "rnd (of_nat m) = of_nat m" using rnd assms(3) by simp
  have "0 < m \<Longrightarrow> rnd (of_nat m - 1) = of_nat (m - 1)"
    using rnd[of "m - 1"] assms(3) by (simp add: of_nat_diff)
  then show ?thesis
    using assms(1-3) by (cases "m = 0") (auto simp: allow_def Let_def entry_of_def as_secs_f64_zero r0 rm MAX_TRACKED_IPS_def)
qed

lemma answers_same_instant:
  assumes "buckets l = [(ip, \<lparr>tokens = of_nat m, b_last = t\<rparr>)]" "burst (cfg l) = of_nat n" "m \<le> n"
    and rnd: "\<And>k. k \<le> n \<Longrightarrow> rnd (of_nat k) = of_nat k"
  shows "answers (allow rnd) l (replicate q (ip, t)) =
    replicate (min m q) (ip, True) @ replicate (q - m) (ip, False)"
  using assms(1-3)
proof (induction q arbitrary: l m)
  case 0
  then show ?case by simp
next
  case (Suc q)
  let ?l = "l\<lparr>buckets := [(ip, \<lparr>tokens = of_nat (m - 1), b_last = t\<rparr>)], checks := checks l + 1\<rparr>"
  have "answers (allow rnd) ?l (replicate q (ip, t)) =
      replicate (min (m - 1) q) (ip, True) @ replicate (q - (m - 1)) (ip, False)"
    by (rule Suc.IH) (use Suc.prems in auto)
  then show ?case
    using allow_same_instant[OF Suc.prems rnd] by (cases m) auto
qed

text \<open>
  (the burst). With a whole burst and any rounding that keeps the whole numbers up to it,
  a new address that sends \<open>q\<close> requests at one instant has exactly the first \<open>burst\<close> admitted.
\<close>

theorem burst_exact:
  assumes "burst c = of_nat n" "1 \<le> n" "\<forall>k\<le>n. rnd (of_nat k) = of_nat k"
  shows "answers (allow rnd) (new_limiter c) (replicate q (ip, t)) =
    replicate (min n q) (ip, True) @ replicate (q - n) (ip, False)"
proof (cases q)
  case 0
  then show ?thesis by simp
next
  case (Suc p)
  have r: "rnd 0 = 0" "rnd (of_nat n) = of_nat n" "rnd (of_nat n - 1) = of_nat (n - 1)"
    using assms(2) spec[OF assms(3), of 0] spec[OF assms(3), of "n - 1"] spec[OF assms(3), of n]
    by (simp_all add: of_nat_diff)
  let ?l = "\<lparr>cfg = c, buckets = [(ip, \<lparr>tokens = of_nat (n - 1), b_last = t\<rparr>)], checks = 1\<rparr>"
  have "allow rnd (new_limiter c) ip t = (?l, True)"
    using assms(1,2) r
    by (simp add: allow_def Let_def entry_of_def as_secs_f64_zero new_limiter_def MAX_TRACKED_IPS_def)
  moreover have "answers (allow rnd) ?l (replicate p (ip, t)) =
      replicate (min (n - 1) p) (ip, True) @ replicate (p - (n - 1)) (ip, False)"
    by (rule answers_same_instant) (use assms in auto)
  ultimately show ?thesis using Suc assms(2) by (cases n) auto
qed

text \<open>
  (the sweep drops nothing). Whatever the arithmetic rounds, as long as taking a token
  from at most a full bucket leaves it below the burst, every address that ever sent a
  request is still tracked: the sweep that is to bound the map keeps the buckets below the
  burst, and after a request every bucket is.
\<close>

theorem sweep_drops_nothing:
  assumes "1 \<le> burst c" "\<forall>t. 1 \<le> t \<and> t \<le> burst c \<longrightarrow> rnd (t - 1) < burst c"
  shows "fst ` set (buckets (foldl (\<lambda>l (ip, t). fst (allow rnd l ip t)) (new_limiter c) rs)) = fst ` set rs"
proof -
  let ?run = "foldl (\<lambda>l (ip, t). fst (allow rnd l ip t)) (new_limiter c)"
  have "fst ` set (buckets (?run rs)) = fst ` set rs \<and> below_burst (?run rs) \<and> cfg (?run rs) = c"
  proof (induction rs rule: rev_induct)
    case Nil
    then show ?case by (simp add: new_limiter_def below_burst_def)
  next
    case (snoc r rs)
    obtain ip t where r: "r = (ip, t)" by (cases r)
    let ?l = "?run rs"
    have l: "below_burst ?l" "cfg ?l = c" using snoc by auto
    obtain b where b: "tokens b < burst c"
      "fst (allow rnd ?l ip t) = ?l\<lparr>buckets := AList.update ip b (buckets ?l), checks := checks ?l + 1\<rparr>"
      using allow_below[OF l(1), of rnd t ip] assms l(2) by auto
    have "below_burst (fst (allow rnd ?l ip t))"
      using b l set_update_sub[of ip b "buckets ?l"] by (fastforce simp: below_burst_def)
    then show ?case using snoc b(2) by (simp add: r keys_update)
  qed
  then show ?thesis by blast
qed

text \<open>Disabled exactly by the variable; otherwise the numbers are in range.\<close>

lemma config_from_env_range:
  "(config_from_env parse env = None \<longleftrightarrow> env_truthy (env ''MUXRD_RATE_LIMIT_DISABLE'')) \<and>
   (config_from_env parse env = Some c \<longrightarrow> 0 < rps c \<and> 1 \<le> burst c)"
  by (auto simp: config_from_env_def default_config_def Let_def split: f64.splits)

text \<open>Witnesses: the default limits.\<close>

theorem sustained_rate_witness:
  "of_nat (admitted ''a'' (answers (allow id) (new_limiter default_config) [(''a'', 0), (''b'', 5), (''a'', 9)]))
     \<le> (60 :: rat) + secs 10 * 30"
  using sustained_rate[of default_config 0 "[(''a'', 0), (''b'', 5), (''a'', 9)]" 10 "''a''"]
  by (simp add: default_config_def)

theorem addresses_isolated_witness:
  "of_key ''a'' (answers (allow id) (new_limiter default_config) [(''b'', 1), (''a'', 2)]) =
     answers (allow id) (new_limiter default_config) [(''a'', 2)]"
  using addresses_isolated[of default_config "[(''b'', 1), (''a'', 2)]" "''a''"]
  by (simp add: default_config_def)

theorem burst_exact_witness:
  "answers (allow id) (new_limiter default_config) (replicate 70 (''a'', 7)) =
     replicate 60 (''a'', True) @ replicate 10 (''a'', False)"
  using burst_exact[of default_config 60 id 70 "''a''" 7] by (simp add: default_config_def)

theorem sweep_drops_nothing_witness:
  "fst ` set (buckets (foldl (\<lambda>l (ip, t). fst (allow id l ip t)) (new_limiter default_config)
     [(''a'', 0), (''b'', 5)])) = {''a'', ''b''}"
  using sweep_drops_nothing[of default_config id "[(''a'', 0), (''b'', 5)]"]
  by (simp add: default_config_def)

end
