(* ===== verification/Devices.thy ===== *)
theory Devices
  imports ControlRoute
begin

text \<open>
  Push devices in the daemon: the on-disk registry of \<open>muxrd/src/notify/devices.rs\<close> and
  the RPC handlers of \<open>muxrd/src/grpc/push_ops.rs\<close>. The file is a value; the advisory
  lock makes every operation one step. Whether the lock is obtained and the write succeeds
  is the argument \<open>io\<close>. An \<open>Err\<close> is \<open>Inl ()\<close>.
\<close>

definition MIN_HANDLE_LEN :: nat where "MIN_HANDLE_LEN = 32"
definition MAX_HANDLE_LEN :: nat where "MAX_HANDLE_LEN = 128"
definition MIN_NAME_LEN :: nat where "MIN_NAME_LEN = 1"
definition MAX_NAME_LEN :: nat where "MAX_NAME_LEN = 64"
definition HANDLE_PREFIX_LEN :: nat where "HANDLE_PREFIX_LEN = 8"

record push_device =
  device_name :: string
  push_handle :: string
  platform :: string
  registered_at :: nat

datatype devices_file = Missing | Corrupt | Saved "push_device list"

record dev_io =
  lock_ok :: bool
  write_ok :: bool

subsection \<open>The registry\<close>

definition dev_load :: "devices_file \<Rightarrow> unit + push_device list" where
  "dev_load f = (case f of Missing \<Rightarrow> Inr [] | Corrupt \<Rightarrow> Inl () | Saved ds \<Rightarrow> Inr ds)"

definition dev_store :: "dev_io \<Rightarrow> devices_file \<Rightarrow> push_device list \<Rightarrow> devices_file \<times> (unit + unit)" where
  "dev_store io f ds = (if write_ok io then (Saved ds, Inr ()) else (f, Inl ()))"

definition dev_list :: "dev_io \<Rightarrow> devices_file \<Rightarrow> unit + push_device list" where
  "dev_list io f = (if lock_ok io then dev_load f else Inl ())"

definition dev_count :: "dev_io \<Rightarrow> devices_file \<Rightarrow> unit + nat" where
  "dev_count io f = map_sum id length (dev_list io f)"

fun replace_or_push :: "push_device list \<Rightarrow> push_device \<Rightarrow> push_device list" where
  "replace_or_push [] d = [d]"
| "replace_or_push (e # es) d =
     (if device_name e = device_name d then d # es else e # replace_or_push es d)"

definition upsert :: "dev_io \<Rightarrow> devices_file \<Rightarrow> push_device \<Rightarrow> devices_file \<times> (unit + unit)" where
  "upsert io f d =
     (if \<not> lock_ok io then (f, Inl ())
      else (case dev_load f of
              Inl e \<Rightarrow> (f, Inl e)
            | Inr ds \<Rightarrow> dev_store io f (replace_or_push ds d)))"

definition remove_by_name :: "dev_io \<Rightarrow> devices_file \<Rightarrow> string \<Rightarrow> devices_file \<times> (unit + bool)" where
  "remove_by_name io f name =
     (if \<not> lock_ok io then (f, Inl ())
      else (case dev_load f of
              Inl e \<Rightarrow> (f, Inl e)
            | Inr ds \<Rightarrow>
                let kept = filter (\<lambda>d. device_name d \<noteq> name) ds;
                    removed = (length kept \<noteq> length ds)
                in if removed
                   then (case dev_store io f kept of
                           (g, Inl e) \<Rightarrow> (g, Inl e) | (g, Inr _) \<Rightarrow> (g, Inr removed))
                   else (f, Inr removed)))"

definition remove_by_handle :: "dev_io \<Rightarrow> devices_file \<Rightarrow> string \<Rightarrow> devices_file \<times> (unit + bool)" where
  "remove_by_handle io f handle =
     (if \<not> lock_ok io then (f, Inl ())
      else (case dev_load f of
              Inl e \<Rightarrow> (f, Inl e)
            | Inr ds \<Rightarrow>
                let kept = filter (\<lambda>d. push_handle d \<noteq> handle) ds;
                    removed = (length kept \<noteq> length ds)
                in if removed
                   then (case dev_store io f kept of
                           (g, Inl e) \<Rightarrow> (g, Inl e) | (g, Inr _) \<Rightarrow> (g, Inr removed))
                   else (f, Inr removed)))"

subsection \<open>Validation\<close>

definition validate_push_handle :: "string \<Rightarrow> bool" where
  "validate_push_handle h \<longleftrightarrow>
     \<not> (length h < MIN_HANDLE_LEN \<or> length h > MAX_HANDLE_LEN) \<and>
     list_all (\<lambda>b. is_ascii_digit b \<or> (97 \<le> byte b \<and> byte b \<le> 102)) h"

definition validate_device_name :: "string \<Rightarrow> bool" where
  "validate_device_name n \<longleftrightarrow>
     \<not> (length n < MIN_NAME_LEN \<or> length n > MAX_NAME_LEN) \<and>
     list_all (\<lambda>b. is_ascii_alphanumeric b \<or> b \<in> {CHR '' '', CHR ''_'', CHR ''.'', CHR ''-''}) n"

subsection \<open>The RPC handlers\<close>

text \<open>
  \<open>&handle[..8.min(len)]\<close> panics (\<open>None\<close>) when the cut is inside a character.
\<close>

definition handle_prefix :: "string \<Rightarrow> string option" where
  "handle_prefix h =
     (let n = min HANDLE_PREFIX_LEN (length h)
      in if n < length h \<and> is_cont (h ! n) then None else Some (take n h))"

record push_service =
  relay_url :: "string option"
  has_herdr :: bool
  devices_state :: devices_file

definition register_push_target_impl ::
  "dev_io \<Rightarrow> nat \<Rightarrow> push_service \<Rightarrow> bool option \<Rightarrow> string \<Rightarrow> string \<Rightarrow> string \<Rightarrow> push_service \<times> (status + bool)" where
  "register_push_target_impl io now svc ext handle name plat =
     (case reject_if_read_only ext of
        Inl e \<Rightarrow> (svc, Inl e)
      | Inr _ \<Rightarrow>
          if relay_url svc = None then (svc, Inl FailedPrecondition)
          else if \<not> has_herdr svc then (svc, Inl FailedPrecondition)
          else if \<not> validate_push_handle handle then (svc, Inl InvalidArgument)
          else if \<not> validate_device_name name then (svc, Inl InvalidArgument)
          else
            (case upsert io (devices_state svc)
                    \<lparr>device_name = name, push_handle = handle, platform = plat, registered_at = now\<rparr> of
               (f, Inl _) \<Rightarrow> (svc\<lparr>devices_state := f\<rparr>, Inl Internal)
             | (f, Inr _) \<Rightarrow> (svc\<lparr>devices_state := f\<rparr>, Inr True)))"

record push_target_info =
  pi_name :: string
  pi_platform :: string
  pi_registered_at :: nat
  pi_prefix :: string

text \<open>\<open>None\<close> is a panic in \<open>handle_prefix\<close>.\<close>

definition list_push_targets_impl ::
  "dev_io \<Rightarrow> push_service \<Rightarrow> bool option \<Rightarrow> (status + push_target_info list) option" where
  "list_push_targets_impl io svc ext =
     (case reject_if_read_only ext of
        Inl e \<Rightarrow> Some (Inl e)
      | Inr _ \<Rightarrow>
          (case dev_list io (devices_state svc) of
             Inl _ \<Rightarrow> Some (Inl Internal)
           | Inr ds \<Rightarrow>
               if list_ex (\<lambda>d. handle_prefix (push_handle d) = None) ds then None
               else Some (Inr (map (\<lambda>d. \<lparr>pi_name = device_name d, pi_platform = platform d,
                                        pi_registered_at = registered_at d,
                                        pi_prefix = the (handle_prefix (push_handle d))\<rparr>) ds))))"

definition remove_push_target_impl ::
  "dev_io \<Rightarrow> push_service \<Rightarrow> bool option \<Rightarrow> string \<Rightarrow> push_service \<times> (status + bool)" where
  "remove_push_target_impl io svc ext name =
     (case reject_if_read_only ext of
        Inl e \<Rightarrow> (svc, Inl e)
      | Inr _ \<Rightarrow>
          if trim name = [] then (svc, Inl InvalidArgument)
          else (case remove_by_name io (devices_state svc) name of
                  (f, Inl _) \<Rightarrow> (svc\<lparr>devices_state := f\<rparr>, Inl Internal)
                | (f, Inr removed) \<Rightarrow> (svc\<lparr>devices_state := f\<rparr>, Inr removed)))"

subsection \<open>Requests\<close>

text \<open>Requests and the notifier's pruning, each with its own I/O outcome.\<close>

datatype device_op =
    RegisterTarget dev_io nat "bool option" string string string
  | RemoveTarget dev_io "bool option" string
  | PruneHandle dev_io string

fun device_step :: "push_service \<Rightarrow> device_op \<Rightarrow> push_service" where
  "device_step svc (RegisterTarget io now ext h n p) = fst (register_push_target_impl io now svc ext h n p)"
| "device_step svc (RemoveTarget io ext n) = fst (remove_push_target_impl io svc ext n)"
| "device_step svc (PruneHandle io h) =
     svc\<lparr>devices_state := fst (remove_by_handle io (devices_state svc) h)\<rparr>"

definition device_ok :: "push_device \<Rightarrow> bool" where
  "device_ok d \<longleftrightarrow> validate_push_handle (push_handle d) \<and> validate_device_name (device_name d)"

definition file_ok :: "devices_file \<Rightarrow> bool" where
  "file_ok f = (case f of
     Saved ds \<Rightarrow> distinct (map device_name ds) \<and> list_all device_ok ds | _ \<Rightarrow> True)"

text \<open>The registry as a map from names.\<close>

definition by_name :: "devices_file \<Rightarrow> string \<rightharpoonup> push_device" where
  "by_name f n = (case f of Saved ds \<Rightarrow> find (\<lambda>d. device_name d = n) ds | _ \<Rightarrow> None)"

lemma replace_or_push_names:
  "set (map device_name (replace_or_push ds d)) = insert (device_name d) (set (map device_name ds))"
  by (induction ds) auto

lemma replace_or_push_distinct:
  "distinct (map device_name ds) \<Longrightarrow> distinct (map device_name (replace_or_push ds d))"
  using replace_or_push_names by (induction ds) auto

lemma replace_or_push_all:
  "list_all P ds \<Longrightarrow> P d \<Longrightarrow> list_all P (replace_or_push ds d)"
  by (induction ds) auto

lemma find_replace_or_push:
  "find (\<lambda>e. device_name e = n) (replace_or_push ds d) =
     (if n = device_name d then Some d else find (\<lambda>e. device_name e = n) ds)"
  by (induction ds) auto

lemma filter_length_eq: "length (filter P xs) = length xs \<longleftrightarrow> filter P xs = xs"
  by (metis filter_True length_filter_less less_irrefl)

lemma remove_by_name_file:
  "fst (remove_by_name io f n) =
     (case f of Saved ds \<Rightarrow>
        if lock_ok io \<and> write_ok io then Saved (filter (\<lambda>d. device_name d \<noteq> n) ds) else f | _ \<Rightarrow> f)"
  by (auto simp: remove_by_name_def dev_load_def dev_store_def Let_def filter_length_eq
      split: devices_file.splits)

lemma remove_by_handle_file:
  "fst (remove_by_handle io f h) =
     (case f of Saved ds \<Rightarrow>
        if lock_ok io \<and> write_ok io then Saved (filter (\<lambda>d. push_handle d \<noteq> h) ds) else f | _ \<Rightarrow> f)"
  by (auto simp: remove_by_handle_def dev_load_def dev_store_def Let_def filter_length_eq
      split: devices_file.splits)

lemma upsert_ok: "file_ok f \<Longrightarrow> device_ok d \<Longrightarrow> file_ok (fst (upsert io f d))"
  by (auto simp: upsert_def dev_load_def dev_store_def file_ok_def replace_or_push_distinct
      replace_or_push_all split: devices_file.splits)

lemma remove_ok:
  "file_ok f \<Longrightarrow> file_ok (fst (remove_by_name io f n))"
  "file_ok f \<Longrightarrow> file_ok (fst (remove_by_handle io f h))"
  by (auto simp: remove_by_name_file remove_by_handle_file file_ok_def distinct_map_filter list_all_iff
      split: devices_file.splits)

lemma register_file:
  "devices_state (fst (register_push_target_impl io now svc ext h n p)) = devices_state svc \<or>
   (validate_push_handle h \<and> validate_device_name n \<and>
    devices_state (fst (register_push_target_impl io now svc ext h n p)) =
      fst (upsert io (devices_state svc)
        \<lparr>device_name = n, push_handle = h, platform = p, registered_at = now\<rparr>))"
  by (auto simp: register_push_target_impl_def split: sum.splits prod.splits)

lemma remove_file:
  "devices_state (fst (remove_push_target_impl io svc ext n)) = devices_state svc \<or>
   devices_state (fst (remove_push_target_impl io svc ext n)) = fst (remove_by_name io (devices_state svc) n)"
  by (auto simp: remove_push_target_impl_def split: sum.splits prod.splits)

lemma device_step_ok:
  assumes "file_ok (devices_state svc)"
  shows "file_ok (devices_state (device_step svc op))"
proof (cases op)
  case (RegisterTarget io now ext h n p)
  have "validate_push_handle h \<Longrightarrow> validate_device_name n \<Longrightarrow>
      device_ok \<lparr>device_name = n, push_handle = h, platform = p, registered_at = now\<rparr>"
    by (simp add: device_ok_def)
  then show ?thesis
    using register_file[of io now svc ext h n p] upsert_ok[OF assms] assms RegisterTarget by auto
next
  case (RemoveTarget io ext n)
  then show ?thesis using remove_file[of io svc ext n] remove_ok(1)[OF assms] assms by auto
next
  case (PruneHandle io h)
  then show ?thesis using remove_ok(2)[OF assms] by simp
qed

lemma valid_handle_prefix:
  assumes "validate_push_handle h"
  shows "handle_prefix h = Some (take 8 h)"
proof -
  have l: "32 \<le> length h" using assms by (simp add: validate_push_handle_def MIN_HANDLE_LEN_def)
  have "h ! 8 \<in> set h" using l by (intro nth_mem) simp
  then have "\<not> is_cont (h ! 8)"
    using assms by (auto simp: validate_push_handle_def list_all_iff is_cont_def is_ascii_digit_def)
  then show ?thesis using l by (simp add: handle_prefix_def HANDLE_PREFIX_LEN_def Let_def min_def)
qed

lemma find_filter_name:
  "find (\<lambda>d. device_name d = m) (filter (\<lambda>d. device_name d \<noteq> n) ds) =
     (if m = n then None else find (\<lambda>d. device_name d = m) ds)"
  by (induction ds) auto

lemma find_name_None: "find (\<lambda>d. device_name d = n) ds = None \<longleftrightarrow> filter (\<lambda>d. device_name d \<noteq> n) ds = ds"
  by (auto simp: find_None_iff filter_id_conv)

lemma upsert_map:
  assumes "snd (upsert io f d) = Inr ()"
  shows "by_name (fst (upsert io f d)) = (by_name f)(device_name d \<mapsto> d)"
  using assms find_replace_or_push[of _ _ d]
  by (cases f) (simp_all add: by_name_def fun_eq_iff upsert_def dev_load_def dev_store_def split: if_splits)

lemma remove_map:
  assumes "snd (remove_by_name io f n) = Inr b"
  shows "by_name (fst (remove_by_name io f n)) = (by_name f)(n := None) \<and> b = (by_name f n \<noteq> None)"
proof (cases f)
  case (Saved ds)
  have "b = (find (\<lambda>d. device_name d = n) ds \<noteq> None)" "lock_ok io" "write_ok io \<or> \<not> b"
    using assms Saved
    by (auto simp: remove_by_name_def dev_load_def dev_store_def Let_def filter_length_eq find_name_None
        split: if_splits)
  then show ?thesis
    using Saved find_filter_name[of _ n ds] find_name_None[of n ds]
    by (auto simp: remove_by_name_file by_name_def fun_eq_iff)
qed (use assms in \<open>auto simp: remove_by_name_def dev_load_def Let_def by_name_def fun_eq_iff split: if_splits\<close>)

subsection \<open>Properties\<close>

text \<open>
  (the registry stays well-formed). From a fresh data directory, after any sequence of
  registrations, removals and prunes, whatever their arguments and I/O failures, device
  names are unique, every stored handle and name is valid, and listing answers without a
  panic, showing eight characters of a handle that has at least 32.
\<close>

theorem device_registry_ok:
  assumes "devices_state svc = Missing"
  shows "file_ok (devices_state (foldl device_step svc ops)) \<and>
    (\<exists>r. list_push_targets_impl io (foldl device_step svc ops) ext = Some r \<and>
         (\<forall>ts. r = Inr ts \<longrightarrow> (\<forall>t\<in>set ts. length (pi_prefix t) = 8)))"
proof -
  have ok: "file_ok (devices_state (foldl device_step svc ops))"
    using assms by (induction ops rule: rev_induct) (simp_all add: file_ok_def[of Missing] device_step_ok)
  have pre: "handle_prefix (push_handle d) = Some (take 8 (push_handle d)) \<and> 8 \<le> length (push_handle d)"
    if "devices_state (foldl device_step svc ops) = Saved ds" "d \<in> set ds" for d ds
    using ok that by (auto simp: file_ok_def device_ok_def list_all_iff valid_handle_prefix
        validate_push_handle_def MIN_HANDLE_LEN_def)
  show ?thesis
    using ok pre
    by (auto simp: list_push_targets_impl_def dev_list_def dev_load_def list_ex_iff
        split: sum.splits devices_file.splits)
qed

text \<open>
  (a failed write loses nothing). A registration, removal or prune that fails leaves the
  file as it was, and a corrupt file is never overwritten.
\<close>

theorem device_errors_atomic:
  "(snd (upsert io f d) = Inl () \<longrightarrow> fst (upsert io f d) = f) \<and>
   (snd (remove_by_name io f n) = Inl () \<longrightarrow> fst (remove_by_name io f n) = f) \<and>
   (snd (remove_by_handle io f h) = Inl () \<longrightarrow> fst (remove_by_handle io f h) = f) \<and>
   (f = Corrupt \<longrightarrow> fst (upsert io f d) = f \<and> fst (remove_by_name io f n) = f \<and> fst (remove_by_handle io f h) = f)"
  by (auto simp: upsert_def remove_by_name_def remove_by_handle_def dev_load_def dev_store_def Let_def
      split: devices_file.splits if_splits)

text \<open>
  (the registry is a map from names). A successful registration sets exactly its own name,
  a successful removal clears exactly it and answers whether it was there.
\<close>

theorem device_map:
  "(snd (upsert io f d) = Inr () \<longrightarrow> by_name (fst (upsert io f d)) = (by_name f)(device_name d \<mapsto> d)) \<and>
   (snd (remove_by_name io f n) = Inr b \<longrightarrow>
      by_name (fst (remove_by_name io f n)) = (by_name f)(n := None) \<and> b = (by_name f n \<noteq> None))"
  using upsert_map remove_map by blast

text \<open>Witnesses.\<close>

definition demo_push :: push_service where
  "demo_push = \<lparr>relay_url = Some ''https://r'', has_herdr = True, devices_state = Missing\<rparr>"

definition demo_handle :: string where
  "demo_handle = hex_bytes (replicate 32 171)"

theorem device_registry_ok_witness:
  "file_ok (devices_state (foldl device_step demo_push
     [RegisterTarget \<lparr>lock_ok = True, write_ok = True\<rparr> 7 (Some False) demo_handle ''phone'' ''android'']))"
  using device_registry_ok[of demo_push "[RegisterTarget \<lparr>lock_ok = True, write_ok = True\<rparr> 7 (Some False)
      demo_handle ''phone'' ''android'']" "\<lparr>lock_ok = True, write_ok = True\<rparr>" "Some False"]
  by (simp add: demo_push_def)

theorem device_errors_atomic_witness:
  "fst (upsert \<lparr>lock_ok = True, write_ok = True\<rparr> Corrupt
     \<lparr>device_name = ''phone'', push_handle = demo_handle, platform = ''android'', registered_at = 7\<rparr>) = Corrupt"
  using device_errors_atomic[of "\<lparr>lock_ok = True, write_ok = True\<rparr>" Corrupt] by simp

theorem device_map_witness:
  "by_name (fst (upsert \<lparr>lock_ok = True, write_ok = True\<rparr> Missing
     \<lparr>device_name = ''phone'', push_handle = demo_handle, platform = ''android'', registered_at = 7\<rparr>)) ''phone'' =
   Some \<lparr>device_name = ''phone'', push_handle = demo_handle, platform = ''android'', registered_at = 7\<rparr>"
  using device_map[of "\<lparr>lock_ok = True, write_ok = True\<rparr>" Missing
     "\<lparr>device_name = ''phone'', push_handle = demo_handle, platform = ''android'', registered_at = 7\<rparr>"]
  by (simp add: upsert_def dev_load_def dev_store_def)

end
