(* ===== verification/NotifyRateLimit.thy ===== *)
theory NotifyRateLimit
  imports TokenBucket "HOL-Library.AList"
begin

text \<open>
  The relay's limiters, \<open>muxr-notify/src/ratelimit.rs\<close>: keyed token buckets that drop idle
  entries and keep at most \<open>hard_cap\<close> keys. The map is an association list with distinct keys
  in iteration order; of several oldest entries the first is evicted.
\<close>

definition MAX_KEYS :: nat where
  "MAX_KEYS = 10000"

record nbucket =
  ntokens :: rat
  nlast :: nat

text \<open>\<open>None\<close> is \<open>Duration::MAX\<close>.\<close>

record 'k token_buckets =
  capacity :: rat
  refill_per_sec :: rat
  idle_horizon :: "nat option"
  hard_cap :: nat
  entries :: "('k \<times> nbucket) list"

text \<open>\<open>Duration::from_secs_f64\<close> of a number that is in range: to the nearest nanosecond, ties to even.\<close>

definition from_secs_f64 :: "rat \<Rightarrow> nat" where
  "from_secs_f64 x =
     (let y = x * of_nat nanos_per_sec; f = \<lfloor>y\<rfloor>; d = y - of_int f
      in nat (if d < 1/2 \<or> (d = 1/2 \<and> even f) then f else f + 1))"

definition with_limits :: "(rat \<Rightarrow> rat) \<Rightarrow> rat \<Rightarrow> rat \<Rightarrow> nat \<Rightarrow> 'k token_buckets" where
  "with_limits rnd cap refill hard =
     \<lparr>capacity = cap, refill_per_sec = refill,
      idle_horizon = (if refill > 0 then Some (from_secs_f64 (rnd (cap / refill))) else None),
      hard_cap = hard, entries = []\<rparr>"

definition new_buckets :: "(rat \<Rightarrow> rat) \<Rightarrow> rat \<Rightarrow> rat \<Rightarrow> 'k token_buckets" where
  "new_buckets rnd cap refill = with_limits rnd cap refill MAX_KEYS"

subsection \<open>Eviction\<close>

fun oldest :: "('k \<times> nbucket) list \<Rightarrow> 'k option" where
  "oldest [] = None"
| "oldest (x # xs) = Some (fst (foldl (\<lambda>a b. if nlast (snd b) < nlast (snd a) then b else a) x xs))"

lemma foldl_pick_mem: "foldl (\<lambda>a b. if P a b then b else a) x xs \<in> set (x # xs)"
  by (induction xs arbitrary: x) (simp, force)

lemma oldest_mem: "oldest m = Some k \<Longrightarrow> k \<in> fst ` set m"
proof (cases m)
  case (Cons x xs)
  assume "oldest m = Some k"
  with Cons have "k = fst (foldl (\<lambda>a b. if nlast (snd b) < nlast (snd a) then b else a) x xs)" by simp
  then show ?thesis
    using imageI[OF foldl_pick_mem[of "\<lambda>a b. nlast (snd b) < nlast (snd a)" x xs], of fst] Cons
    by (simp only:)
qed simp

lemma oldest_None: "oldest m = None \<longleftrightarrow> m = []"
  by (cases m) auto

lemma length_delete: "k \<in> fst ` set m \<Longrightarrow> length (AList.delete k m) < length m"
  by (auto simp: AList.delete_eq intro: length_filter_less)

text \<open>The \<open>while\<close> loop of \<open>evict\<close>.\<close>

function shrink :: "nat \<Rightarrow> 'k \<Rightarrow> ('k \<times> nbucket) list \<Rightarrow> ('k \<times> nbucket) list" where
  "shrink hard keep m =
     (if map_of m keep = None \<and> hard \<le> length m
      then (case oldest m of Some k \<Rightarrow> shrink hard keep (AList.delete k m) | None \<Rightarrow> m)
      else m)"
  by pat_completeness auto
termination
  by (relation "measure (\<lambda>(_, _, m). length m)") (auto dest!: oldest_mem length_delete)

declare shrink.simps [simp del]

definition evict :: "'k token_buckets \<Rightarrow> 'k \<Rightarrow> nat \<Rightarrow> ('k \<times> nbucket) list" where
  "evict b keep now =
     shrink (hard_cap b) keep
       (case idle_horizon b of
          Some h \<Rightarrow> filter (\<lambda>(_, e). now - nlast e < h) (entries b)
        | None \<Rightarrow> entries b)"

definition try_acquire_at ::
  "(rat \<Rightarrow> rat) \<Rightarrow> 'k token_buckets \<Rightarrow> 'k \<Rightarrow> nat \<Rightarrow> 'k token_buckets \<times> bool" where
  "try_acquire_at rnd b key now =
     (let m = evict b key now;
          e = (case map_of m key of Some e \<Rightarrow> e | None \<Rightarrow> \<lparr>ntokens = capacity b, nlast = now\<rparr>);
          elapsed = as_secs_f64 rnd (now - nlast e);
          t = min (rnd (ntokens e + rnd (elapsed * refill_per_sec b))) (capacity b)
      in if 1 \<le> t
         then (b\<lparr>entries := AList.update key \<lparr>ntokens = rnd (t - 1), nlast = now\<rparr> m\<rparr>, True)
         else (b\<lparr>entries := AList.update key \<lparr>ntokens = t, nlast = now\<rparr> m\<rparr>, False))"

subsection \<open>The relay's three limiters\<close>

record relay_limits =
  per_handle_burst :: "string token_buckets"
  per_ip_register :: "string token_buckets"
  per_ip_request :: "string token_buckets"

definition new_relay_limits :: "(rat \<Rightarrow> rat) \<Rightarrow> relay_limits" where
  "new_relay_limits rnd =
     \<lparr>per_handle_burst = new_buckets rnd 10 (rnd (10 / 60)),
      per_ip_register = new_buckets rnd 10 (rnd (10 / 3600)),
      per_ip_request = new_buckets rnd 60 1\<rparr>"

definition allow_notify :: "(rat \<Rightarrow> rat) \<Rightarrow> relay_limits \<Rightarrow> string \<Rightarrow> nat \<Rightarrow> relay_limits \<times> bool" where
  "allow_notify rnd l h now =
     (let (b, ok) = try_acquire_at rnd (per_handle_burst l) h now in (l\<lparr>per_handle_burst := b\<rparr>, ok))"

definition allow_register :: "(rat \<Rightarrow> rat) \<Rightarrow> relay_limits \<Rightarrow> string \<Rightarrow> nat \<Rightarrow> relay_limits \<times> bool" where
  "allow_register rnd l ip now =
     (let (b, ok) = try_acquire_at rnd (per_ip_register l) ip now in (l\<lparr>per_ip_register := b\<rparr>, ok))"

definition allow_request :: "(rat \<Rightarrow> rat) \<Rightarrow> relay_limits \<Rightarrow> string \<Rightarrow> nat \<Rightarrow> relay_limits \<times> bool" where
  "allow_request rnd l ip now =
     (let (b, ok) = try_acquire_at rnd (per_ip_request l) ip now in (l\<lparr>per_ip_request := b\<rparr>, ok))"

subsection \<open>Memory\<close>

lemma length_update:
  "length (AList.update k v m) = (if map_of m k = None then Suc (length m) else length m)"
  by (induction m) auto

lemma shrink_length: "length (shrink hard k m) \<le> length m"
proof (induction hard k m rule: shrink.induct)
  case (1 hard keep m)
  have "oldest m = Some k \<Longrightarrow> length (AList.delete k m) < length m" for k
    by (rule length_delete[OF oldest_mem])
  then show ?case using 1 by (subst shrink.simps) (force split: option.splits)
qed

lemma shrink_room:
  assumes "1 \<le> hard"
  shows "map_of (shrink hard k m) k \<noteq> None \<or> length (shrink hard k m) < hard"
  using assms
proof (induction hard k m rule: shrink.induct)
  case (1 hard keep m)
  then show ?case
    by (subst (1 2) shrink.simps) (auto simp: oldest_None split: option.splits)
qed

lemma shrink_id: "map_of m k \<noteq> None \<or> length m < hard \<Longrightarrow> shrink hard k m = m"
  by (subst shrink.simps) auto

lemma evict_length: "length (evict b k now) \<le> length (entries b)"
  unfolding evict_def
  by (rule le_trans[OF shrink_length]) (simp add: length_filter_le split: option.splits)

lemma try_acquire_entries:
  "\<exists>e. entries (fst (try_acquire_at rnd b k now)) = AList.update k e (evict b k now)"
  by (auto simp: try_acquire_at_def Let_def)

lemma try_acquire_config:
  "capacity (fst (try_acquire_at rnd b k now)) = capacity b"
  "refill_per_sec (fst (try_acquire_at rnd b k now)) = refill_per_sec b"
  "idle_horizon (fst (try_acquire_at rnd b k now)) = idle_horizon b"
  "hard_cap (fst (try_acquire_at rnd b k now)) = hard_cap b"
  by (simp_all add: try_acquire_at_def Let_def)

lemma try_acquire_length:
  assumes "1 \<le> hard_cap b" "length (entries b) \<le> hard_cap b"
  shows "length (entries (fst (try_acquire_at rnd b k now))) \<le> hard_cap b"
proof -
  obtain e where e: "entries (fst (try_acquire_at rnd b k now)) = AList.update k e (evict b k now)"
    using try_acquire_entries[of rnd b k now] by blast
  have "map_of (evict b k now) k \<noteq> None \<or> length (evict b k now) < hard_cap b"
    unfolding evict_def by (rule shrink_room[OF assms(1)])
  then show ?thesis using evict_length[of b k now] assms(2) by (auto simp: e length_update)
qed

subsection \<open>Dropping an idle entry is not observable\<close>

definition n_avail :: "'k token_buckets \<Rightarrow> 'k \<Rightarrow> nat \<Rightarrow> rat" where
  "n_avail b k now =
     (case map_of (entries b) k of
        Some e \<Rightarrow> min (ntokens e + secs (now - nlast e) * refill_per_sec b) (capacity b)
      | None \<Rightarrow> capacity b)"

text \<open>\<open>K\<close> is any set of at most \<open>hard_cap\<close> keys that holds the keys seen so far.\<close>

definition n_inv :: "'k token_buckets \<Rightarrow> nat \<Rightarrow> 'k set \<Rightarrow> bool" where
  "n_inv b now K \<longleftrightarrow>
     0 < refill_per_sec b \<and> 0 \<le> capacity b \<and>
     (\<forall>h. idle_horizon b = Some h \<longrightarrow> capacity b \<le> secs h * refill_per_sec b) \<and>
     distinct (map fst (entries b)) \<and> fst ` set (entries b) \<subseteq> K \<and> finite K \<and> card K \<le> hard_cap b \<and>
     (\<forall>(k, e)\<in>set (entries b). 0 \<le> ntokens e \<and> ntokens e \<le> capacity b \<and> nlast e \<le> now)"

lemma room:
  assumes "n_inv b now K" "k \<in> K" "distinct (map fst m)" "fst ` set m \<subseteq> K"
  shows "map_of m k \<noteq> None \<or> length m < hard_cap b"
proof (rule disjCI)
  assume "\<not> length m < hard_cap b"
  moreover have fin: "finite K" "card K \<le> hard_cap b" using assms(1) by (simp_all add: n_inv_def)
  moreover have "card (fst ` set m) = length m" using distinct_card[OF assms(3)] by simp
  ultimately have "card K \<le> card (fst ` set m)" by simp
  then have "fst ` set m = K" using card_seteq[OF fin(1) assms(4)] by simp
  then show "map_of m k \<noteq> None" using assms(2) by (simp add: map_of_eq_None_iff)
qed

definition awake :: "'k token_buckets \<Rightarrow> nat \<Rightarrow> 'k \<times> nbucket \<Rightarrow> bool" where
  "awake b now = (\<lambda>(_, e). case idle_horizon b of Some h \<Rightarrow> now - nlast e < h | None \<Rightarrow> True)"

lemma evict_fits:
  assumes "n_inv b now K" "k \<in> K"
  shows "evict b k now = filter (awake b now) (entries b)"
proof -
  have "evict b k now = shrink (hard_cap b) k (filter (awake b now) (entries b))"
    by (simp add: evict_def awake_def split: option.splits)
  also have "\<dots> = filter (awake b now) (entries b)"
    by (rule shrink_id, rule room[OF assms])
       (use assms(1) in \<open>auto simp: n_inv_def distinct_fst_filter\<close>)
  finally show ?thesis .
qed

text \<open>An entry that has been idle for the horizon is full.\<close>

lemma asleep_full:
  assumes "n_inv b now K" "(j, e) \<in> set (entries b)" "\<not> awake b now (j, e)"
  shows "capacity b \<le> ntokens e + secs (now - nlast e) * refill_per_sec b"
proof -
  obtain h where h: "idle_horizon b = Some h" "h \<le> now - nlast e"
    using assms(3) by (auto simp: awake_def split: option.splits)
  have "secs h \<le> secs (now - nlast e)" using h(2) by (simp add: secs_def divide_right_mono)
  then have "secs h * refill_per_sec b \<le> secs (now - nlast e) * refill_per_sec b"
    using assms(1) by (intro mult_right_mono) (simp_all add: n_inv_def)
  moreover have "capacity b \<le> secs h * refill_per_sec b" "0 \<le> ntokens e"
    using assms(1,2) h(1) by (auto simp: n_inv_def)
  ultimately show ?thesis by simp
qed

lemma map_of_filter_distinct:
  "distinct (map fst m) \<Longrightarrow> map_of (filter P m) k =
     (case map_of m k of Some v \<Rightarrow> if P (k, v) then Some v else None | None \<Rightarrow> None)"
  by (induction m) (auto simp: map_of_eq_None_iff split: option.splits)

lemma evict_avail:
  assumes "n_inv b now K" "k \<in> K"
  shows "n_avail (b\<lparr>entries := evict b k now\<rparr>) j now = n_avail b j now"
proof -
  have "distinct (map fst (entries b))" using assms(1) by (simp add: n_inv_def)
  then show ?thesis
    using asleep_full[OF assms(1), of j]
    by (auto simp: n_avail_def evict_fits[OF assms] map_of_filter_distinct dest!: map_of_SomeD
        split: option.splits)
qed

subsection \<open>The limiter meets the contract\<close>

text \<open>One request in exact arithmetic.\<close>

lemma n_avail_le: "n_avail b k now \<le> capacity b"
  by (auto simp: n_avail_def split: option.splits)

lemma n_avail_nonneg: "n_inv b now K \<Longrightarrow> 0 \<le> n_avail b k now"
  by (auto simp: n_avail_def n_inv_def split: option.splits dest!: map_of_SomeD)

lemma try_acquire_exact:
  assumes "n_inv b now K" "k \<in> K"
  shows "try_acquire_at id b k now =
    (let a = n_avail b k now; ok = (1 \<le> a)
     in (b\<lparr>entries := AList.update k \<lparr>ntokens = (if ok then a - 1 else a), nlast = now\<rparr> (evict b k now)\<rparr>, ok))"
proof -
  let ?e = "case map_of (evict b k now) k of Some e \<Rightarrow> e | None \<Rightarrow> \<lparr>ntokens = capacity b, nlast = now\<rparr>"
  have "min (ntokens ?e + secs (now - nlast ?e) * refill_per_sec b) (capacity b)
      = n_avail (b\<lparr>entries := evict b k now\<rparr>) k now"
    by (auto simp: n_avail_def split: option.splits)
  also have "\<dots> = n_avail b k now" by (rule evict_avail[OF assms])
  finally have a: "min (ntokens ?e + secs (now - nlast ?e) * refill_per_sec b) (capacity b) = n_avail b k now" .
  show ?thesis
    unfolding try_acquire_at_def Let_def as_secs_f64_id id_apply a by simp
qed

lemma n_avail_update:
  "n_avail (b\<lparr>entries := AList.update k e m\<rparr>) j t =
     (if j = k then min (ntokens e + secs (t - nlast e) * refill_per_sec b) (capacity b)
      else n_avail (b\<lparr>entries := m\<rparr>) j t)"
  by (simp add: n_avail_def update_conv' split: option.splits)

lemma n_avail_refill:
  assumes "n_inv b t K" "t \<le> u"
  shows "n_avail b k u = min (n_avail b k t + secs (u - t) * refill_per_sec b) (capacity b)"
proof (cases "map_of (entries b) k")
  case None
  then show ?thesis using assms(1) by (simp add: n_avail_def n_inv_def)
next
  case (Some e)
  then have "nlast e \<le> t" using assms(1) by (auto simp: n_inv_def dest!: map_of_SomeD)
  then show ?thesis
    using Some assms refill_twice[of "refill_per_sec b" "nlast e" t u "ntokens e" "capacity b"]
    by (simp add: n_avail_def n_inv_def)
qed

lemma set_update_entry: "set (AList.update k v xs) \<subseteq> insert (k, v) (set xs)"
  by (induction xs) auto

lemma keys_update_entry: "fst ` set (AList.update k v xs) = insert k (fst ` set xs)"
  by (induction xs) auto

lemma try_acquire_inv:
  assumes "n_inv b t K" "k \<in> K"
  shows "n_inv (fst (try_acquire_at id b k t)) t K"
proof -
  let ?a = "n_avail b k t"
  let ?e = "\<lparr>ntokens = (if 1 \<le> ?a then ?a - 1 else ?a), nlast = t\<rparr>"
  let ?m = "filter (awake b t) (entries b)"
  have e: "0 \<le> ntokens ?e" "ntokens ?e \<le> capacity b"
    using n_avail_nonneg[OF assms(1), of k] n_avail_le[of b k t] by auto
  have old: "\<forall>(k, e)\<in>set ?m. 0 \<le> ntokens e \<and> ntokens e \<le> capacity b \<and> nlast e \<le> t"
    using assms(1) by (auto simp: n_inv_def)
  have "\<forall>(k, e)\<in>set (AList.update k ?e ?m). 0 \<le> ntokens e \<and> ntokens e \<le> capacity b \<and> nlast e \<le> t"
    using set_update_entry[of k ?e ?m] old e by force
  moreover have "fst ` set (AList.update k ?e ?m) \<subseteq> K"
    using assms by (auto simp: keys_update_entry n_inv_def)
  moreover have "distinct (map fst (AList.update k ?e ?m))"
    using assms(1) by (simp add: distinct_update distinct_fst_filter n_inv_def)
  ultimately show ?thesis
    using assms(1) unfolding try_acquire_exact[OF assms] Let_def evict_fits[OF assms] n_inv_def by simp
qed

interpretation nlim: rate_limiter "try_acquire_at id" n_avail n_inv capacity refill_per_sec
proof
  fix s :: "'a token_buckets" and t u :: nat and K :: "'a set" and k j :: 'a
  show "n_inv s t K \<Longrightarrow> 0 < refill_per_sec s" by (simp add: n_inv_def)
  show "n_inv s t K \<Longrightarrow> t \<le> u \<Longrightarrow> n_inv s u K" by (fastforce simp: n_inv_def)
  show "capacity (fst (try_acquire_at id s k t)) = capacity s"
    "refill_per_sec (fst (try_acquire_at id s k t)) = refill_per_sec s"
    by (simp_all add: try_acquire_config)
  assume inv: "n_inv s t K"
  show "0 \<le> n_avail s k t" by (rule n_avail_nonneg[OF inv])
  show "t \<le> u \<Longrightarrow> n_avail s k u = min (n_avail s k t + secs (u - t) * refill_per_sec s) (capacity s)"
    by (rule n_avail_refill[OF inv])
  assume k: "k \<in> K"
  show "n_inv (fst (try_acquire_at id s k t)) t K" by (rule try_acquire_inv[OF inv k])
  show "snd (try_acquire_at id s k t) \<longleftrightarrow> 1 \<le> n_avail s k t"
    by (simp add: try_acquire_exact[OF inv k] Let_def)
  show "n_avail (fst (try_acquire_at id s k t)) k t =
      (if 1 \<le> n_avail s k t then n_avail s k t - 1 else n_avail s k t)"
    using n_avail_le[of s k t] by (simp add: try_acquire_exact[OF inv k] Let_def n_avail_update)
  show "j \<noteq> k \<Longrightarrow> n_avail (fst (try_acquire_at id s k t)) j t = n_avail s j t"
    by (simp add: try_acquire_exact[OF inv k] Let_def n_avail_update evict_avail[OF inv k])
qed

subsection \<open>Properties\<close>

text \<open>
  (bounded memory). Whatever the requests, the clock and the rounding, a limiter never
  holds more keys than its hard cap.
\<close>

theorem keys_bounded:
  assumes "1 \<le> hard"
  shows "length (entries (foldl (\<lambda>b (k, t). fst (try_acquire_at rnd b k t)) (with_limits rnd' cap refill hard) rs)) \<le> hard"
proof -
  let ?run = "foldl (\<lambda>b (k, t). fst (try_acquire_at rnd b k t)) (with_limits rnd' cap refill hard)"
  have "length (entries (?run rs)) \<le> hard \<and> hard_cap (?run rs) = hard"
  proof (induction rs rule: rev_induct)
    case Nil
    then show ?case by (simp add: with_limits_def)
  next
    case (snoc r rs)
    obtain k t where r: "r = (k, t)" by (cases r)
    have "length (entries (fst (try_acquire_at rnd (?run rs) k t))) \<le> hard_cap (?run rs)"
      by (rule try_acquire_length) (use snoc assms in auto)
    then show ?case using snoc by (simp add: r try_acquire_config)
  qed
  then show ?thesis by blast
qed

lemma n_inv_new:
  assumes "0 < refill" "0 \<le> cap" "cap \<le> secs (from_secs_f64 (cap / refill)) * refill"
    "finite K" "card K \<le> hard"
  shows "n_inv (with_limits id cap refill hard) t K"
  using assms by (simp add: n_inv_def with_limits_def)

lemma n_avail_new: "n_avail (with_limits id cap refill hard) k t = cap"
  by (simp add: n_avail_def with_limits_def)

text \<open>
  (eviction is not observable). While no more than \<open>hard_cap\<close> distinct keys are in use,
  a key is answered as if it were the only one, and admitted at most \<open>capacity\<close> requests
  plus \<open>refill_per_sec\<close> for each second: dropping idle entries gives nobody an extra token.
\<close>

theorem relay_rate:
  assumes "0 < refill" "0 \<le> cap" "cap \<le> secs (from_secs_f64 (cap / refill)) * refill"
    and "card (fst ` set rs) \<le> hard"
    and "sorted (t # map snd rs)" "\<forall>r\<in>set rs. snd r \<le> e" "t \<le> e"
  shows "of_key k (answers (try_acquire_at id) (with_limits id cap refill hard) rs) =
      answers (try_acquire_at id) (with_limits id cap refill hard) (of_key k rs) \<and>
    of_nat (admitted k (answers (try_acquire_at id) (with_limits id cap refill hard) rs))
      \<le> cap + secs (e - t) * refill"
proof -
  have inv: "n_inv (with_limits id cap refill hard) t (fst ` set rs)"
    by (rule n_inv_new) (use assms in auto)
  show ?thesis
    using nlim.isolation[OF inv inv refl refl refl assms(5)]
      nlim.admitted_bound[OF inv assms(5) _ assms(6,7), of k]
    by (simp add: n_avail_new) (simp add: with_limits_def)
qed

text \<open>The three limiters of the relay meet the hypotheses.\<close>

lemma horizons:
  "(10 :: rat) \<le> secs (from_secs_f64 (10 / (10 / 60))) * (10 / 60)"
  "(10 :: rat) \<le> secs (from_secs_f64 (10 / (10 / 3600))) * (10 / 3600)"
  "(60 :: rat) \<le> secs (from_secs_f64 (60 / 1)) * 1"
  by (simp_all add: from_secs_f64_def secs_def nanos_per_sec_def Let_def)

text \<open>Witnesses.\<close>

theorem keys_bounded_witness:
  "length (entries (foldl (\<lambda>b (k, t). fst (try_acquire_at id b k t)) (with_limits id 10 1 2)
     [(''a'', 0), (''b'', 1), (''c'', 2)])) \<le> 2"
  using keys_bounded[of 2 id id 10 1 "[(''a'', 0), (''b'', 1), (''c'', 2)]"] by simp

theorem relay_rate_witness:
  "of_nat (admitted ''ip'' (answers (try_acquire_at id) (with_limits id 10 (10 / 3600) 10000)
     [(''ip'', 0), (''other'', 5), (''ip'', 9)])) \<le> (10 :: rat) + secs 9 * (10 / 3600)"
  using relay_rate[of "10 / 3600" 10 "[(''ip'', 0), (''other'', 5), (''ip'', 9)]" 10000 0 9 "''ip''"]
    horizons(2) by simp

end
