(* ===== verification/RelayApi.thy ===== *)
theory RelayApi
  imports NotifyRateLimit
begin

text \<open>
  The push relay \<open>muxr-notify\<close>: configuration (\<open>config.rs\<close>), the registration table
  (\<open>store.rs\<close>), the FCM sender (\<open>fcm.rs\<close>) and the HTTP handlers (\<open>handlers.rs\<close>).

  A SQL statement runs under the connection's mutex and is one step; whether it succeeds is
  an argument. Google's answers are arguments too. The clock is in seconds since the epoch
  for the handlers and in nanoseconds for the limiters.
\<close>

subsection \<open>Configuration\<close>

datatype fcm_mode = Send | Log

record 'addr relay_config =
  listen :: 'addr
  db_path :: string
  mode :: fcm_mode
  service_account :: "string option"
  project_id :: "string option"
  daily_cap :: "32 word"
  trust_proxy :: bool

definition non_empty_var :: "(string \<Rightarrow> string option) \<Rightarrow> string \<Rightarrow> string option" where
  "non_empty_var env k = (case env k of Some s \<Rightarrow> if s = '''' then None else Some s | None \<Rightarrow> None)"

definition env_or :: "(string \<Rightarrow> string option) \<Rightarrow> string \<Rightarrow> string \<Rightarrow> string" where
  "env_or env k d = (case non_empty_var env k of Some s \<Rightarrow> s | None \<Rightarrow> d)"

text \<open>\<open>u32::from_str\<close>: decimal digits after an optional plus sign, in range.\<close>

definition parse_u32 :: "string \<Rightarrow> 32 word option" where
  "parse_u32 s =
     (case digits_val (case s of [] \<Rightarrow> [] | c # ds \<Rightarrow> if c = CHR ''+'' then ds else s) of
        Some n \<Rightarrow> if n < 2 ^ 32 then Some (word_of_int n) else None
      | None \<Rightarrow> None)"

definition relay_config_from_env ::
  "(string \<Rightarrow> 'addr option) \<Rightarrow> (string \<Rightarrow> string option) \<Rightarrow> unit + 'addr relay_config" where
  "relay_config_from_env parse_addr env =
     (case parse_addr (env_or env ''NOTIFY_LISTEN'' ''127.0.0.1:8080'') of
        None \<Rightarrow> Inl ()
      | Some a \<Rightarrow>
          let m = env_or env ''FCM_MODE'' ''send'';
              sa = non_empty_var env ''FCM_SERVICE_ACCOUNT''
          in (case (if m = ''send'' then Some Send else if m = ''log'' then Some Log else None) of
                None \<Rightarrow> Inl ()
              | Some md \<Rightarrow>
                  (case parse_u32 (env_or env ''NOTIFY_DAILY_CAP'' ''150'') of
                     None \<Rightarrow> Inl ()
                   | Some cap \<Rightarrow>
                       if md = Send \<and> sa = None then Inl ()
                       else Inr \<lparr>listen = a, db_path = env_or env ''NOTIFY_DB'' ''./notify.db'', mode = md,
                                 service_account = sa, project_id = non_empty_var env ''FCM_PROJECT_ID'',
                                 daily_cap = cap, trust_proxy = (env_or env ''NOTIFY_TRUST_PROXY'' ''0'' = ''1'')\<rparr>)))"

subsection \<open>The registration table\<close>

record row =
  row_platform :: string
  row_fcm_token :: string
  created_at :: nat
  last_send :: "nat option"
  row_day :: string
  row_sends :: nat
  row_pruned :: bool

type_synonym table = "string \<rightharpoonup> row"

record registration =
  handle :: string
  r_platform :: string
  fcm_token :: string
  pruned :: bool
  day_bucket_of :: string
  sends_today :: "32 word"

definition insert_row :: "table \<Rightarrow> string \<Rightarrow> string \<Rightarrow> string \<Rightarrow> nat \<Rightarrow> unit + table" where
  "insert_row t h plat tok now =
     (if t h \<noteq> None then Inl ()
      else Inr (t(h \<mapsto> \<lparr>row_platform = plat, row_fcm_token = tok, created_at = now, last_send = None,
                        row_day = '''', row_sends = 0, row_pruned = False\<rparr>)))"

definition store_register ::
  "bool \<Rightarrow> table \<Rightarrow> string \<Rightarrow> string \<Rightarrow> string option \<Rightarrow> string \<Rightarrow> nat \<Rightarrow> table \<times> (unit + string)" where
  "store_register sql_ok t plat tok existing new_handle now =
     (if \<not> sql_ok then (t, Inl ())
      else
        (case (case existing of Some h \<Rightarrow> map_option (\<lambda>r. (h, r)) (t h) | None \<Rightarrow> None) of
           Some (h, r) \<Rightarrow>
             (t(h \<mapsto> r\<lparr>row_fcm_token := tok, row_platform := plat, row_pruned := False\<rparr>), Inr h)
         | None \<Rightarrow>
             (case insert_row t new_handle plat tok now of
                Inl e \<Rightarrow> (t, Inl e)
              | Inr t' \<Rightarrow> (t', Inr new_handle))))"

definition store_get :: "bool \<Rightarrow> table \<Rightarrow> string \<Rightarrow> unit + registration option" where
  "store_get sql_ok t h =
     (if \<not> sql_ok then Inl ()
      else Inr (map_option (\<lambda>r. \<lparr>handle = h, r_platform = row_platform r, fcm_token = row_fcm_token r,
                                 pruned = row_pruned r, day_bucket_of = row_day r,
                                 sends_today = of_nat (row_sends r)\<rparr>) (t h)))"

text \<open>An \<open>UPDATE\<close> of a row that is not there changes nothing.\<close>

definition update_row :: "table \<Rightarrow> string \<Rightarrow> (row \<Rightarrow> row) \<Rightarrow> table" where
  "update_row t h f = (case t h of Some r \<Rightarrow> t(h \<mapsto> f r) | None \<Rightarrow> t)"

definition record_send :: "bool \<Rightarrow> table \<Rightarrow> string \<Rightarrow> string \<Rightarrow> nat \<Rightarrow> table \<times> (unit + unit)" where
  "record_send sql_ok t h day now =
     (if \<not> sql_ok then (t, Inl ())
      else (update_row t h (\<lambda>r. r\<lparr>row_sends := (if row_day r = day then row_sends r + 1 else 1),
                                  row_day := day, last_send := Some now\<rparr>), Inr ()))"

definition mark_pruned :: "bool \<Rightarrow> table \<Rightarrow> string \<Rightarrow> table \<times> (unit + unit)" where
  "mark_pruned sql_ok t h =
     (if \<not> sql_ok then (t, Inl ()) else (update_row t h (\<lambda>r. r\<lparr>row_pruned := True\<rparr>), Inr ()))"

definition store_delete :: "bool \<Rightarrow> table \<Rightarrow> string \<Rightarrow> table \<times> (unit + unit)" where
  "store_delete sql_ok t h = (if \<not> sql_ok then (t, Inl ()) else (t(h := None), Inr ()))"

subsection \<open>The FCM sender\<close>

datatype send_outcome = Delivered | Unregistered | UpstreamError

datatype fcm_sender = LogSender | Live string

text \<open>
  A failure to mint the access token or to reach Google is \<open>None\<close>; a response is its
  status and text.
\<close>

datatype google = MintFailed | PostFailed | Response nat string

definition fcm_send :: "fcm_sender \<Rightarrow> google \<Rightarrow> unit + send_outcome" where
  "fcm_send s g =
     (case s of
        LogSender \<Rightarrow> Inr Delivered
      | Live _ \<Rightarrow>
          (case g of
             MintFailed \<Rightarrow> Inl ()
           | PostFailed \<Rightarrow> Inl ()
           | Response status text \<Rightarrow>
               if 200 \<le> status \<and> status < 300 then Inr Delivered
               else if status = 404 \<or> contains ''UNREGISTERED'' text \<or> contains ''NOT_FOUND'' text
               then Inr Unregistered
               else Inr UpstreamError))"

text \<open>
  \<open>FcmSender::build\<close>: \<open>sa_project\<close> is the project id of the service-account file at a
  path, \<open>None\<close> when it does not load; \<open>client_ok\<close> whether the HTTP client builds.
\<close>

definition fcm_build ::
  "(string \<Rightarrow> string option option) \<Rightarrow> bool \<Rightarrow> 'addr relay_config \<Rightarrow> unit + fcm_sender" where
  "fcm_build sa_project client_ok c =
     (case mode c of
        Log \<Rightarrow> Inr LogSender
      | Send \<Rightarrow>
          (case service_account c of
             None \<Rightarrow> Inl ()
           | Some path \<Rightarrow>
               (case sa_project path of
                  None \<Rightarrow> Inl ()
                | Some sap \<Rightarrow>
                    (case (case project_id c of Some p \<Rightarrow> Some p | None \<Rightarrow> sap) of
                       None \<Rightarrow> Inl ()
                     | Some p \<Rightarrow> if client_ok then Inr (Live p) else Inl ()))))"

definition token_prefix :: "string \<Rightarrow> string" where
  "token_prefix s = take_chars 8 s"

subsection \<open>Handlers\<close>

definition MAX_TITLE_CHARS :: nat where "MAX_TITLE_CHARS = 100"
definition MAX_BODY_CHARS :: nat where "MAX_BODY_CHARS = 512"
definition MAX_TOKEN_CHARS :: nat where "MAX_TOKEN_CHARS = 512"

record app =
  app_table :: table
  app_limits :: relay_limits
  app_cap :: "32 word"
  app_trust :: bool

definition last_field :: "string \<Rightarrow> string" where
  "last_field s = rev (takeWhile (\<lambda>c. c \<noteq> CHR '','') (rev s))"

definition resolve_client_ip :: "bool \<Rightarrow> string option \<Rightarrow> string option \<Rightarrow> string" where
  "resolve_client_ip trust xff peer =
     (let trusted = (if trust
                     then (case xff of
                             Some s \<Rightarrow> (let t = trim (last_field s) in if t = [] then None else Some t)
                           | None \<Rightarrow> None)
                     else None)
      in (case trusted of Some t \<Rightarrow> t | None \<Rightarrow> (case peer of Some p \<Rightarrow> p | None \<Rightarrow> ''unknown'')))"

definition mint_handle :: "8 word list \<Rightarrow> string" where
  "mint_handle random = hex_bytes random"

definition day_bucket :: "nat \<Rightarrow> string" where
  "day_bucket now = dec (now div 86400)"

record register_request =
  rq_platform :: string
  rq_fcm_token :: string
  rq_existing :: "string option"

text \<open>The answer is the status code and, of a registration, the handle.\<close>

definition register_handler ::
  "(rat \<Rightarrow> rat) \<Rightarrow> app \<Rightarrow> string \<Rightarrow> register_request \<Rightarrow> 8 word list \<Rightarrow> bool \<Rightarrow> nat \<Rightarrow> nat
     \<Rightarrow> app \<times> nat \<times> string option" where
  "register_handler rnd st ip req random sql_ok instant now =
     (let (l, ok) = allow_register rnd (app_limits st) ip instant; st1 = st\<lparr>app_limits := l\<rparr>
      in if \<not> ok then (st1, 429, None)
         else if rq_platform req \<noteq> ''android'' then (st1, 400, None)
         else if trim (rq_fcm_token req) = [] \<or> MAX_TOKEN_CHARS < char_count (rq_fcm_token req)
         then (st1, 400, None)
         else
           (case store_register sql_ok (app_table st1) (rq_platform req) (rq_fcm_token req)
                   (rq_existing req) (mint_handle random) now of
              (t, Inr h) \<Rightarrow> (st1\<lparr>app_table := t\<rparr>, 200, Some h)
            | (t, Inl _) \<Rightarrow> (st1\<lparr>app_table := t\<rparr>, 500, None)))"

record notify_request =
  nq_handle :: string
  nq_kind :: string
  nq_title :: "string option"
  nq_body :: "string option"

text \<open>
  The handler up to the call of FCM: an answer, or the send that is now in flight. Other
  requests may run until Google answers.
\<close>

record in_flight =
  fl_handle :: string
  fl_token :: string
  fl_today :: string
  fl_now :: nat

definition opt_chars :: "string option \<Rightarrow> nat" where
  "opt_chars s = (case s of Some t \<Rightarrow> char_count t | None \<Rightarrow> 0)"

definition notify_begin ::
  "(rat \<Rightarrow> rat) \<Rightarrow> app \<Rightarrow> string \<Rightarrow> notify_request \<Rightarrow> bool \<Rightarrow> nat \<Rightarrow> nat \<Rightarrow> app \<times> (nat + in_flight)" where
  "notify_begin rnd st ip req sql_ok instant now =
     (let (l, ok) = allow_request rnd (app_limits st) ip instant; st1 = st\<lparr>app_limits := l\<rparr>
      in if \<not> ok then (st1, Inl 429)
         else if MAX_TITLE_CHARS < opt_chars (nq_title req) \<or> MAX_BODY_CHARS < opt_chars (nq_body req)
         then (st1, Inl 400)
         else
           (case store_get sql_ok (app_table st1) (nq_handle req) of
              Inl _ \<Rightarrow> (st1, Inl 500)
            | Inr None \<Rightarrow> (st1, Inl 404)
            | Inr (Some reg) \<Rightarrow>
                if pruned reg then (st1, Inl 410)
                else
                  let today = day_bucket now in
                  if day_bucket_of reg = today \<and> app_cap st1 \<le> sends_today reg then (st1, Inl 429)
                  else
                    let (l2, ok2) = allow_notify rnd (app_limits st1) (handle reg) instant;
                        st2 = st1\<lparr>app_limits := l2\<rparr>
                    in if \<not> ok2 then (st2, Inl 429)
                       else (st2, Inr \<lparr>fl_handle = handle reg, fl_token = fcm_token reg,
                                       fl_today = today, fl_now = now\<rparr>)))"

definition notify_finish :: "app \<Rightarrow> in_flight \<Rightarrow> unit + send_outcome \<Rightarrow> bool \<Rightarrow> app \<times> nat" where
  "notify_finish st p outcome sql_ok =
     (case outcome of
        Inr Delivered \<Rightarrow>
          (st\<lparr>app_table := fst (record_send sql_ok (app_table st) (fl_handle p) (fl_today p) (fl_now p))\<rparr>, 204)
      | Inr Unregistered \<Rightarrow>
          (st\<lparr>app_table := fst (mark_pruned sql_ok (app_table st) (fl_handle p))\<rparr>, 410)
      | Inr UpstreamError \<Rightarrow> (st, 502)
      | Inl _ \<Rightarrow> (st, 502))"

text \<open>The handler when nothing runs in between.\<close>

definition notify_handler ::
  "(rat \<Rightarrow> rat) \<Rightarrow> app \<Rightarrow> string \<Rightarrow> notify_request \<Rightarrow> bool \<Rightarrow> bool \<Rightarrow> nat \<Rightarrow> nat \<Rightarrow> unit + send_outcome
     \<Rightarrow> app \<times> nat" where
  "notify_handler rnd st ip req sql_ok sql_ok' instant now outcome =
     (case notify_begin rnd st ip req sql_ok instant now of
        (st1, Inl code) \<Rightarrow> (st1, code)
      | (st1, Inr p) \<Rightarrow> notify_finish st1 p outcome sql_ok')"

definition delete_registration ::
  "(rat \<Rightarrow> rat) \<Rightarrow> app \<Rightarrow> string \<Rightarrow> string \<Rightarrow> bool \<Rightarrow> nat \<Rightarrow> app \<times> nat" where
  "delete_registration rnd st ip h sql_ok instant =
     (let (l, ok) = allow_request rnd (app_limits st) ip instant; st1 = st\<lparr>app_limits := l\<rparr>
      in if \<not> ok then (st1, 429)
         else (case store_delete sql_ok (app_table st1) h of
                 (t, Inr _) \<Rightarrow> (st1\<lparr>app_table := t\<rparr>, 204)
               | (t, Inl _) \<Rightarrow> (st1\<lparr>app_table := t\<rparr>, 500)))"

text \<open>A started relay.\<close>

definition relay_run ::
  "(rat \<Rightarrow> rat) \<Rightarrow> (string \<Rightarrow> 'addr option) \<Rightarrow> (string \<Rightarrow> string option) \<Rightarrow> (string \<Rightarrow> string option option)
     \<Rightarrow> bool \<Rightarrow> (string \<Rightarrow> table option) \<Rightarrow> unit + (app \<times> fcm_sender)" where
  "relay_run rnd parse_addr env sa_project client_ok open_db =
     (case relay_config_from_env parse_addr env of
        Inl e \<Rightarrow> Inl e
      | Inr c \<Rightarrow>
          (case open_db (db_path c) of
             None \<Rightarrow> Inl ()
           | Some t \<Rightarrow>
               (case fcm_build sa_project client_ok c of
                  Inl e \<Rightarrow> Inl e
                | Inr fcm \<Rightarrow>
                    Inr (\<lparr>app_table = t, app_limits = new_relay_limits rnd, app_cap = daily_cap c,
                          app_trust = trust_proxy c\<rparr>, fcm))))"

end
