(* ===== verification/RelaySafety.thy ===== *)
theory RelaySafety
  imports RelayApi
begin

text \<open>
  What the push relay guarantees: the daily cap under concurrent requests, pruning and
  refreshing of handles, and which address a request is counted on.
\<close>

subsection \<open>Concurrent requests within one day\<close>

text \<open>
  \<open>r_flying\<close> are the sends Google has not answered, \<open>r_log\<close> the delivered ones with their
  handle, \<open>r_used\<close> the handles ever in the table. A minted handle (32 random bytes) is taken
  to be new, and the table's writes after a delivery to succeed; at most \<open>w\<close> sends of one
  handle are in flight at once; all requests are on the day \<open>D\<close>.
\<close>

record relay_state =
  r_app :: app
  r_flying :: "in_flight list"
  r_log :: "string list"
  r_used :: "string set"

definition flying :: "relay_state \<Rightarrow> string \<Rightarrow> nat" where
  "flying s h = length (filter (\<lambda>p. fl_handle p = h) (r_flying s))"

definition delivered :: "relay_state \<Rightarrow> string \<Rightarrow> nat" where
  "delivered s h = length (filter (\<lambda>g. g = h) (r_log s))"






subsection \<open>What the operations do to the table\<close>

lemma notify_begin_table:
  assumes "notify_begin rnd st ip req sql instant now = (st', r)"
  shows "app_table st' = app_table st \<and> app_cap st' = app_cap st"
  using assms by (auto simp: notify_begin_def Let_def split: prod.splits if_splits sum.splits option.splits)

lemma notify_begin_sends:
  assumes "notify_begin rnd st ip req sql instant now = (st', Inr p)"
  shows "\<exists>r. app_table st (nq_handle req) = Some r \<and> \<not> row_pruned r \<and>
    \<not> (row_day r = day_bucket now \<and> app_cap st \<le> of_nat (row_sends r)) \<and>
    p = \<lparr>fl_handle = nq_handle req, fl_token = row_fcm_token r, fl_today = day_bucket now, fl_now = now\<rparr>"
  using assms by (auto simp: notify_begin_def store_get_def Let_def split: prod.splits if_splits sum.splits option.splits)





subsection \<open>The invariant\<close>


lemma delivered_app [simp]:
  "delivered (s\<lparr>r_app := a\<rparr>) h = delivered s h"
  "delivered (s\<lparr>r_app := a, r_used := U\<rparr>) h = delivered s h"
  "flying (s\<lparr>r_app := a\<rparr>) h = flying s h"
  "flying (s\<lparr>r_app := a, r_used := U\<rparr>) h = flying s h"
  by (simp_all add: delivered_def flying_def)















subsection \<open>Properties\<close>


lemma finish_delivered:
  assumes "app_table st (fl_handle p) = Some r"
  shows "\<exists>r'. app_table (fst (notify_finish st p (Inr Delivered) True)) = (app_table st)(fl_handle p \<mapsto> r') \<and>
    row_day r' = fl_today p \<and> row_sends r' = (if row_day r = fl_today p then row_sends r + 1 else 1)"
  using assms by (auto simp: notify_finish_def record_send_def update_row_def)

text \<open>
  (the check reserves nothing). When a send has passed the check, a second request for the
  same handle that the limiters admit passes it too while the first is in flight; when both are
  delivered the count of the day is two more than it was, whatever the cap. So overlapping
  requests exceed the cap.
\<close>

theorem overlap_exceeds_cap:
  assumes first: "notify_begin rnd st ip req True i now = (st1, Inr p)"
    and row: "app_table st (nq_handle req) = Some r" "row_day r = day_bucket now"
    and ip: "allow_request rnd (app_limits st1) ip' i' = (l1, True)"
    and h: "allow_notify rnd l1 (nq_handle req) i' = (l2, True)"
  shows "\<exists>st2 q. notify_begin rnd st1 ip' req True i' now = (st2, Inr q) \<and>
    (\<exists>r'. app_table (fst (notify_finish (fst (notify_finish st2 p (Inr Delivered) True)) q (Inr Delivered) True))
          (nq_handle req) = Some r' \<and> row_sends r' = row_sends r + 2)"
proof -
  have pass: "\<not> row_pruned r" "\<not> app_cap st \<le> of_nat (row_sends r)" "fl_handle p = nq_handle req"
    "fl_today p = day_bucket now"
    using notify_begin_sends[OF first] row by auto
  have lens: "\<not> MAX_TITLE_CHARS < opt_chars (nq_title req)" "\<not> MAX_BODY_CHARS < opt_chars (nq_body req)"
    using first by (auto simp: notify_begin_def Let_def split: prod.splits if_splits)
  note tab = notify_begin_table[OF first]
  let ?q = "\<lparr>fl_handle = nq_handle req, fl_token = row_fcm_token r, fl_today = day_bucket now, fl_now = now\<rparr>"
  have second: "notify_begin rnd st1 ip' req True i' now = (st1\<lparr>app_limits := l2\<rparr>, Inr ?q)"
    using lens pass row tab ip h by (simp add: notify_begin_def Let_def store_get_def)
  let ?s2 = "st1\<lparr>app_limits := l2\<rparr>"
  obtain r1 where r1: "app_table (fst (notify_finish ?s2 p (Inr Delivered) True)) = (app_table ?s2)(nq_handle req \<mapsto> r1)"
    "row_day r1 = day_bucket now" "row_sends r1 = row_sends r + 1"
    using finish_delivered[of ?s2 p r] row tab pass by auto
  then obtain r2 where "app_table (fst (notify_finish (fst (notify_finish ?s2 p (Inr Delivered) True)) ?q (Inr Delivered) True))
      (nq_handle req) = Some r2" "row_sends r2 = row_sends r + 2"
    using finish_delivered[of "fst (notify_finish ?s2 p (Inr Delivered) True)" ?q r1] by auto
  with second show ?thesis by blast
qed

definition unregistered_or_absent :: "table \<Rightarrow> string \<Rightarrow> bool" where
  "unregistered_or_absent t h = (case t h of None \<Rightarrow> True | Some r \<Rightarrow> row_pruned r)"

lemma notify_handler_gone:
  assumes "notify_handler rnd st ip req sql sql' instant now outcome = (st', code)" "code = 404 \<or> code = 410"
  shows "unregistered_or_absent (app_table st) (nq_handle req) \<or> outcome = Inr Unregistered"
  using assms
  by (auto simp: notify_handler_def notify_begin_def notify_finish_def store_get_def Let_def
      unregistered_or_absent_def split: prod.splits if_splits sum.splits option.splits send_outcome.splits)

lemma gone_not_sent:
  assumes "unregistered_or_absent (app_table st) (nq_handle req)"
  shows "\<exists>code. snd (notify_begin rnd st ip req sql instant now) = Inl code"
  using assms
  by (auto simp: notify_begin_def store_get_def Let_def unregistered_or_absent_def
      split: prod.splits if_splits sum.splits option.splits)

text \<open>
  (a gone handle). The notify handler answers 404 only when the handle is not in the table
  and 410 only when its row is pruned or Google has just called the token unregistered; a
  pruned handle is answered without a send until it is registered again, which keeps the
  handle and its daily count.
\<close>

theorem gone_until_registered:
  assumes "app_table st (nq_handle req) = Some r" "row_pruned r"
  shows "(\<exists>code. snd (notify_begin rnd st ip req sql instant now) = Inl code) \<and>
    (let (t, h) = store_register True (app_table st) plat tok (Some (nq_handle req)) new now
     in h = Inr (nq_handle req) \<and> t new = app_table st new \<or> new = nq_handle req) \<and>
    (let (t, h) = store_register True (app_table st) plat tok (Some (nq_handle req)) new now
     in \<exists>r'. t (nq_handle req) = Some r' \<and> \<not> row_pruned r' \<and> row_fcm_token r' = tok \<and>
          row_sends r' = row_sends r \<and> row_day r' = row_day r)"
  using assms gone_not_sent[of st req rnd ip sql instant now]
  by (auto simp: unregistered_or_absent_def store_register_def)

lemma last_field_append: "CHR '','' \<notin> set ip \<Longrightarrow> last_field (s @ CHR '','' # ip) = ip"
proof -
  assume "CHR '','' \<notin> set ip"
  then have "\<forall>c\<in>set (rev ip). c \<noteq> CHR '',''" by auto
  then have "takeWhile (\<lambda>c. c \<noteq> CHR '','') (rev ip @ CHR '','' # rev s) = rev ip"
    by (simp add: takeWhile_tail takeWhile_append2)
  then show ?thesis by (simp add: last_field_def)
qed

lemma strip_one_space: "strip_one ws_codes (CHR '' '' # s) = Some s"
proof -
  have space: "\<forall>p\<in>set ws_codes. p \<noteq> [CHR '' ''] \<longrightarrow> p \<noteq> [] \<longrightarrow> hd p \<noteq> CHR '' ''"
    by code_simp
  have "(strip_prefix p (CHR '' '' # s) \<noteq> None \<and> p \<noteq> []) = (p = [CHR '' ''])" if "p \<in> set ws_codes" for p
    using bspec[OF space that] by (cases p) auto
  then have "filter (\<lambda>p. strip_prefix p (CHR '' '' # s) \<noteq> None \<and> p \<noteq> []) ws_codes =
      filter (\<lambda>p. p = [CHR '' '']) ws_codes"
    by (rule filter_cong[OF refl])
  also have "\<dots> = [[CHR '' '']]" by code_simp
  finally show ?thesis by (simp add: strip_one_def)
qed

lemma trim_space: "trim (CHR '' '' # s) = trim s"
  by (simp add: trim_def trim_start_def strip_all.simps[of _ "CHR '' '' # s"] strip_one_space)

text \<open>
  (whose bucket). Behind the trusted proxy, which appends the peer's address to whatever
  \<open>X-Forwarded-For\<close> the client sent, the request is counted on the address the proxy saw, no
  matter what the client wrote before it; without the proxy the header is ignored.
\<close>

theorem spoofed_address_ignored:
  assumes "CHR '','' \<notin> set ip" "trim ip = ip" "ip \<noteq> []"
  shows "resolve_client_ip True (Some (spoof @ '', '' @ ip)) peer = ip \<and>
    resolve_client_ip True (Some (spoof @ '','' @ ip)) peer = ip \<and>
    resolve_client_ip False (Some spoof) (Some ip) = ip"
  using assms last_field_append[of ip spoof] last_field_append[of "CHR '' '' # ip" spoof]
  by (simp add: resolve_client_ip_def trim_space Let_def)

lemma relay_config_mode:
  assumes "relay_config_from_env parse_addr env = Inr c"
  shows "service_account c = non_empty_var env ''FCM_SERVICE_ACCOUNT'' \<and>
    env_or env ''FCM_MODE'' ''send'' = (case mode c of Send \<Rightarrow> ''send'' | Log \<Rightarrow> ''log'')"
proof -
  define m where "m = env_or env ''FCM_MODE'' ''send''"
  show ?thesis
    using assms unfolding relay_config_from_env_def Let_def m_def[symmetric]
    by (cases "m = ''send''"; cases "m = ''log''") (auto split: option.splits if_splits)
qed

text \<open>
  (the relay starts only when it can send). A started relay in send mode has a
  service account and a project id; any bad variable stops it.
\<close>

theorem relay_start_checked:
  assumes "relay_run rnd parse_addr env sa_project client_ok open_db = Inr (st, fcm)"
  shows "(env_or env ''FCM_MODE'' ''send'' = ''log'' \<and> fcm = LogSender) \<or>
    (env_or env ''FCM_MODE'' ''send'' = ''send'' \<and>
     (\<exists>path p. non_empty_var env ''FCM_SERVICE_ACCOUNT'' = Some path \<and> sa_project path \<noteq> None \<and> fcm = Live p))"
proof -
  obtain c where c: "relay_config_from_env parse_addr env = Inr c" "fcm_build sa_project client_ok c = Inr fcm"
    using assms by (auto simp: relay_run_def split: sum.splits option.splits)
  note mode = relay_config_mode[OF c(1)]
  show ?thesis
  proof (cases "mode c")
    case Send
    then show ?thesis using mode c(2) by (auto simp: fcm_build_def split: option.splits if_splits)
  next
    case Log
    then show ?thesis using mode c(2) by (simp add: fcm_build_def)
  qed
qed

text \<open>Only eight characters of a secret are ever logged, whole characters of its text.\<close>

lemma token_prefix_safe: "char_count (token_prefix s) \<le> 8 \<and> (\<exists>t. s = token_prefix s @ t)"
  using take_chars_prefix[of s 8] by (simp add: token_prefix_def char_count_take_chars)

subsection \<open>Witnesses\<close>

definition race_app :: app where
  "race_app =
     \<lparr>app_table = [''h'' \<mapsto> \<lparr>row_platform = ''android'', row_fcm_token = ''t'', created_at = 0,
                              last_send = None, row_day = dec 1, row_sends = 0, row_pruned = False\<rparr>],
      app_limits = new_relay_limits id, app_cap = 1, app_trust = False\<rparr>"

definition race_request :: notify_request where
  "race_request = \<lparr>nq_handle = ''h'', nq_kind = ''agent_done'', nq_title = None, nq_body = None\<rparr>"

lemma two_admitted:
  assumes "n_inv b t K" "k \<in> K" "2 \<le> n_avail b k t"
  obtains b1 b2 where "try_acquire_at id b k t = (b1, True)" "try_acquire_at id b1 k t = (b2, True)"
proof -
  let ?b1 = "fst (try_acquire_at id b k t)"
  have "snd (try_acquire_at id b k t)" using nlim.acquire_ok[OF assms(1,2)] assms(3) by simp
  moreover have "n_avail ?b1 k t = n_avail b k t - 1"
    using nlim.acquire_own[OF assms(1,2)] assms(3) by simp
  moreover have "snd (try_acquire_at id ?b1 k t)"
    using nlim.acquire_ok[OF nlim.acquire_inv[OF assms(1,2)] assms(2)] calculation assms(3) by simp
  ultimately show thesis
    using that[of ?b1 "fst (try_acquire_at id ?b1 k t)"] by (simp add: prod_eq_iff)
qed

lemma two_from_new:
  assumes "0 < refill" "2 \<le> cap" "cap \<le> secs (from_secs_f64 (cap / refill)) * refill"
  obtains b1 b2 where "try_acquire_at id (new_buckets id cap refill) k 0 = (b1, True)"
    "try_acquire_at id b1 k 0 = (b2, True)"
proof (rule two_admitted[of "new_buckets id cap refill" 0 "{k}" k])
  show "n_inv (new_buckets id cap refill) 0 {k}"
    unfolding new_buckets_def by (rule n_inv_new) (use assms in \<open>auto simp: MAX_KEYS_def\<close>)
  show "2 \<le> n_avail (new_buckets id cap refill) k 0"
    using assms(2) by (simp add: new_buckets_def n_avail_new)
qed (use that in auto)

lemma race_limits:
  obtains l1 l2 l3 l4 where "allow_request id (new_relay_limits id) ''ip'' 0 = (l1, True)"
    "allow_notify id l1 ''h'' 0 = (l2, True)" "allow_request id l2 ''ip'' 0 = (l3, True)"
    "allow_notify id l3 ''h'' 0 = (l4, True)"
proof -
  obtain a b where a: "try_acquire_at id (new_buckets id 60 1) ''ip'' 0 = (a, True)"
    "try_acquire_at id a ''ip'' 0 = (b, True)"
    by (rule two_from_new[OF _ _ horizons(3)]) simp_all
  obtain c d where c: "try_acquire_at id (new_buckets id 10 (10 / 60)) ''h'' 0 = (c, True)"
    "try_acquire_at id c ''h'' 0 = (d, True)"
    by (rule two_from_new[OF _ _ horizons(1)]) simp_all
  show thesis
    by (rule that[of "new_relay_limits id\<lparr>per_ip_request := a\<rparr>"
          "new_relay_limits id\<lparr>per_ip_request := a, per_handle_burst := c\<rparr>"
          "new_relay_limits id\<lparr>per_ip_request := b, per_handle_burst := c\<rparr>"
          "new_relay_limits id\<lparr>per_ip_request := b, per_handle_burst := d\<rparr>"])
       (simp_all add: allow_request_def allow_notify_def new_relay_limits_def a c[simplified])
qed


theorem overlap_exceeds_cap_witness:
  "\<exists>st1 p st2 q r. notify_begin id race_app ''ip'' race_request True 0 90000 = (st1, Inr p) \<and>
     notify_begin id st1 ''ip'' race_request True 0 90000 = (st2, Inr q) \<and>
     app_table (fst (notify_finish (fst (notify_finish st2 p (Inr Delivered) True)) q (Inr Delivered) True)) ''h'' = Some r \<and>
     row_sends r = 2 \<and> app_cap race_app = 1"
proof -
  obtain l1 l2 l3 l4 where l: "allow_request id (new_relay_limits id) ''ip'' 0 = (l1, True)"
    "allow_notify id l1 ''h'' 0 = (l2, True)" "allow_request id l2 ''ip'' 0 = (l3, True)"
    "allow_notify id l3 ''h'' 0 = (l4, True)"
    by (rule race_limits)
  have today: "day_bucket 90000 = dec 1" by (simp add: day_bucket_def)
  have first: "notify_begin id race_app ''ip'' race_request True 0 90000 =
      (race_app\<lparr>app_limits := l2\<rparr>,
       Inr \<lparr>fl_handle = ''h'', fl_token = ''t'', fl_today = dec 1, fl_now = 90000\<rparr>)"
    using l(1,2) today
    by (simp add: notify_begin_def race_app_def race_request_def store_get_def opt_chars_def Let_def)
  have row: "app_table race_app (nq_handle race_request) =
      Some \<lparr>row_platform = ''android'', row_fcm_token = ''t'', created_at = 0, last_send = None,
            row_day = dec 1, row_sends = 0, row_pruned = False\<rparr>"
    by (simp add: race_app_def race_request_def)
  have lims: "allow_request id (app_limits (race_app\<lparr>app_limits := l2\<rparr>)) ''ip'' 0 = (l3, True)"
    "allow_notify id l3 (nq_handle race_request) 0 = (l4, True)"
    using l(3,4) by (simp_all add: race_request_def)
  have "row_day (the (app_table race_app (nq_handle race_request))) = day_bucket 90000"
    by (simp add: row today)
  with overlap_exceeds_cap[OF first row _ lims] first show ?thesis
    by (fastforce simp: row race_request_def race_app_def)
qed

theorem gone_until_registered_witness:
  "\<exists>code. snd (notify_begin id (race_app\<lparr>app_table := update_row (app_table race_app) ''h'' (\<lambda>r. r\<lparr>row_pruned := True\<rparr>)\<rparr>)
     ''ip'' race_request True 0 90000) = Inl code"
  using gone_until_registered[of "race_app\<lparr>app_table := update_row (app_table race_app) ''h'' (\<lambda>r. r\<lparr>row_pruned := True\<rparr>)\<rparr>"
      race_request _ id "''ip''" True 0 90000]
  by (simp add: race_app_def race_request_def update_row_def)

theorem spoofed_address_ignored_witness:
  "resolve_client_ip True (Some ''1.1.1.1, 9.9.9.9'') None = ''9.9.9.9''"
proof -
  have "trim ''9.9.9.9'' = ''9.9.9.9''" by code_simp
  then show ?thesis using spoofed_address_ignored[of "''9.9.9.9''" "''1.1.1.1''" None] by simp
qed

theorem relay_start_checked_witness:
  "env_or (\<lambda>k. if k = ''FCM_MODE'' then Some ''log'' else None) ''FCM_MODE'' ''send'' = ''log''"
proof -
  let ?env = "\<lambda>k. if k = ''FCM_MODE'' then Some ''log'' else None"
  have cap: "parse_u32 ''150'' = Some 150" by code_simp
  have "\<exists>st. relay_run id (\<lambda>_. Some ()) ?env (\<lambda>_. None) True (\<lambda>_. Some Map.empty) = Inr (st, LogSender)"
    by (simp add: relay_run_def relay_config_from_env_def env_or_def non_empty_var_def fcm_build_def cap)
  then show ?thesis using relay_start_checked by fastforce
qed

end
