(* ===== verification/Events.thy ===== *)
theory Events
  imports Prelude
begin

text \<open>
  The daemon's internal event bus: the event types of \<open>muxrd/src/multiplexer/events.rs\<close> and
  the agent vocabulary of \<open>muxrd/src/multiplexer/types.rs\<close>. The bus is lossy: a receiver gets
  events in order, or learns that it has missed some.
\<close>

datatype agent_status = Idle | Working | Blocked | Done | Unknown

record agent_status_changed =
  ev_pane :: "32 word"
  ev_workspace_id :: string
  ev_workspace_name :: "string option"
  ev_status :: agent_status
  ev_title :: "string option"
  ev_kind :: "string option"
  ev_name :: "string option"
  ev_tab :: "64 word option"
  ev_synthetic :: bool

record layout_changed =
  lc_workspace_id :: string
  lc_tab :: "64 word"

datatype mux_event =
  AgentChanged agent_status_changed | LayoutMoved layout_changed | PaneGone "32 word" | Resynced

definition priority :: "agent_status \<Rightarrow> nat" where
  "priority s = (case s of Blocked \<Rightarrow> 4 | Done \<Rightarrow> 3 | Working \<Rightarrow> 2 | Idle \<Rightarrow> 1 | Unknown \<Rightarrow> 0)"

record agent_snapshot =
  as_pane :: "32 word"
  as_tab_id :: "64 word"
  as_space_id :: string
  as_space_name :: string
  as_tab_name :: string
  as_kind :: string
  as_name :: "string option"
  as_display_kind :: "string option"
  as_status :: agent_status
  as_title :: "string option"
  as_summary :: "string option"
  as_cwd :: "string option"
  as_focused :: bool
  as_change_seq :: "64 word"
  as_completion_seq :: "64 word option"

text \<open>
  The key \<open>(priority, change_seq)\<close> as one number with the order of the pair.
\<close>

definition urgency :: "agent_snapshot \<Rightarrow> nat" where
  "urgency a = priority (as_status a) * 2 ^ 64 + unat (as_change_seq a)"

text \<open>A stable sort by descending key.\<close>

definition sort_agents :: "agent_snapshot list \<Rightarrow> agent_snapshot list" where
  "sort_agents as = sort_key (\<lambda>a. - int (urgency a)) as"

definition SUMMARY_KINDS_CAP :: nat where "SUMMARY_KINDS_CAP = 8"

record agent_summary =
  sm_total :: "32 word"
  sm_blocked :: "32 word"
  sm_done :: "32 word"
  sm_working :: "32 word"
  sm_idle :: "32 word"
  sm_unknown :: "32 word"
  sm_kinds :: "string list"

definition count_agent :: "agent_summary \<Rightarrow> agent_snapshot \<Rightarrow> agent_summary" where
  "count_agent out a =
     (let out1 = (case as_status a of
                    Blocked \<Rightarrow> out\<lparr>sm_blocked := sm_blocked out + 1\<rparr>
                  | Done \<Rightarrow> out\<lparr>sm_done := sm_done out + 1\<rparr>
                  | Working \<Rightarrow> out\<lparr>sm_working := sm_working out + 1\<rparr>
                  | Idle \<Rightarrow> out\<lparr>sm_idle := sm_idle out + 1\<rparr>
                  | Unknown \<Rightarrow> out\<lparr>sm_unknown := sm_unknown out + 1\<rparr>)
      in if length (sm_kinds out1) < SUMMARY_KINDS_CAP \<and> as_kind a \<notin> set (sm_kinds out1)
         then out1\<lparr>sm_kinds := sm_kinds out1 @ [as_kind a]\<rparr> else out1)"

definition summarise :: "agent_snapshot list \<Rightarrow> agent_summary" where
  "summarise as =
     foldl count_agent
       \<lparr>sm_total = of_nat (length as), sm_blocked = 0, sm_done = 0, sm_working = 0, sm_idle = 0,
        sm_unknown = 0, sm_kinds = []\<rparr> as"

lemma urgency_pair:
  "urgency a < urgency b \<longleftrightarrow>
     priority (as_status a) < priority (as_status b) \<or>
     (priority (as_status a) = priority (as_status b) \<and> as_change_seq a < as_change_seq b)"
proof -
  have lt: "unat (as_change_seq x) < 2 ^ 64" for x using unsigned_less[of "as_change_seq x"] by simp
  have "p * 2 ^ 64 + x < q * 2 ^ 64 + y \<longleftrightarrow> p < q \<or> (p = q \<and> x < y)"
    if "x < 2 ^ 64" "y < 2 ^ 64" for p q x y :: nat
  proof (cases p q rule: linorder_cases)
    case less
    then have "Suc p * 2 ^ 64 \<le> q * 2 ^ 64" by (intro mult_le_mono1) simp
    then show ?thesis using less that by simp
  next
    case greater
    then have "Suc q * 2 ^ 64 \<le> p * 2 ^ 64" by (intro mult_le_mono1) simp
    then show ?thesis using greater that by simp
  qed simp
  from this[OF lt lt] show ?thesis by (simp add: urgency_def word_less_nat_alt)
qed

text \<open>The five counts add up to the total, and at most eight distinct kinds are listed.\<close>

lemma count_agent_kinds:
  "distinct (sm_kinds out) \<Longrightarrow> length (sm_kinds out) \<le> SUMMARY_KINDS_CAP \<Longrightarrow>
     distinct (sm_kinds (count_agent out a)) \<and> length (sm_kinds (count_agent out a)) \<le> SUMMARY_KINDS_CAP"
  by (cases "as_status a") (simp_all add: count_agent_def Let_def)

definition agent_sum :: "agent_summary \<Rightarrow> 32 word" where
  "agent_sum out = sm_blocked out + sm_done out + sm_working out + sm_idle out + sm_unknown out"

lemma count_agent_sum:
  "agent_sum (count_agent out a) = agent_sum out + 1" "sm_total (count_agent out a) = sm_total out"
  by (cases "as_status a"; simp add: count_agent_def agent_sum_def Let_def)+

lemma count_agents_sum:
  "agent_sum (foldl count_agent out as) = agent_sum out + of_nat (length as) \<and>
     sm_total (foldl count_agent out as) = sm_total out"
  by (induction as arbitrary: out) (simp_all add: count_agent_sum)

lemma count_agents_kinds:
  "distinct (sm_kinds out) \<Longrightarrow> length (sm_kinds out) \<le> SUMMARY_KINDS_CAP \<Longrightarrow>
     distinct (sm_kinds (foldl count_agent out as)) \<and>
     length (sm_kinds (foldl count_agent out as)) \<le> SUMMARY_KINDS_CAP"
proof (induction as arbitrary: out)
  case (Cons a as)
  from count_agent_kinds[OF Cons.prems] show ?case by (simp add: Cons.IH)
qed simp

lemma summarise_counts:
  "sm_total (summarise as) = agent_sum (summarise as) \<and>
   distinct (sm_kinds (summarise as)) \<and> length (sm_kinds (summarise as)) \<le> SUMMARY_KINDS_CAP"
  by (simp add: summarise_def count_agents_sum count_agents_kinds) (simp add: agent_sum_def)

end
