(* ===== verification/Notifier.thy ===== *)
theory Notifier
  imports Devices RelaySafety Events
begin

text \<open>
  The outbound notifier, \<open>muxrd/src/notify/sender.rs\<close>. The \<open>RelayTransport\<close> trait is a
  function on a transport state; its contract is a locale, met by the daemon's HTTP mapping
  over the relay model of \<open>RelayApi\<close>. \<open>Instant\<close>s are nanoseconds.
\<close>

subsection \<open>Triggers\<close>

datatype trigger_kind = TBlocked | TDone

definition wire :: "trigger_kind \<Rightarrow> string" where
  "wire k = (case k of TBlocked \<Rightarrow> ''agent_blocked'' | TDone \<Rightarrow> ''agent_done'')"

definition trigger_of :: "agent_status \<Rightarrow> trigger_kind option" where
  "trigger_of s = (case s of
     Blocked \<Rightarrow> Some TBlocked | Done \<Rightarrow> Some TDone | Idle \<Rightarrow> None | Working \<Rightarrow> None | Unknown \<Rightarrow> None)"

record notify_content =
  nc_kind :: string
  nc_title :: "string option"
  nc_body :: "string option"

datatype relay_answer = SentOk | Gone | RateLimited | Transient

text \<open>\<open>ReqwestRelay::send\<close>: the status of the answer, \<open>None\<close> when the POST fails.\<close>

definition outcome_of :: "nat option \<Rightarrow> relay_answer" where
  "outcome_of status =
     (case status of
        Some c \<Rightarrow> if c = 204 then SentOk else if c = 404 \<or> c = 410 then Gone
                  else if c = 429 then RateLimited else Transient
      | None \<Rightarrow> Transient)"

subsection \<open>Debouncing\<close>

definition DEBOUNCE_WINDOW :: nat where
  "DEBOUNCE_WINDOW = 30 * nanos_per_sec"

record debouncer =
  last_sent :: "32 word \<times> trigger_kind \<rightharpoonup> nat"
  window :: nat

definition new_debouncer :: "nat \<Rightarrow> debouncer" where
  "new_debouncer w = \<lparr>last_sent = Map.empty, window = w\<rparr>"

definition should_send :: "debouncer \<Rightarrow> 32 word \<times> trigger_kind \<Rightarrow> nat \<Rightarrow> debouncer \<times> bool" where
  "should_send d k now =
     (let kept = (\<lambda>j. case last_sent d j of
                        Some t \<Rightarrow> if now - t < window d then Some t else None | None \<Rightarrow> None)
      in (case kept k of
            Some t \<Rightarrow>
              if now - t < window d then (d\<lparr>last_sent := kept\<rparr>, False)
              else (d\<lparr>last_sent := kept(k \<mapsto> now)\<rparr>, True)
          | None \<Rightarrow> (d\<lparr>last_sent := kept(k \<mapsto> now)\<rparr>, True)))"

subsection \<open>Content and fan-out\<close>

definition content_for :: "trigger_kind \<Rightarrow> agent_status_changed \<Rightarrow> string \<Rightarrow> notify_content" where
  "content_for kind ev verbosity =
     (let body =
        (if verbosity = ''generic'' then ''Attention needed''
         else
           let label = (case ev_workspace_name ev of
                          Some s \<Rightarrow> if s = '''' then ev_workspace_id ev else s
                        | None \<Rightarrow> ev_workspace_id ev)
           in (case kind of
                 TBlocked \<Rightarrow> ''Agent blocked in '' @ label
               | TDone \<Rightarrow> ''Agent finished in '' @ label))
      in \<lparr>nc_kind = wire kind, nc_title = Some ''Muxr'', nc_body = Some body\<rparr>)"

type_synonym 't transport = "'t \<Rightarrow> string \<Rightarrow> notify_content \<Rightarrow> 't \<times> relay_answer"

definition send_with_retry :: "'t transport \<Rightarrow> 't transport" where
  "send_with_retry send t h c =
     (case send t h c of
        (t1, Transient) \<Rightarrow> send t1 h c
      | (t1, r) \<Rightarrow> (t1, r))"

record 't world =
  w_file :: devices_file
  w_transport :: 't

fun fan_out :: "'t transport \<Rightarrow> dev_io \<Rightarrow> notify_content \<Rightarrow> push_device list \<Rightarrow> 't world \<Rightarrow> 't world" where
  "fan_out send io c [] w = w"
| "fan_out send io c (d # ds) w =
     (case send_with_retry send (w_transport w) (push_handle d) c of
        (t, Gone) \<Rightarrow>
          fan_out send io c ds
            (w\<lparr>w_transport := t, w_file := fst (remove_by_handle io (w_file w) (push_handle d))\<rparr>)
      | (t, _) \<Rightarrow> fan_out send io c ds (w\<lparr>w_transport := t\<rparr>))"

definition handle_event ::
  "'t transport \<Rightarrow> dev_io \<Rightarrow> agent_status_changed \<Rightarrow> string \<Rightarrow> nat \<Rightarrow> debouncer \<Rightarrow> 't world
     \<Rightarrow> debouncer \<times> 't world" where
  "handle_event send io ev verbosity now db w =
     (case trigger_of (ev_status ev) of
        None \<Rightarrow> (db, w)
      | Some kind \<Rightarrow>
          if ev_synthetic ev \<and> kind = TDone then (db, w)
          else
            (case dev_list io (w_file w) of
               Inl _ \<Rightarrow> (db, w)
             | Inr devices \<Rightarrow>
                 if devices = [] then (db, w)
                 else
                   (case should_send db (ev_pane ev, kind) now of
                      (db', False) \<Rightarrow> (db', w)
                    | (db', True) \<Rightarrow> (db', fan_out send io (content_for kind ev verbosity) devices w))))"

text \<open>
  The task: what a received event, a lag or the end of the stream does. \<open>None\<close> is the loop's
  break.
\<close>

datatype bus_recv = Received mux_event | Lagged | Closed | ShutdownChanged bool

definition notifier_turn ::
  "'t transport \<Rightarrow> dev_io \<Rightarrow> string \<Rightarrow> nat \<Rightarrow> bus_recv \<Rightarrow> debouncer \<times> 't world \<Rightarrow> (debouncer \<times> 't world) option" where
  "notifier_turn send io verbosity now r s =
     (case r of
        Received (AgentChanged ev) \<Rightarrow> Some (handle_event send io ev verbosity now (fst s) (snd s))
      | Received _ \<Rightarrow> Some s
      | Lagged \<Rightarrow> Some s
      | Closed \<Rightarrow> None
      | ShutdownChanged stop \<Rightarrow> if stop then None else Some s)"

fun run_notifier ::
  "'t transport \<Rightarrow> dev_io \<Rightarrow> string \<Rightarrow> (nat \<times> bus_recv) list \<Rightarrow> debouncer \<times> 't world \<Rightarrow> debouncer \<times> 't world" where
  "run_notifier send io v [] s = s"
| "run_notifier send io v ((now, r) # rs) s =
     (case notifier_turn send io v now r s of None \<Rightarrow> s | Some s' \<Rightarrow> run_notifier send io v rs s')"

subsection \<open>The transport's contract\<close>

text \<open>
  \<open>dead t h\<close> says that no push can reach \<open>h\<close>; a transport answers \<open>Gone\<close> only for
  a dead handle, and sending revives none. \<open>calls\<close> counts the posts.
\<close>

locale relay_transport =
  fixes send :: "'t transport" and dead :: "'t \<Rightarrow> string \<Rightarrow> bool" and calls :: "'t \<Rightarrow> nat"
  assumes gone_dead: "send t h c = (t', Gone) \<Longrightarrow> dead t' h"
    and dead_stays: "dead t h \<Longrightarrow> dead (fst (send t g c)) h"
    and one_call: "calls (fst (send t h c)) = Suc (calls t)"

definition kept_by :: "('t \<Rightarrow> string \<Rightarrow> bool) \<Rightarrow> 't world \<Rightarrow> 't world \<Rightarrow> bool" where
  "kept_by dead w w' \<longleftrightarrow>
     (\<forall>ds. w_file w = Saved ds \<longrightarrow>
        (\<exists>es. w_file w' = Saved es \<and> set es \<subseteq> set ds \<and>
           (\<forall>d\<in>set ds. d \<notin> set es \<longrightarrow> dead (w_transport w') (push_handle d))))"

context relay_transport
begin

lemma retry_gone: "send_with_retry send t h c = (t', Gone) \<Longrightarrow> dead t' h"
  by (auto simp: send_with_retry_def gone_dead split: prod.splits relay_answer.splits)

lemma retry_dead: "dead t h \<Longrightarrow> dead (fst (send_with_retry send t g c)) h"
  using dead_stays by (auto simp: send_with_retry_def split: prod.splits relay_answer.splits) (metis fst_conv)+

lemma retry_calls: "calls (fst (send_with_retry send t h c)) \<le> calls t + 2"
proof -
  obtain t1 r where s: "send t h c = (t1, r)" by (cases "send t h c")
  then have "calls t1 = Suc (calls t)" using one_call[of t h c] by simp
  then show ?thesis using s one_call[of t1 h c] by (cases r) (simp_all add: send_with_retry_def)
qed

lemma kept_by_refl: "w_file w' = w_file w \<Longrightarrow> kept_by dead w w'"
  by (simp add: kept_by_def)

text \<open>A fan-out keeps every device whose handle is alive at the end.\<close>

lemma fan_out_dead: "dead (w_transport w) h \<Longrightarrow> dead (w_transport (fan_out send io c ds w)) h"
proof (induction ds arbitrary: w)
  case (Cons d ds)
  obtain t r where s: "send_with_retry send (w_transport w) (push_handle d) c = (t, r)"
    by (cases "send_with_retry send (w_transport w) (push_handle d) c")
  then have "dead t h" using retry_dead[OF Cons.prems, of "push_handle d" c] by simp
  then show ?case using Cons.IH s by (cases r) simp_all
qed simp

lemma fan_out_kept: "kept_by dead w (fan_out send io c ds w)"
proof (induction ds arbitrary: w)
  case Nil
  then show ?case by (simp add: kept_by_def)
next
  case (Cons d ds)
  obtain t r where s: "send_with_retry send (w_transport w) (push_handle d) c = (t, r)"
    by (cases "send_with_retry send (w_transport w) (push_handle d) c")
  show ?case
  proof (cases "r = Gone")
    case False
    have "kept_by dead (w\<lparr>w_transport := t\<rparr>) (fan_out send io c ds (w\<lparr>w_transport := t\<rparr>))" by (rule Cons.IH)
    then show ?thesis using s False by (cases r) (simp_all add: kept_by_def)
  next
    case True
    let ?w = "w\<lparr>w_transport := t, w_file := fst (remove_by_handle io (w_file w) (push_handle d))\<rparr>"
    have IH: "kept_by dead ?w (fan_out send io c ds ?w)" by (rule Cons.IH)
    have dead: "dead (w_transport (fan_out send io c ds ?w)) (push_handle d)"
      by (rule fan_out_dead) (use s True retry_gone in auto)
    show ?thesis
      unfolding kept_by_def
    proof (intro allI impI)
      fix ds0 assume f: "w_file w = Saved ds0"
      let ?ks = "if lock_ok io \<and> write_ok io then filter (\<lambda>e. push_handle e \<noteq> push_handle d) ds0 else ds0"
      have "w_file ?w = Saved ?ks" using f by (simp add: remove_by_handle_file)
      then obtain ks where ks: "w_file ?w = Saved ks" "set ks \<subseteq> set ds0"
        "\<forall>e\<in>set ds0. e \<notin> set ks \<longrightarrow> push_handle e = push_handle d"
        by (rule that[of ?ks]) auto
      then obtain es where "w_file (fan_out send io c ds ?w) = Saved es" "set es \<subseteq> set ks"
        "\<forall>e\<in>set ks. e \<notin> set es \<longrightarrow> dead (w_transport (fan_out send io c ds ?w)) (push_handle e)"
        using IH unfolding kept_by_def by blast
      then show "\<exists>es. w_file (fan_out send io c (d # ds) w) = Saved es \<and> set es \<subseteq> set ds0 \<and>
          (\<forall>e\<in>set ds0. e \<notin> set es \<longrightarrow> dead (w_transport (fan_out send io c (d # ds) w)) (push_handle e))"
        using s True ks dead by auto
    qed
  qed
qed

lemma fan_out_calls: "calls (w_transport (fan_out send io c ds w)) \<le> calls (w_transport w) + 2 * length ds"
proof (induction ds arbitrary: w)
  case (Cons d ds)
  obtain t r where s: "send_with_retry send (w_transport w) (push_handle d) c = (t, r)"
    by (cases "send_with_retry send (w_transport w) (push_handle d) c")
  have "calls t \<le> calls (w_transport w) + 2"
    using retry_calls[of "w_transport w" "push_handle d" c] s by simp
  then show ?case
    using s Cons.IH[of "w\<lparr>w_transport := t\<rparr>"]
      Cons.IH[of "w\<lparr>w_transport := t, w_file := fst (remove_by_handle io (w_file w) (push_handle d))\<rparr>"]
    by (cases r) simp_all
qed simp

lemma handle_event_kept: "kept_by dead w (snd (handle_event send io ev v now db w))"
  using fan_out_kept
  by (auto simp: handle_event_def kept_by_refl split: option.splits sum.splits prod.splits bool.splits)

lemma handle_event_dead:
  "dead (w_transport w) h \<Longrightarrow> dead (w_transport (snd (handle_event send io ev v now db w))) h"
  by (auto simp: handle_event_def fan_out_dead split: option.splits sum.splits prod.splits bool.splits)

lemma kept_by_trans:
  assumes "kept_by dead u w" "kept_by dead w x" "\<And>h. dead (w_transport w) h \<Longrightarrow> dead (w_transport x) h"
  shows "kept_by dead u x"
  unfolding kept_by_def
proof (intro allI impI)
  fix ds assume "w_file u = Saved ds"
  then obtain es where es: "w_file w = Saved es" "set es \<subseteq> set ds"
    "\<forall>d\<in>set ds. d \<notin> set es \<longrightarrow> dead (w_transport w) (push_handle d)"
    using assms(1) unfolding kept_by_def by blast
  then obtain fs where "w_file x = Saved fs" "set fs \<subseteq> set es"
    "\<forall>d\<in>set es. d \<notin> set fs \<longrightarrow> dead (w_transport x) (push_handle d)"
    using assms(2) unfolding kept_by_def by blast
  then show "\<exists>fs. w_file x = Saved fs \<and> set fs \<subseteq> set ds \<and>
      (\<forall>d\<in>set ds. d \<notin> set fs \<longrightarrow> dead (w_transport x) (push_handle d))"
    using es assms(3) by blast
qed

lemma run_kept: "kept_by dead (snd s) (snd (run_notifier send io v rs s))"
proof (induction rs arbitrary: s)
  case Nil
  then show ?case by (simp add: kept_by_refl)
next
  case (Cons x rs)
  obtain now r where x: "x = (now, r)" by (cases x)
  show ?case
  proof (cases "notifier_turn send io v now r s")
    case None
    then show ?thesis by (simp add: x kept_by_refl)
  next
    case (Some s')
    then have "kept_by dead (snd s) (snd s')"
      by (auto simp: notifier_turn_def handle_event_kept kept_by_refl split: bus_recv.splits mux_event.splits if_splits)
    moreover have "dead (w_transport (snd s')) h \<Longrightarrow> dead (w_transport (snd (run_notifier send io v rs s'))) h" for h
    proof (induction rs arbitrary: s')
      case (Cons y rs)
      obtain now' r' where y: "y = (now', r')" by (cases y)
      have step: "dead (w_transport (snd s'')) h" if "notifier_turn send io v now' r' s' = Some s''" for s''
        using that Cons.prems
        by (auto simp: notifier_turn_def handle_event_dead split: bus_recv.splits mux_event.splits if_splits)
      show ?case using Cons.IH step Cons.prems by (auto simp: y split: option.splits)
    qed simp
    ultimately show ?thesis using Some kept_by_trans Cons.IH[of s'] by (simp add: x)
  qed
qed

end

subsection \<open>The relay as the transport\<close>

text \<open>
  The state of the transport is the relay's, with the number of posts and, as a ghost, the
  handles whose token Google has called unregistered. \<open>renv\<close> gives for each post what the
  relay's environment does: whether its SQL succeeds, its clocks, and Google's answer; a post
  that does not reach the relay is \<open>None\<close>.
\<close>

record relay_link =
  rt_app :: app
  rt_calls :: nat
  rt_dropped :: "string set"

type_synonym relay_env = "nat \<Rightarrow> (bool \<times> bool \<times> nat \<times> nat \<times> (unit + send_outcome)) option"

definition post_notify ::
  "(rat \<Rightarrow> rat) \<Rightarrow> string \<Rightarrow> relay_env \<Rightarrow> relay_link \<Rightarrow> string \<Rightarrow> notify_content \<Rightarrow> relay_link \<times> nat option" where
  "post_notify rnd ip renv t h c =
     (case renv (rt_calls t) of
        None \<Rightarrow> (t\<lparr>rt_calls := Suc (rt_calls t)\<rparr>, None)
      | Some (sql, sql', instant, now, google) \<Rightarrow>
          (case notify_handler rnd (rt_app t) ip
                  \<lparr>nq_handle = h, nq_kind = nc_kind c, nq_title = nc_title c, nq_body = nc_body c\<rparr>
                  sql sql' instant now google of
             (a, code) \<Rightarrow>
               (t\<lparr>rt_app := a, rt_calls := Suc (rt_calls t),
                  rt_dropped := (if google = Inr Unregistered then insert h (rt_dropped t) else rt_dropped t)\<rparr>,
                Some code)))"

definition http_send :: "(rat \<Rightarrow> rat) \<Rightarrow> string \<Rightarrow> relay_env \<Rightarrow> relay_link transport" where
  "http_send rnd ip renv t h c =
     (case post_notify rnd ip renv t h c of (t', status) \<Rightarrow> (t', outcome_of status))"

definition unreachable :: "relay_link \<Rightarrow> string \<Rightarrow> bool" where
  "unreachable t h \<longleftrightarrow> unregistered_or_absent (app_table (rt_app t)) h \<or> h \<in> rt_dropped t"

lemma notify_handler_table:
  assumes "notify_handler rnd st ip req sql sql' instant now g = (st', code)"
    and "unregistered_or_absent (app_table st) h"
  shows "unregistered_or_absent (app_table st') h"
proof (cases "notify_begin rnd st ip req sql instant now")
  case (Pair st1 r)
  note tab = notify_begin_table[OF Pair]
  show ?thesis
    using assms tab Pair
    by (cases r)
       (auto simp: notify_handler_def notify_finish_def record_send_def mark_pruned_def update_row_def
        unregistered_or_absent_def split: sum.splits send_outcome.splits option.splits if_splits)
qed

interpretation http: relay_transport "http_send rnd ip renv" unreachable rt_calls
proof
  fix t t' :: relay_link and h g :: string and c :: notify_content
  show "http_send rnd ip renv t h c = (t', Gone) \<Longrightarrow> unreachable t' h"
    using notify_handler_gone notify_handler_table
    by (fastforce simp: http_send_def post_notify_def outcome_of_def unreachable_def
        split: option.splits prod.splits if_splits)
  show "unreachable t h \<Longrightarrow> unreachable (fst (http_send rnd ip renv t g c)) h"
    using notify_handler_table
    by (fastforce simp: http_send_def post_notify_def unreachable_def split: option.splits prod.splits)
  show "rt_calls (fst (http_send rnd ip renv t h c)) = Suc (rt_calls t)"
    by (simp add: http_send_def post_notify_def split: option.splits prod.splits)
qed

subsection \<open>Properties\<close>

text \<open>
  C14 (only dead devices are pruned). Whatever events the notifier handles, against whatever
  the relay and Google answer, a device leaves the registry only if its handle is not
  registered with the relay, or is pruned there, or Google has called its token unregistered;
  every other device is kept.
\<close>

theorem pruned_only_if_unreachable:
  assumes "w_file w = Saved ds"
  shows "\<exists>es. w_file (snd (run_notifier (http_send rnd ip renv) io v rs (db, w))) = Saved es \<and> set es \<subseteq> set ds \<and>
    (\<forall>d\<in>set ds. d \<notin> set es \<longrightarrow>
       unreachable (w_transport (snd (run_notifier (http_send rnd ip renv) io v rs (db, w)))) (push_handle d))"
  using http.run_kept[of "(db, w)" rnd ip renv io v rs] assms unfolding kept_by_def by simp

text \<open>
  (opt-in and bounded traffic). With no registered device, an unreadable registry, a status
  that is no trigger or a replayed \<open>Done\<close>, an event sends nothing and changes nothing; otherwise
  it posts at most twice for each device.
\<close>

theorem traffic_bounded:
  "((dev_list io (w_file w) = Inr [] \<or> dev_list io (w_file w) = Inl () \<or> trigger_of (ev_status ev) = None \<or>
     ev_synthetic ev \<and> ev_status ev = Done) \<longrightarrow>
      handle_event (http_send rnd ip renv) io ev v now db w = (db, w)) \<and>
   (dev_list io (w_file w) = Inr ds \<longrightarrow>
      rt_calls (w_transport (snd (handle_event (http_send rnd ip renv) io ev v now db w)))
        \<le> rt_calls (w_transport w) + 2 * length ds)"
  using http.fan_out_calls[of rnd ip renv io _ ds w]
  by (auto simp: handle_event_def trigger_of_def split: option.splits agent_status.splits sum.splits
      prod.splits bool.splits)

text \<open>The answers of the debouncer to a sequence of triggers.\<close>

fun sends :: "debouncer \<Rightarrow> ((32 word \<times> trigger_kind) \<times> nat) list \<Rightarrow> ((32 word \<times> trigger_kind) \<times> nat) list" where
  "sends d [] = []"
| "sends d ((k, t) # ts) =
     (case should_send d k t of (d', sent) \<Rightarrow> (if sent then [(k, t)] else []) @ sends d' ts)"

text \<open>
  What the debouncer remembers at time \<open>t\<close> is, for a send not older than the window, exact.
\<close>

definition remembers :: "debouncer \<Rightarrow> nat \<Rightarrow> (32 word \<times> trigger_kind \<rightharpoonup> nat) \<Rightarrow> bool" where
  "remembers d t lst \<longleftrightarrow>
     (\<forall>k u. lst k = Some u \<longrightarrow> u \<le> t) \<and>
     (\<forall>k u. lst k = Some u \<longrightarrow> t - u < window d \<longrightarrow> last_sent d k = Some u) \<and>
     (\<forall>k u. last_sent d k = Some u \<longrightarrow> lst k = Some u)"

lemma remembers_update:
  "remembers (d\<lparr>last_sent := f\<rparr>) t lst \<longleftrightarrow>
     (\<forall>k u. lst k = Some u \<longrightarrow> u \<le> t) \<and>
     (\<forall>k u. lst k = Some u \<longrightarrow> t - u < window d \<longrightarrow> f k = Some u) \<and>
     (\<forall>k u. f k = Some u \<longrightarrow> lst k = Some u)"
  by (simp add: remembers_def del: split_paired_All)

lemma remembersD:
  assumes "remembers d t lst"
  shows "lst k = Some u \<Longrightarrow> u \<le> t"
    and "lst k = Some u \<Longrightarrow> t - u < window d \<Longrightarrow> last_sent d k = Some u"
    and "last_sent d k = Some u \<Longrightarrow> lst k = Some u"
  using assms unfolding remembers_def by blast+

definition fresh_at :: "debouncer \<Rightarrow> nat \<Rightarrow> 32 word \<times> trigger_kind \<rightharpoonup> nat" where
  "fresh_at d t = (\<lambda>j. case last_sent d j of Some u \<Rightarrow> if t - u < window d then Some u else None | None \<Rightarrow> None)"

lemma should_send_alt:
  "should_send d k t =
     (if fresh_at d t k = None then (d\<lparr>last_sent := (fresh_at d t)(k \<mapsto> t)\<rparr>, True)
      else (d\<lparr>last_sent := fresh_at d t\<rparr>, False))"
  by (auto simp: should_send_def fresh_at_def Let_def split: option.splits if_splits)

lemma fresh_at_remembers:
  assumes "remembers d s lst" "s \<le> t"
  shows "fresh_at d t k = (case lst k of Some u \<Rightarrow> if t - u < window d then Some u else None | None \<Rightarrow> None)"
proof (cases "lst k")
  case None
  then have "last_sent d k = None" using remembersD(3)[OF assms(1), of k] by (cases "last_sent d k") auto
  then show ?thesis using None by (simp add: fresh_at_def)
next
  case (Some u)
  show ?thesis
  proof (cases "t - u < window d")
    case True
    then have "last_sent d k = Some u" using remembersD(2)[OF assms(1) Some] assms(2) by simp
    then show ?thesis using Some by (simp add: fresh_at_def)
  next
    case False
    then have "last_sent d k = None \<or> last_sent d k = Some u"
      using remembersD(3)[OF assms(1), of k] Some by (cases "last_sent d k") auto
    then show ?thesis using Some False by (auto simp: fresh_at_def)
  qed
qed

lemma should_send_ok:
  assumes "remembers d s lst" "s \<le> t"
  shows "snd (should_send d k t) \<longleftrightarrow> (\<forall>u. lst k = Some u \<longrightarrow> u + window d \<le> t)"
    and "remembers (fst (should_send d k t)) t (if snd (should_send d k t) then lst(k \<mapsto> t) else lst)"
proof -
  have le: "lst j = Some u \<Longrightarrow> u \<le> t" for j u using remembersD(1)[OF assms(1)] assms(2) by fastforce
  show "snd (should_send d k t) \<longleftrightarrow> (\<forall>u. lst k = Some u \<longrightarrow> u + window d \<le> t)"
    using le[of k] by (cases "lst k") (auto simp: should_send_alt fresh_at_remembers[OF assms] not_less)
  have here: "fresh_at d t j = Some u \<Longrightarrow> lst j = Some u" for j u
    using fresh_at_remembers[OF assms, of j] by (cases "lst j") (simp_all split: if_splits)
  moreover have still: "lst j = Some u \<Longrightarrow> t - u < window d \<Longrightarrow> fresh_at d t j = Some u" for j u
    using fresh_at_remembers[OF assms, of j] by simp
  ultimately have "remembers (d\<lparr>last_sent := fresh_at d t\<rparr>) t lst"
    using le unfolding remembers_update by (intro conjI allI impI)
  moreover have "remembers (d\<lparr>last_sent := (fresh_at d t)(k \<mapsto> t)\<rparr>) t (lst(k \<mapsto> t))"
    unfolding remembers_update
  proof (intro conjI allI impI)
    fix j u assume "(lst(k \<mapsto> t)) j = Some u"
    then show "u \<le> t" using le[of j u] by (cases "j = k") simp_all
  next
    fix j u assume "(lst(k \<mapsto> t)) j = Some u" "t - u < window d"
    then show "((fresh_at d t)(k \<mapsto> t)) j = Some u" using still[of j u] by (cases "j = k") simp_all
  next
    fix j u assume "((fresh_at d t)(k \<mapsto> t)) j = Some u"
    then show "(lst(k \<mapsto> t)) j = Some u" using here[of j u] by (cases "j = k") simp_all
  qed
  ultimately show "remembers (fst (should_send d k t)) t (if snd (should_send d k t) then lst(k \<mapsto> t) else lst)"
    by (simp add: should_send_alt)
qed

lemma should_send_window: "window (fst (should_send d k t)) = window d"
  by (simp add: should_send_alt)

text \<open>
  Consecutive sends of a key are a window apart, and a trigger is suppressed only within a
  window of a send of the same key.
\<close>

definition spaced :: "nat \<Rightarrow> (32 word \<times> trigger_kind \<rightharpoonup> nat) \<Rightarrow> ((32 word \<times> trigger_kind) \<times> nat) list \<Rightarrow> bool" where
  "spaced w lst xs \<longleftrightarrow>
     (\<forall>k. sorted_wrt (\<lambda>a b. a + w \<le> b) (map snd (filter (\<lambda>x. fst x = k) xs)) \<and>
          (\<forall>u. lst k = Some u \<longrightarrow> (\<forall>x\<in>set xs. fst x = k \<longrightarrow> u + w \<le> snd x)))"

lemma sends_spaced:
  assumes "remembers d s lst" "sorted (s # map snd ts)"
  shows "spaced (window d) lst (sends d ts)"
  using assms
proof (induction ts arbitrary: d s lst)
  case Nil
  then show ?case by (simp add: spaced_def)
next
  case (Cons x ts)
  obtain k t where x: "x = (k, t)" by (cases x)
  have st: "s \<le> t" "sorted (t # map snd ts)" using Cons.prems(2) x by auto
  note r = should_send_ok[OF Cons.prems(1) st(1), of k]
  let ?d = "fst (should_send d k t)" and ?l = "if snd (should_send d k t) then lst(k \<mapsto> t) else lst"
  have IH: "spaced (window d) ?l (sends ?d ts)"
    using Cons.IH[OF r(2) st(2)] by (simp add: should_send_window)
  show ?case
  proof (cases "snd (should_send d k t)")
    case False
    then have "sends d (x # ts) = sends ?d ts" by (simp add: x case_prod_unfold)
    then show ?thesis using IH False by simp
  next
    case True
    have eq: "sends d (x # ts) = (k, t) # sends ?d ts" using True by (simp add: x case_prod_unfold)
    have sp: "sorted_wrt (\<lambda>a b. a + window d \<le> b) (map snd (filter (\<lambda>x. fst x = j) (sends ?d ts)))"
      "\<And>u y. (lst(k \<mapsto> t)) j = Some u \<Longrightarrow> y \<in> set (sends ?d ts) \<Longrightarrow> fst y = j \<Longrightarrow> u + window d \<le> snd y" for j
      using spec[OF IH[unfolded spaced_def], of j] True by auto
    have old: "lst k = Some u \<Longrightarrow> u + window d \<le> t" for u using r(1) True by simp
    show ?thesis
      unfolding spaced_def eq
    proof (intro allI conjI impI ballI)
      fix j
      show "sorted_wrt (\<lambda>a b. a + window d \<le> b) (map snd (filter (\<lambda>x. fst x = j) ((k, t) # sends ?d ts)))"
        using sp(1)[of j] sp(2)[of j t] by (cases "j = k") auto
      fix u y assume u: "lst j = Some u" and y: "y \<in> set ((k, t) # sends ?d ts)" "fst y = j"
      show "u + window d \<le> snd y"
      proof (cases "j = k")
        case True
        have "t \<le> snd y"
        proof (cases "y = (k, t)")
          case False
          then show ?thesis using y sp(2)[of k t y] True by auto
        qed simp
        then show ?thesis using old[of u] u True by simp
      next
        case False
        then show ?thesis using y u sp(2)[of j u y] by auto
      qed
    qed
  qed
qed

text \<open>
  (debouncing). Of any triggers in order of time, two that are sent for the same pane and
  kind are at least the window apart; the first for a pane and kind is always sent, also right
  after a different kind for the same pane.
\<close>

theorem debounce_spaced:
  assumes "sorted (map snd ts)"
  shows "sorted_wrt (\<lambda>a b. a + w \<le> b) (map snd (filter (\<lambda>x. fst x = k) (sends (new_debouncer w) ts))) \<and>
    (\<forall>us t vs. ts = us @ (k, t) # vs \<and> k \<notin> fst ` set us \<longrightarrow> (k, t) \<in> set (sends (new_debouncer w) ts))"
proof
  have rem: "remembers (new_debouncer w) 0 Map.empty" by (simp add: remembers_def new_debouncer_def)
  show "sorted_wrt (\<lambda>a b. a + w \<le> b) (map snd (filter (\<lambda>x. fst x = k) (sends (new_debouncer w) ts)))"
  proof -
    have "spaced (window (new_debouncer w)) Map.empty (sends (new_debouncer w) ts)"
      by (rule sends_spaced[OF rem]) (use assms in simp)
    then have "sorted_wrt (\<lambda>a b. a + window (new_debouncer w) \<le> b)
        (map snd (filter (\<lambda>x. fst x = k) (sends (new_debouncer w) ts)))"
      unfolding spaced_def by blast
    moreover have "window (new_debouncer w) = w" by (simp add: new_debouncer_def)
    ultimately show ?thesis by simp
  qed
  have "(k, t) \<in> set (sends d (us @ (k, t) # vs))" if "last_sent d k = None" "k \<notin> fst ` set us" for d us t vs
    using that
  proof (induction us arbitrary: d)
    case Nil
    then show ?case by (simp add: should_send_alt fresh_at_def)
  next
    case (Cons u us)
    obtain j s where u: "u = (j, s)" by (cases u)
    have "last_sent (fst (should_send d j s)) k = None"
      using Cons.prems u by (auto simp: should_send_alt fresh_at_def split: option.splits)
    then have "(k, t) \<in> set (sends (fst (should_send d j s)) (us @ (k, t) # vs))"
      using Cons by simp
    then show ?case by (simp add: u case_prod_unfold)
  qed
  then show "\<forall>us t vs. ts = us @ (k, t) # vs \<and> k \<notin> fst ` set us \<longrightarrow> (k, t) \<in> set (sends (new_debouncer w) ts)"
    by (auto simp: new_debouncer_def)
qed

text \<open>
  (the daemon accepts the relay's handles). A handle minted from 32 random bytes passes the
  daemon's validation, so registering it with a valid device name on a server with a relay and
  herdr stores it.
\<close>

theorem minted_handle_registers:
  assumes "length random = 32" "validate_device_name n"
    and "relay_url svc = Some u" "has_herdr svc" "devices_state svc \<noteq> Corrupt"
    and "lock_ok io" "write_ok io"
  shows "snd (register_push_target_impl io now svc (Some False) (mint_handle random) n p) = Inr True \<and>
    by_name (devices_state (fst (register_push_target_impl io now svc (Some False) (mint_handle random) n p))) n =
      Some \<lparr>device_name = n, push_handle = mint_handle random, platform = p, registered_at = now\<rparr>"
proof -
  have valid: "validate_push_handle (mint_handle random)"
    using assms(1) hex_bytes_lower[of random]
    by (simp add: validate_push_handle_def mint_handle_def MIN_HANDLE_LEN_def MAX_HANDLE_LEN_def)
       (simp add: is_lower_hex_def[abs_def])
  let ?d = "\<lparr>device_name = n, push_handle = mint_handle random, platform = p, registered_at = now\<rparr>"
  have ok: "snd (upsert io (devices_state svc) ?d) = Inr ()"
    using assms(5-7) by (cases "devices_state svc") (simp_all add: upsert_def dev_load_def dev_store_def)
  then show ?thesis
    using upsert_map[OF ok] valid assms(2-4)
    by (cases "upsert io (devices_state svc) ?d") (simp add: register_push_target_impl_def)
qed

text \<open>Nothing of the pane but its workspace reaches the payload.\<close>

lemma content_private:
  "content_for k (ev\<lparr>ev_pane := p, ev_title := t, ev_kind := a, ev_name := m, ev_tab := b\<rparr>) v = content_for k ev v"
  by (simp add: content_for_def Let_def split: option.splits trigger_kind.splits)

text \<open>Witnesses.\<close>

definition demo_link :: relay_link where
  "demo_link = \<lparr>rt_app = race_app, rt_calls = 0, rt_dropped = {}\<rparr>"

definition demo_world :: "relay_link world" where
  "demo_world = \<lparr>w_file = Saved [\<lparr>device_name = ''old'', push_handle = demo_handle, platform = ''android'',
      registered_at = 1\<rparr>], w_transport = demo_link\<rparr>"

definition demo_event :: agent_status_changed where
  "demo_event = \<lparr>ev_pane = 3, ev_workspace_id = ''w1'', ev_workspace_name = None, ev_status = Blocked,
     ev_title = None, ev_kind = None, ev_name = None, ev_tab = None, ev_synthetic = False\<rparr>"

theorem pruned_only_if_unreachable_witness:
  "\<exists>es. w_file (snd (run_notifier (http_send id ''ip'' (\<lambda>_. Some (True, True, 0, 90000, Inr Delivered)))
       \<lparr>lock_ok = True, write_ok = True\<rparr> ''normal'' [(0, Received (AgentChanged demo_event))]
       (new_debouncer DEBOUNCE_WINDOW, demo_world))) = Saved es"
proof -
  have "w_file demo_world = Saved [\<lparr>device_name = ''old'', push_handle = demo_handle, platform = ''android'',
      registered_at = 1\<rparr>]" by (simp add: demo_world_def)
  from pruned_only_if_unreachable[OF this] show ?thesis by blast
qed

theorem traffic_bounded_witness:
  "rt_calls (w_transport (snd (handle_event (http_send id ''ip'' (\<lambda>_. None)) \<lparr>lock_ok = True, write_ok = True\<rparr>
     demo_event ''normal'' 0 (new_debouncer DEBOUNCE_WINDOW) demo_world))) \<le> 2"
proof -
  have "dev_list \<lparr>lock_ok = True, write_ok = True\<rparr> (w_file demo_world) =
      Inr [\<lparr>device_name = ''old'', push_handle = demo_handle, platform = ''android'', registered_at = 1\<rparr>]"
    by (simp add: demo_world_def dev_list_def dev_load_def)
  then have "rt_calls (w_transport (snd (handle_event (http_send id ''ip'' (\<lambda>_. None)) \<lparr>lock_ok = True, write_ok = True\<rparr>
     demo_event ''normal'' 0 (new_debouncer DEBOUNCE_WINDOW) demo_world))) \<le> rt_calls (w_transport demo_world) +
      2 * length [\<lparr>device_name = ''old'', push_handle = demo_handle, platform = ''android'', registered_at = 1\<rparr>]"
    using traffic_bounded by blast
  then show ?thesis by (simp add: demo_world_def demo_link_def)
qed

theorem debounce_spaced_witness:
  "((3, TDone), 5) \<in> set (sends (new_debouncer DEBOUNCE_WINDOW) [((3, TBlocked), 4), ((3, TDone), 5)])"
  using debounce_spaced[of "[((3, TBlocked), 4), ((3, TDone), 5)]" DEBOUNCE_WINDOW "(3, TDone)"]
  by (auto dest: spec[of _ "[((3, TBlocked), 4)]"])

theorem minted_handle_registers_witness:
  "snd (register_push_target_impl \<lparr>lock_ok = True, write_ok = True\<rparr> 7 demo_push (Some False)
     (mint_handle (replicate 32 171)) ''phone'' ''android'') = Inr True"
proof -
  have "validate_device_name ''phone''" by code_simp
  then show ?thesis
    using minted_handle_registers[of "replicate 32 171" "''phone''" demo_push "''https://r''"]
    by (simp add: demo_push_def)
qed

end
