(* ===== verification/ClientCount.thy ===== *)
theory ClientCount
  imports Prelude "HOL-Library.AList" "HOL-Library.Multiset"
begin

text \<open>
  Attached clients per session, \<open>muxrd/src/client_count.rs\<close>. An entry of the map is never
  removed, so a guard's shared counter is the entry of its session: a \<open>ClientGuard\<close> is its
  session's name. Counters are atomic \<open>usize\<close>s.
\<close>

type_synonym session_clients = "(string \<times> 64 word) list"

definition new_clients :: session_clients where
  "new_clients = []"

definition counter :: "session_clients \<Rightarrow> string \<Rightarrow> 64 word" where
  "counter c s = (case map_of c s of Some n \<Rightarrow> n | None \<Rightarrow> 0)"

definition attach_client :: "session_clients \<Rightarrow> string \<Rightarrow> session_clients \<times> string" where
  "attach_client c s = (AList.update s (counter c s + 1) c, s)"

definition drop_guard :: "session_clients \<Rightarrow> string \<Rightarrow> session_clients" where
  "drop_guard c g = AList.update g (counter c g - 1) c"

definition client_count :: "session_clients \<Rightarrow> string \<Rightarrow> 32 word" where
  "client_count c s = (case map_of c s of Some n \<Rightarrow> ucast n | None \<Rightarrow> 0)"

definition total_count :: "session_clients \<Rightarrow> 64 word" where
  "total_count c = sum_list (map snd c)"

subsection \<open>Guards in use\<close>

datatype client_op = Attach string | Detach string

text \<open>The counters and, as a ghost, the live guards; only a live guard is dropped.\<close>

fun client_step :: "session_clients \<times> string multiset \<Rightarrow> client_op \<Rightarrow> session_clients \<times> string multiset" where
  "client_step (c, live) (Attach s) = (fst (attach_client c s), add_mset (snd (attach_client c s)) live)"
| "client_step (c, live) (Detach g) = (if g \<in># live then (drop_guard c g, live - {#g#}) else (c, live))"

definition counts_ok :: "session_clients \<times> string multiset \<Rightarrow> bool" where
  "counts_ok s = (case s of (c, live) \<Rightarrow>
     distinct (map fst c) \<and> set_mset live \<subseteq> fst ` set c \<and>
     (\<forall>x. counter c x = of_nat (count live x)))"

lemma counter_update: "counter (AList.update k v c) x = (if x = k then v else counter c x)"
  by (simp add: counter_def update_conv')

lemma keys_upd: "fst ` set (AList.update k v c) = insert k (fst ` set c)"
  by (induction c) auto

lemma client_step_ok: "counts_ok s \<Longrightarrow> counts_ok (client_step s op)"
proof (cases s; cases op)
  fix c live x assume "counts_ok s" "s = (c, live)" "op = Attach x"
  then show "counts_ok (client_step s op)"
    by (auto simp: counts_ok_def attach_client_def counter_update distinct_update keys_upd)
next
  fix c live x assume *: "counts_ok s" "s = (c, live)" "op = Detach x"
  then have "x \<in># live \<Longrightarrow> of_nat (count live x) - (1 :: 64 word) = of_nat (count live x - 1)"
    by (metis count_greater_zero_iff of_nat_diff of_nat_1 Suc_leI One_nat_def)
  then show "counts_ok (client_step s op)"
    using * by (auto simp: counts_ok_def drop_guard_def counter_update distinct_update keys_upd dest: in_diffD)
qed

lemma total_distinct:
  assumes "distinct (map fst c)"
  shows "sum_list (map snd c) = (\<Sum>x\<in>fst ` set c. counter c x)"
proof -
  have "sum_list (map snd c) = sum_list (map (\<lambda>x. counter c (fst x)) c)"
    by (rule arg_cong[of _ _ sum_list], rule map_cong[OF refl])
       (use assms in \<open>auto simp: counter_def\<close>)
  also have "\<dots> = sum_list (map (counter c) (map fst c))" by (simp add: comp_def)
  also have "\<dots> = sum (counter c) (set (map fst c))"
    by (rule sum_list_distinct_conv_sum_set[OF assms])
  finally show ?thesis by simp
qed

text \<open>
  (attached clients). After any attaches and drops of live guards, a session's count is the
  number of its live guards, and the total over all sessions the number of all of them, as long
  as those fit the counters' widths.
\<close>

theorem client_counts:
  assumes "foldl client_step (new_clients, {#}) ops = (c, live)" "size live < 2 ^ 32"
  shows "unat (client_count c s) = count live s \<and> unat (total_count c) = size live"
proof -
  have ok: "counts_ok (c, live)"
    unfolding assms(1)[symmetric]
    by (induction ops rule: rev_induct)
       (simp_all add: client_step_ok, simp add: counts_ok_def new_clients_def counter_def)
  have le: "count live s \<le> size live" by (rule count_le_size)
  have cnt: "counter c x = of_nat (count live x)" for x using ok by (simp add: counts_ok_def)
  have "client_count c s = ucast (counter c s)"
    by (simp add: client_count_def counter_def split: option.splits)
  then have "unat (client_count c s) = count live s mod 2 ^ 64 mod 2 ^ 32"
    by (simp add: cnt unsigned_ucast_eq unsigned_of_nat take_bit_eq_mod)
  moreover have "count live s < 2 ^ 32" using le assms(2) by linarith
  ultimately have one: "unat (client_count c s) = count live s" by simp
  have "total_count c = (\<Sum>x\<in>fst ` set c. of_nat (count live x))"
    using total_distinct[of c] ok cnt by (simp add: total_count_def counts_ok_def)
  also have "\<dots> = of_nat (\<Sum>x\<in>fst ` set c. count live x)" by simp
  also have "(\<Sum>x\<in>fst ` set c. count live x) = size live"
    unfolding size_multiset_overloaded_eq
    by (rule sum.mono_neutral_right) (use ok in \<open>auto simp: counts_ok_def not_in_iff\<close>)
  finally have "unat (total_count c) = size live mod 2 ^ 64"
    by (simp add: unsigned_of_nat take_bit_eq_mod)
  then show ?thesis using one assms(2) by simp
qed

theorem client_counts_witness:
  "unat (client_count [(''dev'', 1)] ''dev'') = 1 \<and> unat (total_count [(''dev'', 1)]) = 1"
  using client_counts[of "[Attach ''dev'', Attach ''dev'', Detach ''dev'']" "[(''dev'', 1)]" "{#''dev''#}" "''dev''"]
  by (simp add: attach_client_def drop_guard_def new_clients_def counter_def)

end
