(* ===== verification/Wire.thy ===== *)
theory Wire
  imports Prelude
begin

text \<open>
  herdr's binary wire protocol, \<open>muxrd/src/multiplexer/herdr/wire.rs\<close>: every message of the
  mirrored protocol version with its positional tag, the framing of client messages, and the
  reader that skips what it does not mirror. The bincode codec is a parameter: \<open>encode\<close> takes
  the encoder of client messages, \<open>read_server_message\<close> the decoder of server messages, which
  answers with the message and the number of bytes it consumed.

  A byte stream is what can be read before the end or, if \<open>broken\<close>, before an I/O error.
\<close>

unbundle bit_operations_syntax

type_synonym bytes = "8 word list"

definition HERDR_MIN_PROTOCOL :: "32 word" where "HERDR_MIN_PROTOCOL = 22"
definition HERDR_MAX_TESTED_PROTOCOL :: "32 word" where "HERDR_MAX_TESTED_PROTOCOL = 22"
definition HIGHEST_KNOWN_SERVER_TAG :: "8 word" where "HIGHEST_KNOWN_SERVER_TAG = 20"
definition UNMIRRORED_SERVER_TAGS :: "8 word list" where "UNMIRRORED_SERVER_TAGS = [12, 13, 14, 19]"
definition MAX_FRAME_SIZE :: nat where "MAX_FRAME_SIZE = 2 * 1024 * 1024"

definition is_skippable_server_tag :: "8 word \<Rightarrow> bool" where
  "is_skippable_server_tag tag \<longleftrightarrow> tag > HIGHEST_KNOWN_SERVER_TAG \<or> tag \<in> set UNMIRRORED_SERVER_TAGS"

subsection \<open>Client messages\<close>

datatype render_encoding = SemanticFrame | TerminalAnsi

datatype client_clipboard_image_target = DirectTerminal | PaneTarget string | PopupTarget string

datatype attach_scroll_direction = ScrollDirUp | ScrollDirDown

datatype attach_scroll_source = Wheel | PageKey bytes

record client_surface_size =
  surface_cols :: "16 word"
  surface_rows :: "16 word"

datatype client_mouse_button = LeftButton | RightButton | MiddleButton

datatype client_mouse_kind =
    MouseDown client_mouse_button | MouseUp client_mouse_button | MouseDrag client_mouse_button
  | MouseMoved | MouseScrollUp | MouseScrollDown | MouseScrollLeft | MouseScrollRight

datatype client_mouse_position =
    CellPosition "16 word" "16 word"
  | PixelPosition "32 word" "32 word" "16 word" "16 word"

record client_mouse_geometry =
  geo_cols :: "16 word"
  geo_rows :: "16 word"
  geo_width_px :: "32 word"
  geo_height_px :: "32 word"

record client_host_color =
  color_r :: "8 word"
  color_g :: "8 word"
  color_b :: "8 word"

datatype client_host_default_color_kind = Foreground | Background

datatype client_host_appearance = Dark | Light

datatype client_host_theme_update =
    DefaultColor client_host_default_color_kind client_host_color
  | PaletteColors "(8 word \<times> client_host_color) list"
  | Appearance client_host_appearance

datatype client_message =
    TerminalHello "32 word" "16 word" "16 word" "32 word" "32 word" bool
  | Input bytes
  | ClipboardImage client_clipboard_image_target string bytes
  | Resize "16 word" "16 word" "32 word" "32 word" bool
  | DetachTerminal
  | AttachTerminal string bool
  | AttachScroll attach_scroll_source attach_scroll_direction "16 word" "16 word option" "16 word option" "8 word"
  | ObserveTerminal string
  | ControlTerminal string bool
  | GraphicsTransmissionResult "64 word" "32 word" bool
  | GraphicsTransmissionStarted "64 word" "32 word"
  | ClientShellHello "32 word" "32 word" "32 word" client_surface_size bool bool bool bool
  | ClientShellResize "32 word" "32 word" client_surface_size bool
  | ClientShellPaneInput
  | ClientShellPopupInput
  | ClientShellEndpointRequest string string
  | AttachMouse client_mouse_kind client_mouse_position "client_mouse_geometry option" "8 word" "16 word"
  | ClientShellHostTheme client_host_theme_update
  | ClientShellFocus bool
  | ClientShellMouseCapture bool
  | ClientEndpointControl string string

text \<open>The positional discriminants.\<close>

fun client_tag :: "client_message \<Rightarrow> 8 word" where
  "client_tag (TerminalHello _ _ _ _ _ _) = 0"
| "client_tag (Input _) = 1"
| "client_tag (ClipboardImage _ _ _) = 2"
| "client_tag (Resize _ _ _ _ _) = 3"
| "client_tag DetachTerminal = 4"
| "client_tag (AttachTerminal _ _) = 5"
| "client_tag (AttachScroll _ _ _ _ _ _) = 6"
| "client_tag (ObserveTerminal _) = 7"
| "client_tag (ControlTerminal _ _) = 8"
| "client_tag (GraphicsTransmissionResult _ _ _) = 9"
| "client_tag (GraphicsTransmissionStarted _ _) = 10"
| "client_tag (ClientShellHello _ _ _ _ _ _ _ _) = 11"
| "client_tag (ClientShellResize _ _ _ _) = 12"
| "client_tag ClientShellPaneInput = 13"
| "client_tag ClientShellPopupInput = 14"
| "client_tag (ClientShellEndpointRequest _ _) = 15"
| "client_tag (AttachMouse _ _ _ _ _) = 16"
| "client_tag (ClientShellHostTheme _) = 17"
| "client_tag (ClientShellFocus _) = 18"
| "client_tag (ClientShellMouseCapture _) = 19"
| "client_tag (ClientEndpointControl _ _) = 20"

subsection \<open>Server messages\<close>

record terminal_frame =
  tf_seq :: "64 word"
  tf_width :: "16 word"
  tf_height :: "16 word"
  tf_full :: bool
  tf_bytes :: bytes

datatype notify_kind = Sound | Toast | SystemToast

datatype surface_graphics_target = GraphicsPane string | GraphicsPopup string

datatype surface_graphics_source =
  GraphicsTerminal surface_graphics_target "32 word" | GraphicsPaneLayer string string

datatype surface_graphics_format = Rgb | Rgba | Png

record surface_graphics_asset_key =
  asset_source :: surface_graphics_source
  image_width :: "32 word"
  image_height :: "32 word"
  asset_format :: surface_graphics_format
  data_len :: "64 word"
  data_fingerprint :: "64 word"

datatype server_message =
    Welcome "32 word" render_encoding "string option"
  | Terminal terminal_frame
  | Graphics bytes
  | ServerShutdown "string option"
  | Notify notify_kind string "string option"
  | Clipboard string
  | WindowTitle "string option"
  | ReloadSoundConfig
  | MouseCapture bool bool
  | TerminalBell "16 word"
  | GraphicsFile string "64 word" "32 word" "64 word" bytes string "surface_graphics_asset_key option"
  | GraphicsTransmissionRetired "64 word" "32 word"
  | ClientShellSnapshot
  | PaneSurface
  | SemanticNotification
  | ClientShellError string
  | DirectTerminalKeyboardProtocol "16 word" "8 word"
  | ClientShellKeyboardReportAll bool
  | ClientShellEndpointResponseChunk string string bool bytes
  | PaneSurfacePatch
  | ServerEndpointControl string string

fun server_tag :: "server_message \<Rightarrow> 8 word" where
  "server_tag (Welcome _ _ _) = 0"
| "server_tag (Terminal _) = 1"
| "server_tag (Graphics _) = 2"
| "server_tag (ServerShutdown _) = 3"
| "server_tag (Notify _ _ _) = 4"
| "server_tag (Clipboard _) = 5"
| "server_tag (WindowTitle _) = 6"
| "server_tag ReloadSoundConfig = 7"
| "server_tag (MouseCapture _ _) = 8"
| "server_tag (TerminalBell _) = 9"
| "server_tag (GraphicsFile _ _ _ _ _ _ _) = 10"
| "server_tag (GraphicsTransmissionRetired _ _) = 11"
| "server_tag ClientShellSnapshot = 12"
| "server_tag PaneSurface = 13"
| "server_tag SemanticNotification = 14"
| "server_tag (ClientShellError _) = 15"
| "server_tag (DirectTerminalKeyboardProtocol _ _) = 16"
| "server_tag (ClientShellKeyboardReportAll _) = 17"
| "server_tag (ClientShellEndpointResponseChunk _ _ _ _) = 18"
| "server_tag PaneSurfacePatch = 19"
| "server_tag (ServerEndpointControl _ _) = 20"

datatype wire_frame = FrameMessage server_message | UnknownFrame "8 word" nat

datatype framing_error = Oversized nat nat | IoError | BincodeError | UnexpectedEof

subsection \<open>Framing\<close>

definition to_le_bytes :: "32 word \<Rightarrow> bytes" where
  "to_le_bytes w = [ucast w, ucast (drop_bit 8 w), ucast (drop_bit 16 w), ucast (drop_bit 24 w)]"

definition from_le_bytes :: "8 word \<Rightarrow> 8 word \<Rightarrow> 8 word \<Rightarrow> 8 word \<Rightarrow> 32 word" where
  "from_le_bytes a b c d =
     ucast a OR push_bit 8 (ucast b) OR push_bit 16 (ucast c) OR push_bit 24 (ucast d)"

definition encode :: "(client_message \<Rightarrow> bytes option) \<Rightarrow> client_message \<Rightarrow> framing_error + bytes" where
  "encode bincode msg =
     (if msg = ClientShellPaneInput \<or> msg = ClientShellPopupInput then Inl BincodeError
      else
        (case bincode msg of
           None \<Rightarrow> Inl BincodeError
         | Some payload \<Rightarrow>
             if 2 ^ 32 - 1 < length payload then Inl BincodeError
             else Inr (to_le_bytes (of_nat (length payload)) @ payload)))"

text \<open>What a writer accepted; \<open>write_ok\<close> says whether the write and the flush succeed.\<close>

definition write_message ::
  "(client_message \<Rightarrow> bytes option) \<Rightarrow> bool \<Rightarrow> bytes \<Rightarrow> client_message \<Rightarrow> bytes \<times> (framing_error + unit)" where
  "write_message bincode write_ok out msg =
     (case encode bincode msg of
        Inl e \<Rightarrow> (out, Inl e)
      | Inr frame \<Rightarrow> if write_ok then (out @ frame, Inr ()) else (out, Inl IoError))"

record stream =
  avail :: bytes
  broken :: bool

definition read_exact_or_eof :: "nat \<Rightarrow> stream \<Rightarrow> framing_error + (bytes \<times> stream)" where
  "read_exact_or_eof n s =
     (if n \<le> length (avail s) then Inr (take n (avail s), s\<lparr>avail := drop n (avail s)\<rparr>)
      else Inl (if broken s then IoError else UnexpectedEof))"

definition decode_frame :: "(bytes \<Rightarrow> (server_message \<times> nat) option) \<Rightarrow> bytes \<Rightarrow> framing_error + wire_frame" where
  "decode_frame bincode payload =
     (case payload of
        [] \<Rightarrow> Inl BincodeError
      | tag # _ \<Rightarrow>
          if is_skippable_server_tag tag then Inr (UnknownFrame tag (length payload))
          else
            (case bincode payload of
               None \<Rightarrow> Inl BincodeError
             | Some (msg, consumed) \<Rightarrow>
                 if consumed \<noteq> length payload then Inl BincodeError else Inr (FrameMessage msg)))"

definition read_server_message ::
  "(bytes \<Rightarrow> (server_message \<times> nat) option) \<Rightarrow> stream \<Rightarrow> framing_error + (wire_frame \<times> stream)" where
  "read_server_message bincode s =
     (case read_exact_or_eof 4 s of
        Inl e \<Rightarrow> Inl e
      | Inr (len, s1) \<Rightarrow>
          let claimed = unat (from_le_bytes (len ! 0) (len ! 1) (len ! 2) (len ! 3)) in
          if MAX_FRAME_SIZE < claimed then Inl (Oversized claimed MAX_FRAME_SIZE)
          else
            (case read_exact_or_eof claimed s1 of
               Inl e \<Rightarrow> Inl e
             | Inr (payload, s2) \<Rightarrow>
                 (case decode_frame bincode payload of Inl e \<Rightarrow> Inl e | Inr f \<Rightarrow> Inr (f, s2))))"

text \<open>
  The relay's reader loop over the wire: it delivers frames until an error ends it. One
  frame consumes at least four bytes.
\<close>

lemma read_shorter:
  "read_server_message bincode s = Inr (f, s') \<Longrightarrow> length (avail s') < length (avail s)"
  by (auto simp: read_server_message_def read_exact_or_eof_def Let_def split: if_splits sum.splits)

function read_all :: "(bytes \<Rightarrow> (server_message \<times> nat) option) \<Rightarrow> stream \<Rightarrow> wire_frame list \<times> framing_error" where
  "read_all bincode s =
     (case read_server_message bincode s of
        Inl e \<Rightarrow> ([], e)
      | Inr (f, s') \<Rightarrow> (case read_all bincode s' of (fs, e) \<Rightarrow> (f # fs, e)))"
  by pat_completeness auto
termination
  by (relation "measure (\<lambda>(_, s). length (avail s))") (auto dest: read_shorter)

declare read_all.simps [simp del]

subsection \<open>Lemmas\<close>

lemma from_to_le_bytes:
  "from_le_bytes (ucast w) (ucast (drop_bit 8 w)) (ucast (drop_bit 16 w)) (ucast (drop_bit 24 w)) = w"
proof (rule bit_word_eqI)
  fix n :: nat assume "n < LENGTH(32)"
  then consider "n < 8" | "8 \<le> n" "n < 16" | "16 \<le> n" "n < 24" | "24 \<le> n" "n < 32" by force
  then show "bit (from_le_bytes (ucast w) (ucast (drop_bit 8 w)) (ucast (drop_bit 16 w)) (ucast (drop_bit 24 w))) n
      = bit w n"
    by cases (auto simp: from_le_bytes_def bit_simps)
qed

lemma length_to_le_bytes [simp]: "length (to_le_bytes w) = 4"
  by (simp add: to_le_bytes_def)

definition frame :: "bytes \<Rightarrow> bytes" where
  "frame payload = to_le_bytes (of_nat (length payload)) @ payload"

lemma read_frame:
  assumes "length payload \<le> MAX_FRAME_SIZE"
  shows "read_server_message bincode \<lparr>avail = frame payload @ rest, broken = b\<rparr> =
    (case decode_frame bincode payload of Inl e \<Rightarrow> Inl e | Inr f \<Rightarrow> Inr (f, \<lparr>avail = rest, broken = b\<rparr>))"
proof -
  let ?w = "of_nat (length payload) :: 32 word"
  have "unat ?w = length payload"
    using assms by (simp add: unsigned_of_nat take_bit_nat_eq_self MAX_FRAME_SIZE_def)
  then show ?thesis
    using assms
    by (simp add: read_server_message_def read_exact_or_eof_def frame_def to_le_bytes_def from_to_le_bytes Let_def
        split: sum.splits)
qed

subsection \<open>Properties\<close>

lemma read_all_frames:
  assumes "\<forall>p\<in>set ps. length p \<le> MAX_FRAME_SIZE" "\<forall>p\<in>set ps. \<exists>f. decode_frame bincode p = Inr f"
  shows "read_all bincode \<lparr>avail = concat (map frame ps) @ rest, broken = b\<rparr> =
    (case read_all bincode \<lparr>avail = rest, broken = b\<rparr> of
       (fs, e) \<Rightarrow> (map (\<lambda>p. projr (decode_frame bincode p)) ps @ fs, e))"
  using assms
proof (induction ps)
  case Nil
  then show ?case by (simp add: case_prod_unfold)
next
  case (Cons p ps)
  obtain f where f: "decode_frame bincode p = Inr f" using Cons.prems by auto
  have "read_server_message bincode \<lparr>avail = frame p @ concat (map frame ps) @ rest, broken = b\<rparr> =
      Inr (f, \<lparr>avail = concat (map frame ps) @ rest, broken = b\<rparr>)"
    using Cons.prems f by (simp add: read_frame)
  then show ?case
    using Cons f by (subst read_all.simps) (simp add: case_prod_unfold)
qed

text \<open>
  (framing). A stream of frames of at most 2 MiB is read back frame by frame in order, and
  the first bad payload ends it: a payload with a tag above the ceiling or one of the four
  unmirrored tags is skipped without being given to the decoder, whatever is in it, and the
  frames after it are read unharmed.
\<close>

theorem stream_aligned:
  assumes "\<forall>p\<in>set ps. length p \<le> MAX_FRAME_SIZE \<and> p \<noteq> []"
    and "\<forall>p\<in>set ps. is_skippable_server_tag (hd p) \<or> (\<exists>m. bincode p = Some (m, length p))"
  shows "read_all bincode \<lparr>avail = concat (map frame ps), broken = False\<rparr> =
    (map (\<lambda>p. if is_skippable_server_tag (hd p) then UnknownFrame (hd p) (length p)
              else FrameMessage (fst (the (bincode p)))) ps, UnexpectedEof)"
proof -
  have dec: "decode_frame bincode p = Inr (if is_skippable_server_tag (hd p) then UnknownFrame (hd p) (length p)
      else FrameMessage (fst (the (bincode p))))" if "p \<in> set ps" for p
    using assms that by (cases p) (fastforce simp: decode_frame_def)+
  have fin: "read_all bincode \<lparr>avail = [], broken = False\<rparr> = ([], UnexpectedEof)"
    by (subst read_all.simps) (simp add: read_server_message_def read_exact_or_eof_def)
  have "read_all bincode \<lparr>avail = concat (map frame ps) @ [], broken = False\<rparr> =
      (map (\<lambda>p. projr (decode_frame bincode p)) ps @ [], UnexpectedEof)"
    by (subst read_all_frames) (use assms dec fin in auto)
  then show ?thesis using dec by simp
qed

text \<open>
  (mirrored messages). A server message other than the four payload-free placeholders,
  encoded by a codec that puts its tag first and is inverted by the decoder, is read back as
  itself and leaves the rest of the stream.
\<close>

theorem server_roundtrip:
  assumes "enc m = server_tag m # body" "bincode (enc m) = Some (m, length (enc m))"
    and "length (enc m) \<le> MAX_FRAME_SIZE"
    and "m \<notin> {ClientShellSnapshot, PaneSurface, SemanticNotification, PaneSurfacePatch}"
  shows "read_server_message bincode \<lparr>avail = frame (enc m) @ rest, broken = b\<rparr> =
    Inr (FrameMessage m, \<lparr>avail = rest, broken = b\<rparr>)"
proof -
  have "\<not> is_skippable_server_tag (server_tag m)"
    using assms(4)
    by (cases m) (simp_all add: is_skippable_server_tag_def HIGHEST_KNOWN_SERVER_TAG_def UNMIRRORED_SERVER_TAGS_def)
  then have "decode_frame bincode (enc m) = Inr (FrameMessage m)"
    using assms(1,2) by (simp add: decode_frame_def)
  then show ?thesis by (simp add: read_frame[OF assms(3)])
qed

text \<open>
  (what is sent). An encoded client message is a frame whose prefix is the length of its
  payload, and it is never one of the two payload-free placeholders; a failed encoding or write
  puts nothing on the wire.
\<close>

theorem encode_framed:
  assumes "write_message bincode ok out msg = (out', r)"
  shows "(r = Inr () \<longrightarrow>
      msg \<noteq> ClientShellPaneInput \<and> msg \<noteq> ClientShellPopupInput \<and>
      (\<exists>a b c d payload. bincode msg = Some payload \<and> out' = out @ [a, b, c, d] @ payload \<and>
         unat (from_le_bytes a b c d) = length payload)) \<and>
    (r \<noteq> Inr () \<longrightarrow> out' = out)"
proof -
  have len: "n \<le> 2 ^ 32 - 1 \<Longrightarrow> unat (of_nat n :: 32 word) = n" for n
    by (simp add: unsigned_of_nat take_bit_nat_eq_self)
  show ?thesis
    using assms len from_to_le_bytes
    by (auto simp: write_message_def encode_def to_le_bytes_def not_less split: if_splits option.splits sum.splits)
qed

text \<open>Witnesses: a codec for the bell and for detaching.\<close>

definition demo_decode :: "bytes \<Rightarrow> (server_message \<times> nat) option" where
  "demo_decode p = (if p = [9, 1] then Some (TerminalBell 1, 2) else None)"

theorem stream_aligned_witness:
  "read_all demo_decode \<lparr>avail = concat (map frame [[21, 170], [12, 255, 255], [9, 1]]), broken = False\<rparr> =
     ([UnknownFrame 21 2, UnknownFrame 12 3, FrameMessage (TerminalBell 1)], UnexpectedEof)"
  using stream_aligned[of "[[21, 170], [12, 255, 255], [9, 1]]" demo_decode]
  by (simp add: demo_decode_def is_skippable_server_tag_def HIGHEST_KNOWN_SERVER_TAG_def
      UNMIRRORED_SERVER_TAGS_def MAX_FRAME_SIZE_def)

theorem server_roundtrip_witness:
  "read_server_message demo_decode \<lparr>avail = frame [9, 1] @ [7], broken = True\<rparr> =
     Inr (FrameMessage (TerminalBell 1), \<lparr>avail = [7], broken = True\<rparr>)"
  using server_roundtrip[of "\<lambda>m. [server_tag m, 1]" "TerminalBell 1" "[1]" demo_decode "[7]" True]
  by (simp add: demo_decode_def MAX_FRAME_SIZE_def)

theorem encode_framed_witness:
  "fst (write_message (\<lambda>_. Some [4]) True [7] DetachTerminal) = [7, 1, 0, 0, 0, 4]"
proof -
  have w: "write_message (\<lambda>_. Some [4]) True [7] DetachTerminal = ([7, 1, 0, 0, 0, 4], Inr ())"
    by (simp add: write_message_def encode_def to_le_bytes_def)
  from encode_framed[OF w] w show ?thesis by simp
qed

end
