(* ===== verification/AgentWatch.thy ===== *)
theory AgentWatch
  imports Routing Events "HOL-Library.AList" "HOL-Library.Multiset"
begin

text \<open>
  The agent inventory RPCs of \<open>muxrd/src/grpc/agent_ops.rs\<close>: \<open>ListAgents\<close>, and
  \<open>WatchAgents\<close> with its forwarding loop, its bounded response channel and the one-shot lane
  that carries a fatal status past the channel. The backend read, the token check and the
  client are the environment: their outcomes are the inputs of the loop's step function.
  Times are milliseconds; log messages are left out.
\<close>

subsection \<open>The inventory on the wire\<close>

record agent_msg =
  am_pane :: "32 word"
  am_tab_id :: "64 word"
  am_space_id :: string
  am_space_name :: string
  am_tab_name :: string
  am_kind :: string
  am_name :: string
  am_display_kind :: string
  am_status :: nat
  am_title :: string
  am_summary :: string
  am_cwd :: string
  am_focused :: bool
  am_change_seq :: "64 word"
  am_completion_seq :: "64 word"
  am_has_completion_seq :: bool

definition agent_status_msg :: "agent_status \<Rightarrow> nat" where
  "agent_status_msg s = (case s of Idle \<Rightarrow> 1 | Working \<Rightarrow> 2 | Blocked \<Rightarrow> 3 | Done \<Rightarrow> 4 | Unknown \<Rightarrow> 5)"

definition unwrap_or_empty :: "string option \<Rightarrow> string" where
  "unwrap_or_empty o' = (case o' of Some s \<Rightarrow> s | None \<Rightarrow> [])"

definition agent_msg :: "agent_snapshot \<Rightarrow> agent_msg" where
  "agent_msg a =
     \<lparr>am_pane = as_pane a, am_tab_id = as_tab_id a, am_space_id = as_space_id a,
      am_space_name = as_space_name a, am_tab_name = as_tab_name a, am_kind = as_kind a,
      am_name = unwrap_or_empty (as_name a), am_display_kind = unwrap_or_empty (as_display_kind a),
      am_status = agent_status_msg (as_status a), am_title = unwrap_or_empty (as_title a),
      am_summary = unwrap_or_empty (as_summary a), am_cwd = unwrap_or_empty (as_cwd a),
      am_focused = as_focused a, am_change_seq = as_change_seq a,
      am_completion_seq = (case as_completion_seq a of Some n \<Rightarrow> n | None \<Rightarrow> 0),
      am_has_completion_seq = (as_completion_seq a \<noteq> None)\<rparr>"

text \<open>The proto summary has the fields of the neutral one.\<close>

record agent_list =
  al_agents :: "agent_msg list"
  al_summary :: agent_summary

definition build_agent_list :: "agent_snapshot list \<Rightarrow> agent_list" where
  "build_agent_list snapshots =
     (let sorted = sort_agents snapshots
      in \<lparr>al_agents = map agent_msg sorted, al_summary = summarise sorted\<rparr>)"

datatype agent_event = Snapshot agent_list | Changed agent_msg | RemovedPane "32 word"

subsection \<open>Backend reads and the token check\<close>

text \<open>
  How a run of the blocking lister ends: an answer, an error (whether an \<open>UnknownSession\<close>
  is in its chain), a panic, or none within \<open>LIST_AGENTS_TIMEOUT\<close>.
\<close>

datatype lister_run = Answers "agent_snapshot list" | Errs bool | Panics | Hangs

datatype read_failure = Backend bool | Join | TimedOut

definition read_agents :: "lister_run \<Rightarrow> read_failure + agent_snapshot list" where
  "read_agents r = (case r of Answers as \<Rightarrow> Inr as | Errs unknown \<Rightarrow> Inl (Backend unknown)
                    | Panics \<Rightarrow> Inl Join | Hangs \<Rightarrow> Inl TimedOut)"

definition agents_query_status :: "bool \<Rightarrow> status" where
  "agents_query_status unknown = (if unknown then NotFound else Internal)"

definition query_agents :: "lister_run \<Rightarrow> status + agent_snapshot list" where
  "query_agents r = (case read_agents r of
     Inr as \<Rightarrow> Inr as
   | Inl (Backend unknown) \<Rightarrow> Inl (agents_query_status unknown)
   | Inl Join \<Rightarrow> Inl Internal
   | Inl TimedOut \<Rightarrow> Inl Internal)"

datatype token_answer = Verdict bool | DbError | TaskPanic

definition token_still_valid :: "string option \<Rightarrow> (string \<Rightarrow> token_answer) \<Rightarrow> bool" where
  "token_still_valid token validate = (case token of
     None \<Rightarrow> False
   | Some t \<Rightarrow> (case validate t of Verdict valid \<Rightarrow> valid | DbError \<Rightarrow> False | TaskPanic \<Rightarrow> False))"

definition list_agents_impl ::
  "(string \<Rightarrow> bool) \<Rightarrow> 'b backend_set \<Rightarrow> ('b \<Rightarrow> string \<Rightarrow> lister_run) \<Rightarrow> string \<Rightarrow> status + agent_list" where
  "list_agents_impl zellij_ok bs list_agents session =
     (case resolve_session zellij_ok bs session of
        Inl e \<Rightarrow> Inl e
      | Inr (b, bare) \<Rightarrow>
          (case query_agents (list_agents b bare) of
             Inl e \<Rightarrow> Inl e
           | Inr snapshots \<Rightarrow> Inr (build_agent_list snapshots)))"

subsection \<open>The rows a stream holds\<close>

type_synonym held_rows = "(32 word \<times> agent_msg) list"

definition hold_row :: "held_rows \<Rightarrow> agent_msg \<Rightarrow> held_rows" where
  "hold_row h a = AList.update (am_pane a) a h"

definition hold :: "agent_list \<Rightarrow> held_rows" where
  "hold l = foldl hold_row [] (al_agents l)"

definition apply_status :: "held_rows \<Rightarrow> agent_status_changed \<Rightarrow> agent_msg option" where
  "apply_status held ev =
     (case map_of held (ev_pane ev) of None \<Rightarrow> None | Some row \<Rightarrow>
     (case ev_kind ev of None \<Rightarrow> None | Some kind \<Rightarrow>
     (case ev_tab ev of None \<Rightarrow> None | Some tab \<Rightarrow>
        (if kind \<noteq> am_kind row \<or> tab \<noteq> am_tab_id row \<or> ev_workspace_id ev \<noteq> am_space_id row then None
         else Some (row\<lparr>am_status := agent_status_msg (ev_status ev),
                        am_title := (case ev_title ev of Some t \<Rightarrow> t | None \<Rightarrow> am_title row),
                        am_name := (case ev_name ev of Some n \<Rightarrow> n | None \<Rightarrow> am_name row)\<rparr>)))))"

text \<open>The deltas, and the rows held afterwards.\<close>

definition reconcile ::
  "held_rows \<Rightarrow> agent_list \<Rightarrow> 32 word set \<Rightarrow> agent_event list \<times> held_rows" where
  "reconcile held fresh defer =
     (let rows = filter (\<lambda>a. am_pane a \<notin> defer) (al_agents fresh);
          next = foldl hold_row [] rows;
          changed = filter (\<lambda>a. map_of held (am_pane a) \<noteq> Some a) rows;
          gone = sort (filter (\<lambda>p. p \<notin> defer \<and> map_of next p = None) (map fst held));
          kept = filter (\<lambda>(p, row). p \<in> defer) held
      in (map Changed changed @ map RemovedPane gone,
          foldl (\<lambda>n (p, row). AList.update p row n) next kept))"

subsection \<open>The state of a stream\<close>

definition WATCH_CHANNEL_BOUND :: nat where "WATCH_CHANNEL_BOUND = 16"
definition WATCH_LIST_DEBOUNCE :: nat where "WATCH_LIST_DEBOUNCE = 250"

record agent_read =
  fl_stale :: "32 word set"
  fl_resnapshot :: bool
  fl_closed :: "32 word set"

record watch_state =
  held :: held_rows
  stale :: "32 word set"
  resnapshot :: bool
  last_list :: nat
  reading :: "agent_read option"
  read_failing :: bool
  outbox :: "agent_event list"

definition new_watch_state :: "held_rows \<Rightarrow> nat \<Rightarrow> watch_state" where
  "new_watch_state h t =
     \<lparr>held = h, stale = {}, resnapshot = False, last_list = t, reading = None, read_failing = False,
      outbox = []\<rparr>"

definition reread_wanted :: "watch_state \<Rightarrow> bool" where
  "reread_wanted st \<longleftrightarrow> reading st = None \<and> (resnapshot st \<or> stale st \<noteq> {})"

definition start_read :: "nat \<Rightarrow> watch_state \<Rightarrow> watch_state" where
  "start_read now st =
     st\<lparr>last_list := now,
        reading := Some \<lparr>fl_stale = stale st, fl_resnapshot = resnapshot st, fl_closed = {}\<rparr>,
        stale := {}, resnapshot := False\<rparr>"

definition finish_read ::
  "agent_read \<Rightarrow> read_failure + agent_snapshot list \<Rightarrow> watch_state \<Rightarrow> watch_state" where
  "finish_read flight read st =
     (case read of
        Inr snapshots \<Rightarrow>
          (let st1 = st\<lparr>read_failing := False\<rparr>;
               list = build_agent_list (filter (\<lambda>a. as_pane a \<notin> fl_closed flight) snapshots)
           in if fl_resnapshot flight
              then st1\<lparr>held := hold list, outbox := outbox st1 @ [Snapshot list]\<rparr>
              else (let (fresh, held') = reconcile (held st1) list (stale st1)
                    in st1\<lparr>held := held', outbox := outbox st1 @ fresh\<rparr>))
      | Inl _ \<Rightarrow>
          st\<lparr>read_failing := True, stale := stale st \<union> fl_stale flight,
             resnapshot := resnapshot st \<or> fl_resnapshot flight\<rparr>)"

datatype feed_recv = FeedEvent mux_event | FeedLagged nat | FeedClosed

text \<open>\<open>None\<close>: the bus closed and the stream ends.\<close>

definition on_bus :: "feed_recv \<Rightarrow> watch_state \<Rightarrow> watch_state option" where
  "on_bus recv st =
     (case recv of
        FeedEvent (AgentChanged ev) \<Rightarrow>
          (let st1 = (case apply_status (held st) ev of
                        Some msg \<Rightarrow> st\<lparr>held := AList.update (am_pane msg) msg (held st),
                                       outbox := outbox st @ [Changed msg]\<rparr>
                      | None \<Rightarrow> st)
           in Some (st1\<lparr>stale := insert (ev_pane ev) (stale st1)\<rparr>))
      | FeedEvent (PaneGone pane) \<Rightarrow>
          (let st1 = st\<lparr>stale := stale st - {pane},
                        reading := map_option (\<lambda>f. f\<lparr>fl_closed := insert pane (fl_closed f)\<rparr>) (reading st)\<rparr>
           in if map_of (held st1) pane \<noteq> None
              then Some (st1\<lparr>held := AList.delete pane (held st1),
                             outbox := outbox st1 @ [RemovedPane pane]\<rparr>)
              else Some st1)
      | FeedEvent (LayoutMoved _) \<Rightarrow> Some st
      | FeedEvent Resynced \<Rightarrow> Some (st\<lparr>resnapshot := True\<rparr>)
      | FeedLagged _ \<Rightarrow> Some (st\<lparr>resnapshot := True\<rparr>)
      | FeedClosed \<Rightarrow> None)"

subsection \<open>The response stream\<close>

text \<open>
  What a poll of the one-shot receiver finds: \<open>LaneDropped\<close> is a loop that ended without a
  status. \<open>ws_fatal\<close> tells whether the stream still holds the receiver.
\<close>

datatype fatal_lane = LanePending | LaneSent status | LaneDropped

datatype 'a polled = Pending | Ready 'a

record watch_stream =
  ws_rx :: "agent_event list"
  ws_fatal :: bool
  ws_done :: bool

definition poll_recv ::
  "bool \<Rightarrow> watch_stream \<Rightarrow> (status + agent_event) option polled \<times> watch_stream" where
  "poll_recv sender_alive ws =
     (case ws_rx ws of
        ev # rest \<Rightarrow> (Ready (Some (Inr ev)), ws\<lparr>ws_rx := rest\<rparr>)
      | [] \<Rightarrow> (if sender_alive then Pending else Ready None, ws))"

definition poll_next ::
  "fatal_lane \<Rightarrow> bool \<Rightarrow> watch_stream \<Rightarrow> (status + agent_event) option polled \<times> watch_stream" where
  "poll_next lane sender_alive ws =
     (if ws_done ws then (Ready None, ws)
      else if ws_fatal ws then
        (case lane of
           LaneSent s \<Rightarrow> (Ready (Some (Inl s)), ws\<lparr>ws_done := True, ws_fatal := False\<rparr>)
         | LaneDropped \<Rightarrow> poll_recv sender_alive (ws\<lparr>ws_fatal := False\<rparr>)
         | LanePending \<Rightarrow> poll_recv sender_alive ws)
      else poll_recv sender_alive ws)"

subsection \<open>The forwarding loop\<close>

datatype flow = Continue | Gone | Revoked | BusClosed

text \<open>
  One stream: the loop (\<open>wt_flow\<close> is \<open>Continue\<close> while it runs), its channel and the client.
  \<open>wt_got\<close> is what the client has read, \<open>wt_starts\<close> the start times of the re-reads, newest
  first; both only record. The message \<open>deliver\<close> is waiting to send is the head of the outbox
  until the channel takes it; nothing else reads the outbox meanwhile.
\<close>

record watch =
  wt_token :: "string option"
  wt_debounce :: nat
  wt_state :: watch_state
  wt_stream :: watch_stream
  wt_lane :: fatal_lane
  wt_flow :: flow
  wt_left :: bool
  wt_now :: nat
  wt_got :: "(status + agent_event) list"
  wt_starts :: "nat list"

text \<open>
  What may happen next: time passes, the client polls or drops the stream; a branch of a
  \<open>select!\<close> is ready (the client's departure, the token re-check with the answer the
  validator gives, room in the channel, the end of the read, the debounce deadline, the bus).
\<close>

datatype watch_input =
    Pass nat | Poll | Leave
  | NoticeGone | Recheck token_answer | Room | ReadDone lister_run | Due | Bus feed_recv

definition end_loop :: "flow \<Rightarrow> watch \<Rightarrow> watch" where
  "end_loop f w =
     w\<lparr>wt_flow := f, wt_lane := (if f = Revoked then LaneSent Unauthenticated else LaneDropped)\<rparr>"

definition client_polls :: "watch \<Rightarrow> watch" where
  "client_polls w =
     (let (answer, ws) = poll_next (wt_lane w) (wt_flow w = Continue) (wt_stream w)
      in w\<lparr>wt_stream := ws,
           wt_got := wt_got w @ (case answer of Ready (Some item) \<Rightarrow> [item] | _ \<Rightarrow> [])\<rparr>)"

text \<open>
  The loop's own branches. Room in the channel is awaited only while the outbox holds a
  message, the read, the deadline and the bus only when it is empty.
\<close>

definition loop_turn :: "watch_input \<Rightarrow> watch \<Rightarrow> watch option" where
  "loop_turn i w =
     (let st = wt_state w in
      case i of
        NoticeGone \<Rightarrow> (if wt_left w then Some (end_loop Gone w) else None)
      | Recheck answer \<Rightarrow>
          Some (if token_still_valid (wt_token w) (\<lambda>_. answer) then w else end_loop Revoked w)
      | Room \<Rightarrow>
          (case outbox st of
             [] \<Rightarrow> None
           | ev # rest \<Rightarrow>
               if length (ws_rx (wt_stream w)) < WATCH_CHANNEL_BOUND \<and> \<not> wt_left w
               then Some (w\<lparr>wt_state := st\<lparr>outbox := rest\<rparr>,
                            wt_stream := (wt_stream w)\<lparr>ws_rx := ws_rx (wt_stream w) @ [ev]\<rparr>\<rparr>)
               else None)
      | ReadDone run \<Rightarrow>
          (case reading st of
             Some flight \<Rightarrow>
               if outbox st = []
               then Some (w\<lparr>wt_state := finish_read flight (read_agents run) (st\<lparr>reading := None\<rparr>)\<rparr>)
               else None
           | None \<Rightarrow> None)
      | Due \<Rightarrow>
          (if outbox st = [] \<and> reread_wanted st \<and> last_list st + wt_debounce w \<le> wt_now w
           then Some (w\<lparr>wt_state := start_read (wt_now w) st, wt_starts := wt_now w # wt_starts w\<rparr>)
           else None)
      | Bus recv \<Rightarrow>
          (if outbox st = []
           then Some (case on_bus recv st of
                        Some st' \<Rightarrow> w\<lparr>wt_state := st'\<rparr>
                      | None \<Rightarrow> end_loop BusClosed w)
           else None)
      | _ \<Rightarrow> None)"

definition watch_turn :: "watch_input \<Rightarrow> watch \<Rightarrow> watch option" where
  "watch_turn i w =
     (case i of
        Pass d \<Rightarrow> Some (w\<lparr>wt_now := wt_now w + d\<rparr>)
      | Poll \<Rightarrow> (if wt_left w then None else Some (client_polls w))
      | Leave \<Rightarrow> Some (w\<lparr>wt_left := True\<rparr>)
      | _ \<Rightarrow> (if wt_flow w = Continue then loop_turn i w else None))"

fun watch_run :: "watch_input list \<Rightarrow> watch \<Rightarrow> watch option" where
  "watch_run [] w = Some w"
| "watch_run (i # is) w = (case watch_turn i w of Some w' \<Rightarrow> watch_run is w' | None \<Rightarrow> None)"

text \<open>
  \<open>start_watch\<close>: the snapshot is queued first; without a bus there is no loop, so the senders
  are dropped at once.
\<close>

definition start_watch :: "string option \<Rightarrow> nat \<Rightarrow> lister_run \<Rightarrow> bool \<Rightarrow> nat \<Rightarrow> status + watch" where
  "start_watch token debounce run has_events now =
     (case query_agents run of
        Inl e \<Rightarrow> Inl e
      | Inr snapshots \<Rightarrow>
          (let list = build_agent_list snapshots;
               w = \<lparr>wt_token = token, wt_debounce = debounce, wt_state = new_watch_state (hold list) now,
                    wt_stream = \<lparr>ws_rx = [Snapshot list], ws_fatal = True, ws_done = False\<rparr>,
                    wt_lane = LanePending, wt_flow = Continue, wt_left = False, wt_now = now,
                    wt_got = [], wt_starts = [now]\<rparr>
           in Inr (if has_events then w else end_loop Gone w)))"

definition watch_agents_impl ::
  "(string \<Rightarrow> bool) \<Rightarrow> 'b backend_set \<Rightarrow> ('b \<Rightarrow> string \<Rightarrow> lister_run) \<Rightarrow> ('b \<Rightarrow> bool) \<Rightarrow> bool \<Rightarrow> nat \<Rightarrow>
   string option \<Rightarrow> string \<Rightarrow> status + watch" where
  "watch_agents_impl zellij_ok bs list_agents supports_agents event_bus now token session =
     (case resolve_session zellij_ok bs session of
        Inl e \<Rightarrow> Inl e
      | Inr (b, bare) \<Rightarrow>
          start_watch token WATCH_LIST_DEBOUNCE (list_agents b bare) (supports_agents b \<and> event_bus) now)"

subsection \<open>What the client holds\<close>

text \<open>The client's side of the protocol, as the comments of the proto file state it.\<close>

fun client_view :: "(32 word \<rightharpoonup> agent_msg) \<Rightarrow> agent_event \<Rightarrow> (32 word \<rightharpoonup> agent_msg)" where
  "client_view m (Snapshot l) = map_of (rev (map (\<lambda>a. (am_pane a, a)) (al_agents l)))"
| "client_view m (Changed a) = m(am_pane a \<mapsto> a)"
| "client_view m (RemovedPane p) = m(p := None)"

abbreviation views :: "(32 word \<rightharpoonup> agent_msg) \<Rightarrow> agent_event list \<Rightarrow> (32 word \<rightharpoonup> agent_msg)" where
  "views \<equiv> foldl client_view"

definition events_of :: "(status + agent_event) list \<Rightarrow> agent_event list" where
  "events_of got = concat (map (\<lambda>x. case x of Inr e \<Rightarrow> [e] | Inl _ \<Rightarrow> []) got)"

definition owed :: "watch \<Rightarrow> agent_event list" where
  "owed w = events_of (wt_got w) @ ws_rx (wt_stream w) @ outbox (wt_state w)"

lemma map_of_hold_rows:
  "map_of (foldl hold_row h xs) = map_of h ++ map_of (rev (map (\<lambda>a. (am_pane a, a)) xs))"
  by (induction xs arbitrary: h)
    (auto simp: hold_row_def update_conv' map_add_def fun_eq_iff split: option.splits)

lemma map_of_hold: "map_of (hold l) = client_view m (Snapshot l)"
  by (simp add: hold_def map_of_hold_rows)

lemma distinct_hold_rows:
  "distinct (map fst h) \<Longrightarrow> distinct (map fst (foldl hold_row h xs))"
  by (induction xs arbitrary: h) (simp_all add: hold_row_def distinct_update)

lemma views_changed:
  "distinct (map am_pane xs) \<Longrightarrow>
     views m (map Changed xs) = m ++ map_of (map (\<lambda>a. (am_pane a, a)) xs)"
proof (induction xs arbitrary: m)
  case (Cons a xs)
  moreover from Cons.prems have "map_of (map (\<lambda>a. (am_pane a, a)) xs) (am_pane a) = None"
    by (auto simp: map_of_eq_None_iff)
  ultimately show ?case by (simp add: map_add_def fun_eq_iff split: option.split)
qed simp

lemma views_removed: "views m (map RemovedPane ps) = m |` (- set ps)"
  by (induction ps arbitrary: m) (auto simp: fun_eq_iff restrict_map_def)

lemma map_of_update_rows:
  "distinct (map fst xs) \<Longrightarrow>
     map_of (foldl (\<lambda>n (p, row). AList.update p row n) h xs) = map_of h ++ map_of xs"
proof (induction xs arbitrary: h)
  case (Cons x xs)
  moreover from Cons.prems have "map_of xs (fst x) = None" by (simp add: map_of_eq_None_iff)
  ultimately show ?case by (cases x) (simp add: update_conv' map_add_def fun_eq_iff split: option.split)
qed simp

lemma distinct_update_rows:
  "distinct (map fst h) \<Longrightarrow> distinct (map fst (foldl (\<lambda>n (p, row). AList.update p row n) h xs))"
  by (induction xs arbitrary: h) (auto simp: distinct_update split: prod.splits)

lemma map_of_rows:
  "distinct (map am_pane xs) \<Longrightarrow> map_of (rev (map (\<lambda>a. (am_pane a, a)) xs)) = map_of (map (\<lambda>a. (am_pane a, a)) xs)"
  by (rule map_of_inject_set[THEN iffD2]) (simp_all add: o_def flip: rev_map)

lemma distinct_panes: "distinct (map as_pane xs) \<Longrightarrow> distinct (map am_pane (al_agents (build_agent_list xs)))"
proof -
  assume "distinct (map as_pane xs)"
  then have "distinct (map as_pane (sort_agents xs))"
    by (simp add: sort_agents_def distinct_map)
  then show ?thesis by (simp add: build_agent_list_def Let_def agent_msg_def o_def)
qed

subsection \<open>Every operation keeps the client's copy in step\<close>

lemma reconcile_view:
  assumes "distinct (map fst h)" and "distinct (map am_pane (al_agents fresh))"
    and r: "reconcile h fresh defer = (out, h')"
  shows "views (map_of h) out = map_of h'" and "distinct (map fst h')"
    and "defer = {} \<Longrightarrow> map_of h' = map_of (hold fresh)"
proof -
  define rows where "rows = filter (\<lambda>a. am_pane a \<notin> defer) (al_agents fresh)"
  define fm where "fm = map_of (map (\<lambda>a. (am_pane a, a)) rows)"
  have drows: "distinct (map am_pane rows)"
    using assms(2) by (simp add: rows_def distinct_map_filter)
  have next': "map_of (foldl hold_row [] rows) = fm"
    using drows by (simp add: map_of_hold_rows map_of_rows fm_def)
  define changed where "changed = filter (\<lambda>a. map_of h (am_pane a) \<noteq> Some a) rows"
  define gone where "gone = sort (filter (\<lambda>p. p \<notin> defer \<and> fm p = None) (map fst h))"
  define kept where "kept = filter (\<lambda>(p, row). p \<in> defer) h"
  have out: "out = map Changed changed @ map RemovedPane gone"
    and h': "h' = foldl (\<lambda>n (p, row). AList.update p row n) (foldl hold_row [] rows) kept"
    using r by (simp_all add: reconcile_def Let_def rows_def changed_def gone_def kept_def
        flip: next'[unfolded rows_def])
  have dchanged: "distinct (map am_pane changed)"
    using drows by (simp add: changed_def distinct_map_filter)
  have dkept: "distinct (map fst kept)"
    using assms(1) by (simp add: kept_def distinct_map_filter)
  have fm_defer: "fm p = None" if "p \<in> defer" for p
    using that by (auto simp: fm_def rows_def map_of_eq_None_iff)
  have kept_at: "map_of kept p = (if p \<in> defer then map_of h p else None)" for p
    by (simp add: kept_def map_of_filter_key)
  have m': "map_of h' = fm ++ map_of kept"
    by (simp add: h' map_of_update_rows[OF dkept] next')
  have changed_at: "(map_of h ++ map_of (map (\<lambda>a. (am_pane a, a)) changed)) p =
      (case fm p of Some a \<Rightarrow> Some a | None \<Rightarrow> map_of h p)" for p
  proof (cases "fm p")
    case None
    then have "map_of (map (\<lambda>a. (am_pane a, a)) changed) p = None"
      by (auto simp: fm_def changed_def map_of_eq_None_iff)
    then show ?thesis using None by (simp add: map_add_def)
  next
    case (Some a)
    then have a: "a \<in> set rows" "am_pane a = p"
      by (auto simp: fm_def dest!: map_of_SomeD)
    show ?thesis
    proof (cases "map_of h p = Some a")
      case True
      have "map_of (map (\<lambda>a. (am_pane a, a)) changed) p = None"
        using True a drows by (auto simp: changed_def map_of_eq_None_iff distinct_map dest: inj_onD)
      then show ?thesis using True Some by (simp add: map_add_def)
    next
      case False
      with a have "a \<in> set changed" by (simp add: changed_def)
      then have "map_of (map (\<lambda>a. (am_pane a, a)) changed) p = Some a"
        using a dchanged by (auto simp: o_def intro!: map_of_is_SomeI)
      then show ?thesis using Some by (simp add: map_add_def)
    qed
  qed
  have gone_iff: "p \<in> set gone \<longleftrightarrow> map_of h p \<noteq> None \<and> p \<notin> defer \<and> fm p = None" for p
    by (auto simp: gone_def map_of_eq_None_iff)
  show "views (map_of h) out = map_of h'"
  proof
    fix p
    have "views (map_of h) out p =
        (if p \<in> set gone then None else case fm p of Some a \<Rightarrow> Some a | None \<Rightarrow> map_of h p)"
      by (simp add: out views_changed[OF dchanged] views_removed restrict_map_def changed_at)
    also have "\<dots> = map_of h' p"
      by (cases "fm p"; cases "p \<in> defer"; cases "map_of h p")
        (auto simp: m' kept_at gone_iff map_add_def fm_defer)
    finally show "views (map_of h) out p = map_of h' p" .
  qed
  show "distinct (map fst h')"
    unfolding h' by (intro distinct_update_rows distinct_hold_rows) simp
  show "map_of h' = map_of (hold fresh)" if "defer = {}"
    using that assms(2) by (simp add: m' kept_def hold_def map_of_hold_rows map_of_rows fm_def rows_def)
qed

definition lists_once :: "lister_run \<Rightarrow> bool" where
  "lists_once run = (case run of Answers as \<Rightarrow> distinct (map as_pane as) | _ \<Rightarrow> True)"

lemma finish_read_view:
  assumes "distinct (map fst (held st))" and "lists_once run"
  shows "\<exists>out. outbox (finish_read f (read_agents run) st) = outbox st @ out \<and>
      views (map_of (held st)) out = map_of (held (finish_read f (read_agents run) st))"
    and "distinct (map fst (held (finish_read f (read_agents run) st)))"
proof -
  have "(\<exists>out. outbox (finish_read f (read_agents run) st) = outbox st @ out \<and>
      views (map_of (held st)) out = map_of (held (finish_read f (read_agents run) st))) \<and>
      distinct (map fst (held (finish_read f (read_agents run) st)))"
  proof (cases run)
    case (Answers as)
    let ?l = "build_agent_list (filter (\<lambda>a. as_pane a \<notin> fl_closed f) as)"
    have dl: "distinct (map am_pane (al_agents ?l))"
      using assms(2) by (intro distinct_panes) (simp add: Answers lists_once_def distinct_map_filter)
    obtain out h' where r: "reconcile (held st) ?l (stale st) = (out, h')" by force
    from reconcile_view(1,2)[OF assms(1) dl r]
    show ?thesis
      by (simp add: finish_read_def read_agents_def Answers Let_def r distinct_hold_rows hold_def
          map_of_hold_rows)
  qed (simp_all add: finish_read_def read_agents_def assms(1))
  then show "\<exists>out. outbox (finish_read f (read_agents run) st) = outbox st @ out \<and>
      views (map_of (held st)) out = map_of (held (finish_read f (read_agents run) st))"
    and "distinct (map fst (held (finish_read f (read_agents run) st)))" by blast+
qed

lemma apply_status_pane: "apply_status h ev = Some msg \<Longrightarrow> am_pane msg = am_pane (the (map_of h (ev_pane ev)))"
  by (auto simp: apply_status_def split: option.splits if_splits)

lemma on_bus_view:
  assumes "distinct (map fst (held st))" and "on_bus r st = Some st'"
  shows "\<exists>out. outbox st' = outbox st @ out \<and> views (map_of (held st)) out = map_of (held st')"
    and "distinct (map fst (held st'))"
proof -
  have "(\<exists>out. outbox st' = outbox st @ out \<and> views (map_of (held st)) out = map_of (held st')) \<and>
      distinct (map fst (held st'))"
    using assms
    by (auto simp: on_bus_def Let_def update_conv' delete_conv' distinct_update distinct_delete
        split: feed_recv.splits mux_event.splits option.splits if_splits)
  then show "\<exists>out. outbox st' = outbox st @ out \<and> views (map_of (held st)) out = map_of (held st')"
    and "distinct (map fst (held st'))" by blast+
qed

text \<open>A client poll only moves messages from the channel to what the client has read.\<close>

lemma poll_next_moves:
  "poll_next lane alive ws = (answer, ws') \<Longrightarrow>
     events_of (case answer of Ready (Some item) \<Rightarrow> [item] | _ \<Rightarrow> []) @ ws_rx ws' = ws_rx ws"
  by (auto simp: poll_next_def poll_recv_def events_of_def split: if_splits fatal_lane.splits list.splits)

lemma events_of_append [simp]: "events_of (xs @ ys) = events_of xs @ events_of ys"
  by (simp add: events_of_def)

lemma client_polls_owed: "owed (client_polls w) = owed w" "wt_state (client_polls w) = wt_state w"
proof -
  obtain answer ws where p: "poll_next (wt_lane w) (wt_flow w = Continue) (wt_stream w) = (answer, ws)" by force
  show "owed (client_polls w) = owed w"
    by (simp add: client_polls_def p owed_def flip: poll_next_moves[OF p])
  show "wt_state (client_polls w) = wt_state w" by (simp add: client_polls_def p)
qed

definition mirrored :: "watch \<Rightarrow> bool" where
  "mirrored w \<longleftrightarrow> views Map.empty (owed w) = map_of (held (wt_state w)) \<and>
     distinct (map fst (held (wt_state w)))"

lemma mirroredI:
  "mirrored w \<Longrightarrow> owed w' = owed w @ out \<Longrightarrow>
   views (map_of (held (wt_state w))) out = map_of (held (wt_state w')) \<Longrightarrow>
   distinct (map fst (held (wt_state w'))) \<Longrightarrow> mirrored w'"
  by (simp add: mirrored_def)

definition reads_once :: "watch_input \<Rightarrow> bool" where
  "reads_once i = (case i of ReadDone run \<Rightarrow> lists_once run | _ \<Rightarrow> True)"

lemma loop_turn_mirrored:
  assumes "loop_turn i w = Some w'" and m: "mirrored w" and "reads_once i"
  shows "mirrored w'"
proof (cases i)
  case Room
  then have "owed w' = owed w @ [] \<and> held (wt_state w') = held (wt_state w)"
    using assms(1) by (auto simp: loop_turn_def Let_def owed_def split: list.splits if_splits)
  with m show ?thesis by (auto simp: mirrored_def)
next
  case (ReadDone run)
  with assms(1) obtain f where w': "w' = w\<lparr>wt_state := finish_read f (read_agents run) ((wt_state w)\<lparr>reading := None\<rparr>)\<rparr>"
    by (auto simp: loop_turn_def Let_def split: option.splits if_splits)
  have "distinct (map fst (held ((wt_state w)\<lparr>reading := None\<rparr>)))" and "lists_once run"
    using m assms(3) by (simp_all add: mirrored_def reads_once_def ReadDone)
  from finish_read_view[OF this, of f] obtain out where
    "owed w' = owed w @ out" "views (map_of (held (wt_state w))) out = map_of (held (wt_state w'))"
    "distinct (map fst (held (wt_state w')))"
    by (auto simp: w' owed_def)
  with m show ?thesis by (blast intro: mirroredI)
next
  case (Bus r)
  show ?thesis
  proof (cases "on_bus r (wt_state w)")
    case None
    then show ?thesis using assms(1) m
      by (auto simp: loop_turn_def Let_def Bus mirrored_def owed_def end_loop_def split: if_splits)
  next
    case (Some st')
    then have w': "w' = w\<lparr>wt_state := st'\<rparr>"
      using assms(1) by (auto simp: loop_turn_def Let_def Bus split: if_splits)
    have "distinct (map fst (held (wt_state w)))" using m by (simp add: mirrored_def)
    from on_bus_view[OF this Some] obtain out where
      "owed w' = owed w @ out" "views (map_of (held (wt_state w))) out = map_of (held (wt_state w'))"
      "distinct (map fst (held (wt_state w')))"
      by (auto simp: w' owed_def)
    with m show ?thesis by (blast intro: mirroredI)
  qed
qed (use assms in \<open>auto simp: loop_turn_def Let_def mirrored_def owed_def end_loop_def start_read_def
      split: if_splits\<close>)

lemma watch_turn_cases:
  assumes "watch_turn i w = Some w'"
  obtains (loop) "loop_turn i w = Some w'" "wt_flow w = Continue"
    | (polls) "i = Poll" "w' = client_polls w" "\<not> wt_left w"
    | (passes) d where "i = Pass d" "w' = w\<lparr>wt_now := wt_now w + d\<rparr>"
    | (leaves) "i = Leave" "w' = w\<lparr>wt_left := True\<rparr>"
proof (cases i)
  case (Pass d)
  with assms passes show thesis by (simp add: watch_turn_def)
next
  case Poll
  with assms polls show thesis by (simp add: watch_turn_def split: if_splits)
next
  case Leave
  with assms leaves show thesis by (simp add: watch_turn_def)
qed (use assms loop in \<open>simp_all add: watch_turn_def split: if_splits\<close>)

lemma watch_turn_mirrored:
  assumes "watch_turn i w = Some w'" and m: "mirrored w" and r: "reads_once i"
  shows "mirrored w'"
  using assms(1)
proof (cases rule: watch_turn_cases)
  case loop
  with m r show ?thesis by (blast intro: loop_turn_mirrored)
qed (use m in \<open>simp_all add: mirrored_def client_polls_owed\<close>, simp_all add: owed_def)

lemma watch_run_mirrored:
  "watch_run is w = Some w' \<Longrightarrow> mirrored w \<Longrightarrow> list_all reads_once is \<Longrightarrow> mirrored w'"
  by (induction "is" w rule: watch_run.induct) (auto split: option.splits dest: watch_turn_mirrored)

lemma start_watch_mirrored:
  assumes "start_watch token d run ev now = Inr w"
  shows "mirrored w"
proof -
  from assms obtain as where "w = (if ev then id else end_loop Gone)
      \<lparr>wt_token = token, wt_debounce = d, wt_state = new_watch_state (hold (build_agent_list as)) now,
       wt_stream = \<lparr>ws_rx = [Snapshot (build_agent_list as)], ws_fatal = True, ws_done = False\<rparr>,
       wt_lane = LanePending, wt_flow = Continue, wt_left = False, wt_now = now,
       wt_got = [], wt_starts = [now]\<rparr>"
    by (auto simp: start_watch_def Let_def split: sum.splits if_splits)
  then show ?thesis
    by (simp add: mirrored_def owed_def events_of_def new_watch_state_def end_loop_def hold_def
        distinct_hold_rows map_of_hold_rows)
qed

subsection \<open>A closed pane\<close>

text \<open>Rows are held under their own pane id, whatever the reads answer.\<close>

definition keyed :: "held_rows \<Rightarrow> bool" where
  "keyed h \<longleftrightarrow> (\<forall>p a. map_of h p = Some a \<longrightarrow> am_pane a = p)"

lemma keyed_update: "keyed h \<Longrightarrow> keyed (AList.update (am_pane a) a h)"
  by (auto simp: keyed_def update_conv')

lemma keyed_delete: "keyed h \<Longrightarrow> keyed (AList.delete p h)"
  by (auto simp: keyed_def delete_conv')

lemma keyed_hold_rows: "keyed h \<Longrightarrow> keyed (foldl hold_row h xs)"
  by (induction xs arbitrary: h) (simp_all add: hold_row_def keyed_update)

lemma keyed_update_rows:
  "keyed h \<Longrightarrow> \<forall>(p, a) \<in> set xs. am_pane a = p \<Longrightarrow> keyed (foldl (\<lambda>n (p, row). AList.update p row n) h xs)"
  by (induction xs arbitrary: h) (auto dest: keyed_update)

definition rows_ok :: "held_rows \<Rightarrow> bool" where
  "rows_ok h \<longleftrightarrow> distinct (map fst h) \<and> keyed h"

lemma rows_ok_reconcile: "rows_ok h \<Longrightarrow> rows_ok (snd (reconcile h l d))"
  unfolding reconcile_def Let_def snd_conv rows_ok_def
proof (intro conjI keyed_update_rows keyed_hold_rows distinct_update_rows distinct_hold_rows)
  assume h: "distinct (map fst h) \<and> keyed h"
  show "\<forall>(p, a) \<in> set (filter (\<lambda>(p, row). p \<in> d) h). am_pane a = p"
    using h by (auto simp: keyed_def)
qed (simp_all add: keyed_def)

lemma rows_ok_hold: "rows_ok (hold l)"
  unfolding rows_ok_def hold_def by (intro conjI distinct_hold_rows keyed_hold_rows) (simp_all add: keyed_def)

lemma finish_read_rows_ok: "rows_ok (held st) \<Longrightarrow> rows_ok (held (finish_read f r st))"
proof (cases r)
  case (Inr as)
  assume h: "rows_ok (held st)"
  let ?l = "build_agent_list (filter (\<lambda>a. as_pane a \<notin> fl_closed f) as)"
  from rows_ok_reconcile[OF h, of ?l "stale st"] show ?thesis
    by (cases "reconcile (held st) ?l (stale st)") (simp add: finish_read_def Inr Let_def rows_ok_hold)
qed (simp add: finish_read_def)

lemma apply_status_keyed: "keyed h \<Longrightarrow> apply_status h ev = Some msg \<Longrightarrow> map_of h (am_pane msg) \<noteq> None"
  by (auto simp: apply_status_def keyed_def split: option.splits if_splits)

lemma on_bus_rows_ok: "on_bus r st = Some st' \<Longrightarrow> rows_ok (held st) \<Longrightarrow> rows_ok (held st')"
  by (auto simp: on_bus_def Let_def rows_ok_def distinct_update distinct_delete keyed_update keyed_delete
      split: feed_recv.splits mux_event.splits option.splits if_splits)

definition pane_out :: "32 word \<Rightarrow> watch_state \<Rightarrow> bool" where
  "pane_out p st \<longleftrightarrow> rows_ok (held st) \<and> map_of (held st) p = None \<and>
     (case reading st of Some f \<Rightarrow> p \<in> fl_closed f | None \<Rightarrow> True)"

lemma update_rows_None:
  "map_of h p = None \<Longrightarrow> p \<notin> fst ` set xs \<Longrightarrow>
     map_of (foldl (\<lambda>n (q, row). AList.update q row n) h xs) p = None"
  by (induction xs arbitrary: h) (auto simp: update_conv')

lemma hold_rows_None:
  "p \<notin> am_pane ` set xs \<Longrightarrow> map_of (foldl hold_row [] xs) p = None"
  by (auto simp: map_of_hold_rows map_of_eq_None_iff)

lemma panes_of_list: "am_pane ` set (al_agents (build_agent_list as)) = as_pane ` set as"
  by (simp add: build_agent_list_def Let_def agent_msg_def sort_agents_def image_image)

lemma finish_read_pane_out:
  assumes "map_of (held st) p = None" and "p \<in> fl_closed f"
  shows "map_of (held (finish_read f r st)) p = None"
proof (cases r)
  case (Inr as)
  let ?l = "build_agent_list (filter (\<lambda>a. as_pane a \<notin> fl_closed f) as)"
  have p: "p \<notin> am_pane ` set (al_agents ?l)" using assms(2) by (auto simp: panes_of_list)
  then have "map_of (hold ?l) p = None" by (simp add: hold_def hold_rows_None)
  moreover have "map_of (snd (reconcile (held st) ?l (stale st))) p = None"
    unfolding reconcile_def Let_def snd_conv
  proof (rule update_rows_None)
    show "map_of (foldl hold_row [] (filter (\<lambda>a. am_pane a \<notin> stale st) (al_agents ?l))) p = None"
      using p by (intro hold_rows_None) auto
    show "p \<notin> fst ` set (filter (\<lambda>(p, row). p \<in> stale st) (held st))"
      using assms(1) by (force simp: map_of_eq_None_iff)
  qed
  ultimately show ?thesis
    by (simp add: finish_read_def Inr Let_def split: prod.split) (metis snd_conv)
qed (simp add: finish_read_def assms(1))

lemma on_bus_pane_out:
  assumes r: "on_bus r st = Some st'" and o: "pane_out p st"
  shows "pane_out p st'"
proof -
  have "map_of (held st') p = None"
    using r o
    by (auto simp: on_bus_def Let_def pane_out_def rows_ok_def update_conv' delete_conv'
        split: feed_recv.splits mux_event.splits option.splits if_splits dest: apply_status_keyed)
  moreover have "case reading st' of Some f \<Rightarrow> p \<in> fl_closed f | None \<Rightarrow> True"
    using r o
    by (auto simp: on_bus_def Let_def pane_out_def
        split: feed_recv.splits mux_event.splits option.splits if_splits)
  ultimately show ?thesis using on_bus_rows_ok[OF r] o by (simp add: pane_out_def)
qed

lemma loop_turn_pane_out:
  assumes "loop_turn i w = Some w'" and "i \<noteq> Due" and o: "pane_out p (wt_state w)"
  shows "pane_out p (wt_state w')"
proof (cases i)
  case (ReadDone run)
  then obtain f where f: "reading (wt_state w) = Some f"
    "wt_state w' = finish_read f (read_agents run) ((wt_state w)\<lparr>reading := None\<rparr>)"
    using assms(1) by (auto simp: loop_turn_def Let_def split: option.splits if_splits)
  then have "reading (wt_state w') = None"
    by (simp add: finish_read_def Let_def split: sum.splits prod.splits)
  with f o finish_read_pane_out[of "(wt_state w)\<lparr>reading := None\<rparr>" p f]
    finish_read_rows_ok[of "(wt_state w)\<lparr>reading := None\<rparr>"]
  show ?thesis by (simp add: pane_out_def)
next
  case (Bus r)
  with assms(1) o show ?thesis
    by (auto simp: loop_turn_def Let_def end_loop_def on_bus_pane_out split: option.splits if_splits)
qed (use assms in \<open>auto simp: loop_turn_def Let_def pane_out_def end_loop_def split: list.splits if_splits\<close>)

lemma watch_turn_pane_out:
  "watch_turn i w = Some w' \<Longrightarrow> i \<noteq> Due \<Longrightarrow> pane_out p (wt_state w) \<Longrightarrow> pane_out p (wt_state w')"
  by (erule watch_turn_cases) (simp_all add: loop_turn_pane_out client_polls_owed)

lemma watch_run_pane_out:
  "watch_run is w = Some w' \<Longrightarrow> Due \<notin> set is \<Longrightarrow> pane_out p (wt_state w) \<Longrightarrow> pane_out p (wt_state w')"
  by (induction "is" w rule: watch_run.induct) (auto split: option.splits dest: watch_turn_pane_out)

lemma watch_turn_rows_ok: "watch_turn i w = Some w' \<Longrightarrow> rows_ok (held (wt_state w)) \<Longrightarrow> rows_ok (held (wt_state w'))"
  by (erule watch_turn_cases)
    (auto simp: client_polls_owed loop_turn_def Let_def end_loop_def start_read_def finish_read_rows_ok
      on_bus_rows_ok split: watch_input.splits list.splits if_splits option.splits)

lemma watch_run_rows_ok: "watch_run is w = Some w' \<Longrightarrow> rows_ok (held (wt_state w)) \<Longrightarrow> rows_ok (held (wt_state w'))"
  by (induction "is" w rule: watch_run.induct) (auto split: option.splits dest: watch_turn_rows_ok)

lemma start_watch_rows_ok: "start_watch token d run ev now = Inr w \<Longrightarrow> rows_ok (held (wt_state w))"
  by (auto simp: start_watch_def Let_def new_watch_state_def end_loop_def rows_ok_hold split: sum.splits)

lemma pane_gone_out:
  "watch_turn (Bus (FeedEvent (PaneGone p))) w = Some w' \<Longrightarrow> rows_ok (held (wt_state w)) \<Longrightarrow>
     pane_out p (wt_state w')"
  by (frule (1) watch_turn_rows_ok)
    (auto simp: watch_turn_def loop_turn_def Let_def on_bus_def pane_out_def delete_conv'
      split: if_splits option.splits)

subsection \<open>The spacing of re-reads\<close>

fun spaced_by :: "nat \<Rightarrow> nat list \<Rightarrow> bool" where
  "spaced_by d (t # t' # ts) = (t' + d \<le> t \<and> spaced_by d (t' # ts))"
| "spaced_by d ts = True"

definition reads_ok :: "watch \<Rightarrow> bool" where
  "reads_ok w \<longleftrightarrow> spaced_by (wt_debounce w) (wt_starts w) \<and>
     (\<exists>ts. wt_starts w = last_list (wt_state w) # ts)"

lemma loop_turn_reads:
  assumes "loop_turn i w = Some w'" and "i \<noteq> Due"
  shows "wt_starts w' = wt_starts w \<and> last_list (wt_state w') = last_list (wt_state w) \<and>
    wt_debounce w' = wt_debounce w"
  using assms
  by (cases i) (auto simp: loop_turn_def Let_def end_loop_def finish_read_def on_bus_def
      split: list.splits if_splits option.splits sum.splits prod.splits feed_recv.splits mux_event.splits)

lemma loop_turn_reads_ok:
  assumes "loop_turn i w = Some w'" and "reads_ok w"
  shows "reads_ok w'"
proof (cases "i = Due")
  case True
  with assms show ?thesis
    by (auto simp: loop_turn_def Let_def reads_ok_def start_read_def split: if_splits)
next
  case False
  with loop_turn_reads[OF assms(1)] assms(2) show ?thesis by (simp add: reads_ok_def)
qed

lemma client_polls_keeps:
  "wt_starts (client_polls w) = wt_starts w" "wt_debounce (client_polls w) = wt_debounce w"
  "wt_flow (client_polls w) = wt_flow w" "wt_lane (client_polls w) = wt_lane w"
  "wt_left (client_polls w) = wt_left w" "wt_now (client_polls w) = wt_now w"
  by (simp_all add: client_polls_def split: prod.split)

lemma watch_turn_reads_ok: "watch_turn i w = Some w' \<Longrightarrow> reads_ok w \<Longrightarrow> reads_ok w'"
  by (erule watch_turn_cases)
    (rule loop_turn_reads_ok, assumption+, simp_all add: reads_ok_def client_polls_keeps client_polls_owed)

lemma watch_run_reads_ok: "watch_run is w = Some w' \<Longrightarrow> reads_ok w \<Longrightarrow> reads_ok w'"
  by (induction "is" w rule: watch_run.induct) (auto split: option.splits dest: watch_turn_reads_ok)

lemma start_watch_reads_ok: "start_watch token d run ev now = Inr w \<Longrightarrow> reads_ok w"
  by (auto simp: start_watch_def Let_def reads_ok_def new_watch_state_def end_loop_def split: sum.splits)

subsection \<open>The fatal lane and progress\<close>

definition lane_ok :: "watch \<Rightarrow> bool" where
  "lane_ok w \<longleftrightarrow> last_list (wt_state w) \<le> wt_now w \<and>
     (wt_flow w = Continue \<longrightarrow>
        wt_lane w = LanePending \<and> ws_fatal (wt_stream w) \<and> \<not> ws_done (wt_stream w))"

lemma poll_pending:
  "\<not> ws_done ws \<Longrightarrow> poll_next LanePending alive ws = poll_recv alive ws"
  by (simp add: poll_next_def)

lemma poll_recv_keeps:
  "ws_fatal (snd (poll_recv alive ws)) = ws_fatal ws" "ws_done (snd (poll_recv alive ws)) = ws_done ws"
  by (simp_all add: poll_recv_def split: list.split)

lemma client_polls_lane_ok: "lane_ok w \<Longrightarrow> lane_ok (client_polls w)"
  by (cases "poll_recv True (wt_stream w)", insert poll_recv_keeps[of True "wt_stream w"])
    (auto simp: lane_ok_def client_polls_owed client_polls_keeps client_polls_def poll_pending split: prod.splits)

lemma loop_turn_lane_ok: "loop_turn i w = Some w' \<Longrightarrow> lane_ok w \<Longrightarrow> lane_ok w'"
  by (cases i)
    (auto simp: loop_turn_def Let_def end_loop_def lane_ok_def finish_read_def on_bus_def start_read_def
      split: list.splits if_splits option.splits sum.splits prod.splits feed_recv.splits mux_event.splits)

lemma watch_turn_lane_ok: "watch_turn i w = Some w' \<Longrightarrow> lane_ok w \<Longrightarrow> lane_ok w'"
  by (erule watch_turn_cases) (simp_all add: loop_turn_lane_ok client_polls_lane_ok, simp_all add: lane_ok_def)

lemma watch_run_lane_ok: "watch_run is w = Some w' \<Longrightarrow> lane_ok w \<Longrightarrow> lane_ok w'"
  by (induction "is" w rule: watch_run.induct) (auto split: option.splits dest: watch_turn_lane_ok)

lemma start_watch_lane_ok: "start_watch token d run ev now = Inr w \<Longrightarrow> lane_ok w"
  by (auto simp: start_watch_def Let_def lane_ok_def new_watch_state_def end_loop_def split: sum.splits if_splits)

lemma watch_run_append:
  "watch_run (is @ js) w = (case watch_run is w of Some w' \<Rightarrow> watch_run js w' | None \<Rightarrow> None)"
  by (induction "is" w rule: watch_run.induct) (auto split: option.splits)

definition live :: "watch \<Rightarrow> bool" where
  "live w \<longleftrightarrow> wt_flow w = Continue \<and> \<not> wt_left w \<and> lane_ok w"

definition quiet :: "watch \<Rightarrow> bool" where
  "quiet w \<longleftrightarrow> live w \<and> ws_rx (wt_stream w) = [] \<and> outbox (wt_state w) = []"

lemma quiet_owed: "quiet w \<Longrightarrow> owed w = events_of (wt_got w)"
  by (simp add: quiet_def owed_def)

text \<open>A poll takes the head of the channel; a message the channel has room for enters it.\<close>

lemma poll_takes:
  assumes "live w" and "ws_rx (wt_stream w) = ev # rest"
  obtains w' where "watch_turn Poll w = Some w'" "live w'" "wt_state w' = wt_state w"
    "owed w' = owed w" "ws_rx (wt_stream w') = rest" "wt_now w' = wt_now w" "wt_debounce w' = wt_debounce w"
proof
  have p: "poll_next (wt_lane w) (wt_flow w = Continue) (wt_stream w) =
      (Ready (Some (Inr ev)), (wt_stream w)\<lparr>ws_rx := rest\<rparr>)"
    using assms by (simp add: live_def lane_ok_def poll_pending poll_recv_def)
  show "watch_turn Poll w = Some (client_polls w)" using assms(1) by (simp add: watch_turn_def live_def)
  show "live (client_polls w)"
    using assms(1) by (simp add: live_def client_polls_keeps client_polls_lane_ok)
  show "ws_rx (wt_stream (client_polls w)) = rest" by (simp add: client_polls_def p)
qed (simp_all add: client_polls_owed client_polls_keeps)

lemma drain_channel:
  assumes "live w"
  obtains w' where "watch_run (replicate (length (ws_rx (wt_stream w))) Poll) w = Some w'"
    "live w'" "wt_state w' = wt_state w" "owed w' = owed w" "ws_rx (wt_stream w') = []"
    "wt_now w' = wt_now w" "wt_debounce w' = wt_debounce w"
  using assms
proof (induction "ws_rx (wt_stream w)" arbitrary: w thesis)
  case Nil
  show ?case by (rule Nil.prems(1)[of w]) (use Nil.prems(2) Nil.hyps in simp_all)
next
  case (Cons ev rest)
  from poll_takes[OF Cons.prems(2) Cons.hyps(2)[symmetric]] obtain w1 where
    w1: "watch_turn Poll w = Some w1" "live w1" "wt_state w1 = wt_state w"
      "owed w1 = owed w" "ws_rx (wt_stream w1) = rest" "wt_now w1 = wt_now w" "wt_debounce w1 = wt_debounce w" .
  from Cons.hyps(1)[OF w1(5)[symmetric] _ w1(2)] obtain w2 where
    "watch_run (replicate (length (ws_rx (wt_stream w1))) Poll) w1 = Some w2" "live w2"
    "wt_state w2 = wt_state w1" "owed w2 = owed w1" "ws_rx (wt_stream w2) = []"
    "wt_now w2 = wt_now w1" "wt_debounce w2 = wt_debounce w1" by blast
  with w1 Cons.hyps(2)[symmetric] show ?case by (intro Cons.prems(1)[of w2]) simp_all
qed

lemma room_sends:
  assumes "live w" and "ws_rx (wt_stream w) = []" and "outbox (wt_state w) = ev # rest"
  obtains w' where "watch_turn Room w = Some w'" "live w'" "wt_state w' = (wt_state w)\<lparr>outbox := rest\<rparr>"
    "owed w' = owed w" "ws_rx (wt_stream w') = [ev]" "wt_now w' = wt_now w" "wt_debounce w' = wt_debounce w"
  using assms
  by (simp add: watch_turn_def loop_turn_def Let_def live_def lane_ok_def WATCH_CHANNEL_BOUND_def owed_def)

lemma drain_outbox:
  assumes "live w" and "ws_rx (wt_stream w) = []"
  obtains w' where "watch_run (concat (replicate (length (outbox (wt_state w))) [Room, Poll])) w = Some w'"
    "quiet w'" "wt_state w' = (wt_state w)\<lparr>outbox := []\<rparr>" "owed w' = owed w"
    "wt_now w' = wt_now w" "wt_debounce w' = wt_debounce w"
  using assms
proof (induction "outbox (wt_state w)" arbitrary: w thesis)
  case Nil
  show ?case by (rule Nil.prems(1)[of w]) (use Nil.prems(2,3) Nil.hyps in \<open>simp_all add: quiet_def\<close>)
next
  case (Cons ev rest)
  from room_sends[OF Cons.prems(2,3) Cons.hyps(2)[symmetric]] obtain w1 where
    w1: "watch_turn Room w = Some w1" "live w1" "wt_state w1 = (wt_state w)\<lparr>outbox := rest\<rparr>"
      "owed w1 = owed w" "ws_rx (wt_stream w1) = [ev]" "wt_now w1 = wt_now w" "wt_debounce w1 = wt_debounce w" .
  from poll_takes[OF w1(2,5)] obtain w2 where
    w2: "watch_turn Poll w1 = Some w2" "live w2" "wt_state w2 = wt_state w1"
      "owed w2 = owed w1" "ws_rx (wt_stream w2) = []" "wt_now w2 = wt_now w1" "wt_debounce w2 = wt_debounce w1" .
  have "rest = outbox (wt_state w2)" using w1 w2 by simp
  from Cons.hyps(1)[OF this _ w2(2,5)] obtain w3 where
    "watch_run (concat (replicate (length (outbox (wt_state w2))) [Room, Poll])) w2 = Some w3" "quiet w3"
    "wt_state w3 = (wt_state w2)\<lparr>outbox := []\<rparr>" "owed w3 = owed w2"
    "wt_now w3 = wt_now w2" "wt_debounce w3 = wt_debounce w2" by blast
  with w1 w2 Cons.hyps(2)[symmetric] show ?case by (intro Cons.prems(1)[of w3]) simp_all
qed

lemma drain:
  assumes "live w"
  obtains js w' where "watch_run js w = Some w'" "set js \<subseteq> {Poll, Room}" "quiet w'"
    "wt_state w' = (wt_state w)\<lparr>outbox := []\<rparr>" "owed w' = owed w"
    "wt_now w' = wt_now w" "wt_debounce w' = wt_debounce w"
proof -
  from drain_channel[OF assms] obtain w1 where
    w1: "watch_run (replicate (length (ws_rx (wt_stream w))) Poll) w = Some w1"
    "live w1" "wt_state w1 = wt_state w" "owed w1 = owed w" "ws_rx (wt_stream w1) = []"
    "wt_now w1 = wt_now w" "wt_debounce w1 = wt_debounce w" .
  from drain_outbox[OF w1(2,5)] obtain w2 where
    w2: "watch_run (concat (replicate (length (outbox (wt_state w1))) [Room, Poll])) w1 = Some w2"
    "quiet w2" "wt_state w2 = (wt_state w1)\<lparr>outbox := []\<rparr>" "owed w2 = owed w1"
    "wt_now w2 = wt_now w1" "wt_debounce w2 = wt_debounce w1" .
  show thesis
    by (rule that[of "replicate (length (ws_rx (wt_stream w))) Poll @
          concat (replicate (length (outbox (wt_state w1))) [Room, Poll])" w2])
      (use w1 w2 in \<open>auto simp: watch_run_append\<close>)
qed

lemma stopped_client:
  assumes "watch_run js w = Some w'" and "ws_done (wt_stream w)" and "wt_flow w \<noteq> Continue"
  shows "wt_got w' = wt_got w"
  using assms
proof (induction js w rule: watch_run.induct)
  case (2 i js w)
  then obtain w1 where t: "watch_turn i w = Some w1" and r: "watch_run js w1 = Some w'"
    by (auto split: option.splits)
  from t 2(3,4) have "ws_done (wt_stream w1) \<and> wt_flow w1 \<noteq> Continue \<and> wt_got w1 = wt_got w"
    by (cases rule: watch_turn_cases) (simp_all add: client_polls_def poll_next_def)
  with 2 t r show ?case by simp
qed simp

text \<open>A re-read that answers every mark leaves the stream with exactly its rows.\<close>

lemma finish_read_exact:
  assumes "rows_ok (held st)" and "distinct (map as_pane as)" and "stale st = {}" and "fl_closed f = {}"
  shows "map_of (held (finish_read f (read_agents (Answers as)) st)) = map_of (hold (build_agent_list as))"
proof -
  obtain out h' where r: "reconcile (held st) (build_agent_list as) {} = (out, h')" by force
  have "distinct (map fst (held st))" using assms(1) by (simp add: rows_ok_def)
  from reconcile_view(3)[OF this distinct_panes[OF assms(2)] r] show ?thesis
    by (simp add: finish_read_def read_agents_def Let_def assms(3,4) r)
qed

subsection \<open>The correctness of a stream\<close>

text \<open>
  C3 (the client's copy). Whatever the bus, the backend and the client do, a client that
  applies in order what it has read, then what is in the channel, then what waits in the
  outbox holds exactly the rows the stream holds, provided every inventory read lists a pane once.
\<close>

theorem watch_client_in_step:
  assumes "start_watch token d run ev now = Inr w0" and "watch_run is w0 = Some w"
    and "list_all reads_once is"
  shows "views Map.empty (events_of (wt_got w) @ ws_rx (wt_stream w) @ outbox (wt_state w)) =
    map_of (held (wt_state w))"
  using watch_run_mirrored[OF assms(2) start_watch_mirrored[OF assms(1)] assms(3)]
  by (simp add: mirrored_def owed_def)

text \<open>
  (a closed pane). After the bus reports a pane closed, the stream does not hold the pane
  again until a new re-read starts: neither a status event nor the answer of a read that was
  out at the time brings it back.
\<close>

theorem closed_pane_stays_gone:
  assumes "start_watch token d run ev now = Inr w0" and "watch_run is w0 = Some w"
    and "watch_turn (Bus (FeedEvent (PaneGone p))) w = Some w1"
    and "watch_run js w1 = Some w2" and "Due \<notin> set js"
  shows "map_of (held (wt_state w2)) p = None"
  using watch_run_pane_out[OF assms(4,5) pane_gone_out[OF assms(3)]]
    watch_run_rows_ok[OF assms(2) start_watch_rows_ok[OF assms(1)]]
  by (simp add: pane_out_def)

text \<open>
  C4 (a reading client catches up). From any point at which a live stream wants a re-read, the
  client polling, the channel taking messages, time passing and one backend answer suffice for
  the client to have read a sequence of messages that leaves it with exactly that answer.
\<close>

theorem reading_client_catches_up:
  assumes start: "start_watch token d run ev now = Inr w0" and run: "watch_run is w0 = Some w"
    and once: "list_all reads_once is" and on: "wt_flow w = Continue" "\<not> wt_left w"
    and want: "reread_wanted (wt_state w)" and as: "distinct (map as_pane as)"
  shows "\<exists>js w'. watch_run js w = Some w' \<and>
    set js \<subseteq> {Poll, Room, Pass (wt_debounce w), Due, ReadDone (Answers as)} \<and>
    views Map.empty (events_of (wt_got w')) = map_of (hold (build_agent_list as))"
proof -
  have "live w" using on watch_run_lane_ok[OF run start_watch_lane_ok[OF start]] by (simp add: live_def)
  from drain[OF this] obtain js w1 where
    w1: "watch_run js w = Some w1" "set js \<subseteq> {Poll, Room}" "quiet w1"
      "wt_state w1 = (wt_state w)\<lparr>outbox := []\<rparr>" "owed w1 = owed w"
      "wt_now w1 = wt_now w" "wt_debounce w1 = wt_debounce w" .
  let ?st2 = "start_read (wt_now w + wt_debounce w) (wt_state w1)"
  let ?w2 = "w1\<lparr>wt_now := wt_now w + wt_debounce w, wt_state := ?st2,
    wt_starts := (wt_now w + wt_debounce w) # wt_starts w1\<rparr>"
  have st1: "reread_wanted (wt_state w1)" "outbox (wt_state w1) = []"
    "last_list (wt_state w1) \<le> wt_now w"
    using want w1 by (simp_all add: reread_wanted_def quiet_def live_def lane_ok_def)
  have flow: "wt_flow w1 = Continue" using w1(3) by (simp add: quiet_def live_def)
  have two: "watch_run [Pass (wt_debounce w), Due] w1 = Some ?w2"
    using st1 flow w1(6,7) by (simp add: watch_turn_def loop_turn_def)
  have upto: "watch_run (js @ [Pass (wt_debounce w), Due]) w = Some ?w2"
    using w1(1) two by (simp add: watch_run_append)
  have rows: "rows_ok (held (wt_state ?w2))"
    using watch_run_rows_ok[OF upto watch_run_rows_ok[OF run start_watch_rows_ok[OF start]]] .
  obtain f where f: "reading ?st2 = Some f" "fl_closed f = {}" "stale ?st2 = {}" "outbox ?st2 = []"
    using st1(2) by (simp add: start_read_def)
  define w3 where "w3 = ?w2\<lparr>wt_state := finish_read f (read_agents (Answers as)) (?st2\<lparr>reading := None\<rparr>)\<rparr>"
  have last: "watch_turn (ReadDone (Answers as)) ?w2 = Some w3"
    using f flow by (simp add: watch_turn_def loop_turn_def w3_def)
  have "watch_run ((js @ [Pass (wt_debounce w), Due]) @ [ReadDone (Answers as)]) w = Some w3"
    unfolding watch_run_append[of "js @ [Pass (wt_debounce w), Due]"] upto by (simp add: last)
  then have three: "watch_run (js @ [Pass (wt_debounce w), Due, ReadDone (Answers as)]) w = Some w3" by simp
  have exact: "map_of (held (wt_state w3)) = map_of (hold (build_agent_list as))"
    using finish_read_exact[of "?st2\<lparr>reading := None\<rparr>" as f] rows as f by (simp add: w3_def)
  have live3: "live w3"
    using watch_run_lane_ok[OF three watch_run_lane_ok[OF run start_watch_lane_ok[OF start]]] w1(3)
    by (simp add: live_def w3_def quiet_def)
  have "list_all reads_once (js @ [Pass (wt_debounce w), Due, ReadDone (Answers as)])"
    using w1(2) as by (auto simp: list_all_iff reads_once_def lists_once_def)
  from watch_run_mirrored[OF three watch_run_mirrored[OF run start_watch_mirrored[OF start] once] this]
  have "views Map.empty (owed w3) = map_of (held (wt_state w3))" by (simp add: mirrored_def)
  moreover from drain[OF live3] obtain ks w4 where
    w4: "watch_run ks w3 = Some w4" "set ks \<subseteq> {Poll, Room}" "quiet w4" "owed w4 = owed w3" by metis
  ultimately have "views Map.empty (events_of (wt_got w4)) = map_of (hold (build_agent_list as))"
    using exact by (simp flip: quiet_owed)
  moreover have "watch_run ((js @ [Pass (wt_debounce w), Due, ReadDone (Answers as)]) @ ks) w = Some w4"
    by (subst watch_run_append) (simp add: three w4(1))
  ultimately show ?thesis using w1(2) w4(2)
    by (intro exI[of _ "(js @ [Pass (wt_debounce w), Due, ReadDone (Answers as)]) @ ks"] exI[of _ w4]) auto
qed

text \<open>
  C5 (a revoked token). While the client listens, a token re-check that does not find the
  token valid ends the stream: the client's next read is the \<open>UNAUTHENTICATED\<close> status, whatever
  is still queued, and it never gets anything after it.
\<close>

theorem revoked_token_ends_stream:
  assumes "start_watch token d run ev now = Inr w0" and "watch_run is w0 = Some w"
    and "wt_flow w = Continue" and "\<not> wt_left w" and "\<not> token_still_valid (wt_token w) (\<lambda>_. answer)"
  shows "\<exists>w'. watch_run [Recheck answer, Poll] w = Some w' \<and>
    wt_got w' = wt_got w @ [Inl Unauthenticated] \<and>
    (\<forall>js w''. watch_run js w' = Some w'' \<longrightarrow> wt_got w'' = wt_got w')"
proof -
  have l: "lane_ok w" using watch_run_lane_ok[OF assms(2) start_watch_lane_ok[OF assms(1)]] .
  let ?w1 = "end_loop Revoked w"
  have p: "poll_next (wt_lane ?w1) (wt_flow ?w1 = Continue) (wt_stream ?w1) =
      (Ready (Some (Inl Unauthenticated)), (wt_stream w)\<lparr>ws_done := True, ws_fatal := False\<rparr>)"
    using l assms(3) by (simp add: poll_next_def end_loop_def lane_ok_def)
  have r: "watch_run [Recheck answer, Poll] w = Some (client_polls ?w1)"
    using assms(3-5) by (simp add: watch_turn_def loop_turn_def Let_def end_loop_def)
  have "ws_done (wt_stream (client_polls ?w1))" "wt_flow (client_polls ?w1) \<noteq> Continue"
    "wt_got (client_polls ?w1) = wt_got w @ [Inl Unauthenticated]"
    by (simp_all add: client_polls_def p) (simp_all add: end_loop_def)
  with r stopped_client show ?thesis by (metis (no_types))
qed

text \<open>
  (re-reads are spaced). However fast the events come, the read the stream opens with and its
  re-reads start at least the debounce apart (250 ms in the daemon).
\<close>

theorem rereads_spaced:
  assumes "start_watch token WATCH_LIST_DEBOUNCE run ev now = Inr w0" and "watch_run is w0 = Some w"
  shows "spaced_by WATCH_LIST_DEBOUNCE (wt_starts w)"
proof -
  have "wt_debounce w' = wt_debounce v" if "watch_turn i v = Some w'" for i v w'
    using that by (cases rule: watch_turn_cases)
      (auto simp: client_polls_keeps loop_turn_def Let_def end_loop_def
        split: watch_input.splits list.splits if_splits option.splits)
  then have "wt_debounce w' = wt_debounce v" if "watch_run js v = Some w'" for js v w'
    using that by (induction js v rule: watch_run.induct) (auto split: option.splits)
  from this[OF assms(2)] have "wt_debounce w = WATCH_LIST_DEBOUNCE"
    using assms(1) by (auto simp: start_watch_def Let_def end_loop_def split: sum.splits if_splits)
  with watch_run_reads_ok[OF assms(2) start_watch_reads_ok[OF assms(1)]] show ?thesis
    by (simp add: reads_ok_def)
qed

text \<open>
  (the inventory's order). The answer of \<open>ListAgents\<close> is the backend's inventory, each
  agent once per occurrence, most urgent first (by status, then by change counter), and its
  summary's five counts add up to its total.
\<close>

theorem inventory_order:
  assumes "list_agents_impl zellij_ok bs list_agents session = Inr l"
    and "resolve_session zellij_ok bs session = Inr (b, bare)"
  shows "\<exists>as s. list_agents b bare = Answers as \<and> mset s = mset as \<and> al_agents l = map agent_msg s \<and>
    sorted_wrt (\<lambda>x y. priority (as_status y) < priority (as_status x) \<or>
      priority (as_status y) = priority (as_status x) \<and> as_change_seq y \<le> as_change_seq x) s \<and>
    sm_total (al_summary l) = agent_sum (al_summary l)"
proof -
  from assms obtain as where as: "list_agents b bare = Answers as" "l = build_agent_list as"
    by (auto simp: list_agents_impl_def query_agents_def read_agents_def
        split: sum.splits read_failure.splits lister_run.splits)
  have desc: "sorted_wrt (\<lambda>x y. urgency y \<le> urgency x) (sort_agents as)"
    using sorted_sort_key[of "\<lambda>a. - int (urgency a)" as] by (simp add: sort_agents_def sorted_map)
  have "sorted_wrt (\<lambda>x y. priority (as_status y) < priority (as_status x) \<or>
      priority (as_status y) = priority (as_status x) \<and> as_change_seq y \<le> as_change_seq x) (sort_agents as)"
    using desc by (rule sorted_wrt_mono_rel[rotated]) (auto simp: urgency_pair simp flip: not_less)
  moreover have "mset (sort_agents as) = mset as" by (simp add: sort_agents_def)
  ultimately show ?thesis using as(1)
    by (intro exI[of _ as] exI[of _ "sort_agents as"])
      (simp add: as(2) build_agent_list_def Let_def summarise_counts)
qed

subsection \<open>Witnesses\<close>

definition demo_agent :: "32 word \<Rightarrow> agent_status \<Rightarrow> agent_snapshot" where
  "demo_agent p s =
     \<lparr>as_pane = p, as_tab_id = 1, as_space_id = ''w1'', as_space_name = ''main'', as_tab_name = ''t'',
      as_kind = ''claude'', as_name = None, as_display_kind = None, as_status = s, as_title = None,
      as_summary = None, as_cwd = None, as_focused = False, as_change_seq = 7, as_completion_seq = None\<rparr>"

definition demo_watch :: watch where
  "demo_watch = (case start_watch (Some ''tok'') WATCH_LIST_DEBOUNCE (Answers [demo_agent 1 Working]) True 0 of
                   Inr w \<Rightarrow> w | Inl _ \<Rightarrow> undefined)"

lemma demo_start:
  "start_watch (Some ''tok'') WATCH_LIST_DEBOUNCE (Answers [demo_agent 1 Working]) True 0 = Inr demo_watch"
  by (simp add: demo_watch_def start_watch_def query_agents_def read_agents_def Let_def)

lemmas watch_eval = demo_watch_def start_watch_def query_agents_def read_agents_def Let_def
  watch_turn_def loop_turn_def on_bus_def new_watch_state_def WATCH_LIST_DEBOUNCE_def
  WATCH_CHANNEL_BOUND_def reread_wanted_def start_read_def finish_read_def build_agent_list_def
  sort_agents_def hold_def hold_row_def agent_msg_def demo_agent_def reconcile_def

definition demo_inputs :: "watch_input list" where
  "demo_inputs = [Poll, Bus (FeedEvent Resynced), Pass 250, Due, Bus (FeedEvent (PaneGone 1)), Room,
     ReadDone (Answers [demo_agent 1 Done])]"

lemma watch_demo_run: "\<exists>w. watch_run demo_inputs demo_watch = Some w \<and> wt_flow w = Continue \<and> \<not> wt_left w"
  by (simp add: demo_inputs_def watch_eval client_polls_def poll_next_def poll_recv_def)

theorem watch_client_in_step_witness:
  "\<exists>w. watch_run demo_inputs demo_watch = Some w \<and>
     views Map.empty (events_of (wt_got w) @ ws_rx (wt_stream w) @ outbox (wt_state w)) =
     map_of (held (wt_state w))"
proof -
  obtain w where w: "watch_run demo_inputs demo_watch = Some w" using watch_demo_run by blast
  moreover have "list_all reads_once demo_inputs"
    by (simp add: demo_inputs_def reads_once_def lists_once_def)
  ultimately show ?thesis using watch_client_in_step[OF demo_start w] by blast
qed

theorem closed_pane_stays_gone_witness:
  "\<exists>w. watch_run [Room, ReadDone (Answers [demo_agent 1 Done])]
      (the (watch_run [Poll, Bus (FeedEvent Resynced), Pass 250, Due, Bus (FeedEvent (PaneGone 1))] demo_watch)) =
      Some w \<and> map_of (held (wt_state w)) 1 = None"
proof -
  have "\<exists>w. watch_run [Poll, Bus (FeedEvent Resynced), Pass 250, Due] demo_watch = Some w \<and>
      (\<exists>w1. watch_turn (Bus (FeedEvent (PaneGone 1))) w = Some w1 \<and>
        (\<exists>w2. watch_run [Room, ReadDone (Answers [demo_agent 1 Done])] w1 = Some w2))"
    by (simp add: watch_eval client_polls_def poll_next_def poll_recv_def)
  then obtain w w1 w2 where w: "watch_run [Poll, Bus (FeedEvent Resynced), Pass 250, Due] demo_watch = Some w"
    "watch_turn (Bus (FeedEvent (PaneGone 1))) w = Some w1"
    "watch_run [Room, ReadDone (Answers [demo_agent 1 Done])] w1 = Some w2" by blast
  have "watch_run ([Poll, Bus (FeedEvent Resynced), Pass 250, Due] @ [Bus (FeedEvent (PaneGone 1))]) demo_watch = Some w1"
    unfolding watch_run_append[of "[Poll, Bus (FeedEvent Resynced), Pass 250, Due]"] w(1) by (simp add: w(2))
  then show ?thesis using closed_pane_stays_gone[OF demo_start w] w(3) by simp
qed

theorem reading_client_catches_up_witness:
  "\<exists>w js w'. watch_run [Poll, Bus (FeedEvent Resynced)] demo_watch = Some w \<and> watch_run js w = Some w' \<and>
     views Map.empty (events_of (wt_got w')) = map_of (hold (build_agent_list [demo_agent 2 Blocked]))"
proof -
  have "\<exists>w. watch_run [Poll, Bus (FeedEvent Resynced)] demo_watch = Some w \<and>
      wt_flow w = Continue \<and> \<not> wt_left w \<and> reread_wanted (wt_state w)"
    by (simp add: watch_eval client_polls_def poll_next_def poll_recv_def)
  then obtain w where w: "watch_run [Poll, Bus (FeedEvent Resynced)] demo_watch = Some w"
    "wt_flow w = Continue" "\<not> wt_left w" "reread_wanted (wt_state w)" by blast
  from reading_client_catches_up[OF demo_start w(1) _ w(2-4), of "[demo_agent 2 Blocked]"] w(1)
  show ?thesis by (auto simp: reads_once_def)
qed

theorem revoked_token_ends_stream_witness:
  "\<exists>w'. watch_run [Recheck (Verdict False), Poll] demo_watch = Some w' \<and>
     wt_got w' = [Inl Unauthenticated]"
proof -
  have f: "wt_flow demo_watch = Continue" "\<not> wt_left demo_watch" "wt_got demo_watch = []"
    "\<not> token_still_valid (wt_token demo_watch) (\<lambda>_. Verdict False)"
    by (simp_all add: watch_eval token_still_valid_def)
  from revoked_token_ends_stream[OF demo_start _ f(1,2,4), of "[]"] f(3) show ?thesis by auto
qed

theorem rereads_spaced_witness:
  "\<exists>w. watch_run demo_inputs demo_watch = Some w \<and> spaced_by WATCH_LIST_DEBOUNCE (wt_starts w)"
  using watch_demo_run rereads_spaced[OF demo_start] by blast

lemma demo_session: "resolve_session (\<lambda>_. True) [(Zellij, ())] ''zellij:dev'' = Inr ((), ''dev'')"
  by (simp add: resolve_session_def resolve_session_kind_def resolve_owner_def validate_session_def
      validate_session_name_def parse_backend_kind_def backend_get_def session_char_def byte_classes)

theorem inventory_order_witness:
  "\<exists>l as s. list_agents_impl (\<lambda>_. True) [(Zellij, ())]
       (\<lambda>_ _. Answers [demo_agent 1 Idle, demo_agent 2 Blocked]) ''zellij:dev'' = Inr l \<and>
     mset s = mset as \<and> al_agents l = map agent_msg s \<and> sm_total (al_summary l) = agent_sum (al_summary l)"
proof -
  have "\<exists>l. list_agents_impl (\<lambda>_. True) [(Zellij, ())]
      (\<lambda>_ _. Answers [demo_agent 1 Idle, demo_agent 2 Blocked]) ''zellij:dev'' = Inr l"
    by (simp add: list_agents_impl_def demo_session query_agents_def read_agents_def)
  with inventory_order[OF _ demo_session] show ?thesis by blast
qed

end
