(* ===== verification/Json.thy ===== *)
theory Json
  imports Prelude
begin

text \<open>
  JSON values as \<open>serde_json::Value\<close> has them, with the accessors the code uses. An object is
  its entries; \<open>get\<close> reads the entry a key has. Numbers are kept as their text. The parser and
  the printer of \<open>serde_json\<close> are parameters of the definitions that use them.
\<close>

datatype json =
    JNull | JBool bool | JNumber string | JString string
  | JArray "json list" | JObject "(string \<times> json) list"

definition jget :: "string \<Rightarrow> json \<Rightarrow> json option" where
  "jget k v = (case v of JObject kvs \<Rightarrow> map_of kvs k | _ \<Rightarrow> None)"

definition as_str :: "json \<Rightarrow> string option" where
  "as_str v = (case v of JString s \<Rightarrow> Some s | _ \<Rightarrow> None)"

definition jget_str :: "string \<Rightarrow> json \<Rightarrow> string option" where
  "jget_str k v = Option.bind (jget k v) as_str"

lemma jget_simps [simp]:
  "jget k (JObject kvs) = map_of kvs k" "as_str (JString s) = Some s"
  by (simp_all add: jget_def as_str_def)

end
