(* ===== verification/Layout.thy ===== *)
theory Layout
  imports ControlRoute Events
begin

text \<open>
  The neutral layout vocabulary of \<open>muxrd/src/multiplexer/types.rs\<close> that backends answer
  with: the panes and tabs of a session, the agent mark of a pane, spaces, the resume hint of
  an attach, and what a fullscreen toggle reads of a layout.
\<close>

record agent_mark =
  mk_kind :: string
  mk_name :: "string option"
  mk_status :: agent_status

record pane_snapshot =
  ps_id :: "32 word"
  ps_title :: string
  ps_focused :: bool
  ps_floating :: bool
  ps_exited :: bool
  ps_command :: string
  ps_cwd :: string
  ps_x :: "32 word"
  ps_y :: "32 word"
  ps_rows :: "32 word"
  ps_cols :: "32 word"
  ps_plugin :: bool
  ps_fullscreen :: bool
  ps_agent :: "agent_mark option"

record tab_snapshot =
  ts_tab_id :: "64 word"
  ts_position :: "32 word"
  ts_name :: string
  ts_active :: bool
  ts_has_bell :: bool
  ts_panes_to_hide :: "32 word"
  ts_fullscreen_active :: bool
  ts_floating_visible :: bool
  ts_panes :: "pane_snapshot list"

record layout_snapshot =
  ls_tabs :: "tab_snapshot list"

record space_snapshot =
  ss_id :: string
  ss_name :: string
  ss_active :: bool

record resume_target =
  rt_space_id :: "string option"
  rt_tab_id :: "64 word option"
  rt_pane_id :: "32 word option"

definition resume_is_empty :: "resume_target \<Rightarrow> bool" where
  "resume_is_empty r \<longleftrightarrow> rt_space_id r = None \<and> rt_tab_id r = None \<and> rt_pane_id r = None"

record resumed_view =
  rv_space_id :: string
  rv_tab_id :: "64 word"
  rv_pane :: pane_ref

record pane_fullscreen_context =
  fc_exists :: bool
  fc_floating :: bool
  fc_floating_visible :: bool
  fc_focused_floating :: "pane_ref option"
  fc_tab_fullscreen :: bool
  fc_tab_id :: "64 word option"
  fc_tab_active :: bool
  fc_relay_focus_tab_id :: "64 word option"

definition not_found :: pane_fullscreen_context where
  "not_found =
     \<lparr>fc_exists = False, fc_floating = False, fc_floating_visible = False, fc_focused_floating = None,
      fc_tab_fullscreen = False, fc_tab_id = None, fc_tab_active = False, fc_relay_focus_tab_id = None\<rparr>"

definition is_pane :: "pane_ref \<Rightarrow> pane_snapshot \<Rightarrow> bool" where
  "is_pane r p \<longleftrightarrow> ps_id p = pane_id r \<and> ps_plugin p = is_plugin r"

fun context_in :: "tab_snapshot list \<Rightarrow> pane_ref \<Rightarrow> 64 word option \<Rightarrow> pane_fullscreen_context" where
  "context_in [] pane focus_tab = not_found"
| "context_in (tab # tabs) pane focus_tab =
     (case find (is_pane pane) (ts_panes tab) of
        None \<Rightarrow> context_in tabs pane focus_tab
      | Some target \<Rightarrow>
          \<lparr>fc_exists = True, fc_floating = ps_floating target, fc_floating_visible = ts_floating_visible tab,
           fc_focused_floating =
             map_option (\<lambda>p. \<lparr>pane_id = ps_id p, is_plugin = ps_plugin p\<rparr>)
               (find (\<lambda>p. ps_floating p \<and> ps_focused p) (ts_panes tab)),
           fc_tab_fullscreen = ts_fullscreen_active tab, fc_tab_id = Some (ts_tab_id tab),
           fc_tab_active = ts_active tab, fc_relay_focus_tab_id = focus_tab\<rparr>)"

definition from_snapshot :: "layout_snapshot \<Rightarrow> pane_ref \<Rightarrow> pane_ref option \<Rightarrow> pane_fullscreen_context" where
  "from_snapshot snapshot pane relay_focus =
     (let tab_of = (\<lambda>r. find (\<lambda>tab. list_ex (is_pane r) (ts_panes tab)) (ls_tabs snapshot));
          focus_tab = map_option ts_tab_id (Option.bind relay_focus tab_of)
      in context_in (ls_tabs snapshot) pane focus_tab)"

text \<open>The pane is found exactly when some tab of the layout holds it.\<close>

lemma context_in_exists:
  "fc_exists (context_in tabs pane t) \<longleftrightarrow> (\<exists>tab \<in> set tabs. \<exists>p \<in> set (ts_panes tab). is_pane pane p)"
  by (induction tabs) (auto simp: not_found_def find_None_iff dest!: find_Some_D split: option.split)

lemma from_snapshot_exists:
  "fc_exists (from_snapshot l pane f) \<longleftrightarrow>
     (\<exists>tab \<in> set (ls_tabs l). \<exists>p \<in> set (ts_panes tab). is_pane pane p)"
  by (simp add: from_snapshot_def context_in_exists)

text \<open>A mark is presentation only: a layout without its marks.\<close>

definition unmark_pane :: "pane_snapshot \<Rightarrow> pane_snapshot" where
  "unmark_pane p = p\<lparr>ps_agent := None\<rparr>"

definition unmark :: "layout_snapshot \<Rightarrow> layout_snapshot" where
  "unmark l = l\<lparr>ls_tabs := map (\<lambda>t. t\<lparr>ts_panes := map unmark_pane (ts_panes t)\<rparr>) (ls_tabs l)\<rparr>"

end
