(* ===== verification/HerdrApi.thy ===== *)
theory HerdrApi
  imports Json Layout
begin

text \<open>
  The types of herdr's line-delimited JSON API that the daemon uses
  (\<open>muxrd/src/multiplexer/herdr/api.rs\<close>): the parameters of each request as the JSON its
  serializer produces, the envelope of a response, and the records of the typed results.
  The derived deserializer of a result is a parameter of the client; the envelope and the
  status names, which the code relies on, are spelled out. An \<open>f32\<close> is its bits.
\<close>

subsection \<open>Requests\<close>

record api_request =
  rq_id :: string
  rq_method :: string
  rq_params :: json

text \<open>\<open>skip_serializing_if = "Option::is_none"\<close>.\<close>

definition opt_field :: "string \<Rightarrow> string option \<Rightarrow> (string \<times> json) list" where
  "opt_field k v = (case v of Some s \<Rightarrow> [(k, JString s)] | None \<Rightarrow> [])"

definition no_params :: json where
  "no_params = JObject []"

definition workspace_create_params :: "string option \<Rightarrow> bool \<Rightarrow> string option \<Rightarrow> json" where
  "workspace_create_params cwd focus label =
     JObject (opt_field ''cwd'' cwd @ [(''focus'', JBool focus)] @ opt_field ''label'' label)"

definition workspace_rename_params :: "string \<Rightarrow> string \<Rightarrow> json" where
  "workspace_rename_params ws label = JObject [(''workspace_id'', JString ws), (''label'', JString label)]"

definition workspace_close_params :: "string \<Rightarrow> bool \<Rightarrow> json" where
  "workspace_close_params ws close_group =
     JObject [(''workspace_id'', JString ws), (''close_group'', JBool close_group)]"

definition tab_create_params :: "string option \<Rightarrow> string option \<Rightarrow> bool \<Rightarrow> string option \<Rightarrow> json" where
  "tab_create_params ws cwd focus label =
     JObject (opt_field ''workspace_id'' ws @ opt_field ''cwd'' cwd @ [(''focus'', JBool focus)] @
              opt_field ''label'' label)"

definition tab_ref_params :: "string \<Rightarrow> json" where
  "tab_ref_params tab = JObject [(''tab_id'', JString tab)]"

definition tab_rename_params :: "string \<Rightarrow> string \<Rightarrow> json" where
  "tab_rename_params tab label = JObject [(''tab_id'', JString tab), (''label'', JString label)]"

datatype split_direction = SplitRight | SplitDown

definition split_name :: "split_direction \<Rightarrow> string" where
  "split_name d = (case d of SplitRight \<Rightarrow> ''right'' | SplitDown \<Rightarrow> ''down'')"

definition pane_split_params ::
  "string option \<Rightarrow> string option \<Rightarrow> split_direction \<Rightarrow> string option \<Rightarrow> bool \<Rightarrow> json" where
  "pane_split_params ws target dir cwd focus =
     JObject (opt_field ''workspace_id'' ws @ opt_field ''target_pane_id'' target @
              [(''direction'', JString (split_name dir))] @ opt_field ''cwd'' cwd @
              [(''focus'', JBool focus)])"

definition pane_close_params :: "string \<Rightarrow> json" where
  "pane_close_params pane = JObject [(''pane_id'', JString pane)]"

definition pane_rename_params :: "string \<Rightarrow> string option \<Rightarrow> json" where
  "pane_rename_params pane label = JObject ((''pane_id'', JString pane) # opt_field ''label'' label)"

datatype pane_direction = PaneLeft | PaneRight | PaneUp | PaneDown

definition pane_direction_name :: "pane_direction \<Rightarrow> string" where
  "pane_direction_name d =
     (case d of PaneLeft \<Rightarrow> ''left'' | PaneRight \<Rightarrow> ''right'' | PaneUp \<Rightarrow> ''up'' | PaneDown \<Rightarrow> ''down'')"

definition pane_focus_direction_params :: "string option \<Rightarrow> pane_direction \<Rightarrow> json" where
  "pane_focus_direction_params pane dir =
     JObject (opt_field ''pane_id'' pane @ [(''direction'', JString (pane_direction_name dir))])"

datatype pane_zoom_mode = ZoomToggle | ZoomOn | ZoomOff

definition zoom_name :: "pane_zoom_mode \<Rightarrow> string" where
  "zoom_name m = (case m of ZoomToggle \<Rightarrow> ''toggle'' | ZoomOn \<Rightarrow> ''on'' | ZoomOff \<Rightarrow> ''off'')"

definition pane_zoom_params :: "string option \<Rightarrow> pane_zoom_mode \<Rightarrow> json" where
  "pane_zoom_params pane mode = JObject (opt_field ''pane_id'' pane @ [(''mode'', JString (zoom_name mode))])"

definition pane_layout_params :: "string option \<Rightarrow> json" where
  "pane_layout_params pane = JObject (opt_field ''pane_id'' pane)"

definition layout_export_params :: "string option \<Rightarrow> string option \<Rightarrow> json" where
  "layout_export_params tab pane = JObject (opt_field ''tab_id'' tab @ opt_field ''pane_id'' pane)"

subsection \<open>Responses\<close>

record api_error_body =
  ae_code :: string
  ae_message :: string

datatype api_response_body = BodyOk json | BodyErr api_error_body

text \<open>
  \<open>ApiRawResponse\<close>: the id, and the first of the two untagged bodies that fits.
\<close>

definition error_body :: "json \<Rightarrow> api_error_body option" where
  "error_body v = (case (jget_str ''code'' v, jget_str ''message'' v) of
     (Some c, Some m) \<Rightarrow> Some \<lparr>ae_code = c, ae_message = m\<rparr> | _ \<Rightarrow> None)"

definition raw_response :: "json \<Rightarrow> api_response_body option" where
  "raw_response v =
     (case jget_str ''id'' v of
        None \<Rightarrow> None
      | Some _ \<Rightarrow>
          (case jget ''result'' v of
             Some r \<Rightarrow> Some (BodyOk r)
           | None \<Rightarrow>
               (case jget ''error'' v of
                  Some e \<Rightarrow> map_option BodyErr (error_body e)
                | None \<Rightarrow> None)))"

datatype herdr_status = HIdle | HWorking | HBlocked | HDone | HUnknown

definition herdr_status_of_name :: "string \<Rightarrow> herdr_status option" where
  "herdr_status_of_name s =
     (if s = ''idle'' then Some HIdle else if s = ''working'' then Some HWorking
      else if s = ''blocked'' then Some HBlocked else if s = ''done'' then Some HDone
      else if s = ''unknown'' then Some HUnknown else None)"

text \<open>A unit variant is its name, or a map from its name to \<open>null\<close>.\<close>

definition herdr_status_of_json :: "json \<Rightarrow> herdr_status option" where
  "herdr_status_of_json v =
     (case v of JString s \<Rightarrow> herdr_status_of_name s
      | JObject [(s, JNull)] \<Rightarrow> herdr_status_of_name s
      | _ \<Rightarrow> None)"

definition neutral_status :: "herdr_status \<Rightarrow> agent_status" where
  "neutral_status s =
     (case s of HIdle \<Rightarrow> Idle | HWorking \<Rightarrow> Working | HBlocked \<Rightarrow> Blocked | HDone \<Rightarrow> Done
      | HUnknown \<Rightarrow> Unknown)"

record herdr_server_info =
  hs_version :: string
  hs_protocol :: "32 word"

record workspace_worktree_info =
  wt_repo_key :: string
  wt_repo_name :: string
  wt_repo_root :: string
  wt_checkout_path :: string
  wt_is_linked :: bool

record workspace_info =
  wi_id :: string
  wi_number :: "64 word"
  wi_label :: string
  wi_focused :: bool
  wi_pane_count :: "64 word"
  wi_tab_count :: "64 word"
  wi_active_tab_id :: string
  wi_agent_status :: herdr_status
  wi_worktree :: "workspace_worktree_info option"

record tab_info =
  ti_id :: string
  ti_workspace_id :: string
  ti_number :: "64 word"
  ti_label :: string
  ti_focused :: bool
  ti_pane_count :: "64 word"
  ti_agent_status :: herdr_status

datatype agent_session_ref_kind = RefId | RefPath

record agent_session_info =
  si_source :: string
  si_agent :: string
  si_kind :: agent_session_ref_kind
  si_value :: string

record pane_info =
  pi_id :: string
  pi_terminal_id :: string
  pi_workspace_id :: string
  pi_tab_id :: string
  pi_focused :: bool
  pi_cwd :: "string option"
  pi_foreground_cwd :: "string option"
  pi_label :: "string option"
  pi_agent :: "string option"
  pi_title :: "string option"
  pi_display_agent :: "string option"
  pi_agent_status :: herdr_status
  pi_custom_status :: "string option"
  pi_state_labels :: "string \<rightharpoonup> string"
  pi_agent_session :: "agent_session_info option"
  pi_revision :: "64 word"

record agent_info =
  ai_terminal_id :: string
  ai_name :: "string option"
  ai_agent :: "string option"
  ai_title :: "string option"
  ai_terminal_title :: "string option"
  ai_terminal_title_stripped :: "string option"
  ai_display_agent :: "string option"
  ai_agent_status :: herdr_status
  ai_screen_detection_skipped :: bool
  ai_state_labels :: "string \<rightharpoonup> string"
  ai_tokens :: "string \<rightharpoonup> string"
  ai_agent_session :: "agent_session_info option"
  ai_workspace_id :: string
  ai_tab_id :: string
  ai_pane_id :: string
  ai_focused :: bool
  ai_launch_pending :: bool
  ai_interactive_ready :: bool
  ai_state_change_seq :: "64 word"
  ai_completion_seq :: "64 word option"
  ai_cwd :: "string option"
  ai_foreground_cwd :: "string option"
  ai_revision :: "64 word"

record pane_layout_rect =
  pr_x :: "16 word"
  pr_y :: "16 word"
  pr_width :: "16 word"
  pr_height :: "16 word"

record pane_layout_pane =
  pl_pane_id :: string
  pl_focused :: bool
  pl_rect :: pane_layout_rect

record pane_layout_split =
  sp_id :: string
  sp_direction :: split_direction
  sp_ratio :: "32 word"
  sp_rect :: pane_layout_rect

record pane_layout_snapshot =
  pls_workspace_id :: string
  pls_tab_id :: string
  pls_zoomed :: bool
  pls_area :: pane_layout_rect
  pls_focused_pane_id :: string
  pls_panes :: "pane_layout_pane list"
  pls_splits :: "pane_layout_split list"

record session_snapshot_record =
  sn_version :: string
  sn_protocol :: "32 word"
  sn_workspaces :: "workspace_info list"
  sn_tabs :: "tab_info list"
  sn_panes :: "pane_info list"
  sn_layouts :: "pane_layout_snapshot list"
  sn_agents :: "agent_info list"

text \<open>
  The agents of a snapshot are read leniently: not an array is no agents, and a record that
  does not parse (with the derived reader \<open>read\<close>) is skipped.
\<close>

definition deserialize_agents :: "(json \<Rightarrow> agent_info option) \<Rightarrow> json \<Rightarrow> agent_info list" where
  "deserialize_agents read v = (case v of JArray records \<Rightarrow> List.map_filter read records | _ \<Rightarrow> [])"

record layout_pane =
  lp_pane_id :: "string option"
  lp_label :: "string option"
  lp_cwd :: "string option"
  lp_command :: "string list option"
  lp_env :: "string \<rightharpoonup> string"

datatype layout_node =
    LayoutLeaf layout_pane
  | LayoutSplit split_direction "32 word" layout_node layout_node

record layout_description =
  ld_workspace_id :: string
  ld_tab_id :: string
  ld_zoomed :: bool
  ld_focused_pane_id :: string
  ld_root :: layout_node

text \<open>The results the client reads; every other one is \<open>OtherResult\<close>.\<close>

datatype api_result =
    Pong string "32 word"
  | SessionSnapshotResult session_snapshot_record
  | WorkspaceList "workspace_info list"
  | TabList "tab_info list"
  | PaneList "pane_info list"
  | PaneLayoutResult pane_layout_snapshot
  | LayoutExport layout_description
  | OtherResult

end
