(* ===== verification/HerdrControl.thy ===== *)
theory HerdrControl
  imports HerdrApi Registry
begin

text \<open>
  herdr's control plane, \<open>muxrd/src/multiplexer/herdr/control.rs\<close>: one connection per request,
  the typed queries, the actions, and the two ways a layout is read (one \<open>session.snapshot\<close>,
  or the fan-out over tabs). herdr is a process of its own: a state \<open>'d\<close> and an answer to each
  request; the JSON parser and the derived result reader are parameters. The client is the
  request counter, the two id registries it shares with the backend, and two logging latches.
\<close>

datatype herdr_error =
    Transport | Undecodable | ApiError string string string | UnexpectedResult string
  | UnknownSpace string | UnknownSession string | NoSuchLabel string | AmbiguousLabel string
  | NoWorkspaces | InvalidSpaceId

text \<open>
  How a round trip ends at the socket; \<open>ReplyLine\<close> is what \<open>read_line\<close> got from at most
  \<open>MAX_RESPONSE_BYTES\<close> bytes, empty at the end of the stream.
\<close>

datatype wire_reply =
  ConnectFailed | TimeoutUnset | RequestUnwritten | ReadFailed | ReplyLine string

record 'd herdr =
  hd_send :: "'d \<Rightarrow> api_request \<Rightarrow> 'd \<times> wire_reply"
  hd_parse :: "string \<Rightarrow> json option"
  hd_decode :: "json \<Rightarrow> api_result option"

record client =
  cl_next_req :: "64 word"
  cl_panes :: pane_inner
  cl_tabs :: tab_inner
  cl_snapshot_degraded :: bool
  cl_agents_unavailable :: bool

type_synonym ('a, 'd) ctl = "(herdr_error + 'a) \<times> 'd \<times> client"

definition new_client :: "pane_inner \<Rightarrow> tab_inner \<Rightarrow> client" where
  "new_client panes tabs =
     \<lparr>cl_next_req = 1, cl_panes = panes, cl_tabs = tabs, cl_snapshot_degraded = False,
      cl_agents_unavailable = False\<rparr>"

text \<open>The \<open>?\<close> operator: an error ends the computation with the state it left.\<close>

definition and_then :: "('a, 'd) ctl \<Rightarrow> ('a \<Rightarrow> 'd \<times> client \<Rightarrow> ('b, 'd) ctl) \<Rightarrow> ('b, 'd) ctl" where
  "and_then r f = (case r of (Inl e, s) \<Rightarrow> (Inl e, s) | (Inr a, s) \<Rightarrow> f a s)"

lemma and_then_simps [simp]:
  "and_then (Inl e, s) f = (Inl e, s)" "and_then (Inr a, s) f = f a s"
  by (simp_all add: and_then_def)

subsection \<open>One request\<close>

definition MAX_RESPONSE_BYTES :: nat where "MAX_RESPONSE_BYTES = 8 * 1024 * 1024"

definition next_id :: "client \<Rightarrow> string \<times> client" where
  "next_id c = (''muxrd-'' @ dec (unat (cl_next_req c)), c\<lparr>cl_next_req := cl_next_req c + 1\<rparr>)"

definition read_reply :: "'d herdr \<Rightarrow> wire_reply \<Rightarrow> herdr_error + api_response_body" where
  "read_reply h r =
     (case r of
        ReplyLine resp \<Rightarrow>
          if resp = [] then Inl Transport
          else if MAX_RESPONSE_BYTES \<le> length resp \<and> last resp \<noteq> CHR 0x0A then Inl Transport
          else (case Option.bind (hd_parse h (trim_end resp)) raw_response of
                  Some b \<Rightarrow> Inr b
                | None \<Rightarrow> Inl Undecodable)
      | _ \<Rightarrow> Inl Transport)"

definition call_raw :: "'d herdr \<Rightarrow> string \<Rightarrow> json \<Rightarrow> 'd \<times> client \<Rightarrow> (api_response_body, 'd) ctl" where
  "call_raw h meth params s =
     (let (i, c) = next_id (snd s);
          (d, r) = hd_send h (fst s) \<lparr>rq_id = i, rq_method = meth, rq_params = params\<rparr>
      in (read_reply h r, d, c))"

definition call_typed :: "'d herdr \<Rightarrow> string \<Rightarrow> json \<Rightarrow> 'd \<times> client \<Rightarrow> (api_result, 'd) ctl" where
  "call_typed h meth params s =
     and_then (call_raw h meth params s) (\<lambda>b s'.
       (case b of
          BodyOk r \<Rightarrow> (case hd_decode h r of Some a \<Rightarrow> Inr a | None \<Rightarrow> Inl Undecodable)
        | BodyErr e \<Rightarrow> Inl (ApiError meth (ae_code e) (ae_message e)), s'))"

definition is_unknown_method :: "herdr_error \<Rightarrow> bool" where
  "is_unknown_method e =
     (case e of ApiError _ code _ \<Rightarrow> code = ''invalid_request'' \<or> code = ''unknown_method'' | _ \<Rightarrow> False)"

definition ack_done :: action_ack where
  "ack_done = \<lparr>a_ok = True, a_error = None, a_info = None\<rparr>"

definition ack_err :: "string \<Rightarrow> action_ack" where
  "ack_err m = \<lparr>a_ok = False, a_error = Some m, a_info = None\<rparr>"

definition unknown_pane :: "32 word \<Rightarrow> action_ack" where
  "unknown_pane i = ack_err (''unknown herdr pane id '' @ dec (unat i))"

definition unknown_tab :: "64 word \<Rightarrow> action_ack" where
  "unknown_tab i = ack_err (''unknown herdr tab id '' @ dec (unat i))"

text \<open>
  The rewording of the two refusals of a close that would take a worktree group with it. The
  dash of the messages is three UTF-8 bytes.
\<close>

definition dash :: string where "dash = [CHR 0xE2, CHR 0x80, CHR 0x94]"

definition worktree_group_refusal :: "string \<Rightarrow> api_error_body \<Rightarrow> action_ack option" where
  "worktree_group_refusal meth e =
     (if meth = ''workspace.close'' \<and> ae_code e = ''workspace_group_close_required''
      then Some (ack_err (''this space is a worktree-group primary with linked worktree spaces '' @ dash @
        '' closing it alone is not possible; re-issue CloseSpace with group intent '' @
        ''(close_group=true) to close the whole group ('' @ ae_message e @ '')''))
      else if (meth = ''tab.close'' \<or> meth = ''pane.close'') \<and> ae_code e = ''confirmation_required''
      then Some (ack_err (''this would close the last of its space, and that space is a '' @
        ''worktree-group primary '' @ dash @ '' close the space with group intent '' @
        ''(CloseSpace with close_group=true) to remove the group ('' @ ae_message e @ '')''))
      else None)"

definition call_action :: "'d herdr \<Rightarrow> string \<Rightarrow> json \<Rightarrow> 'd \<times> client \<Rightarrow> (action_ack, 'd) ctl" where
  "call_action h meth params s =
     and_then (call_raw h meth params s) (\<lambda>b s'.
       (Inr (case b of
          BodyOk _ \<Rightarrow> ack_done
        | BodyErr e \<Rightarrow> (case worktree_group_refusal meth e of
            Some a \<Rightarrow> a
          | None \<Rightarrow> ack_err (ae_code e @ '': '' @ ae_message e))), s'))"

subsection \<open>Typed queries\<close>

text \<open>\<open>pick\<close> selects the payload of the expected variant; any other one is an error.\<close>

definition expect :: "string \<Rightarrow> (api_result \<Rightarrow> 'a option) \<Rightarrow> (api_result, 'd) ctl \<Rightarrow> ('a, 'd) ctl" where
  "expect meth pick r =
     and_then r (\<lambda>a s. (case pick a of Some x \<Rightarrow> Inr x | None \<Rightarrow> Inl (UnexpectedResult meth), s))"

definition ping :: "'d herdr \<Rightarrow> 'd \<times> client \<Rightarrow> (herdr_server_info, 'd) ctl" where
  "ping h s = expect ''ping''
     (\<lambda>r. case r of Pong v p \<Rightarrow> Some \<lparr>hs_version = v, hs_protocol = p\<rparr> | _ \<Rightarrow> None)
     (call_typed h ''ping'' no_params s)"

definition list_workspaces :: "'d herdr \<Rightarrow> 'd \<times> client \<Rightarrow> (workspace_info list, 'd) ctl" where
  "list_workspaces h s = expect ''workspace.list'' (\<lambda>r. case r of WorkspaceList ws \<Rightarrow> Some ws | _ \<Rightarrow> None)
     (call_typed h ''workspace.list'' no_params s)"

definition workspace_scoped_params :: "string option \<Rightarrow> json" where
  "workspace_scoped_params ws = JObject (opt_field ''workspace_id'' ws)"

definition list_tabs :: "'d herdr \<Rightarrow> string \<Rightarrow> 'd \<times> client \<Rightarrow> (tab_info list, 'd) ctl" where
  "list_tabs h ws s = expect ''tab.list'' (\<lambda>r. case r of TabList ts \<Rightarrow> Some ts | _ \<Rightarrow> None)
     (call_typed h ''tab.list'' (workspace_scoped_params (Some ws)) s)"

definition list_panes :: "'d herdr \<Rightarrow> string \<Rightarrow> 'd \<times> client \<Rightarrow> (pane_info list, 'd) ctl" where
  "list_panes h ws s = expect ''pane.list'' (\<lambda>r. case r of PaneList ps \<Rightarrow> Some ps | _ \<Rightarrow> None)
     (call_typed h ''pane.list'' (workspace_scoped_params (Some ws)) s)"

definition pane_layout :: "'d herdr \<Rightarrow> string option \<Rightarrow> 'd \<times> client \<Rightarrow> (pane_layout_snapshot, 'd) ctl" where
  "pane_layout h pane s = expect ''pane.layout'' (\<lambda>r. case r of PaneLayoutResult l \<Rightarrow> Some l | _ \<Rightarrow> None)
     (call_typed h ''pane.layout'' (pane_layout_params pane) s)"

definition layout_export ::
  "'d herdr \<Rightarrow> string option \<Rightarrow> string option \<Rightarrow> 'd \<times> client \<Rightarrow> (layout_description, 'd) ctl" where
  "layout_export h tab pane s = expect ''layout.export'' (\<lambda>r. case r of LayoutExport l \<Rightarrow> Some l | _ \<Rightarrow> None)
     (call_typed h ''layout.export'' (layout_export_params tab pane) s)"

definition session_snapshot :: "'d herdr \<Rightarrow> 'd \<times> client \<Rightarrow> (session_snapshot_record, 'd) ctl" where
  "session_snapshot h s =
     expect ''session.snapshot'' (\<lambda>r. case r of SessionSnapshotResult sn \<Rightarrow> Some sn | _ \<Rightarrow> None)
     (call_typed h ''session.snapshot'' no_params s)"

subsection \<open>Actions\<close>

definition create_workspace :: "'d herdr \<Rightarrow> string option \<Rightarrow> 'd \<times> client \<Rightarrow> (action_ack, 'd) ctl" where
  "create_workspace h label s =
     call_action h ''workspace.create'' (workspace_create_params None True label) s"

definition rename_workspace :: "'d herdr \<Rightarrow> string \<Rightarrow> string \<Rightarrow> 'd \<times> client \<Rightarrow> (action_ack, 'd) ctl" where
  "rename_workspace h ws label s = call_action h ''workspace.rename'' (workspace_rename_params ws label) s"

definition close_workspace :: "'d herdr \<Rightarrow> string \<Rightarrow> bool \<Rightarrow> 'd \<times> client \<Rightarrow> (action_ack, 'd) ctl" where
  "close_workspace h ws close_group s = call_action h ''workspace.close'' (workspace_close_params ws close_group) s"

definition create_tab :: "'d herdr \<Rightarrow> string option \<Rightarrow> string option \<Rightarrow> 'd \<times> client \<Rightarrow> (action_ack, 'd) ctl" where
  "create_tab h ws label s = call_action h ''tab.create'' (tab_create_params ws None True label) s"

text \<open>An action on a tab or pane the registry does not know is refused without a request.\<close>

definition on_tab ::
  "64 word \<Rightarrow> (string \<Rightarrow> 'd \<times> client \<Rightarrow> (action_ack, 'd) ctl) \<Rightarrow> 'd \<times> client \<Rightarrow> (action_ack, 'd) ctl" where
  "on_tab i act s = (case herdr_tab_id (cl_tabs (snd s)) i of
     None \<Rightarrow> (Inr (unknown_tab i), s) | Some t \<Rightarrow> act t s)"

definition on_pane ::
  "32 word \<Rightarrow> (string \<Rightarrow> 'd \<times> client \<Rightarrow> (action_ack, 'd) ctl) \<Rightarrow> 'd \<times> client \<Rightarrow> (action_ack, 'd) ctl" where
  "on_pane i act s = (case herdr_pane_id_of (cl_panes (snd s)) i of
     None \<Rightarrow> (Inr (unknown_pane i), s) | Some p \<Rightarrow> act p s)"

definition resolve_opt_pane :: "client \<Rightarrow> 32 word option \<Rightarrow> action_ack + string option" where
  "resolve_opt_pane c pane =
     (case pane of
        None \<Rightarrow> Inr None
      | Some i \<Rightarrow> (case herdr_pane_id_of (cl_panes c) i of Some p \<Rightarrow> Inr (Some p) | None \<Rightarrow> Inl (unknown_pane i)))"

definition focus_tab :: "'d herdr \<Rightarrow> 64 word \<Rightarrow> 'd \<times> client \<Rightarrow> (action_ack, 'd) ctl" where
  "focus_tab h i = on_tab i (\<lambda>t. call_action h ''tab.focus'' (tab_ref_params t))"

definition close_tab :: "'d herdr \<Rightarrow> 64 word \<Rightarrow> 'd \<times> client \<Rightarrow> (action_ack, 'd) ctl" where
  "close_tab h i = on_tab i (\<lambda>t. call_action h ''tab.close'' (tab_ref_params t))"

definition rename_tab :: "'d herdr \<Rightarrow> 64 word \<Rightarrow> string \<Rightarrow> 'd \<times> client \<Rightarrow> (action_ack, 'd) ctl" where
  "rename_tab h i label = on_tab i (\<lambda>t. call_action h ''tab.rename'' (tab_rename_params t label))"

definition split_pane ::
  "'d herdr \<Rightarrow> string option \<Rightarrow> 32 word option \<Rightarrow> split_direction \<Rightarrow> bool \<Rightarrow> 'd \<times> client \<Rightarrow> (action_ack, 'd) ctl" where
  "split_pane h ws target dir focus s =
     (case resolve_opt_pane (snd s) target of
        Inl ack \<Rightarrow> (Inr ack, s)
      | Inr p \<Rightarrow> call_action h ''pane.split'' (pane_split_params ws p dir None focus) s)"

definition close_pane :: "'d herdr \<Rightarrow> 32 word \<Rightarrow> 'd \<times> client \<Rightarrow> (action_ack, 'd) ctl" where
  "close_pane h i = on_pane i (\<lambda>p. call_action h ''pane.close'' (pane_close_params p))"

definition rename_pane :: "'d herdr \<Rightarrow> 32 word \<Rightarrow> string option \<Rightarrow> 'd \<times> client \<Rightarrow> (action_ack, 'd) ctl" where
  "rename_pane h i label = on_pane i (\<lambda>p. call_action h ''pane.rename'' (pane_rename_params p label))"

definition focus_pane_direction ::
  "'d herdr \<Rightarrow> 32 word option \<Rightarrow> pane_direction \<Rightarrow> 'd \<times> client \<Rightarrow> (action_ack, 'd) ctl" where
  "focus_pane_direction h pane dir s =
     (case resolve_opt_pane (snd s) pane of
        Inl ack \<Rightarrow> (Inr ack, s)
      | Inr p \<Rightarrow> call_action h ''pane.focus_direction'' (pane_focus_direction_params p dir) s)"

definition zoom_pane :: "'d herdr \<Rightarrow> 32 word option \<Rightarrow> pane_zoom_mode \<Rightarrow> 'd \<times> client \<Rightarrow> (action_ack, 'd) ctl" where
  "zoom_pane h pane mode s =
     (case resolve_opt_pane (snd s) pane of
        Inl ack \<Rightarrow> (Inr ack, s)
      | Inr p \<Rightarrow> call_action h ''pane.zoom'' (pane_zoom_params p mode) s)"

subsection \<open>Layouts\<close>

definition non_empty :: "string option \<Rightarrow> string option" where
  "non_empty v = (case v of Some (c # s) \<Rightarrow> Some (c # s) | _ \<Rightarrow> None)"

definition or_else :: "'a option \<Rightarrow> 'a option \<Rightarrow> 'a option" where
  "or_else a b = (case a of Some x \<Rightarrow> Some x | None \<Rightarrow> b)"

definition or_empty :: "string option \<Rightarrow> string" where
  "or_empty v = (case v of Some s \<Rightarrow> s | None \<Rightarrow> [])"

definition agent_kind :: "string option \<Rightarrow> string option \<Rightarrow> string" where
  "agent_kind agent display_agent =
     (case or_else (non_empty agent) (non_empty display_agent) of Some k \<Rightarrow> k | None \<Rightarrow> ''agent'')"

datatype agent_marks = Omit | FromPanes "string \<rightharpoonup> string"

definition pane_agent_mark :: "pane_info \<Rightarrow> agent_marks \<Rightarrow> agent_mark option" where
  "pane_agent_mark meta marks =
     (case marks of
        Omit \<Rightarrow> None
      | FromPanes names \<Rightarrow>
          map_option (\<lambda>agent. \<lparr>mk_kind = agent_kind (Some agent) (pi_display_agent meta),
                               mk_name = names (pi_id meta),
                               mk_status = neutral_status (pi_agent_status meta)\<rparr>)
            (non_empty (pi_agent meta)))"

type_synonym registries = "pane_inner \<times> tab_inner"

definition register_panes :: "pane_inner \<Rightarrow> pane_info list \<Rightarrow> pane_inner" where
  "register_panes reg panes = foldl (\<lambda>r p. fst (assign_or_get r (pi_id p) (pi_terminal_id p))) reg panes"

text \<open>Collecting into a map: the last entry of a key stays.\<close>

definition by_key :: "('a \<Rightarrow> 'k) \<Rightarrow> 'a list \<Rightarrow> 'k \<rightharpoonup> 'a" where
  "by_key key xs = map_of (rev (map (\<lambda>x. (key x, x)) xs))"

definition transcode_pane ::
  "(string \<rightharpoonup> pane_info) \<Rightarrow> agent_marks \<Rightarrow> bool \<Rightarrow> 32 word \<Rightarrow> pane_layout_pane \<Rightarrow> pane_snapshot" where
  "transcode_pane infos marks zoomed i lp =
     (let meta = infos (pl_pane_id lp) in
      \<lparr>ps_id = i,
       ps_title = or_empty (Option.bind meta (\<lambda>n. or_else (pi_title n) (pi_label n))),
       ps_focused = pl_focused lp, ps_floating = False, ps_exited = False, ps_command = [],
       ps_cwd = or_empty (Option.bind meta pi_cwd),
       ps_x = ucast (pr_x (pl_rect lp)), ps_y = ucast (pr_y (pl_rect lp)),
       ps_rows = ucast (pr_height (pl_rect lp)), ps_cols = ucast (pr_width (pl_rect lp)),
       ps_plugin = False, ps_fullscreen = zoomed,
       ps_agent = Option.bind meta (\<lambda>n. pane_agent_mark n marks)\<rparr>)"

fun transcode_panes ::
  "(string \<rightharpoonup> pane_info) \<Rightarrow> agent_marks \<Rightarrow> bool \<Rightarrow> pane_inner \<Rightarrow> pane_layout_pane list \<Rightarrow>
   pane_inner \<times> pane_snapshot list" where
  "transcode_panes infos marks zoomed reg [] = (reg, [])"
| "transcode_panes infos marks zoomed reg (lp # lps) =
     (let terminal = (case infos (pl_pane_id lp) of Some n \<Rightarrow> pi_terminal_id n | None \<Rightarrow> []);
          (reg1, i) = assign_or_get reg (pl_pane_id lp) terminal;
          (reg2, ps) = transcode_panes infos marks zoomed reg1 lps
      in (reg2, transcode_pane infos marks zoomed i lp # ps))"

fun transcode_tabs ::
  "(string \<rightharpoonup> pane_info) \<Rightarrow> (string \<rightharpoonup> pane_layout_snapshot) \<Rightarrow> string \<Rightarrow> agent_marks \<Rightarrow> registries \<Rightarrow>
   tab_info list \<Rightarrow> registries \<times> tab_snapshot list" where
  "transcode_tabs infos layouts active marks regs [] = (regs, [])"
| "transcode_tabs infos layouts active marks (preg, treg) (t # ts) =
     (let (treg1, i) = tab_assign_or_get treg (ti_id t);
          layout = layouts (ti_id t);
          zoomed = (case layout of Some l \<Rightarrow> pls_zoomed l | None \<Rightarrow> False);
          (preg1, panes) = (case layout of
             Some l \<Rightarrow> transcode_panes infos marks zoomed preg (pls_panes l) | None \<Rightarrow> (preg, []));
          (regs, tabs) = transcode_tabs infos layouts active marks (preg1, treg1) ts
      in (regs,
          \<lparr>ts_tab_id = i, ts_position = ucast (ti_number t), ts_name = ti_label t,
           ts_active = (ti_id t = active), ts_has_bell = False, ts_panes_to_hide = 0,
           ts_fullscreen_active = zoomed, ts_floating_visible = False, ts_panes = panes\<rparr> # tabs))"

definition transcode_layout ::
  "tab_info list \<Rightarrow> pane_info list \<Rightarrow> (string \<rightharpoonup> pane_layout_snapshot) \<Rightarrow> string \<Rightarrow> registries \<Rightarrow> agent_marks \<Rightarrow>
   registries \<times> layout_snapshot" where
  "transcode_layout tabs panes layouts active regs marks =
     (let (regs', ts) = transcode_tabs (by_key pi_id panes) layouts active marks
                          (register_panes (fst regs) panes, snd regs) tabs
      in (regs', \<lparr>ls_tabs = ts\<rparr>))"

text \<open>\<open>entry(k).or_insert(v)\<close> over a list: the first entry of a key stays.\<close>

definition layout_from_snapshot ::
  "session_snapshot_record \<Rightarrow> string \<Rightarrow> registries \<Rightarrow> (registries \<times> layout_snapshot) option" where
  "layout_from_snapshot sn ws regs =
     (case find (\<lambda>w. wi_id w = ws) (sn_workspaces sn) of
        None \<Rightarrow> None
      | Some w \<Rightarrow>
          (let tabs = filter (\<lambda>t. ti_workspace_id t = ws) (sn_tabs sn);
               panes = filter (\<lambda>p. pi_workspace_id p = ws) (sn_panes sn);
               kept = filter (\<lambda>l. pls_workspace_id l = ws \<and> pls_tab_id l \<in> pi_tab_id ` set panes) (sn_layouts sn);
               layouts = map_of (map (\<lambda>l. (pls_tab_id l, l)) kept);
               names = map_of (List.map_filter
                 (\<lambda>a. map_option (\<lambda>n. (ai_pane_id a, n)) (non_empty (ai_name a))) (sn_agents sn))
           in Some (transcode_layout tabs panes layouts (wi_active_tab_id w) regs (FromPanes names))))"

text \<open>The geometry of each tab that has a pane, addressed by its first pane.\<close>

fun fetch_layouts ::
  "'d herdr \<Rightarrow> pane_info list \<Rightarrow> tab_info list \<Rightarrow> (string \<rightharpoonup> pane_layout_snapshot) \<Rightarrow> 'd \<times> client \<Rightarrow>
   (string \<rightharpoonup> pane_layout_snapshot, 'd) ctl" where
  "fetch_layouts h panes [] acc s = (Inr acc, s)"
| "fetch_layouts h panes (t # ts) acc s =
     (if acc (ti_id t) \<noteq> None then fetch_layouts h panes ts acc s
      else (case find (\<lambda>p. pi_tab_id p = ti_id t) panes of
              None \<Rightarrow> fetch_layouts h panes ts acc s
            | Some p \<Rightarrow> and_then (pane_layout h (Some (pi_id p)) s) (\<lambda>l s'.
                fetch_layouts h panes ts (acc(pls_tab_id l \<mapsto> l)) s')))"

definition set_registries :: "registries \<Rightarrow> client \<Rightarrow> client" where
  "set_registries regs c = c\<lparr>cl_panes := fst regs, cl_tabs := snd regs\<rparr>"

definition query_layout_fanout :: "'d herdr \<Rightarrow> string \<Rightarrow> 'd \<times> client \<Rightarrow> (layout_snapshot, 'd) ctl" where
  "query_layout_fanout h ws s =
     and_then (list_workspaces h s) (\<lambda>workspaces s1.
       case find (\<lambda>w. wi_id w = ws) workspaces of
         None \<Rightarrow> (Inl (UnknownSpace ws), s1)
       | Some w \<Rightarrow>
           and_then (list_tabs h ws s1) (\<lambda>tabs s2.
           and_then (list_panes h ws s2) (\<lambda>panes s3.
           and_then (fetch_layouts h panes tabs Map.empty s3) (\<lambda>layouts s4.
             let (regs, l) = transcode_layout tabs panes layouts (wi_active_tab_id w)
                               (cl_panes (snd s4), cl_tabs (snd s4)) Omit
             in (Inr l, fst s4, set_registries regs (snd s4))))))"

definition note_snapshot :: "bool \<Rightarrow> client \<Rightarrow> client" where
  "note_snapshot degraded c = c\<lparr>cl_snapshot_degraded := degraded\<rparr>"

definition query_layout :: "'d herdr \<Rightarrow> string \<Rightarrow> 'd \<times> client \<Rightarrow> (layout_snapshot, 'd) ctl" where
  "query_layout h ws s =
     (case session_snapshot h s of
        (Inr sn, d, c) \<Rightarrow>
          (case layout_from_snapshot sn ws (cl_panes c, cl_tabs c) of
             Some (regs, l) \<Rightarrow> (Inr l, d, set_registries regs (note_snapshot False c))
           | None \<Rightarrow> query_layout_fanout h ws (d, note_snapshot False c))
      | (Inl e, d, c) \<Rightarrow> query_layout_fanout h ws (d, note_snapshot True c))"

subsection \<open>The agent inventory\<close>

definition agent_snapshot_of ::
  "(string \<rightharpoonup> workspace_info) \<Rightarrow> (string \<rightharpoonup> tab_info) \<Rightarrow> (string \<rightharpoonup> pane_info) \<Rightarrow> registries \<Rightarrow> agent_info \<Rightarrow>
   registries \<times> agent_snapshot" where
  "agent_snapshot_of workspaces tabs panes regs a =
     (let terminal = or_empty (or_else (non_empty (Some (ai_terminal_id a)))
                       (map_option pi_terminal_id (panes (ai_pane_id a))));
          (preg, pane) = assign_or_get_keep_terminal (fst regs) (ai_pane_id a) terminal;
          (treg, tab) = (if ai_tab_id a = [] then (snd regs, 0) else tab_assign_or_get (snd regs) (ai_tab_id a));
          space_name = (case Option.bind (workspaces (ai_workspace_id a)) (\<lambda>w. non_empty (Some (wi_label w))) of
                          Some l \<Rightarrow> l | None \<Rightarrow> ai_workspace_id a);
          tab_name = (case tabs (ai_tab_id a) of
                        Some t \<Rightarrow> (case non_empty (Some (ti_label t)) of
                                     Some l \<Rightarrow> l | None \<Rightarrow> dec (unat (ti_number t)))
                      | None \<Rightarrow> [])
      in ((preg, treg),
          \<lparr>as_pane = pane, as_tab_id = tab, as_space_id = ai_workspace_id a, as_space_name = space_name,
           as_tab_name = tab_name, as_kind = agent_kind (ai_agent a) (ai_display_agent a),
           as_name = non_empty (ai_name a), as_display_kind = non_empty (ai_display_agent a),
           as_status = neutral_status (ai_agent_status a),
           as_title = or_else (non_empty (ai_title a)) (non_empty (ai_terminal_title_stripped a)),
           as_summary = non_empty (ai_tokens a ''summary''),
           as_cwd = or_else (non_empty (ai_foreground_cwd a)) (non_empty (ai_cwd a)),
           as_focused = ai_focused a, as_change_seq = ai_state_change_seq a,
           as_completion_seq = ai_completion_seq a\<rparr>))"

fun agent_snapshots ::
  "(string \<rightharpoonup> workspace_info) \<Rightarrow> (string \<rightharpoonup> tab_info) \<Rightarrow> (string \<rightharpoonup> pane_info) \<Rightarrow> registries \<Rightarrow> agent_info list \<Rightarrow>
   registries \<times> agent_snapshot list" where
  "agent_snapshots workspaces tabs panes regs [] = (regs, [])"
| "agent_snapshots workspaces tabs panes regs (a # as) =
     (if ai_pane_id a = [] then agent_snapshots workspaces tabs panes regs as
      else (let (regs1, x) = agent_snapshot_of workspaces tabs panes regs a;
                (regs2, xs) = agent_snapshots workspaces tabs panes regs1 as
            in (regs2, x # xs)))"

definition agents_from_snapshot :: "session_snapshot_record \<Rightarrow> registries \<Rightarrow> registries \<times> agent_snapshot list" where
  "agents_from_snapshot sn regs =
     (let (regs', as) = agent_snapshots (by_key wi_id (sn_workspaces sn)) (by_key ti_id (sn_tabs sn))
                          (by_key pi_id (sn_panes sn)) regs (sn_agents sn)
      in (regs', sort_agents as))"

definition control_list_agents :: "'d herdr \<Rightarrow> 'd \<times> client \<Rightarrow> (agent_snapshot list, 'd) ctl" where
  "control_list_agents h s =
     (case session_snapshot h s of
        (Inr sn, d, c) \<Rightarrow>
          (let (regs, as) = agents_from_snapshot sn (cl_panes c, cl_tabs c)
           in (Inr as, d, set_registries regs (c\<lparr>cl_agents_unavailable := False\<rparr>)))
      | (Inl e, d, c) \<Rightarrow>
          if is_unknown_method e then (Inr [], d, c\<lparr>cl_agents_unavailable := True\<rparr>) else (Inl e, d, c))"

subsection \<open>The two ways a layout is read agree\<close>

text \<open>The daemon answers a request with a result and stays as it is.\<close>

definition replies :: "'d herdr \<Rightarrow> 'd \<Rightarrow> string \<Rightarrow> json \<Rightarrow> api_result \<Rightarrow> bool" where
  "replies h d meth params a \<longleftrightarrow>
     (\<forall>i. \<exists>reply r. hd_send h d \<lparr>rq_id = i, rq_method = meth, rq_params = params\<rparr> = (d, reply) \<and>
        read_reply h reply = Inr (BodyOk r) \<and> hd_decode h r = Some a)"

text \<open>
  A daemon whose every answer describes one state: the lists are the snapshot's, and
  \<open>pane.layout\<close> answers the one layout the snapshot has for the pane's tab.
\<close>

definition serves :: "'d herdr \<Rightarrow> 'd \<Rightarrow> session_snapshot_record \<Rightarrow> bool" where
  "serves h d sn \<longleftrightarrow>
     replies h d ''session.snapshot'' no_params (SessionSnapshotResult sn) \<and>
     replies h d ''workspace.list'' no_params (WorkspaceList (sn_workspaces sn)) \<and>
     (\<forall>ws. replies h d ''tab.list'' (workspace_scoped_params (Some ws))
              (TabList (filter (\<lambda>t. ti_workspace_id t = ws) (sn_tabs sn)))) \<and>
     (\<forall>ws. replies h d ''pane.list'' (workspace_scoped_params (Some ws))
              (PaneList (filter (\<lambda>p. pi_workspace_id p = ws) (sn_panes sn)))) \<and>
     distinct (map pls_tab_id (sn_layouts sn)) \<and>
     (\<forall>p \<in> set (sn_panes sn). \<exists>l \<in> set (sn_layouts sn).
        pls_tab_id l = pi_tab_id p \<and> pls_workspace_id l = pi_workspace_id p \<and>
        replies h d ''pane.layout'' (pane_layout_params (Some (pi_id p))) (PaneLayoutResult l))"

lemma call_typed_replies:
  assumes "replies h d meth params a"
  shows "call_typed h meth params (d, c) = (Inr a, d, snd (next_id c))"
proof -
  obtain i c' where n: "next_id c = (i, c')" by force
  obtain reply r where "hd_send h d \<lparr>rq_id = i, rq_method = meth, rq_params = params\<rparr> = (d, reply)"
    "read_reply h reply = Inr (BodyOk r)" "hd_decode h r = Some a"
    using assms unfolding replies_def by blast
  then show ?thesis by (simp add: call_typed_def call_raw_def n)
qed

lemma expect_replies:
  "replies h d meth params a \<Longrightarrow> pick a = Some x \<Longrightarrow>
     expect meth pick (call_typed h meth params (d, c)) = (Inr x, d, snd (next_id c))"
  by (simp add: expect_def call_typed_replies[of h d meth params a])

lemma next_id_registries [simp]:
  "cl_panes (snd (next_id c)) = cl_panes c" "cl_tabs (snd (next_id c)) = cl_tabs c"
  by (simp_all add: next_id_def)

lemma pane_layout_replies:
  "replies h d ''pane.layout'' (pane_layout_params p) (PaneLayoutResult l) \<Longrightarrow>
     pane_layout h p (d, c) = (Inr l, d, snd (next_id c))"
  unfolding pane_layout_def by (erule expect_replies) simp

lemma fetch_layouts_known:
  assumes "\<And>p. p \<in> set panes \<Longrightarrow> \<exists>l. L (pi_tab_id p) = Some l \<and> pls_tab_id l = pi_tab_id p \<and>
      replies h d ''pane.layout'' (pane_layout_params (Some (pi_id p))) (PaneLayoutResult l)"
    and "acc \<subseteq>\<^sub>m L"
  shows "\<exists>acc' c'. fetch_layouts h panes ts acc (d, c) = (Inr acc', d, c') \<and>
    cl_panes c' = cl_panes c \<and> cl_tabs c' = cl_tabs c \<and> acc \<subseteq>\<^sub>m acc' \<and> acc' \<subseteq>\<^sub>m L \<and>
    (\<forall>t \<in> set ts. \<forall>p \<in> set panes. pi_tab_id p = ti_id t \<longrightarrow> acc' (ti_id t) \<noteq> None)"
  using assms(2)
proof (induction ts arbitrary: acc c)
  case Nil
  then show ?case by simp
next
  case (Cons t ts)
  show ?case
  proof (cases "acc (ti_id t)")
    case (Some l)
    from Cons.IH[OF Cons.prems, of c] obtain acc' c' where
      r: "fetch_layouts h panes ts acc (d, c) = (Inr acc', d, c')"
        "cl_panes c' = cl_panes c" "cl_tabs c' = cl_tabs c" "acc \<subseteq>\<^sub>m acc'" "acc' \<subseteq>\<^sub>m L"
        "\<forall>t \<in> set ts. \<forall>p \<in> set panes. pi_tab_id p = ti_id t \<longrightarrow> acc' (ti_id t) \<noteq> None" by blast
    with map_le_SomeD[OF r(4) Some] Some show ?thesis by simp
  next
    case None
    show ?thesis
    proof (cases "find (\<lambda>p. pi_tab_id p = ti_id t) panes")
      case None
      then have "pi_tab_id p \<noteq> ti_id t" if "p \<in> set panes" for p using that by (simp add: find_None_iff)
      with Cons.IH[OF Cons.prems, of c] None \<open>acc (ti_id t) = None\<close> show ?thesis by auto
    next
      case (Some p)
      then have p: "p \<in> set panes" "pi_tab_id p = ti_id t" by (auto dest: find_Some_D)
      obtain l where l: "L (ti_id t) = Some l" "pls_tab_id l = ti_id t"
        "replies h d ''pane.layout'' (pane_layout_params (Some (pi_id p))) (PaneLayoutResult l)"
        using assms(1)[OF p(1)] p(2) by auto
      have le: "acc(ti_id t \<mapsto> l) \<subseteq>\<^sub>m L" using Cons.prems l(1) by (auto simp: map_le_def)
      have step: "fetch_layouts h panes (t # ts) acc (d, c) =
          fetch_layouts h panes ts (acc(ti_id t \<mapsto> l)) (d, snd (next_id c))"
        using None Some l by (simp add: pane_layout_replies)
      from Cons.IH[OF le, of "snd (next_id c)"] obtain acc' c' where
        r: "fetch_layouts h panes ts (acc(ti_id t \<mapsto> l)) (d, snd (next_id c)) = (Inr acc', d, c')"
          "cl_panes c' = cl_panes c" "cl_tabs c' = cl_tabs c"
          "acc(ti_id t \<mapsto> l) \<subseteq>\<^sub>m acc'" "acc' \<subseteq>\<^sub>m L"
          "\<forall>t \<in> set ts. \<forall>p \<in> set panes. pi_tab_id p = ti_id t \<longrightarrow> acc' (ti_id t) \<noteq> None"
        unfolding next_id_registries by blast
      have "acc \<subseteq>\<^sub>m acc(ti_id t \<mapsto> l)" using \<open>acc (ti_id t) = None\<close> by (auto simp: map_le_def)
      then have "acc \<subseteq>\<^sub>m acc'" using r(4) map_le_trans by blast
      moreover have "acc' (ti_id t) \<noteq> None" using map_le_SomeD[OF r(4), of "ti_id t" l] by simp
      ultimately show ?thesis using r step by simp
    qed
  qed
qed

lemma transcode_panes_unmarked:
  "transcode_panes infos Omit z reg lps =
     (fst (transcode_panes infos marks z reg lps), map unmark_pane (snd (transcode_panes infos marks z reg lps)))"
  by (induction lps arbitrary: reg)
    (auto simp: Let_def transcode_pane_def unmark_pane_def pane_agent_mark_def split: prod.splits option.splits
      Option.bind_split)

definition unmark_tab :: "tab_snapshot \<Rightarrow> tab_snapshot" where
  "unmark_tab t = t\<lparr>ts_panes := map unmark_pane (ts_panes t)\<rparr>"

lemma unmark_tabs: "unmark l = l\<lparr>ls_tabs := map unmark_tab (ls_tabs l)\<rparr>"
  by (simp add: unmark_def unmark_tab_def)

lemma transcode_tabs_unmarked:
  assumes "\<And>t. t \<in> set ts \<Longrightarrow> L (ti_id t) = L' (ti_id t)"
  shows "transcode_tabs infos L active Omit regs ts =
    (fst (transcode_tabs infos L' active marks regs ts),
     map unmark_tab (snd (transcode_tabs infos L' active marks regs ts)))"
  using assms
proof (induction ts arbitrary: regs)
  case (Cons t ts)
  obtain preg treg where regs: "regs = (preg, treg)" by (cases regs)
  obtain treg1 i where tab: "tab_assign_or_get treg (ti_id t) = (treg1, i)" by force
  have L: "L (ti_id t) = L' (ti_id t)" using Cons.prems by simp
  have IH: "transcode_tabs infos L active Omit r ts =
      (fst (transcode_tabs infos L' active marks r ts),
       map unmark_tab (snd (transcode_tabs infos L' active marks r ts)))" for r
    using Cons by simp
  show ?case
  proof (cases "L' (ti_id t)")
    case None
    then show ?thesis by (simp add: regs tab L IH Let_def unmark_tab_def split: prod.split)
  next
    case (Some l)
    obtain preg1 panes where p: "transcode_panes infos marks (pls_zoomed l) preg (pls_panes l) = (preg1, panes)"
      by force
    have "transcode_panes infos Omit (pls_zoomed l) preg (pls_panes l) = (preg1, map unmark_pane panes)"
      using transcode_panes_unmarked[of infos "pls_zoomed l" preg "pls_panes l" marks] p by simp
    then show ?thesis using Some p by (simp add: regs tab L IH Let_def unmark_tab_def split: prod.split)
  qed
qed simp

text \<open>
  C6 (one call or the fan-out). Against a daemon whose answers describe one state, the layout
  read by one \<open>session.snapshot\<close> is the layout the fan-out builds, up to the agent marks that
  only the snapshot carries, with the same pane and tab ids handed out; an id that names no
  workspace is the same error on both paths.
\<close>

theorem layout_paths_agree:
  assumes "serves h d sn"
  shows "map_sum id unmark (fst (query_layout h ws (d, c))) = fst (query_layout_fanout h ws (d, c)) \<and>
    cl_panes (snd (snd (query_layout h ws (d, c)))) = cl_panes (snd (snd (query_layout_fanout h ws (d, c)))) \<and>
    cl_tabs (snd (snd (query_layout h ws (d, c)))) = cl_tabs (snd (snd (query_layout_fanout h ws (d, c))))"
proof -
  let ?tabs = "filter (\<lambda>t. ti_workspace_id t = ws) (sn_tabs sn)"
  let ?panes = "filter (\<lambda>p. pi_workspace_id p = ws) (sn_panes sn)"
  define c1 where "c1 = note_snapshot False (snd (next_id c))"
  have regs1: "cl_panes c1 = cl_panes c" "cl_tabs c1 = cl_tabs c" by (simp_all add: c1_def note_snapshot_def)
  have snap: "session_snapshot h (d, c) = (Inr sn, d, snd (next_id c))"
    unfolding session_snapshot_def using assms by (intro expect_replies[of _ _ _ _ "SessionSnapshotResult sn"])
      (simp_all add: serves_def)
  have lists: "list_workspaces h (d, c') = (Inr (sn_workspaces sn), d, snd (next_id c'))" for c'
    unfolding list_workspaces_def using assms
    by (intro expect_replies[of _ _ _ _ "WorkspaceList (sn_workspaces sn)"]) (simp_all add: serves_def)
  have tabs: "list_tabs h ws (d, c') = (Inr ?tabs, d, snd (next_id c'))" for c'
    unfolding list_tabs_def using assms
    by (intro expect_replies[of _ _ _ _ "TabList ?tabs"]) (simp_all add: serves_def)
  have panes: "list_panes h ws (d, c') = (Inr ?panes, d, snd (next_id c'))" for c'
    unfolding list_panes_def using assms
    by (intro expect_replies[of _ _ _ _ "PaneList ?panes"]) (simp_all add: serves_def)
  show ?thesis
  proof (cases "find (\<lambda>w. wi_id w = ws) (sn_workspaces sn)")
    case None
    then show ?thesis
      by (simp add: query_layout_def snap layout_from_snapshot_def query_layout_fanout_def lists
          note_snapshot_def next_id_def)
  next
    case (Some w)
    define L where "L = map_of (map (\<lambda>l. (pls_tab_id l, l))
      (filter (\<lambda>l. pls_workspace_id l = ws \<and> pls_tab_id l \<in> pi_tab_id ` set ?panes) (sn_layouts sn)))"
    define names where "names = map_of (List.map_filter
      (\<lambda>a. map_option (\<lambda>n. (ai_pane_id a, n)) (non_empty (ai_name a))) (sn_agents sn))"
    have L: "\<exists>l. L (pi_tab_id p) = Some l \<and> pls_tab_id l = pi_tab_id p \<and>
        replies h d ''pane.layout'' (pane_layout_params (Some (pi_id p))) (PaneLayoutResult l)"
      if "p \<in> set ?panes" for p
    proof -
      from that assms obtain l where l: "l \<in> set (sn_layouts sn)" "pls_tab_id l = pi_tab_id p"
        "pls_workspace_id l = pi_workspace_id p"
        "replies h d ''pane.layout'' (pane_layout_params (Some (pi_id p))) (PaneLayoutResult l)"
        by (auto simp: serves_def)
      have "distinct (map fst (map (\<lambda>l. (pls_tab_id l, l))
          (filter (\<lambda>l. pls_workspace_id l = ws \<and> pls_tab_id l \<in> pi_tab_id ` set ?panes) (sn_layouts sn))))"
        using assms by (simp add: serves_def o_def distinct_map_filter)
      then have "L (pi_tab_id p) = Some l"
        unfolding L_def using l that by (intro map_of_is_SomeI) force+
      with l show ?thesis by blast
    qed
    obtain acc c5 where f: "fetch_layouts h ?panes ?tabs Map.empty
          (d, snd (next_id (snd (next_id (snd (next_id c)))))) = (Inr acc, d, c5)"
        "cl_panes c5 = cl_panes c" "cl_tabs c5 = cl_tabs c" "acc \<subseteq>\<^sub>m L"
        "\<forall>t \<in> set ?tabs. \<forall>p \<in> set ?panes. pi_tab_id p = ti_id t \<longrightarrow> acc (ti_id t) \<noteq> None"
      using fetch_layouts_known[of ?panes L h d Map.empty ?tabs "snd (next_id (snd (next_id (snd (next_id c)))))", OF L]
      unfolding next_id_registries by auto
    have same: "acc (ti_id t) = L (ti_id t)" if "t \<in> set ?tabs" for t
    proof (cases "L (ti_id t)")
      case None
      then show ?thesis using f(4) by (metis map_le_SomeD option.exhaust option.distinct(1))
    next
      case (Some l)
      then obtain p where "p \<in> set ?panes" "pi_tab_id p = ti_id t"
        by (auto simp: L_def dest!: map_of_SomeD)
      with f(5) that obtain l' where "acc (ti_id t) = Some l'" by blast
      with f(4) show ?thesis by (metis map_le_SomeD)
    qed
    let ?regs = "(register_panes (cl_panes c) ?panes, cl_tabs c)"
    have t: "transcode_tabs (by_key pi_id ?panes) acc (wi_active_tab_id w) Omit ?regs ?tabs =
        (fst (transcode_tabs (by_key pi_id ?panes) L (wi_active_tab_id w) (FromPanes names) ?regs ?tabs),
         map unmark_tab
           (snd (transcode_tabs (by_key pi_id ?panes) L (wi_active_tab_id w) (FromPanes names) ?regs ?tabs)))"
      by (rule transcode_tabs_unmarked) (rule same)
    obtain regs' ts where r:
      "transcode_tabs (by_key pi_id ?panes) L (wi_active_tab_id w) (FromPanes names) ?regs ?tabs = (regs', ts)"
      by (metis surj_pair)
    have "layout_from_snapshot sn ws (cl_panes c, cl_tabs c) = Some (regs', \<lparr>ls_tabs = ts\<rparr>)"
      using Some r[unfolded L_def names_def]
      by (simp add: layout_from_snapshot_def transcode_layout_def Let_def del: set_filter)
    then have one: "query_layout h ws (d, c) = (Inr \<lparr>ls_tabs = ts\<rparr>, d, set_registries regs' c1)"
      by (simp add: query_layout_def snap c1_def)
    have many: "query_layout_fanout h ws (d, c) = (Inr \<lparr>ls_tabs = map unmark_tab ts\<rparr>, d, set_registries regs' c5)"
      using Some t r by (simp add: query_layout_fanout_def lists tabs panes f transcode_layout_def)
    show ?thesis by (simp add: one many unmark_tabs set_registries_def)
  qed
qed

text \<open>A daemon with one workspace, one tab and one pane.\<close>

definition demo_pane :: pane_info where
  "demo_pane =
     \<lparr>pi_id = ''w1:p1'', pi_terminal_id = ''t1'', pi_workspace_id = ''w1'', pi_tab_id = ''w1:1'', pi_focused = True,
      pi_cwd = None, pi_foreground_cwd = None, pi_label = Some ''shell'', pi_agent = Some ''claude'', pi_title = None,
      pi_display_agent = None, pi_agent_status = HIdle, pi_custom_status = None, pi_state_labels = Map.empty,
      pi_agent_session = None, pi_revision = 1\<rparr>"

definition demo_tab :: tab_info where
  "demo_tab =
     \<lparr>ti_id = ''w1:1'', ti_workspace_id = ''w1'', ti_number = 1, ti_label = ''main'', ti_focused = True,
      ti_pane_count = 1, ti_agent_status = HIdle\<rparr>"

definition demo_rect :: pane_layout_rect where
  "demo_rect = \<lparr>pr_x = 0, pr_y = 0, pr_width = 80, pr_height = 24\<rparr>"

definition demo_layout :: pane_layout_snapshot where
  "demo_layout =
     \<lparr>pls_workspace_id = ''w1'', pls_tab_id = ''w1:1'', pls_zoomed = False, pls_area = demo_rect,
      pls_focused_pane_id = ''w1:p1'',
      pls_panes = [\<lparr>pl_pane_id = ''w1:p1'', pl_focused = True, pl_rect = demo_rect\<rparr>], pls_splits = []\<rparr>"

definition demo_workspace :: workspace_info where
  "demo_workspace =
     \<lparr>wi_id = ''w1'', wi_number = 1, wi_label = ''main'', wi_focused = True, wi_pane_count = 1, wi_tab_count = 1,
      wi_active_tab_id = ''w1:1'', wi_agent_status = HIdle, wi_worktree = None\<rparr>"

definition demo_snapshot :: session_snapshot_record where
  "demo_snapshot =
     \<lparr>sn_version = ''0.9.5'', sn_protocol = 22, sn_workspaces = [demo_workspace], sn_tabs = [demo_tab],
      sn_panes = [demo_pane], sn_layouts = [demo_layout], sn_agents = []\<rparr>"

definition demo_reply :: "api_request \<Rightarrow> string" where
  "demo_reply rq =
     (let here = (rq_params rq = workspace_scoped_params (Some ''w1''))
      in if rq_method rq = ''session.snapshot'' then ''s''
         else if rq_method rq = ''workspace.list'' then ''w''
         else if rq_method rq = ''tab.list'' then (if here then ''t'' else ''u'')
         else if rq_method rq = ''pane.list'' then (if here then ''p'' else ''q'')
         else ''l'')"

definition demo_herdr :: "unit herdr" where
  "demo_herdr =
     \<lparr>hd_send = (\<lambda>d rq. (d, ReplyLine (demo_reply rq))),
      hd_parse = (\<lambda>line. Some (JObject [(''id'', JString []), (''result'', JString line)])),
      hd_decode = (\<lambda>v. map_of
        [(JString ''s'', SessionSnapshotResult demo_snapshot), (JString ''w'', WorkspaceList [demo_workspace]),
         (JString ''t'', TabList [demo_tab]), (JString ''u'', TabList []), (JString ''p'', PaneList [demo_pane]),
         (JString ''q'', PaneList []), (JString ''l'', PaneLayoutResult demo_layout)] v)\<rparr>"

lemma strip_one_single: "[c] \<notin> set ps \<Longrightarrow> strip_one ps [c] = None"
proof -
  assume "[c] \<notin> set ps"
  then have "filter (\<lambda>p. strip_prefix p [c] \<noteq> None \<and> p \<noteq> []) ps = []"
    by (auto simp: strip_prefix_Some Cons_eq_append_conv filter_empty_conv)
  then show ?thesis unfolding strip_one_def by simp
qed

lemma trim_end_letter: "is_ascii_lower c \<Longrightarrow> trim_end [c] = [c]"
proof -
  assume c: "is_ascii_lower c"
  have "map byte q \<in> set white_space" if "q \<in> set ws_codes" for q
    using that by (auto simp: ws_codes_def white_space_def byte_def o_def)
  then have "[c] \<notin> set ws_codes"
    using c by (fastforce simp: white_space_def is_ascii_lower_def)
  then have "[c] \<notin> set (map rev ws_codes)" by (auto simp: rev_singleton_conv)
  then show ?thesis by (simp add: trim_end_def strip_all_id strip_one_single)
qed

lemma demo_herdr_serves: "serves demo_herdr () demo_snapshot"
  by (simp add: serves_def replies_def demo_herdr_def demo_reply_def Let_def read_reply_def raw_response_def
      MAX_RESPONSE_BYTES_def trim_end_letter byte_classes demo_snapshot_def demo_tab_def demo_pane_def
      demo_layout_def workspace_scoped_params_def opt_field_def jget_str_def)

theorem layout_paths_agree_witness:
  "map_sum id unmark (fst (query_layout demo_herdr ''w1'' ((), new_client new_pane_registry new_tab_registry))) =
     fst (query_layout_fanout demo_herdr ''w1'' ((), new_client new_pane_registry new_tab_registry))"
  using layout_paths_agree[OF demo_herdr_serves] by blast

end
