(* ===== verification/HerdrBackend.thy ===== *)
theory HerdrBackend
  imports HerdrControl Routing
begin

text \<open>
  The herdr backend's operations, \<open>muxrd/src/multiplexer/herdr/backend.rs\<close>: every method of the
  backend trait over the control client of \<open>HerdrControl\<close>. A daemon is one session, the
  sentinel \<open>herdr\<close>; its workspaces are the spaces. \<open>open_attach\<close> is in
  \<open>HerdrAttach\<close>.
\<close>

definition HERDR_SESSION :: string where "HERDR_SESSION = ''herdr''"

definition DEFAULT_SESSION_SIZE :: "16 word \<times> 16 word" where "DEFAULT_SESSION_SIZE = (24, 80)"

definition DEFAULT_SPLIT_DIRECTION :: split_direction where "DEFAULT_SPLIT_DIRECTION = SplitRight"

definition HERDR_SESSION_IMMUTABLE_MSG :: string where
  "HERDR_SESSION_IMMUTABLE_MSG =
     ''the herdr session cannot be killed or renamed '' @ dash @ '' manage workspaces via CloseSpace/RenameSpace''"

definition session_size_from_area :: "pane_layout_rect \<Rightarrow> 16 word \<times> 16 word" where
  "session_size_from_area area =
     (if pr_height area = 0 then fst DEFAULT_SESSION_SIZE else pr_height area,
      if pr_width area = 0 then snd DEFAULT_SESSION_SIZE else pr_width area)"

definition space_from_workspace :: "workspace_info \<Rightarrow> space_snapshot" where
  "space_from_workspace w = \<lparr>ss_id = wi_id w, ss_name = wi_label w, ss_active = wi_focused w\<rparr>"

definition would_kill_last_space :: "nat \<Rightarrow> bool" where
  "would_kill_last_space count \<longleftrightarrow> count \<le> 1"

definition workspace_id_in :: "workspace_info list \<Rightarrow> string \<Rightarrow> herdr_error + string" where
  "workspace_id_in workspaces label =
     (case filter (\<lambda>w. wi_label w = label) workspaces of
        [] \<Rightarrow> Inl (NoSuchLabel label)
      | [w] \<Rightarrow> Inr (wi_id w)
      | _ \<Rightarrow> Inl (AmbiguousLabel label))"

definition spaces_removed_by_workspace_close :: "workspace_info list \<Rightarrow> string \<Rightarrow> bool \<Rightarrow> string list" where
  "spaces_removed_by_workspace_close workspaces space close_group =
     (if \<not> close_group then [space]
      else (case find (\<lambda>w. wi_id w = space) workspaces of
              None \<Rightarrow> [space]
            | Some target \<Rightarrow>
                (case wi_worktree target of
                   None \<Rightarrow> [space]
                 | Some wt \<Rightarrow>
                     if wt_is_linked wt then [space]
                     else (let members = map wi_id (filter (\<lambda>w. case wi_worktree w of
                                  Some m \<Rightarrow> wt_repo_key m = wt_repo_key wt | None \<Rightarrow> False) workspaces)
                           in if 2 \<le> length members then members else [space]))))"

definition pick_active_or_first :: "workspace_info list \<Rightarrow> workspace_info option" where
  "pick_active_or_first workspaces =
     or_else (find wi_focused workspaces) (case workspaces of [] \<Rightarrow> None | w # _ \<Rightarrow> Some w)"

definition validate_workspace_id :: "string \<Rightarrow> herdr_error + unit" where
  "validate_workspace_id space =
     (if space = [] then Inl InvalidSpaceId
      else if \<not> list_all (\<lambda>b. is_ascii_alphanumeric b \<or> b \<in> {CHR ''_'', CHR ''-'', CHR ''.'', CHR '':''}) space
      then Inl InvalidSpaceId
      else Inr ())"

definition unsupported_ack :: "string \<Rightarrow> action_ack" where
  "unsupported_ack op = ack_err (op @ '' is unsupported on the herdr backend'')"

subsection \<open>Resolving a session to a workspace\<close>

definition workspace_id_for :: "'d herdr \<Rightarrow> string \<Rightarrow> 'd \<times> client \<Rightarrow> (string, 'd) ctl" where
  "workspace_id_for h label s = and_then (list_workspaces h s) (\<lambda>ws s'. (workspace_id_in ws label, s'))"

definition active_or_first_workspace_id :: "'d herdr \<Rightarrow> 'd \<times> client \<Rightarrow> (string, 'd) ctl" where
  "active_or_first_workspace_id h s =
     and_then (list_workspaces h s) (\<lambda>ws s'.
       (case pick_active_or_first ws of Some w \<Rightarrow> Inr (wi_id w) | None \<Rightarrow> Inl NoWorkspaces, s'))"

definition resolve_workspace :: "'d herdr \<Rightarrow> string \<Rightarrow> 'd \<times> client \<Rightarrow> (string, 'd) ctl" where
  "resolve_workspace h sess s =
     (if sess = HERDR_SESSION then active_or_first_workspace_id h s else workspace_id_for h sess s)"

subsection \<open>Sessions\<close>

definition list_sessions :: "'d herdr \<Rightarrow> 'd \<times> client \<Rightarrow> ((string \<times> nat) list, 'd) ctl" where
  "list_sessions h s = and_then (list_workspaces h s) (\<lambda>_ s'. (Inr [(HERDR_SESSION, 0)], s'))"

definition list_sessions_with_resurrectables ::
  "'d herdr \<Rightarrow> 'd \<times> client \<Rightarrow> ((string \<times> 64 word \<times> bool) list, 'd) ctl" where
  "list_sessions_with_resurrectables h s =
     and_then (list_workspaces h s) (\<lambda>_ s'. (Inr [(HERDR_SESSION, 0, False)], s'))"

definition herdr_validate_session_name :: "(string \<Rightarrow> bool) \<Rightarrow> string \<Rightarrow> bool" where
  "herdr_validate_session_name zellij_ok name = validate_session_name zellij_ok name"

definition create_session :: "'d herdr \<Rightarrow> string \<Rightarrow> string option \<Rightarrow> 'd \<times> client \<Rightarrow> (action_ack, 'd) ctl" where
  "create_session h name layout s =
     and_then (list_workspaces h s) (\<lambda>ws s'.
       if list_ex (\<lambda>w. wi_label w = name) ws
       then (Inr (ack_err (''session '' @ [CHR 0x27] @ name @ [CHR 0x27] @ '' already exists'')), s')
       else create_workspace h (Some name) s')"

definition kill_session :: "'d herdr \<Rightarrow> string \<Rightarrow> 'd \<times> client \<Rightarrow> (action_ack, 'd) ctl" where
  "kill_session h sess s =
     (if sess = HERDR_SESSION then (Inr (ack_err HERDR_SESSION_IMMUTABLE_MSG), s)
      else and_then (list_workspaces h s) (\<lambda>workspaces s'.
        case workspace_id_in workspaces sess of
          Inl e \<Rightarrow> (Inl e, s')
        | Inr ws \<Rightarrow>
            if would_kill_last_space (length workspaces)
            then (Inr (ack_err (''cannot kill '' @ [CHR 0x27] @ sess @ [CHR 0x27] @
                    '': it is the last herdr space on this daemon, and closing it would leave none'')), s')
            else close_workspace h ws False s'))"

definition rename_session :: "'d herdr \<Rightarrow> string \<Rightarrow> string \<Rightarrow> 'd \<times> client \<Rightarrow> (action_ack, 'd) ctl" where
  "rename_session h sess new_name s =
     (if sess = HERDR_SESSION then (Inr (ack_err HERDR_SESSION_IMMUTABLE_MSG), s)
      else and_then (workspace_id_for h sess s) (\<lambda>ws. rename_workspace h ws new_name))"

subsection \<open>Spaces and agents\<close>

definition herdr_supports_spaces :: bool where "herdr_supports_spaces = True"

definition list_spaces :: "'d herdr \<Rightarrow> string \<Rightarrow> 'd \<times> client \<Rightarrow> (space_snapshot list, 'd) ctl" where
  "list_spaces h sess s = and_then (list_workspaces h s) (\<lambda>ws s'. (Inr (map space_from_workspace ws), s'))"

definition create_space :: "'d herdr \<Rightarrow> string option \<Rightarrow> 'd \<times> client \<Rightarrow> (action_ack, 'd) ctl" where
  "create_space h label = create_workspace h label"

definition herdr_supports_agents :: bool where "herdr_supports_agents = True"

definition herdr_list_agents :: "'d herdr \<Rightarrow> string \<Rightarrow> 'd \<times> client \<Rightarrow> (agent_snapshot list, 'd) ctl" where
  "herdr_list_agents h sess s =
     (if sess \<noteq> HERDR_SESSION then (Inl (UnknownSession sess), s) else control_list_agents h s)"

definition rename_space :: "'d herdr \<Rightarrow> string \<Rightarrow> string \<Rightarrow> 'd \<times> client \<Rightarrow> (action_ack, 'd) ctl" where
  "rename_space h space label = rename_workspace h space label"

definition close_space :: "'d herdr \<Rightarrow> string \<Rightarrow> bool \<Rightarrow> 'd \<times> client \<Rightarrow> (action_ack, 'd) ctl" where
  "close_space h space close_group = close_workspace h space close_group"

definition spaces_removed_by_close ::
  "'d herdr \<Rightarrow> string \<Rightarrow> bool \<Rightarrow> 'd \<times> client \<Rightarrow> (string list, 'd) ctl" where
  "spaces_removed_by_close h space close_group s =
     and_then (list_workspaces h s) (\<lambda>ws s'. (Inr (spaces_removed_by_workspace_close ws space close_group), s'))"

subsection \<open>Actions, layouts and the session's size\<close>

text \<open>The actions of \<open>backend_op\<close> on the bare session name.\<close>

definition herdr_action :: "'d herdr \<Rightarrow> string \<Rightarrow> backend_op \<Rightarrow> 'd \<times> client \<Rightarrow> (action_ack, 'd) ctl" where
  "herdr_action h sess op s =
     (case op of
        OpWriteToPane _ _ \<Rightarrow> (Inr (unsupported_ack ''write_to_pane''), s)
      | OpFocusPane _ \<Rightarrow> (Inr ack_done, s)
      | OpClosePane p \<Rightarrow> close_pane h (pane_id p) s
      | OpNewPane _ _ \<Rightarrow>
          and_then (resolve_workspace h sess s) (\<lambda>ws. split_pane h (Some ws) None DEFAULT_SPLIT_DIRECTION True)
      | OpRenamePane p name \<Rightarrow> rename_pane h (pane_id p) (Some name) s
      | OpResizePane _ _ _ \<Rightarrow> (Inr (unsupported_ack ''resize_pane''), s)
      | OpTogglePaneFloating _ \<Rightarrow> (Inr ack_done, s)
      | OpTogglePaneFullscreen p \<Rightarrow> zoom_pane h (Some (pane_id p)) ZoomToggle s
      | OpScrollPane _ _ \<Rightarrow> (Inr (unsupported_ack ''scroll_pane''), s)
      | OpNewTab name \<Rightarrow> and_then (resolve_workspace h sess s) (\<lambda>ws. create_tab h (Some ws) name)
      | OpCloseTab t \<Rightarrow> close_tab h t s
      | OpGoToTab t \<Rightarrow> focus_tab h t s
      | OpRenameTab t name \<Rightarrow> rename_tab h t name s)"

definition herdr_query_layout :: "'d herdr \<Rightarrow> string \<Rightarrow> 'd \<times> client \<Rightarrow> (layout_snapshot, 'd) ctl" where
  "herdr_query_layout h sess s = and_then (resolve_workspace h sess s) (\<lambda>ws. query_layout h ws)"

definition query_layout_for_space ::
  "'d herdr \<Rightarrow> string \<Rightarrow> string option \<Rightarrow> 'd \<times> client \<Rightarrow> (layout_snapshot, 'd) ctl" where
  "query_layout_for_space h sess space s =
     (case space of
        Some i \<Rightarrow> (case validate_workspace_id i of Inl e \<Rightarrow> (Inl e, s) | Inr _ \<Rightarrow> query_layout h i s)
      | None \<Rightarrow> herdr_query_layout h sess s)"

definition query_session_size :: "'d herdr \<Rightarrow> string \<Rightarrow> 'd \<times> client \<Rightarrow> (16 word \<times> 16 word, 'd) ctl" where
  "query_session_size h sess s =
     and_then (resolve_workspace h sess s) (\<lambda>ws s1.
     and_then (list_panes h ws s1) (\<lambda>panes s2.
       case or_else (find pi_focused panes) (case panes of [] \<Rightarrow> None | p # _ \<Rightarrow> Some p) of
         Some p \<Rightarrow> and_then (pane_layout h (Some (pi_id p)) s2)
                     (\<lambda>l s3. (Inr (session_size_from_area (pls_area l)), s3))
       | None \<Rightarrow> (Inr DEFAULT_SESSION_SIZE, s2)))"

definition pane_is_floating_with_visibility ::
  "string \<Rightarrow> pane_ref \<Rightarrow> bool \<times> bool \<times> pane_ref option" where
  "pane_is_floating_with_visibility sess p = (False, False, None)"

definition backend_version :: "'d herdr \<Rightarrow> 'd \<times> client \<Rightarrow> string \<times> 'd \<times> client" where
  "backend_version h s =
     (case ping h s of
        (Inr i, s') \<Rightarrow> (''herdr-'' @ hs_version i @ ''-wire-v'' @ dec (unat (hs_protocol i)), s')
      | (Inl _, s') \<Rightarrow> (''herdr-wire-unknown'', s'))"

subsection \<open>What reaches herdr\<close>

text \<open>The daemon with a log of the requests it gets.\<close>

definition traced :: "'d herdr \<Rightarrow> ('d \<times> api_request list) herdr" where
  "traced h =
     \<lparr>hd_send = (\<lambda>(d, log) rq. (case hd_send h d rq of (d', r) \<Rightarrow> ((d', log @ [rq]), r))),
      hd_parse = hd_parse h, hd_decode = hd_decode h\<rparr>"

lemma traced_reads [simp]: "hd_parse (traced h) = hd_parse h" "hd_decode (traced h) = hd_decode h"
  by (simp_all add: traced_def)

lemma read_reply_traced [simp]: "read_reply (traced h) r = read_reply h r"
  by (cases r) (simp_all add: read_reply_def)

lemma call_raw_traced:
  "call_raw (traced h) m p ((d, log), c) =
     (case call_raw h m p (d, c) of (r, d', c') \<Rightarrow>
        (r, (d', log @ [\<lparr>rq_id = fst (next_id c), rq_method = m, rq_params = p\<rparr>]), c'))"
proof -
  obtain i c1 where n: "next_id c = (i, c1)" by force
  obtain d' r where s: "hd_send h d \<lparr>rq_id = i, rq_method = m, rq_params = p\<rparr> = (d', r)" by force
  then have "hd_send (traced h) (d, log) \<lparr>rq_id = i, rq_method = m, rq_params = p\<rparr> =
      ((d', log @ [\<lparr>rq_id = i, rq_method = m, rq_params = p\<rparr>]), r)"
    by (simp add: traced_def)
  with n s show ?thesis by (simp add: call_raw_def)
qed

lemma list_workspaces_traced:
  "list_workspaces (traced h) ((d, log), c) =
     (case list_workspaces h (d, c) of (r, d', c') \<Rightarrow>
        (r, (d', log @ [\<lparr>rq_id = fst (next_id c), rq_method = ''workspace.list'', rq_params = no_params\<rparr>]), c'))"
  by (simp add: list_workspaces_def expect_def call_typed_def call_raw_traced and_then_def
      split: prod.splits sum.splits api_response_body.splits option.splits)

lemma call_action_traced:
  "snd (fst (snd (call_action (traced h) m p ((d, log), c)))) =
     log @ [\<lparr>rq_id = fst (next_id c), rq_method = m, rq_params = p\<rparr>]"
  by (simp add: call_action_def call_raw_traced and_then_def split: prod.splits sum.splits)

lemma workspace_id_in_Inr:
  "workspace_id_in ws label = Inr i \<Longrightarrow> \<exists>w. filter (\<lambda>v. wi_label v = label) ws = [w] \<and> i = wi_id w"
  by (auto simp: workspace_id_in_def split: list.splits)

text \<open>
  C7 (killing a session). Besides the listing, \<open>KillSession\<close> sends herdr at most one kind
  of request: to close, without group intent, the one workspace that carries the name, and
  only when the listing it decided on shows another workspace; the sentinel session is never
  touched.
\<close>

theorem kill_session_spares_others:
  assumes "kill_session (traced h) sess ((d, []), c) = (r, (d', log), c')"
    and "rq \<in> set log" and "rq_method rq \<noteq> ''workspace.list''"
  shows "sess \<noteq> HERDR_SESSION \<and>
    (\<exists>workspaces w. fst (list_workspaces h (d, c)) = Inr workspaces \<and> 2 \<le> length workspaces \<and>
       filter (\<lambda>v. wi_label v = sess) workspaces = [w] \<and>
       rq_method rq = ''workspace.close'' \<and> rq_params rq = workspace_close_params (wi_id w) False)"
proof (cases "sess = HERDR_SESSION")
  case True
  then show ?thesis using assms by (simp add: kill_session_def)
next
  case False
  let ?lq = "\<lparr>rq_id = fst (next_id c), rq_method = ''workspace.list'', rq_params = no_params\<rparr>"
  obtain lr d1 c1 where l: "list_workspaces h (d, c) = (lr, d1, c1)" by (metis surj_pair)
  from assms False have log: "log = snd (fst (snd (kill_session (traced h) sess ((d, []), c))))" by simp
  show ?thesis
  proof (cases lr)
    case (Inl e)
    then have "log = [?lq]" using False l by (simp add: log kill_session_def list_workspaces_traced)
    then show ?thesis using assms(2,3) by simp
  next
    case (Inr ws)
    show ?thesis
    proof (cases "workspace_id_in ws sess")
      case (Inl e)
      then have "log = [?lq]" using False l Inr by (simp add: log kill_session_def list_workspaces_traced)
      then show ?thesis using assms(2,3) by simp
    next
      case id': (Inr i)
      then obtain w where w: "filter (\<lambda>v. wi_label v = sess) ws = [w]" "i = wi_id w"
        by (auto dest: workspace_id_in_Inr)
      show ?thesis
      proof (cases "would_kill_last_space (length ws)")
        case True
        then have "log = [?lq]" using False l Inr id' by (simp add: log kill_session_def list_workspaces_traced)
        then show ?thesis using assms(2,3) by simp
      next
        case more: False
        then have "log = [?lq, \<lparr>rq_id = fst (next_id c1), rq_method = ''workspace.close'',
            rq_params = workspace_close_params i False\<rparr>]"
          using False l Inr id'
          by (simp add: log kill_session_def list_workspaces_traced close_workspace_def call_action_traced)
        with more w l Inr False assms(2,3) show ?thesis by (auto simp: would_kill_last_space_def)
      qed
    qed
  qed
qed

text \<open>
  (what a close removes). The set a close is predicted to remove holds the space named,
  is that space alone without group intent, and otherwise holds only workspaces of the same
  repository as the space named, which is then a primary and not a linked worktree.
\<close>

theorem removal_prediction:
  shows "space \<in> set (spaces_removed_by_workspace_close ws space close_group) \<and>
    (\<forall>i \<in> set (spaces_removed_by_workspace_close ws space close_group). i = space \<or>
      close_group \<and>
      (\<exists>target wt w m. target \<in> set ws \<and> wi_id target = space \<and> wi_worktree target = Some wt \<and>
         \<not> wt_is_linked wt \<and> w \<in> set ws \<and> wi_id w = i \<and> wi_worktree w = Some m \<and>
         wt_repo_key m = wt_repo_key wt))"
proof (cases "find (\<lambda>w. wi_id w = space) ws")
  case None
  then show ?thesis by (simp add: spaces_removed_by_workspace_close_def)
next
  case (Some target)
  then have target: "target \<in> set ws" "wi_id target = space" by (auto dest: find_Some_D)
  show ?thesis
  proof (cases "wi_worktree target")
    case None
    then show ?thesis using Some by (simp add: spaces_removed_by_workspace_close_def)
  next
    case wt: (Some wt)
    let ?members = "map wi_id (filter (\<lambda>w. case wi_worktree w of
        Some m \<Rightarrow> wt_repo_key m = wt_repo_key wt | None \<Rightarrow> False) ws)"
    have "spaces_removed_by_workspace_close ws space close_group =
        (if close_group \<and> \<not> wt_is_linked wt \<and> 2 \<le> length ?members then ?members else [space])"
      using Some wt by (simp add: spaces_removed_by_workspace_close_def Let_def)
    moreover have "space \<in> set ?members" using target wt by force
    moreover have "\<exists>w m. w \<in> set ws \<and> wi_id w = i \<and> wi_worktree w = Some m \<and> wt_repo_key m = wt_repo_key wt"
      if "i \<in> set ?members" for i
      using that by (auto split: option.splits)
    ultimately show ?thesis using target wt by (auto split: if_splits)
  qed
qed

lemma agent_snapshots_length:
  "length (snd (agent_snapshots w t p regs as)) = length (filter (\<lambda>a. ai_pane_id a \<noteq> []) as)"
proof (induction as arbitrary: regs)
  case (Cons a as)
  obtain regs1 x where "agent_snapshot_of w t p regs a = (regs1, x)" by (metis surj_pair)
  moreover obtain regs2 xs where "agent_snapshots w t p regs1 as = (regs2, xs)" by (metis surj_pair)
  ultimately show ?case using Cons.IH[of regs] Cons.IH[of regs1] by (simp add: Let_def)
qed simp

text \<open>
  (no agents, or no answer). An inventory is an answer only for the sentinel session,
  and only when herdr answered its snapshot, with one row per agent record that names a pane,
  or when herdr does not know the method; every other failure of herdr is an error, never an
  empty inventory.
\<close>

theorem empty_inventory_honest:
  assumes "herdr_list_agents h sess s = (Inr as, s')"
  shows "sess = HERDR_SESSION \<and>
    ((\<exists>sn. fst (session_snapshot h s) = Inr sn \<and>
        length as = length (filter (\<lambda>a. ai_pane_id a \<noteq> []) (sn_agents sn))) \<or>
     (\<exists>e. fst (session_snapshot h s) = Inl e \<and> is_unknown_method e \<and> as = []))"
proof -
  obtain r d c where s: "session_snapshot h s = (r, d, c)" by (metis surj_pair)
  show ?thesis
  proof (cases r)
    case (Inl e)
    then have "control_list_agents h s =
        (if is_unknown_method e then (Inr [], d, c\<lparr>cl_agents_unavailable := True\<rparr>) else (Inl e, d, c))"
      using s by (simp add: control_list_agents_def)
    with assms s Inl show ?thesis by (simp add: herdr_list_agents_def split: if_splits)
  next
    case (Inr sn)
    obtain regs xs where a: "agent_snapshots (by_key wi_id (sn_workspaces sn)) (by_key ti_id (sn_tabs sn))
        (by_key pi_id (sn_panes sn)) (cl_panes c, cl_tabs c) (sn_agents sn) = (regs, xs)" by (metis surj_pair)
    have "length xs = length (filter (\<lambda>a. ai_pane_id a \<noteq> []) (sn_agents sn))"
      using agent_snapshots_length[of "by_key wi_id (sn_workspaces sn)" "by_key ti_id (sn_tabs sn)"
          "by_key pi_id (sn_panes sn)" "(cl_panes c, cl_tabs c)" "sn_agents sn"] a by simp
    moreover have "as = sort_agents xs" "sess = HERDR_SESSION"
      using assms s Inr a
      by (auto simp: herdr_list_agents_def control_list_agents_def agents_from_snapshot_def split: if_splits)
    ultimately show ?thesis using s Inr by (simp add: sort_agents_def)
  qed
qed

subsection \<open>Witnesses\<close>

text \<open>A daemon that lists two workspaces and accepts everything else.\<close>

definition two_workspaces :: "workspace_info list" where
  "two_workspaces = [demo_workspace, demo_workspace\<lparr>wi_id := ''w2'', wi_label := ''logs''\<rparr>]"

definition pair_herdr :: "unit herdr" where
  "pair_herdr = demo_herdr\<lparr>hd_decode := (\<lambda>v. if v = JString ''w'' then Some (WorkspaceList two_workspaces) else None)\<rparr>"

lemma pair_lists: "fst (list_workspaces pair_herdr ((), c)) = Inr two_workspaces"
  by (simp add: list_workspaces_def expect_def call_typed_def call_raw_def next_id_def pair_herdr_def demo_herdr_def
      demo_reply_def Let_def read_reply_def raw_response_def MAX_RESPONSE_BYTES_def trim_end_letter byte_classes
      jget_str_def)

theorem kill_session_spares_others_witness:
  "\<exists>r d' log c' rq. kill_session (traced pair_herdr) ''logs'' (((), []), new_client new_pane_registry new_tab_registry) =
     (r, (d', log), c') \<and> rq \<in> set log \<and> rq_params rq = workspace_close_params ''w2'' False"
proof -
  let ?c = "new_client new_pane_registry new_tab_registry"
  obtain r d' log c' where k: "kill_session (traced pair_herdr) ''logs'' (((), []), ?c) = (r, (d', log), c')"
    by (metis surj_pair)
  obtain lr d1 c1 where l: "list_workspaces pair_herdr ((), ?c) = (lr, d1, c1)" by (metis surj_pair)
  have "log = snd (fst (snd (kill_session (traced pair_herdr) ''logs'' (((), []), ?c))))" using k by simp
  moreover have "\<exists>rq \<in> set (snd (fst (snd (kill_session (traced pair_herdr) ''logs'' (((), []), ?c))))).
      rq_method rq \<noteq> ''workspace.list''"
    using l pair_lists[of ?c]
    by (simp add: kill_session_def HERDR_SESSION_def list_workspaces_traced workspace_id_in_def two_workspaces_def
        demo_workspace_def would_kill_last_space_def close_workspace_def call_action_traced)
  ultimately obtain rq where rq: "rq \<in> set log" "rq_method rq \<noteq> ''workspace.list''" by metis
  from kill_session_spares_others[OF k rq] have "rq_params rq = workspace_close_params ''w2'' False"
    by (auto simp: pair_lists two_workspaces_def demo_workspace_def)
  with k rq show ?thesis by blast
qed

theorem empty_inventory_honest_witness:
  "fst (herdr_list_agents demo_herdr ''herdr'' ((), new_client new_pane_registry new_tab_registry)) = Inr [] \<and>
   (\<exists>sn. fst (session_snapshot demo_herdr ((), new_client new_pane_registry new_tab_registry)) = Inr sn \<and>
      filter (\<lambda>a. ai_pane_id a \<noteq> []) (sn_agents sn) = [])"
proof -
  let ?s = "((), new_client new_pane_registry new_tab_registry)"
  have sn: "session_snapshot demo_herdr ?s =
      (Inr demo_snapshot, (), snd (next_id (new_client new_pane_registry new_tab_registry)))"
    unfolding session_snapshot_def
    by (rule expect_replies[of _ _ _ _ "SessionSnapshotResult demo_snapshot"])
      (use demo_herdr_serves in \<open>simp_all add: serves_def\<close>)
  obtain s' where "herdr_list_agents demo_herdr ''herdr'' ?s = (Inr [], s')"
    using sn by (simp add: herdr_list_agents_def HERDR_SESSION_def control_list_agents_def agents_from_snapshot_def
        demo_snapshot_def sort_agents_def)
  with empty_inventory_honest[OF this] sn show ?thesis by auto
qed

end
