(* ===== verification/LineReader.thy ===== *)
theory LineReader
  imports Prelude
begin

text \<open>
  The bounded, cancel-safe line reader of \<open>muxrd/src/multiplexer/herdr/subscribe.rs\<close>. Its
  buffered input is the list of chunks that have arrived; a poll that runs out of them is
  dropped by the surrounding \<open>select!\<close> and what it has read stays in \<open>lr_pending\<close>.
  UTF-8 validity is the parameter \<open>utf8\<close>.
\<close>

datatype chunk = Bytes string | Eof | Broken

record line_reader =
  lr_input :: "chunk list"
  lr_pending :: string
  lr_max_line :: nat

definition MAX_EVENT_LINE_BYTES :: nat where "MAX_EVENT_LINE_BYTES = 1024 * 1024"

definition new_line_reader :: "chunk list \<Rightarrow> line_reader" where
  "new_line_reader input = \<lparr>lr_input = input, lr_pending = [], lr_max_line = MAX_EVENT_LINE_BYTES\<rparr>"

datatype line_poll = Waiting | EndOfStream | ALine string | LineError

definition newline :: char where "newline = CHR 0x0A"

definition take_utf8 :: "(string \<Rightarrow> bool) \<Rightarrow> line_reader \<Rightarrow> line_poll \<times> line_reader" where
  "take_utf8 utf8 r = (if utf8 (lr_pending r) then ALine (lr_pending r) else LineError, r\<lparr>lr_pending := []\<rparr>)"

text \<open>An empty chunk is how the buffered reader reports the end of the stream.\<close>

function next_line :: "(string \<Rightarrow> bool) \<Rightarrow> line_reader \<Rightarrow> line_poll \<times> line_reader" where
  "next_line utf8 r =
     (case lr_input r of
        [] \<Rightarrow> (Waiting, r)
      | Broken # rest \<Rightarrow> (LineError, r\<lparr>lr_input := rest\<rparr>)
      | Eof # rest \<Rightarrow> (if lr_pending r = [] then (EndOfStream, r) else take_utf8 utf8 r)
      | Bytes b # rest \<Rightarrow>
          (if b = [] then (if lr_pending r = [] then (EndOfStream, r) else take_utf8 utf8 r)
           else
             (case split_once newline b of
                Some (line, tail) \<Rightarrow>
                  take_utf8 utf8
                    (r\<lparr>lr_pending := lr_pending r @ line,
                       lr_input := (if tail = [] then rest else Bytes tail # rest)\<rparr>)
              | None \<Rightarrow>
                  (let r' = r\<lparr>lr_pending := lr_pending r @ b, lr_input := rest\<rparr>
                   in if lr_max_line r < length (lr_pending r')
                      then (LineError, r'\<lparr>lr_pending := []\<rparr>)
                      else next_line utf8 r'))))"
  by pat_completeness auto
termination
  by (relation "measure (\<lambda>(utf8, r). length (lr_input r))") auto

declare next_line.simps [simp del]

subsection \<open>No byte is lost, however the input is cut and the polls interleave\<close>

text \<open>
  The reader's life: chunks arrive, polls read. \<open>ln_lines\<close> are the lines handed out,
  \<open>ln_failed\<close> tells whether a poll failed.
\<close>

datatype line_input = Arrive string | PollLine

record line_life =
  ln_reader :: line_reader
  ln_lines :: "string list"
  ln_failed :: bool

fun line_step :: "(string \<Rightarrow> bool) \<Rightarrow> line_input \<Rightarrow> line_life \<Rightarrow> line_life" where
  "line_step utf8 (Arrive b) s =
     s\<lparr>ln_reader := (ln_reader s)\<lparr>lr_input := lr_input (ln_reader s) @ (if b = [] then [] else [Bytes b])\<rparr>\<rparr>"
| "line_step utf8 PollLine s =
     (case next_line utf8 (ln_reader s) of
        (ALine l, r) \<Rightarrow> s\<lparr>ln_reader := r, ln_lines := ln_lines s @ [l]\<rparr>
      | (LineError, r) \<Rightarrow> s\<lparr>ln_reader := r, ln_failed := True\<rparr>
      | (_, r) \<Rightarrow> s\<lparr>ln_reader := r\<rparr>)"

definition line_start :: "nat \<Rightarrow> line_life" where
  "line_start m = \<lparr>ln_reader = \<lparr>lr_input = [], lr_pending = [], lr_max_line = m\<rparr>, ln_lines = [], ln_failed = False\<rparr>"

definition line_run :: "(string \<Rightarrow> bool) \<Rightarrow> nat \<Rightarrow> line_input list \<Rightarrow> line_life" where
  "line_run utf8 m is = foldl (\<lambda>s i. line_step utf8 i s) (line_start m) is"

definition arrived :: "line_input list \<Rightarrow> string" where
  "arrived is = concat (map (\<lambda>i. case i of Arrive b \<Rightarrow> b | PollLine \<Rightarrow> []) is)"

definition chunk_bytes :: "chunk list \<Rightarrow> string" where
  "chunk_bytes cs = concat (map (\<lambda>c. case c of Bytes b \<Rightarrow> b | _ \<Rightarrow> []) cs)"

definition data_only :: "chunk list \<Rightarrow> bool" where
  "data_only cs \<longleftrightarrow> list_all (\<lambda>c. case c of Bytes b \<Rightarrow> b \<noteq> [] | _ \<Rightarrow> False) cs"

definition terminated :: "string list \<Rightarrow> string" where
  "terminated ls = concat (map (\<lambda>l. l @ [newline]) ls)"

lemma chunk_bytes_simps [simp]:
  "chunk_bytes [] = []" "chunk_bytes (Bytes b # cs) = b @ chunk_bytes cs"
  "chunk_bytes (cs @ ds) = chunk_bytes cs @ chunk_bytes ds"
  by (simp_all add: chunk_bytes_def)

lemma data_only_simps [simp]:
  "data_only []" "data_only (Bytes b # cs) \<longleftrightarrow> b \<noteq> [] \<and> data_only cs"
  "\<not> data_only (Eof # cs)" "\<not> data_only (Broken # cs)"
  "data_only (cs @ ds) \<longleftrightarrow> data_only cs \<and> data_only ds"
  by (simp_all add: data_only_def)

text \<open>What one poll does to the bytes it holds.\<close>

lemma next_line_bytes:
  assumes "next_line utf8 r = (p, r')" and "data_only (lr_input r)" and "newline \<notin> set (lr_pending r)"
  shows "data_only (lr_input r') \<and> lr_max_line r' = lr_max_line r \<and> newline \<notin> set (lr_pending r') \<and>
    (case p of
       ALine l \<Rightarrow> newline \<notin> set l \<and> utf8 l \<and> lr_pending r' = [] \<and>
         lr_pending r @ chunk_bytes (lr_input r) = l @ newline # chunk_bytes (lr_input r')
     | Waiting \<Rightarrow> lr_input r' = [] \<and> lr_pending r' = lr_pending r @ chunk_bytes (lr_input r)
     | EndOfStream \<Rightarrow> False
     | LineError \<Rightarrow> \<exists>l rest. lr_pending r @ chunk_bytes (lr_input r) = l @ rest \<and> newline \<notin> set l \<and>
         (lr_max_line r < length l \<or> \<not> utf8 l))"
  using assms
proof (induction utf8 r rule: next_line.induct)
  case (1 utf8 r)
  show ?case
  proof (cases "lr_input r")
    case Nil
    then show ?thesis using 1(2-) by (auto simp: next_line.simps)
  next
    case (Cons c rest)
    with 1(3) obtain b where c: "c = Bytes b" "b \<noteq> []" "data_only rest" by (cases c) auto
    show ?thesis
    proof (cases "split_once newline b")
      case (Some lm)
      obtain line tail where lm: "lm = (line, tail)" by (cases lm)
      with Some have b: "b = line @ newline # tail" "newline \<notin> set line"
        using split_once_Some[of newline b line tail] by simp_all
      have res: "(p, r') = take_utf8 utf8 (r\<lparr>lr_pending := lr_pending r @ line,
          lr_input := (if tail = [] then rest else Bytes tail # rest)\<rparr>)"
        using 1(2) Cons c Some lm by (simp add: next_line.simps[of utf8 r])
      show ?thesis
      proof (cases "utf8 (lr_pending r @ line)")
        case True
        then show ?thesis using res Cons c b 1(4) by (auto simp: take_utf8_def)
      next
        case False
        have cut: "lr_pending r @ chunk_bytes (lr_input r) =
            (lr_pending r @ line) @ (newline # tail @ chunk_bytes rest)"
          using Cons c b by simp
        have "newline \<notin> set (lr_pending r @ line)" using b 1(4) by simp
        with cut False have "\<exists>l rest. lr_pending r @ chunk_bytes (lr_input r) = l @ rest \<and>
            newline \<notin> set l \<and> (lr_max_line r < length l \<or> \<not> utf8 l)" by blast
        then show ?thesis using res Cons c False by (simp add: take_utf8_def)
      qed
    next
      case None
      let ?r = "r\<lparr>lr_pending := lr_pending r @ b, lr_input := rest\<rparr>"
      have nb: "newline \<notin> set b" using None by (simp add: split_once_None)
      show ?thesis
      proof (cases "lr_max_line r < length (lr_pending ?r)")
        case True
        then have "\<exists>l rest'. lr_pending r @ chunk_bytes (lr_input r) = l @ rest' \<and>
            newline \<notin> set l \<and> (lr_max_line r < length l \<or> \<not> utf8 l)"
          using Cons c 1(4) nb by (intro exI[of _ "lr_pending r @ b"] exI[of _ "chunk_bytes rest"]) simp
        then show ?thesis using True 1(2,4) Cons c None
          by (auto simp: next_line.simps[of utf8 r] Let_def)
      next
        case False
        then have "next_line utf8 ?r = (p, r')"
          using 1(2) Cons c None by (simp add: next_line.simps[of utf8 r] Let_def)
        from 1(1)[OF Cons c(1) c(2) None refl _ this] False c nb 1(4) Cons
        show ?thesis by (cases p) auto
      qed
    qed
  qed
qed

definition life_ok :: "(string \<Rightarrow> bool) \<Rightarrow> string \<Rightarrow> line_life \<Rightarrow> bool" where
  "life_ok utf8 sent s \<longleftrightarrow>
     data_only (lr_input (ln_reader s)) \<and> newline \<notin> set (lr_pending (ln_reader s)) \<and>
     (\<forall>l \<in> set (ln_lines s). newline \<notin> set l \<and> utf8 l) \<and>
     (\<not> ln_failed s \<longrightarrow>
        sent = terminated (ln_lines s) @ lr_pending (ln_reader s) @ chunk_bytes (lr_input (ln_reader s)))"

lemma terminated_snoc [simp]: "terminated (ls @ [l]) = terminated ls @ l @ [newline]"
  by (simp add: terminated_def)

lemma line_step_ok:
  assumes "life_ok utf8 sent s"
  shows "life_ok utf8 (sent @ arrived [i]) (line_step utf8 i s)"
proof (cases i)
  case (Arrive b)
  then show ?thesis using assms by (simp add: life_ok_def arrived_def)
next
  case PollLine
  obtain p r where n: "next_line utf8 (ln_reader s) = (p, r)" by force
  have ok: "data_only (lr_input (ln_reader s))" "newline \<notin> set (lr_pending (ln_reader s))"
    using assms by (simp_all add: life_ok_def)
  from next_line_bytes[OF n ok] assms show ?thesis
    by (cases p) (auto simp: PollLine n life_ok_def arrived_def)
qed

lemma line_run_ok: "life_ok utf8 (arrived is) (line_run utf8 m is)"
proof (induction "is" rule: rev_induct)
  case Nil
  show ?case by (simp add: life_ok_def line_run_def line_start_def arrived_def terminated_def)
next
  case (snoc i js)
  have "arrived (js @ [i]) = arrived js @ arrived [i]" by (simp add: arrived_def)
  with line_step_ok[OF snoc, of i] show ?case by (simp add: line_run_def)
qed

text \<open>
  (lines do not depend on how they arrive). However the bytes are cut into chunks and
  whenever the polls come, while no poll has failed the lines handed out, each with its
  newline, followed by the bytes held back and those still unread, are exactly the bytes that
  arrived; no line handed out holds a newline.
\<close>

theorem lines_reassembled:
  assumes "\<not> ln_failed (line_run utf8 m is)"
  shows "arrived is = terminated (ln_lines (line_run utf8 m is)) @
      lr_pending (ln_reader (line_run utf8 m is)) @ chunk_bytes (lr_input (ln_reader (line_run utf8 m is))) \<and>
    newline \<notin> set (lr_pending (ln_reader (line_run utf8 m is))) \<and>
    (\<forall>l \<in> set (ln_lines (line_run utf8 m is)). newline \<notin> set l)"
  using line_run_ok[of utf8 "is" m] assms by (simp add: life_ok_def)

theorem lines_reassembled_witness:
  "ln_lines (line_run (\<lambda>_. True) 10 [Arrive ''ab'', PollLine, Arrive [CHR ''c'', newline, CHR ''d''], PollLine, PollLine]) = [''abc''] \<and>
   arrived [Arrive ''ab'', PollLine, Arrive [CHR ''c'', newline, CHR ''d''], PollLine, PollLine] =
     terminated [''abc''] @ ''d''"
proof -
  let ?is = "[Arrive ''ab'', PollLine, Arrive [CHR ''c'', newline, CHR ''d''], PollLine, PollLine]"
  have r: "line_run (\<lambda>_. True) 10 ?is =
      \<lparr>ln_reader = \<lparr>lr_input = [], lr_pending = ''d'', lr_max_line = 10\<rparr>, ln_lines = [''abc''], ln_failed = False\<rparr>"
    by (simp add: line_run_def line_start_def next_line.simps newline_def take_utf8_def)
  then show ?thesis using lines_reassembled[of "\<lambda>_. True" 10 ?is] by (simp only: r) simp
qed

end
