(* ===== verification/EventKernel.thy ===== *)
theory EventKernel
  imports HerdrControl LineReader "HOL-Library.AList"
begin

text \<open>
  The herdr event kernel, \<open>muxrd/src/multiplexer/herdr/subscribe.rs\<close>: reading herdr's pushed
  lines, the tables it keeps, the resync, the liveness probe, and what each pushed line does.
  The loop that keeps its two subscriptions up is in \<open>EventLoop\<close>. The JSON parser is the
  parameter \<open>parse\<close>; times are milliseconds.
\<close>

subsection \<open>Tunables\<close>

record tuning =
  tn_initial_backoff :: nat
  tn_max_backoff :: nat
  tn_stable_threshold :: nat
  tn_ack_timeout :: nat
  tn_grow_coalesce_window :: nat
  tn_grow_storm_window :: nat
  tn_grow_storm_threshold :: nat
  tn_probe_interval :: nat
  tn_probe_strikes :: nat

definition default_tuning :: tuning where
  "default_tuning =
     \<lparr>tn_initial_backoff = 1000, tn_max_backoff = 60000, tn_stable_threshold = 60000, tn_ack_timeout = 10000,
      tn_grow_coalesce_window = 250, tn_grow_storm_window = 30000, tn_grow_storm_threshold = 8,
      tn_probe_interval = 60000, tn_probe_strikes = 2\<rparr>"

definition next_backoff :: "nat \<Rightarrow> nat \<Rightarrow> nat" where
  "next_backoff prev m = min (prev * 2) m"

definition record_grow_and_check_storm :: "nat list \<Rightarrow> nat \<Rightarrow> nat \<Rightarrow> nat \<Rightarrow> nat list \<times> bool" where
  "record_grow_and_check_storm history now window threshold =
     (let kept = filter (\<lambda>t. now - t < window) history @ [now]
      in (kept, threshold < length kept))"

subsection \<open>Parsing pushed lines\<close>

datatype pushed =
    PushedStatus agent_status_changed
  | PushedCreated "string option"
  | PushedGone "string option" "32 word option"
  | PushedLayout string string
  | PushIgnored

datatype pane_change = Created "string option" | Closed "string option"

definition underscored :: "string \<Rightarrow> string" where
  "underscored s = map (\<lambda>c. if c = CHR ''.'' then CHR ''_'' else c) s"

definition pushed_envelope :: "(string \<Rightarrow> json option) \<Rightarrow> string \<Rightarrow> (string \<times> json option) option" where
  "pushed_envelope parse line =
     (if line = [] then None
      else (case parse line of
              None \<Rightarrow> None
            | Some v \<Rightarrow> map_option (\<lambda>e. (underscored e, jget ''data'' v)) (jget_str ''event'' v)))"

definition stream_error :: "(string \<Rightarrow> json option) \<Rightarrow> string \<Rightarrow> (string \<times> string) option" where
  "stream_error parse line =
     (case Option.bind (parse line) (jget ''error'') of
        Some (JObject kvs) \<Rightarrow>
          Some (case jget_str ''code'' (JObject kvs) of Some c \<Rightarrow> c | None \<Rightarrow> ''unknown'',
                case jget_str ''message'' (JObject kvs) of Some m \<Rightarrow> m | None \<Rightarrow> ''no message'')
      | _ \<Rightarrow> None)"

definition pane_gone_id :: "json option \<Rightarrow> string option" where
  "pane_gone_id data = Option.bind data (\<lambda>d.
     or_else (jget_str ''pane_id'' d) (Option.bind (jget ''pane'' d) (jget_str ''pane_id'')))"

definition pane_created_id :: "json option \<Rightarrow> string option" where
  "pane_created_id data = Option.bind data (\<lambda>d.
     or_else (Option.bind (jget ''pane'' d) (jget_str ''pane_id'')) (jget_str ''pane_id'' d))"

text \<open>The kind a push reports, or none; unlike the inventory's it invents nothing.\<close>

definition push_agent_kind :: "string option \<Rightarrow> string option \<Rightarrow> string option" where
  "push_agent_kind agent display_agent = or_else (non_empty agent) (non_empty display_agent)"

definition translate_pane :: "pane_inner \<Rightarrow> string \<Rightarrow> string option \<Rightarrow> pane_inner \<times> 32 word" where
  "translate_pane panes herdr_pane terminal =
     (case id_for_herdr_pane panes herdr_pane of
        Some i \<Rightarrow> (panes, i)
      | None \<Rightarrow> assign_or_get panes herdr_pane (or_empty terminal))"

definition parse_agent_status :: "json option \<Rightarrow> pane_inner \<Rightarrow> pushed \<times> pane_inner" where
  "parse_agent_status data panes =
     (case data of
        None \<Rightarrow> (PushIgnored, panes)
      | Some d \<Rightarrow>
          (case (jget_str ''pane_id'' d, jget_str ''workspace_id'' d,
                 Option.bind (jget ''agent_status'' d) herdr_status_of_json) of
             (Some pane, Some ws, Some status) \<Rightarrow>
               (let (panes', i) = translate_pane panes pane None
                in (PushedStatus
                      \<lparr>ev_pane = i, ev_workspace_id = ws, ev_workspace_name = None,
                       ev_status = neutral_status status, ev_title = jget_str ''title'' d,
                       ev_kind = push_agent_kind (jget_str ''agent'' d) (jget_str ''display_agent'' d),
                       ev_name = non_empty (jget_str ''name'' d), ev_tab = None, ev_synthetic = False\<rparr>,
                    panes'))
           | _ \<Rightarrow> (PushIgnored, panes)))"

definition parse_layout_updated :: "json option \<Rightarrow> pushed" where
  "parse_layout_updated data =
     (case Option.bind data (jget ''layout'') of
        None \<Rightarrow> PushIgnored
      | Some l \<Rightarrow>
          (case (jget_str ''workspace_id'' l, jget_str ''tab_id'' l) of
             (Some ws, Some tab) \<Rightarrow> PushedLayout ws tab
           | _ \<Rightarrow> PushIgnored))"

definition parse_pane_gone :: "json option \<Rightarrow> pane_inner \<Rightarrow> pushed" where
  "parse_pane_gone data panes =
     (case pane_gone_id data of
        None \<Rightarrow> PushIgnored
      | Some h \<Rightarrow> PushedGone (Some h) (id_for_herdr_pane panes h))"

definition classify_pushed :: "(string \<Rightarrow> json option) \<Rightarrow> string \<Rightarrow> pane_inner \<Rightarrow> pushed \<times> pane_inner" where
  "classify_pushed parse line panes =
     (case pushed_envelope parse line of
        None \<Rightarrow> (PushIgnored, panes)
      | Some (event, data) \<Rightarrow>
          if event = ''pane_agent_status_changed'' then parse_agent_status data panes
          else if event = ''pane_created'' then (PushedCreated (pane_created_id data), panes)
          else if event = ''pane_closed'' \<or> event = ''pane_exited'' then (parse_pane_gone data panes, panes)
          else if event = ''layout_updated'' then (parse_layout_updated data, panes)
          else (PushIgnored, panes))"

definition lifecycle_change :: "(string \<Rightarrow> json option) \<Rightarrow> string \<Rightarrow> pane_change option" where
  "lifecycle_change parse line =
     (case pushed_envelope parse line of
        None \<Rightarrow> None
      | Some (event, data) \<Rightarrow>
          if event = ''pane_created'' then Some (Created (pane_created_id data))
          else if event = ''pane_closed'' \<or> event = ''pane_exited'' then Some (Closed (pane_gone_id data))
          else None)"

definition is_subscription_ack :: "(string \<Rightarrow> json option) \<Rightarrow> string \<Rightarrow> bool" where
  "is_subscription_ack parse line \<longleftrightarrow>
     Option.bind (Option.bind (parse line) (jget ''result'')) (jget_str ''type'') = Some ''subscription_started''"

definition subscribe_error :: "(string \<Rightarrow> json option) \<Rightarrow> string \<Rightarrow> json option" where
  "subscribe_error parse line = Option.bind (parse line) (jget ''error'')"

subsection \<open>Subscription requests\<close>

definition events_request :: "string \<Rightarrow> json list \<Rightarrow> api_request" where
  "events_request i subs =
     \<lparr>rq_id = i, rq_method = ''events.subscribe'', rq_params = JObject [(''subscriptions'', JArray subs)]\<rparr>"

definition lifecycle_request_line :: api_request where
  "lifecycle_request_line =
     events_request ''muxrd-events-lifecycle''
       (map (\<lambda>t. JObject [(''type'', JString t)])
          [''pane.created'', ''pane.closed'', ''pane.exited'', ''layout.updated''])"

definition agent_status_request_line :: "string list \<Rightarrow> api_request" where
  "agent_status_request_line pane_ids =
     events_request ''muxrd-events-agent-status''
       (map (\<lambda>p. JObject [(''type'', JString ''pane.agent_status_changed''), (''pane_id'', JString p)]) pane_ids)"

text \<open>
  The pane set of the status connection: the enumeration, the panes announced meanwhile in
  order, less the panes reported gone.
\<close>

fun announced :: "(string \<Rightarrow> json option) \<Rightarrow> string list \<Rightarrow> string list \<Rightarrow> string list" where
  "announced parse ids [] = ids"
| "announced parse ids (line # lines) =
     (case lifecycle_change parse line of
        Some (Created (Some p)) \<Rightarrow> announced parse (if p \<in> set ids then ids else ids @ [p]) lines
      | _ \<Rightarrow> announced parse ids lines)"

definition is_gone :: "(string \<Rightarrow> json option) \<Rightarrow> string list \<Rightarrow> string \<Rightarrow> bool" where
  "is_gone parse lines p \<longleftrightarrow> list_ex (\<lambda>line. lifecycle_change parse line = Some (Closed (Some p))) lines"

definition bootstrap_pane_set :: "(string \<Rightarrow> json option) \<Rightarrow> string list \<Rightarrow> string list \<Rightarrow> string list" where
  "bootstrap_pane_set parse enumerated buffered =
     filter (\<lambda>p. \<not> is_gone parse buffered p) (announced parse enumerated buffered)"

definition pane_needs_widening :: "string option \<Rightarrow> string set \<Rightarrow> bool" where
  "pane_needs_widening pane subscribed \<longleftrightarrow> (case pane of Some p \<Rightarrow> p \<notin> subscribed | None \<Rightarrow> True)"

subsection \<open>The kernel's tables and what it publishes\<close>

text \<open>\<open>kn_bus\<close> records what was sent on the bus, oldest first; the registries are the client's.\<close>

record kernel =
  kn_client :: client
  kn_last_status :: "(32 word \<times> agent_status) list"
  kn_pane_tabs :: "(32 word \<times> 64 word) list"
  kn_bus :: "mux_event list"

definition send_event :: "mux_event \<Rightarrow> kernel \<Rightarrow> kernel" where
  "send_event e k = k\<lparr>kn_bus := kn_bus k @ [e]\<rparr>"

definition publish :: "agent_status_changed \<Rightarrow> kernel \<Rightarrow> kernel" where
  "publish ev k =
     (let k1 = k\<lparr>kn_last_status := AList.update (ev_pane ev) (ev_status ev) (kn_last_status k)\<rparr>;
          ev1 = (if ev_tab ev = None then ev\<lparr>ev_tab := map_of (kn_pane_tabs k1) (ev_pane ev)\<rparr> else ev)
      in send_event (AgentChanged ev1) k1)"

definition publish_closed :: "32 word \<Rightarrow> kernel \<Rightarrow> kernel" where
  "publish_closed pane k = send_event (PaneGone pane) k"

definition forget_pane :: "string option \<Rightarrow> 32 word option \<Rightarrow> kernel \<times> string set \<Rightarrow> kernel \<times> string set" where
  "forget_pane herdr_pane pane ks =
     ((case pane of
         Some i \<Rightarrow> publish_closed i
           ((fst ks)\<lparr>kn_last_status := AList.delete i (kn_last_status (fst ks)),
                     kn_pane_tabs := AList.delete i (kn_pane_tabs (fst ks))\<rparr>)
       | None \<Rightarrow> fst ks),
      (case herdr_pane of Some h \<Rightarrow> snd ks - {h} | None \<Rightarrow> snd ks))"

definition publish_layout :: "string \<Rightarrow> string \<Rightarrow> kernel \<Rightarrow> kernel" where
  "publish_layout ws herdr_tab k =
     (let (tabs, t) = tab_assign_or_get (cl_tabs (kn_client k)) herdr_tab
      in send_event (LayoutMoved \<lparr>lc_workspace_id = ws, lc_tab = t\<rparr>)
           (k\<lparr>kn_client := (kn_client k)\<lparr>cl_tabs := tabs\<rparr>\<rparr>))"

subsection \<open>Enumerations, the resync and the probe\<close>

text \<open>Every workspace's panes, with the workspace.\<close>

fun panes_of :: "'d herdr \<Rightarrow> workspace_info list \<Rightarrow> 'd \<times> client \<Rightarrow> ((workspace_info \<times> pane_info) list, 'd) ctl" where
  "panes_of h [] s = (Inr [], s)"
| "panes_of h (w # ws) s =
     and_then (list_panes h (wi_id w) s) (\<lambda>ps s1.
     and_then (panes_of h ws s1) (\<lambda>rest s2. (Inr (map (\<lambda>p. (w, p)) ps @ rest), s2)))"

definition all_panes :: "'d herdr \<Rightarrow> 'd \<times> client \<Rightarrow> ((workspace_info \<times> pane_info) list, 'd) ctl" where
  "all_panes h s = and_then (list_workspaces h s) (\<lambda>ws. panes_of h ws)"

definition collect_pane_ids :: "'d herdr \<Rightarrow> 'd \<times> client \<Rightarrow> (string list, 'd) ctl" where
  "collect_pane_ids h s = and_then (all_panes h s) (\<lambda>ps s'. (Inr (map (pi_id \<circ> snd) ps), s'))"

record resync_pane =
  rp_herdr_pane_id :: string
  rp_terminal_id :: string
  rp_workspace_id :: string
  rp_workspace_label :: string
  rp_tab_id :: string
  rp_title :: "string option"
  rp_agent :: "string option"
  rp_display_agent :: "string option"
  rp_status :: herdr_status

definition resync_pane_of :: "workspace_info \<times> pane_info \<Rightarrow> resync_pane" where
  "resync_pane_of wp =
     (case wp of (w, p) \<Rightarrow>
       \<lparr>rp_herdr_pane_id = pi_id p, rp_terminal_id = pi_terminal_id p, rp_workspace_id = wi_id w,
        rp_workspace_label = wi_label w, rp_tab_id = pi_tab_id p, rp_title = pi_title p, rp_agent = pi_agent p,
        rp_display_agent = pi_display_agent p, rp_status = pi_agent_status p\<rparr>)"

record resync_events =
  re_closed :: "32 word list"
  re_changed :: "agent_status_changed list"

definition into_bus_events :: "resync_events \<Rightarrow> mux_event list" where
  "into_bus_events e = map PaneGone (re_closed e) @ map AgentChanged (re_changed e)"

text \<open>One pane of the listing: register it, refresh the tables, report a status that moved.\<close>

record resync_state =
  rs_panes :: pane_inner
  rs_tabs :: tab_inner
  rs_last :: "(32 word \<times> agent_status) list"
  rs_pane_tabs :: "(32 word \<times> 64 word) list"
  rs_live :: "32 word list"
  rs_events :: "agent_status_changed list"

definition resync_one :: "resync_state \<Rightarrow> resync_pane \<Rightarrow> resync_state" where
  "resync_one s p =
     (let (panes, i) = assign_or_get (rs_panes s) (rp_herdr_pane_id p) (rp_terminal_id p);
          (tabs, tab) = (if rp_tab_id p = [] then (rs_tabs s, None)
                         else (case tab_assign_or_get (rs_tabs s) (rp_tab_id p) of (t, j) \<Rightarrow> (t, Some j)));
          status = neutral_status (rp_status p);
          changed = (map_of (rs_last s) i \<noteq> Some status)
      in s\<lparr>rs_panes := panes, rs_tabs := tabs, rs_live := i # rs_live s,
           rs_pane_tabs := (case tab of Some j \<Rightarrow> AList.update i j (rs_pane_tabs s)
                                      | None \<Rightarrow> AList.delete i (rs_pane_tabs s)),
           rs_last := AList.update i status (rs_last s),
           rs_events := (if changed
             then rs_events s @ [\<lparr>ev_pane = i, ev_workspace_id = rp_workspace_id p,
               ev_workspace_name = Some (rp_workspace_label p), ev_status = status, ev_title = rp_title p,
               ev_kind = push_agent_kind (rp_agent p) (rp_display_agent p), ev_name = None, ev_tab = tab,
               ev_synthetic = True\<rparr>]
             else rs_events s)\<rparr>)"

definition build_resync_events :: "resync_pane list \<Rightarrow> resync_state \<Rightarrow> resync_events \<times> resync_state" where
  "build_resync_events input s0 =
     (let s = foldl resync_one (s0\<lparr>rs_live := [], rs_events := []\<rparr>) input;
          live = rs_live s;
          closed = sort (remdups (filter (\<lambda>i. i \<notin> set live) (map fst (rs_last s) @ map fst (rs_pane_tabs s))))
      in (\<lparr>re_closed = closed, re_changed = rs_events s\<rparr>,
          s\<lparr>rs_last := filter (\<lambda>(i, _). i \<in> set live) (rs_last s),
            rs_pane_tabs := filter (\<lambda>(i, _). i \<in> set live) (rs_pane_tabs s)\<rparr>))"

text \<open>
  The resync: the listing on the client's registries, the events, then \<open>Resynced\<close>, also when
  the listing failed (or its task panicked).
\<close>

definition resync :: "'d herdr \<Rightarrow> 'd \<times> kernel \<Rightarrow> 'd \<times> kernel" where
  "resync h dk =
     (case all_panes h (fst dk, kn_client (snd dk)) of
        (Inl _, d, c) \<Rightarrow> (d, send_event Resynced ((snd dk)\<lparr>kn_client := c\<rparr>))
      | (Inr ps, d, c) \<Rightarrow>
          (let k = snd dk;
               (ev, s) = build_resync_events (map resync_pane_of ps)
                 \<lparr>rs_panes = cl_panes c, rs_tabs = cl_tabs c, rs_last = kn_last_status k,
                  rs_pane_tabs = kn_pane_tabs k, rs_live = [], rs_events = []\<rparr>
           in (d, send_event Resynced
                 (k\<lparr>kn_client := c\<lparr>cl_panes := rs_panes s, cl_tabs := rs_tabs s\<rparr>,
                    kn_last_status := rs_last s, kn_pane_tabs := rs_pane_tabs s,
                    kn_bus := kn_bus k @ into_bus_events ev\<rparr>))))"

record probe_pane =
  pp_herdr_pane_id :: string
  pp_pane :: "32 word option"
  pp_status :: agent_status

definition probe_pane_of :: "pane_inner \<Rightarrow> workspace_info \<times> pane_info \<Rightarrow> probe_pane" where
  "probe_pane_of panes wp =
     \<lparr>pp_herdr_pane_id = pi_id (snd wp), pp_pane = id_for_herdr_pane panes (pi_id (snd wp)),
      pp_status = neutral_status (pi_agent_status (snd wp))\<rparr>"

datatype verdict = Healthy | LifecycleWedged | StatusWedged

definition status_moved :: "(32 word \<times> agent_status) list \<Rightarrow> probe_pane \<Rightarrow> bool" where
  "status_moved table p \<longleftrightarrow>
     (case Option.bind (pp_pane p) (map_of table) of Some known \<Rightarrow> known \<noteq> pp_status p | None \<Rightarrow> False)"

fun watchdog_scan :: "probe_pane list \<Rightarrow> string set \<Rightarrow> (32 word \<times> agent_status) list \<Rightarrow> bool \<Rightarrow> verdict" where
  "watchdog_scan [] subscribed table wedged = (if wedged then StatusWedged else Healthy)"
| "watchdog_scan (p # ps) subscribed table wedged =
     (if pp_herdr_pane_id p \<notin> subscribed then LifecycleWedged
      else watchdog_scan ps subscribed table (wedged \<or> status_moved table p))"

definition watchdog_verdict :: "probe_pane list \<Rightarrow> string set \<Rightarrow> (32 word \<times> agent_status) list \<Rightarrow> verdict" where
  "watchdog_verdict observed subscribed table = watchdog_scan observed subscribed table False"

definition liveness_probe :: "'d herdr \<Rightarrow> string set \<Rightarrow> 'd \<times> kernel \<Rightarrow> verdict option \<times> 'd \<times> kernel" where
  "liveness_probe h subscribed dk =
     (case all_panes h (fst dk, kn_client (snd dk)) of
        (Inl _, d, c) \<Rightarrow> (None, d, (snd dk)\<lparr>kn_client := c\<rparr>)
      | (Inr ps, d, c) \<Rightarrow>
          (Some (watchdog_verdict (map (probe_pane_of (cl_panes c)) ps) subscribed (kn_last_status (snd dk))),
           d, (snd dk)\<lparr>kn_client := c\<rparr>))"

end
