(* ===== verification/EventTables.thy ===== *)
theory EventTables
  imports EventKernel
begin

text \<open>
  What the tables of the herdr event kernel promise: the bus tells exactly what the status table
  holds, a repeated resync is silent, a push never touches the terminal of a known pane, and
  pruning the widening history does not change what the storm breaker decides.
\<close>

subsection \<open>The bus tells the table\<close>

text \<open>What a reader of the bus knows of each pane's status.\<close>

fun told :: "(32 word \<rightharpoonup> agent_status) \<Rightarrow> mux_event \<Rightarrow> (32 word \<rightharpoonup> agent_status)" where
  "told m (AgentChanged ev) = m(ev_pane ev \<mapsto> ev_status ev)"
| "told m (PaneGone i) = m(i := None)"
| "told m (LayoutMoved l) = m"
| "told m Resynced = m"

definition bus_view :: "mux_event list \<Rightarrow> (32 word \<rightharpoonup> agent_status)" where
  "bus_view es = foldl told Map.empty es"

definition truthful :: "kernel \<Rightarrow> bool" where
  "truthful k \<longleftrightarrow> bus_view (kn_bus k) = map_of (kn_last_status k)"

lemma told_gone: "foldl told m (map PaneGone is) = (\<lambda>i. if i \<in> set is then None else m i)"
  by (induction "is" arbitrary: m) auto

lemma told_changed_elsewhere:
  "i \<notin> ev_pane ` set evs \<Longrightarrow> foldl told m (map AgentChanged evs) i = m i"
  by (induction evs arbitrary: m) auto

lemma told_changed_cong:
  "m i = m' i \<Longrightarrow> foldl told m (map AgentChanged evs) i = foldl told m' (map AgentChanged evs) i"
proof (induction evs arbitrary: m m')
  case (Cons ev evs)
  show ?case by (simp, rule Cons.IH) (simp add: Cons.prems)
qed simp

lemma truthful_publish: "truthful k \<Longrightarrow> truthful (publish ev k)"
  by (simp add: truthful_def bus_view_def publish_def send_event_def Let_def update_conv')

lemma truthful_layout: "truthful k \<Longrightarrow> truthful (publish_layout ws tab k)"
  by (simp add: truthful_def bus_view_def publish_layout_def send_event_def split: prod.split)

lemma truthful_forget: "truthful k \<Longrightarrow> truthful (fst (forget_pane hp i (k, subs)))"
  by (cases i) (simp_all add: truthful_def bus_view_def forget_pane_def publish_closed_def send_event_def
      delete_conv')

lemma truthful_frame [simp]:
  "truthful (k\<lparr>kn_client := c\<rparr>) \<longleftrightarrow> truthful k"
  "truthful (k\<lparr>kn_pane_tabs := t\<rparr>) \<longleftrightarrow> truthful k"
  "truthful (send_event Resynced k) \<longleftrightarrow> truthful k"
  by (simp_all add: truthful_def bus_view_def send_event_def)

text \<open>One listed pane: the events so far, told over any view that agrees on the pane, give the table.\<close>

lemma resync_one_told:
  assumes "foldl told m (map AgentChanged (rs_events s)) = map_of (rs_last s)"
  shows "foldl told m (map AgentChanged (rs_events (resync_one s p))) = map_of (rs_last (resync_one s p))"
proof -
  obtain panes i where a: "assign_or_get (rs_panes s) (rp_herdr_pane_id p) (rp_terminal_id p) = (panes, i)"
    by (metis surj_pair)
  have "map_of (rs_last s) i = Some st \<Longrightarrow> (map_of (rs_last s))(i \<mapsto> st) = map_of (rs_last s)" for st
    by (auto simp: fun_eq_iff)
  then show ?thesis using assms
    by (simp add: resync_one_def a Let_def update_conv' split: prod.split)
qed

lemma resync_fold_told:
  "foldl told m (map AgentChanged (rs_events s)) = map_of (rs_last s) \<Longrightarrow>
   foldl told m (map AgentChanged (rs_events (foldl resync_one s input))) = map_of (rs_last (foldl resync_one s input))"
  by (induction input arbitrary: s) (simp_all add: resync_one_told)

lemma resync_one_live:
  assumes "ev_pane ` set (rs_events s) \<subseteq> set (rs_live s)"
  shows "ev_pane ` set (rs_events (resync_one s p)) \<subseteq> set (rs_live (resync_one s p))"
  using assms by (auto simp: resync_one_def Let_def split: prod.split)

lemma resync_fold_live:
  "ev_pane ` set (rs_events s) \<subseteq> set (rs_live s) \<Longrightarrow>
   ev_pane ` set (rs_events (foldl resync_one s input)) \<subseteq> set (rs_live (foldl resync_one s input))"
  by (induction input arbitrary: s) (simp_all add: resync_one_live)

lemma map_of_filter_live:
  "map_of (filter (\<lambda>(i, _). i \<in> A) xs) i = (if i \<in> A then map_of xs i else None)"
  by (induction xs) auto

lemma build_resync_told:
  assumes b: "build_resync_events input s0 = (ev, s)"
  shows "foldl told (map_of (rs_last s0)) (into_bus_events ev) = map_of (rs_last s)"
proof -
  define s1 where "s1 = foldl resync_one (s0\<lparr>rs_live := [], rs_events := []\<rparr>) input"
  let ?m = "map_of (rs_last s0)"
  have t: "foldl told ?m (map AgentChanged (rs_events s1)) = map_of (rs_last s1)"
    unfolding s1_def by (rule resync_fold_told) simp
  have l: "ev_pane ` set (rs_events s1) \<subseteq> set (rs_live s1)"
    unfolding s1_def by (rule resync_fold_live) simp
  let ?gone = "\<lambda>i. i \<notin> set (rs_live s1) \<and> (i \<in> fst ` set (rs_last s1) \<or> i \<in> fst ` set (rs_pane_tabs s1))"
  have "re_closed ev = sort (remdups (filter (\<lambda>i. i \<notin> set (rs_live s1))
      (map fst (rs_last s1) @ map fst (rs_pane_tabs s1))))"
    using b by (auto simp: build_resync_events_def s1_def[symmetric] Let_def)
  then have closed: "set (re_closed ev) = {i. ?gone i}"
    by (simp only: set_sort set_remdups set_filter set_append set_map) blast
  have changed: "re_changed ev = rs_events s1"
    and last: "rs_last s = filter (\<lambda>(i, _). i \<in> set (rs_live s1)) (rs_last s1)"
    using b by (auto simp: build_resync_events_def s1_def[symmetric] Let_def)
  show ?thesis
  proof
    fix i
    let ?m' = "\<lambda>i. if i \<in> set (re_closed ev) then None else ?m i"
    have "foldl told ?m (into_bus_events ev) i = foldl told ?m' (map AgentChanged (rs_events s1)) i"
      by (simp add: into_bus_events_def told_gone changed)
    also have "\<dots> = map_of (rs_last s) i"
    proof (cases "i \<in> set (rs_live s1)")
      case True
      then have "?m' i = ?m i" by (simp add: closed)
      then show ?thesis using True t told_changed_cong[of ?m' i ?m]
        by (simp add: last map_of_filter_live)
    next
      case False
      then have out: "i \<notin> ev_pane ` set (rs_events s1)" using l by auto
      have "i \<notin> set (re_closed ev) \<Longrightarrow> map_of (rs_last s1) i = None"
        using False by (simp add: closed map_of_eq_None_iff)
      then have "i \<notin> set (re_closed ev) \<Longrightarrow> ?m i = None"
        using told_changed_elsewhere[OF out, of ?m] t by simp
      then show ?thesis using False told_changed_elsewhere[OF out, of ?m']
        by (simp add: last map_of_filter_live)
    qed
    finally show "foldl told ?m (into_bus_events ev) i = map_of (rs_last s) i" .
  qed
qed

lemma truthful_resync:
  assumes "truthful k"
  shows "truthful (snd (resync h (d, k)))"
proof -
  obtain r d' c where a: "all_panes h (d, kn_client k) = (r, d', c)" by (metis surj_pair)
  show ?thesis
  proof (cases r)
    case (Inl e)
    then show ?thesis using assms a by (simp add: resync_def)
  next
    case (Inr ps)
    define s0 where "s0 = \<lparr>rs_panes = cl_panes c, rs_tabs = cl_tabs c, rs_last = kn_last_status k,
                  rs_pane_tabs = kn_pane_tabs k, rs_live = [], rs_events = []\<rparr>"
    obtain ev s where b: "build_resync_events (map resync_pane_of ps) s0 = (ev, s)" by (metis surj_pair)
    have "foldl told (bus_view (kn_bus k)) (into_bus_events ev) = map_of (rs_last s)"
      using build_resync_told[OF b] assms by (simp add: truthful_def s0_def)
    then show ?thesis using a Inr b
      by (simp add: resync_def s0_def[symmetric]) (simp add: truthful_def bus_view_def send_event_def)
  qed
qed

lemma truthful_probe: "truthful k \<Longrightarrow> truthful (snd (snd (liveness_probe h subs (d, k))))"
  by (simp add: liveness_probe_def split: prod.split sum.split)

subsection \<open>A second resync is silent\<close>

text \<open>A listed pane the kernel has taken in: it has an id, is live, and its status is in the table.\<close>

definition settled :: "resync_state \<Rightarrow> resync_pane \<Rightarrow> bool" where
  "settled s p \<longleftrightarrow>
     (\<exists>i. id_for_herdr_pane (rs_panes s) (rp_herdr_pane_id p) = Some i \<and>
          map_of (rs_last s) i = Some (neutral_status (rp_status p)))"

definition is_live :: "resync_state \<Rightarrow> resync_pane \<Rightarrow> bool" where
  "is_live s p \<longleftrightarrow> (\<exists>i \<in> set (rs_live s). id_for_herdr_pane (rs_panes s) (rp_herdr_pane_id p) = Some i)"

definition tracked :: "resync_state \<Rightarrow> 32 word set" where
  "tracked s = dom (map_of (rs_last s)) \<union> dom (map_of (rs_pane_tabs s))"

lemma resync_one_fields:
  assumes "assign_or_get (rs_panes s) (rp_herdr_pane_id p) (rp_terminal_id p) = (panes, i)"
  shows "rs_panes (resync_one s p) = panes" "rs_live (resync_one s p) = i # rs_live s"
    "map_of (rs_last (resync_one s p)) = (map_of (rs_last s))(i \<mapsto> neutral_status (rp_status p))"
    "map_of (rs_last s) i = Some (neutral_status (rp_status p)) \<Longrightarrow> rs_events (resync_one s p) = rs_events s"
    "tracked (resync_one s p) \<subseteq> insert i (tracked s)"
  using assms
  by (auto simp: resync_one_def tracked_def Let_def update_conv' delete_conv' split: prod.splits if_splits)

lemma resync_one_settles:
  assumes inv: "pane_inv (rs_panes s)" and room: "0 < pane_room (rs_panes s)"
  shows "settled (resync_one s p) p" "is_live (resync_one s p) p" "pane_inv (rs_panes (resync_one s p))"
    "pane_room (rs_panes s) \<le> Suc (pane_room (rs_panes (resync_one s p)))"
    "settled s q \<Longrightarrow> rp_herdr_pane_id q \<noteq> rp_herdr_pane_id p \<Longrightarrow> settled (resync_one s p) q"
    "is_live s q \<Longrightarrow> is_live (resync_one s p) q"
proof -
  obtain panes i where a: "assign_or_get (rs_panes s) (rp_herdr_pane_id p) (rp_terminal_id p) = (panes, i)"
    by (metis surj_pair)
  have pa: "pane_assign (rs_panes s) (rp_herdr_pane_id p) (Fresh (rp_terminal_id p)) = (panes, i)"
    by (simp add: a)
  have got: "id_for_herdr_pane panes (rp_herdr_pane_id p) = Some i"
    using panes.assign_get[OF inv room, of "rp_herdr_pane_id p" "Fresh (rp_terminal_id p)"] by (simp add: a)
  have inv': "pane_inv panes"
    using panes.assign_inv[OF inv room, of "rp_herdr_pane_id p" "Fresh (rp_terminal_id p)"] by (simp add: a)
  have other: "id_for_herdr_pane (rs_panes s) h = Some j \<Longrightarrow> id_for_herdr_pane panes h = Some j" for h j
    using panes.assign_other[OF inv room, of h j "rp_herdr_pane_id p" "Fresh (rp_terminal_id p)"] by (simp add: a)
  show "settled (resync_one s p) p" "is_live (resync_one s p) p" "pane_inv (rs_panes (resync_one s p))"
    using got inv' by (simp_all add: settled_def is_live_def resync_one_fields[OF a])
  show "pane_room (rs_panes s) \<le> Suc (pane_room (rs_panes (resync_one s p)))"
    using panes.assign_room[of "rs_panes s" "rp_herdr_pane_id p" "Fresh (rp_terminal_id p)"]
    by (simp add: resync_one_fields[OF a] a)
  show "is_live s q \<Longrightarrow> is_live (resync_one s p) q"
    using other by (auto simp: is_live_def resync_one_fields[OF a])
  assume q: "settled s q" "rp_herdr_pane_id q \<noteq> rp_herdr_pane_id p"
  then obtain j where j: "id_for_herdr_pane (rs_panes s) (rp_herdr_pane_id q) = Some j"
    "map_of (rs_last s) j = Some (neutral_status (rp_status q))" by (auto simp: settled_def)
  then have "j \<noteq> i" using panes.get_inj[OF inv' other[OF j(1)]] got q(2) by auto
  then show "settled (resync_one s p) q"
    using j other[OF j(1)] by (auto simp: settled_def resync_one_fields[OF a])
qed

lemma resync_settles:
  assumes "distinct (map rp_herdr_pane_id (input @ rest))" "pane_inv (rs_panes s)"
    "length input \<le> pane_room (rs_panes s)" "\<forall>p \<in> set rest. settled s p \<and> is_live s p"
  shows "\<forall>p \<in> set (input @ rest). settled (foldl resync_one s input) p \<and> is_live (foldl resync_one s input) p"
  using assms
proof (induction input arbitrary: s rest)
  case (Cons p input)
  then have room: "0 < pane_room (rs_panes s)" by simp
  note st = resync_one_settles[OF Cons.prems(2) room]
  have "\<forall>q \<in> set (input @ (p # rest)). settled (foldl resync_one (resync_one s p) input) q \<and>
      is_live (foldl resync_one (resync_one s p) input) q"
  proof (rule Cons.IH)
    show "length input \<le> pane_room (rs_panes (resync_one s p))"
      using Cons.prems(3) st(4)[of p] by simp
    show "\<forall>q \<in> set (p # rest). settled (resync_one s p) q \<and> is_live (resync_one s p) q"
    proof
      fix q assume q: "q \<in> set (p # rest)"
      show "settled (resync_one s p) q \<and> is_live (resync_one s p) q"
      proof (cases "q = p")
        case True
        then show ?thesis using st(1,2) by simp
      next
        case False
        then have "q \<in> set rest" "rp_herdr_pane_id q \<noteq> rp_herdr_pane_id p"
          using q Cons.prems(1) by (auto, metis image_eqI)
        then show ?thesis using st(5,6)[of q p] Cons.prems(4) by blast
      qed
    qed
  qed (use Cons.prems st in auto)
  then show ?case by simp
qed simp

text \<open>Once all are settled, the listing changes nothing and every listed id is live.\<close>

lemma assign_known_frame:
  assumes "id_for_herdr_pane r h = Some i" "assign_or_get r h t = (panes, j)"
  shows "j = i" "id_for_herdr_pane panes = id_for_herdr_pane r"
  using assms by (auto simp: assign_or_get_def id_for_herdr_pane_def assign_inner_known)

lemma settled_resync_one:
  assumes "settled s p"
  shows "rs_events (resync_one s p) = rs_events s" "settled (resync_one s p) = settled s"
    "id_for_herdr_pane (rs_panes (resync_one s p)) = id_for_herdr_pane (rs_panes s)"
    "set (rs_live s) \<subseteq> set (rs_live (resync_one s p))" "is_live (resync_one s p) p"
    "tracked (resync_one s p) \<subseteq> tracked s"
proof -
  obtain panes i where a: "assign_or_get (rs_panes s) (rp_herdr_pane_id p) (rp_terminal_id p) = (panes, i)"
    by (metis surj_pair)
  obtain j where j: "id_for_herdr_pane (rs_panes s) (rp_herdr_pane_id p) = Some j"
    "map_of (rs_last s) j = Some (neutral_status (rp_status p))" using assms by (auto simp: settled_def)
  note k = assign_known_frame[OF j(1) a]
  note f = resync_one_fields[OF a]
  show "rs_events (resync_one s p) = rs_events s" using j(2) k(1) by (intro f(4)) simp
  have m: "map_of (rs_last (resync_one s p)) = map_of (rs_last s)"
    using j(2) k(1) by (auto simp: f fun_eq_iff)
  show g: "id_for_herdr_pane (rs_panes (resync_one s p)) = id_for_herdr_pane (rs_panes s)"
    by (simp add: f k)
  show "settled (resync_one s p) = settled s" by (simp add: fun_eq_iff settled_def g m)
  show "set (rs_live s) \<subseteq> set (rs_live (resync_one s p))" by (auto simp: f)
  show "is_live (resync_one s p) p" using j(1) k by (simp add: is_live_def f)
  have "i \<in> tracked s" using j(2) k(1) by (auto simp: tracked_def)
  then show "tracked (resync_one s p) \<subseteq> tracked s" using f(5) by auto
qed

lemma settled_resync_fold:
  "\<forall>p \<in> set input. settled s p \<Longrightarrow>
     rs_events (foldl resync_one s input) = rs_events s \<and>
     id_for_herdr_pane (rs_panes (foldl resync_one s input)) = id_for_herdr_pane (rs_panes s) \<and>
     set (rs_live s) \<subseteq> set (rs_live (foldl resync_one s input)) \<and>
     (\<forall>p \<in> set input. is_live (foldl resync_one s input) p) \<and>
     tracked (foldl resync_one s input) \<subseteq> tracked s"
proof (induction input arbitrary: s)
  case (Cons p input)
  have p: "settled s p" using Cons.prems by simp
  note one = settled_resync_one[OF p]
  have rest: "\<forall>q \<in> set input. settled (resync_one s p) q" using Cons.prems by (simp add: one)
  note ih = Cons.IH[OF rest]
  have "is_live (foldl resync_one (resync_one s p) input) p"
    using one(5) ih unfolding is_live_def by auto
  then show ?case using ih one by auto
qed simp

lemma resync_live_ids:
  "pane_inv (rs_panes s) \<Longrightarrow> length input \<le> pane_room (rs_panes s) \<Longrightarrow>
     (\<forall>h j. id_for_herdr_pane (rs_panes s) h = Some j \<longrightarrow>
        id_for_herdr_pane (rs_panes (foldl resync_one s input)) h = Some j) \<and>
     (\<forall>i \<in> set (rs_live (foldl resync_one s input)). i \<in> set (rs_live s) \<or>
        (\<exists>p \<in> set input. id_for_herdr_pane (rs_panes (foldl resync_one s input)) (rp_herdr_pane_id p) = Some i))"
proof (induction input arbitrary: s)
  case (Cons p input)
  then have room: "0 < pane_room (rs_panes s)" by simp
  note st = resync_one_settles[OF Cons.prems(1) room]
  obtain panes i where a: "assign_or_get (rs_panes s) (rp_herdr_pane_id p) (rp_terminal_id p) = (panes, i)"
    by (metis surj_pair)
  have got: "id_for_herdr_pane panes (rp_herdr_pane_id p) = Some i"
    using panes.assign_get[OF Cons.prems(1) room, of "rp_herdr_pane_id p" "Fresh (rp_terminal_id p)"]
    by (simp add: a)
  have other: "id_for_herdr_pane (rs_panes s) h = Some j \<Longrightarrow> id_for_herdr_pane panes h = Some j" for h j
    using panes.assign_other[OF Cons.prems(1) room, of h j "rp_herdr_pane_id p" "Fresh (rp_terminal_id p)"]
    by (simp add: a)
  have le: "length input \<le> pane_room (rs_panes (resync_one s p))"
    using Cons.prems(2) st(4)[of p] by simp
  note ih = Cons.IH[OF st(3) le]
  show ?case using ih got other by (auto simp: resync_one_fields[OF a])
qed simp

lemma build_resync_out:
  assumes "build_resync_events input s0 = (ev, s)"
  defines "s1 \<equiv> foldl resync_one (s0\<lparr>rs_live := [], rs_events := []\<rparr>) input"
  shows "set (re_closed ev) = tracked s1 - set (rs_live s1)" "re_changed ev = rs_events s1"
    "rs_panes s = rs_panes s1" "rs_live s = rs_live s1"
    "map_of (rs_last s) i = (if i \<in> set (rs_live s1) then map_of (rs_last s1) i else None)"
    "tracked s \<subseteq> set (rs_live s1)"
proof -
  have "re_closed ev = sort (remdups (filter (\<lambda>i. i \<notin> set (rs_live s1))
      (map fst (rs_last s1) @ map fst (rs_pane_tabs s1))))"
    using assms by (auto simp: build_resync_events_def Let_def)
  then show "set (re_closed ev) = tracked s1 - set (rs_live s1)"
    by (simp only: set_sort set_remdups set_filter set_append set_map tracked_def dom_map_of_conv_image_fst) blast
  show "re_changed ev = rs_events s1" "rs_panes s = rs_panes s1" "rs_live s = rs_live s1"
    using assms by (auto simp: build_resync_events_def Let_def)
  have l: "rs_last s = filter (\<lambda>(i, _). i \<in> set (rs_live s1)) (rs_last s1)"
    "rs_pane_tabs s = filter (\<lambda>(i, _). i \<in> set (rs_live s1)) (rs_pane_tabs s1)"
    using assms by (auto simp: build_resync_events_def Let_def)
  show "map_of (rs_last s) i = (if i \<in> set (rs_live s1) then map_of (rs_last s1) i else None)"
    by (simp add: l map_of_filter_live)
  show "tracked s \<subseteq> set (rs_live s1)"
    by (auto simp: tracked_def l map_of_filter_live split: if_splits)
qed

text \<open>
  (a second resync is silent). When the listing names each pane once, a resync against the
  same listing a second time tells the bus nothing.
\<close>

theorem second_resync_silent:
  assumes b: "build_resync_events input s0 = (ev, s)" and inv: "pane_inv (rs_panes s0)"
    and room: "length input \<le> pane_room (rs_panes s0)" and dist: "distinct (map rp_herdr_pane_id input)"
  shows "into_bus_events (fst (build_resync_events input s)) = []"
proof -
  define s1 where "s1 = foldl resync_one (s0\<lparr>rs_live := [], rs_events := []\<rparr>) input"
  note out = build_resync_out[OF b, folded s1_def]
  have all: "\<forall>p \<in> set input. settled s1 p \<and> is_live s1 p"
    using resync_settles[of input "[]" "s0\<lparr>rs_live := [], rs_events := []\<rparr>"] inv room dist
    by (simp add: s1_def)
  have set: "\<forall>p \<in> set input. settled (s\<lparr>rs_live := [], rs_events := []\<rparr>) p"
    using all by (fastforce simp: settled_def is_live_def out)
  define s2 where "s2 = foldl resync_one (s\<lparr>rs_live := [], rs_events := []\<rparr>) input"
  note f = settled_resync_fold[OF set, folded s2_def]
  have ids: "\<forall>i \<in> set (rs_live s1). \<exists>p \<in> set input. id_for_herdr_pane (rs_panes s1) (rp_herdr_pane_id p) = Some i"
    using resync_live_ids[of "s0\<lparr>rs_live := [], rs_events := []\<rparr>" input] inv room by (simp add: s1_def)
  have live: "set (rs_live s1) \<subseteq> set (rs_live s2)"
  proof
    fix i assume "i \<in> set (rs_live s1)"
    then obtain p where "p \<in> set input" "id_for_herdr_pane (rs_panes s1) (rp_herdr_pane_id p) = Some i"
      using ids by blast
    then show "i \<in> set (rs_live s2)" using f by (fastforce simp: is_live_def out)
  qed
  obtain ev' s' where b': "build_resync_events input s = (ev', s')" by (metis surj_pair)
  note out' = build_resync_out[OF b', folded s2_def]
  have "tracked s2 \<subseteq> tracked s" using f by (simp add: tracked_def)
  then have "tracked s2 \<subseteq> set (rs_live s2)" using out(6) live by blast
  then have "set (re_closed ev') = {}" by (simp add: out'(1))
  then have "re_closed ev' = []" by simp
  moreover have "re_changed ev' = []" using f by (simp add: out'(2))
  ultimately show ?thesis by (simp add: b' into_bus_events_def)
qed

definition demo_listing :: "resync_pane list" where
  "demo_listing =
     [\<lparr>rp_herdr_pane_id = ''p1'', rp_terminal_id = ''t1'', rp_workspace_id = ''w'', rp_workspace_label = ''lab'',
       rp_tab_id = ''tab'', rp_title = None, rp_agent = Some ''claude'', rp_display_agent = None,
       rp_status = HWorking\<rparr>,
      \<lparr>rp_herdr_pane_id = ''p2'', rp_terminal_id = ''t2'', rp_workspace_id = ''w'', rp_workspace_label = ''lab'',
       rp_tab_id = [], rp_title = None, rp_agent = None, rp_display_agent = None, rp_status = HIdle\<rparr>]"

definition demo_tables :: resync_state where
  "demo_tables =
     \<lparr>rs_panes = new_pane_registry, rs_tabs = new_tab_registry, rs_last = [(9, Idle)], rs_pane_tabs = [],
      rs_live = [], rs_events = []\<rparr>"

theorem second_resync_silent_witness:
  "into_bus_events (fst (build_resync_events demo_listing demo_tables)) \<noteq> [] \<and>
   into_bus_events (fst (build_resync_events demo_listing (snd (build_resync_events demo_listing demo_tables)))) = []"
proof
  show "into_bus_events (fst (build_resync_events demo_listing demo_tables)) \<noteq> []"
    by (simp add: demo_listing_def demo_tables_def build_resync_events_def resync_one_def Let_def into_bus_events_def
        assign_or_get_def assign_or_get_inner_def new_pane_registry_def FIRST_ID_def checked_add_def
        tab_assign_or_get_def new_tab_registry_def neutral_status_def)
  show "into_bus_events (fst (build_resync_events demo_listing (snd (build_resync_events demo_listing demo_tables)))) = []"
    by (rule second_resync_silent[of demo_listing demo_tables "fst (build_resync_events demo_listing demo_tables)"])
      (simp_all add: demo_tables_def demo_listing_def pane_inv_new pane_room_def,
        simp_all add: new_pane_registry_def FIRST_ID_def)
qed

subsection \<open>Pushes and terminals\<close>

lemma assign_keeps_terminal:
  assumes "pane_inv r" "0 < pane_room r" "pane_by_herdr r h = None" "terminal_id_of r i = Some t"
  shows "terminal_id_of (fst (assign_or_get r h u)) i = Some t"
  using assms pane_next_unused[of r]
  by (auto simp: assign_or_get_def assign_inner_fresh terminal_id_of_def)

text \<open>
  (pushes and terminals). Reading a pushed line never changes the terminal recorded for a
  pane the registry knows: a push names no terminal, and must not blank the one a pane listing gave.
\<close>

theorem push_keeps_terminal:
  assumes "pane_inv panes" "0 < pane_room panes" "terminal_id_of panes i = Some t"
  shows "terminal_id_of (snd (classify_pushed parse line panes)) i = Some t"
proof -
  have tr: "terminal_id_of (fst (translate_pane panes h None)) i = Some t" for h
    using assms assign_keeps_terminal[of panes h i t "[]"]
    by (auto simp: translate_pane_def id_for_herdr_pane_def or_empty_def split: option.split)
  have "terminal_id_of (snd (parse_agent_status data panes)) i = Some t" for data
    using assms(3) tr by (simp add: parse_agent_status_def case_prod_unfold Let_def split: option.split)
  then show ?thesis using assms(3)
    by (simp add: classify_pushed_def split: option.split prod.split)
qed

definition demo_parse :: "string \<Rightarrow> json option" where
  "demo_parse line =
     (if line = ''a'' then Some (JObject [(''result'', JObject [(''type'', JString ''subscription_started'')])])
      else if line = ''n'' then Some (JObject [(''event'', JString ''pane.created''),
        (''data'', JObject [(''pane_id'', JString ''p2'')])])
      else if line = ''g'' then Some (JObject [(''event'', JString ''pane.closed''),
        (''data'', JObject [(''pane_id'', JString ''p2'')])])
      else if line = ''b'' then Some (JObject [(''event'', JString ''pane.agent_status_changed''),
        (''data'', JObject [(''pane_id'', JString ''p2''), (''workspace_id'', JString ''w''),
           (''agent_status'', JString ''working'')])])
      else None)"

theorem push_keeps_terminal_witness:
  "fst (classify_pushed demo_parse ''b'' (fst (assign_or_get new_pane_registry ''p2'' ''t2''))) \<noteq> PushIgnored \<and>
   terminal_id_of (snd (classify_pushed demo_parse ''b'' (fst (assign_or_get new_pane_registry ''p2'' ''t2'')))) 1
     = Some ''t2''"
proof
  let ?r = "fst (assign_or_get new_pane_registry ''p2'' ''t2'')"
  have r: "?r = \<lparr>next_pane_id = 2, pane_by_herdr = [''p2'' \<mapsto> 1],
      pane_by_id = [1 \<mapsto> \<lparr>herdr_pane_id = ''p2'', terminal_id = ''t2''\<rparr>]\<rparr>"
    by (simp add: assign_or_get_def assign_or_get_inner_def new_pane_registry_def FIRST_ID_def checked_add_def)
  have inv: "pane_inv ?r"
    using panes.assign_inv[OF pane_inv_new, of "''p2''" "Fresh ''t2''"]
    by (simp add: pane_room_def new_pane_registry_def FIRST_ID_def)
  show "fst (classify_pushed demo_parse ''b'' ?r) \<noteq> PushIgnored"
    by (simp add: r classify_pushed_def pushed_envelope_def demo_parse_def jget_str_def underscored_def
        parse_agent_status_def herdr_status_of_json_def herdr_status_of_name_def translate_pane_def
        id_for_herdr_pane_def)
  show "terminal_id_of (snd (classify_pushed demo_parse ''b'' ?r)) 1 = Some ''t2''"
    by (rule push_keeps_terminal[OF inv]) (simp_all add: r pane_room_def terminal_id_of_def)
qed

subsection \<open>The storm breaker\<close>

definition grow :: "nat \<Rightarrow> nat \<Rightarrow> nat list \<Rightarrow> nat \<Rightarrow> nat list" where
  "grow window threshold history now = fst (record_grow_and_check_storm history now window threshold)"

lemma grow_keeps_window:
  "sorted ts \<Longrightarrow> \<forall>t \<in> set ts. t \<le> now \<Longrightarrow>
     filter (\<lambda>t. now - t < w) (foldl (grow w k) [] ts) = filter (\<lambda>t. now - t < w) ts"
proof (induction ts arbitrary: now rule: rev_induct)
  case (snoc u ts)
  have s: "sorted ts" "\<forall>t \<in> set ts. t \<le> u" "u \<le> now" using snoc.prems by (auto simp: sorted_append)
  have sub: "filter (\<lambda>t. now - t < w) (filter (\<lambda>t. u - t < w) xs) = filter (\<lambda>t. now - t < w) xs" for xs
    using s(3) by (auto intro: filter_cong)
  have "filter (\<lambda>t. now - t < w) (filter (\<lambda>t. u - t < w) (foldl (grow w k) [] ts)) =
      filter (\<lambda>t. now - t < w) ts"
    unfolding sub using s by (intro snoc.IH) auto
  then show ?case by (simp add: grow_def[of w k _ u] record_grow_and_check_storm_def del: filter_filter)
qed simp

text \<open>
  (the storm breaker). Although each widening forgets those that have left the window, the
  breaker decides as if it had kept them all: it trips exactly when the widenings of the last
  window, this one included, exceed the threshold.
\<close>

theorem storm_counts_the_window:
  assumes "sorted (ts @ [now])"
  shows "snd (record_grow_and_check_storm (foldl (grow w k) [] ts) now w k) \<longleftrightarrow>
    k < Suc (length (filter (\<lambda>t. now - t < w) ts))"
proof -
  have "sorted ts" "\<forall>t \<in> set ts. t \<le> now" using assms by (auto simp: sorted_append)
  then show ?thesis by (simp add: record_grow_and_check_storm_def Let_def grow_keeps_window)
qed

theorem storm_counts_the_window_witness:
  "sorted ([0, 10, 25000, 40000] @ [50000 :: nat]) \<and>
   \<not> snd (record_grow_and_check_storm (foldl (grow 30000 3) [] [0, 10, 25000, 40000]) 50000 30000 3)"
proof
  show s: "sorted ([0, 10, 25000, 40000] @ [50000 :: nat])" by simp
  show "\<not> snd (record_grow_and_check_storm (foldl (grow 30000 3) [] [0, 10, 25000, 40000]) 50000 30000 3)"
    unfolding storm_counts_the_window[OF s] by simp
qed

end
