(* ===== verification/EventLoop.thy ===== *)
theory EventLoop
  imports EventTables
begin

text \<open>
  The loop of the herdr event kernel (\<open>run_tuned\<close> of \<open>subscribe.rs\<close>): connection A carries the
  lifecycle events and is up before connection B, which carries one agent-status subscription
  per pane; a pane announced outside B's set rebuilds B. The step function takes what the
  environment does next; a step that backs off includes its sleep. \<open>el_live\<close> only records what
  connection A has said: the panes it announced and did not report gone.
\<close>

datatype line_io = GotLine string | GotEof | GotError

datatype bring = BringShutdown | BringFailed | BringLifecycleLost | BringReady

datatype ack_tick = AckShutdown | AckTimeout | AckRead line_io

text \<open>\<open>None\<close>: still waiting for the ack.\<close>

fun await_ack :: "(string \<Rightarrow> json option) \<Rightarrow> ack_tick list \<Rightarrow> bring option" where
  "await_ack parse [] = None"
| "await_ack parse (AckShutdown # ts) = Some BringShutdown"
| "await_ack parse (AckTimeout # ts) = Some BringFailed"
| "await_ack parse (AckRead GotEof # ts) = Some BringFailed"
| "await_ack parse (AckRead GotError # ts) = Some BringFailed"
| "await_ack parse (AckRead (GotLine line) # ts) =
     (let l = trim_end line in
      if is_subscription_ack parse l then Some BringReady
      else if subscribe_error parse l \<noteq> None then Some BringFailed
      else await_ack parse ts)"

record connect_io =
  ci_connects :: bool
  ci_writes :: bool
  ci_ticks :: "ack_tick list"

definition open_subscription :: "(string \<Rightarrow> json option) \<Rightarrow> connect_io \<Rightarrow> bring option" where
  "open_subscription parse io =
     (if \<not> ci_connects io then Some BringFailed
      else if \<not> ci_writes io then Some BringFailed
      else await_ack parse (ci_ticks io))"

definition connect_lifecycle :: "(string \<Rightarrow> json option) \<Rightarrow> connect_io \<Rightarrow> bring option" where
  "connect_lifecycle parse io = open_subscription parse io"

text \<open>The enumeration's answer, and the lines of connection A read while it is out.\<close>

datatype enum_tick = EnumShutdown | EnumDone "herdr_error + string list" | EnumRead line_io

fun buffer_while :: "enum_tick list \<Rightarrow> string list \<Rightarrow> ((bring + string list) \<times> string list) option" where
  "buffer_while [] buffered = None"
| "buffer_while (EnumShutdown # ts) buffered = Some (Inl BringShutdown, buffered)"
| "buffer_while (EnumDone (Inr ids) # ts) buffered = Some (Inr ids, buffered)"
| "buffer_while (EnumDone (Inl e) # ts) buffered = Some (Inl BringFailed, buffered)"
| "buffer_while (EnumRead (GotLine line) # ts) buffered = buffer_while ts (buffered @ [line])"
| "buffer_while (EnumRead GotEof # ts) buffered = Some (Inl BringLifecycleLost, buffered)"
| "buffer_while (EnumRead GotError # ts) buffered = Some (Inl BringLifecycleLost, buffered)"

record conn =
  cn_opened :: nat
  cn_last_event :: nat

record strikes =
  sk_lifecycle :: nat
  sk_status :: nat

definition no_strikes :: strikes where "no_strikes = \<lparr>sk_lifecycle = 0, sk_status = 0\<rparr>"

text \<open>\<open>el_draining\<close>: coalescing after a widening, and whether the storm breaker engaged.\<close>

record 'd event_loop =
  el_daemon :: 'd
  el_kernel :: kernel
  el_lifecycle :: "conn option"
  el_status :: "conn option"
  el_subscribed :: "string set"
  el_lifecycle_backoff :: nat
  el_status_backoff :: nat
  el_grow_history :: "nat list"
  el_strikes :: strikes
  el_draining :: "bool option"
  el_now :: nat
  el_stopped :: bool
  el_live :: "string set"

definition start_loop :: "tuning \<Rightarrow> 'd \<Rightarrow> client \<Rightarrow> nat \<Rightarrow> 'd event_loop" where
  "start_loop tn d c now =
     \<lparr>el_daemon = d,
      el_kernel = \<lparr>kn_client = c, kn_last_status = [], kn_pane_tabs = [], kn_bus = []\<rparr>,
      el_lifecycle = None, el_status = None, el_subscribed = {},
      el_lifecycle_backoff = tn_initial_backoff tn, el_status_backoff = tn_initial_backoff tn,
      el_grow_history = [], el_strikes = no_strikes, el_draining = None, el_now = now, el_stopped = False,
      el_live = {}\<rparr>"

text \<open>
  The inputs. \<open>stop\<close> is whether shutdown interrupts the sleep of a backoff; the panes of
  \<open>ConnectA\<close> are those that exist at A's ack, which A will not announce.
\<close>

datatype loop_input =
    Elapse nat
  | StopNow
  | ConnectA connect_io "string set" bool
  | ConnectB "enum_tick list" connect_io bool
  | LifecycleRead line_io bool
  | StatusRead line_io bool
  | Probe bool
  | DrainRead line_io bool
  | DrainDone bool

definition after_stable :: "tuning \<Rightarrow> nat option \<Rightarrow> nat \<Rightarrow> nat \<Rightarrow> nat" where
  "after_stable tn opened now backoff =
     (case opened of
        Some t \<Rightarrow> if tn_stable_threshold tn \<le> now - t then tn_initial_backoff tn else backoff
      | None \<Rightarrow> backoff)"

definition back_off_lifecycle :: "tuning \<Rightarrow> nat option \<Rightarrow> bool \<Rightarrow> 'd event_loop \<Rightarrow> 'd event_loop" where
  "back_off_lifecycle tn opened stop s =
     (let b = after_stable tn opened (el_now s) (el_lifecycle_backoff s)
      in if stop then s\<lparr>el_lifecycle_backoff := b, el_stopped := True\<rparr>
         else s\<lparr>el_lifecycle_backoff := next_backoff b (tn_max_backoff tn), el_now := el_now s + b\<rparr>)"

definition back_off_status :: "tuning \<Rightarrow> nat option \<Rightarrow> bool \<Rightarrow> 'd event_loop \<Rightarrow> 'd event_loop" where
  "back_off_status tn opened stop s =
     (let b = after_stable tn opened (el_now s) (el_status_backoff s)
      in if stop then s\<lparr>el_status_backoff := b, el_stopped := True\<rparr>
         else s\<lparr>el_status_backoff := next_backoff b (tn_max_backoff tn), el_now := el_now s + b\<rparr>)"

definition lose_lifecycle :: "tuning \<Rightarrow> bool \<Rightarrow> 'd event_loop \<Rightarrow> 'd event_loop" where
  "lose_lifecycle tn stop s =
     back_off_lifecycle tn (map_option cn_opened (el_lifecycle s)) stop (s\<lparr>el_lifecycle := None\<rparr>)"

definition lose_status :: "tuning \<Rightarrow> bool \<Rightarrow> 'd event_loop \<Rightarrow> 'd event_loop" where
  "lose_status tn stop s =
     back_off_status tn (map_option cn_opened (el_status s)) stop (s\<lparr>el_status := None\<rparr>)"

subsection \<open>What connection A has said\<close>

definition heard :: "(string \<Rightarrow> json option) \<Rightarrow> string set \<Rightarrow> string \<Rightarrow> string set" where
  "heard parse live line =
     (case lifecycle_change parse line of
        Some (Created (Some p)) \<Rightarrow> insert p live
      | Some (Closed (Some p)) \<Rightarrow> live - {p}
      | _ \<Rightarrow> live)"

subsection \<open>The steps\<close>

definition connect_a :: "(string \<Rightarrow> json option) \<Rightarrow> tuning \<Rightarrow> connect_io \<Rightarrow> string set \<Rightarrow> bool \<Rightarrow>
    'd event_loop \<Rightarrow> 'd event_loop option" where
  "connect_a parse tn io existing stop s =
     (case connect_lifecycle parse io of
        None \<Rightarrow> None
      | Some BringShutdown \<Rightarrow> Some (s\<lparr>el_stopped := True\<rparr>)
      | Some BringReady \<Rightarrow>
          Some (s\<lparr>el_lifecycle := Some \<lparr>cn_opened = el_now s, cn_last_event = el_now s\<rparr>, el_status := None,
                  el_subscribed := {}, el_strikes := no_strikes, el_live := existing\<rparr>)
      | Some _ \<Rightarrow> Some (back_off_lifecycle tn None stop s))"

definition mark_lifecycle :: "'d event_loop \<Rightarrow> 'd event_loop" where
  "mark_lifecycle s = s\<lparr>el_lifecycle := map_option (\<lambda>c. c\<lparr>cn_last_event := el_now s\<rparr>) (el_lifecycle s)\<rparr>"

definition connect_b :: "'d herdr \<Rightarrow> (string \<Rightarrow> json option) \<Rightarrow> tuning \<Rightarrow> enum_tick list \<Rightarrow> connect_io \<Rightarrow> bool \<Rightarrow>
    'd event_loop \<Rightarrow> 'd event_loop option" where
  "connect_b h parse tn ticks io stop s =
     (case buffer_while ticks [] of
        None \<Rightarrow> None
      | Some (enumerated, buffered) \<Rightarrow>
          (let s1 = (if buffered = [] then s else mark_lifecycle s)\<lparr>el_live := foldl (heard parse) (el_live s) buffered\<rparr>
           in case enumerated of
                Inl BringShutdown \<Rightarrow> Some (s1\<lparr>el_stopped := True\<rparr>)
              | Inl BringLifecycleLost \<Rightarrow> Some (lose_lifecycle tn stop s1)
              | Inl _ \<Rightarrow> Some (back_off_status tn None stop s1)
              | Inr ids \<Rightarrow>
                  (case open_subscription parse io of
                     None \<Rightarrow> None
                   | Some BringShutdown \<Rightarrow> Some (s1\<lparr>el_stopped := True\<rparr>)
                   | Some BringReady \<Rightarrow>
                       (let (d, k) = resync h (el_daemon s1, el_kernel s1)
                        in Some (s1\<lparr>el_daemon := d, el_kernel := k,
                                    el_subscribed := set (bootstrap_pane_set parse ids buffered),
                                    el_status := Some \<lparr>cn_opened = el_now s1, cn_last_event = el_now s1\<rparr>,
                                    el_strikes := no_strikes\<rparr>))
                   | Some BringLifecycleLost \<Rightarrow> Some (lose_lifecycle tn stop s1)
                   | Some BringFailed \<Rightarrow> Some (back_off_status tn None stop s1))))"

definition set_panes :: "pane_inner \<Rightarrow> kernel \<Rightarrow> kernel" where
  "set_panes panes k = k\<lparr>kn_client := (kn_client k)\<lparr>cl_panes := panes\<rparr>\<rparr>"

definition widen :: "tuning \<Rightarrow> 'd event_loop \<Rightarrow> 'd event_loop" where
  "widen tn s =
     (let (history, storm) = record_grow_and_check_storm (el_grow_history s) (el_now s)
                               (tn_grow_storm_window tn) (tn_grow_storm_threshold tn)
      in s\<lparr>el_status := None, el_grow_history := history, el_draining := Some storm\<rparr>)"

definition lifecycle_line :: "(string \<Rightarrow> json option) \<Rightarrow> tuning \<Rightarrow> string \<Rightarrow> 'd event_loop \<Rightarrow> 'd event_loop" where
  "lifecycle_line parse tn line s =
     (let (pushed, panes) = classify_pushed parse (trim_end line) (cl_panes (kn_client (el_kernel s)));
          s1 = (mark_lifecycle s)\<lparr>el_kernel := set_panes panes (el_kernel s),
                                  el_live := heard parse (el_live s) (trim_end line)\<rparr>
      in case pushed of
           PushedCreated p \<Rightarrow> if pane_needs_widening p (el_subscribed s1) then widen tn s1 else s1
         | PushedGone herdr_pane pane \<Rightarrow>
             (let (k, subs) = forget_pane herdr_pane pane (el_kernel s1, el_subscribed s1)
              in s1\<lparr>el_kernel := k, el_subscribed := subs\<rparr>)
         | PushedLayout ws tab \<Rightarrow> s1\<lparr>el_kernel := publish_layout ws tab (el_kernel s1)\<rparr>
         | PushedStatus ev \<Rightarrow> s1\<lparr>el_kernel := publish ev (el_kernel s1)\<rparr>
         | PushIgnored \<Rightarrow> s1)"

definition status_line :: "(string \<Rightarrow> json option) \<Rightarrow> string \<Rightarrow> 'd event_loop \<Rightarrow> 'd event_loop" where
  "status_line parse line s =
     (let (pushed, panes) = classify_pushed parse (trim_end line) (cl_panes (kn_client (el_kernel s)));
          s1 = s\<lparr>el_status := map_option (\<lambda>c. c\<lparr>cn_last_event := el_now s\<rparr>) (el_status s),
                 el_kernel := set_panes panes (el_kernel s)\<rparr>
      in case pushed of
           PushedStatus ev \<Rightarrow> s1\<lparr>el_kernel := publish ev (el_kernel s1)\<rparr>
         | _ \<Rightarrow> s1)"

definition idle_for :: "nat \<Rightarrow> conn option \<Rightarrow> nat" where
  "idle_for now c = (case c of Some x \<Rightarrow> now - cn_last_event x | None \<Rightarrow> 0)"

definition probe_tick :: "'d herdr \<Rightarrow> tuning \<Rightarrow> bool \<Rightarrow> 'd event_loop \<Rightarrow> 'd event_loop" where
  "probe_tick h tn stop s =
     (let lifecycle_idle = tn_probe_interval tn \<le> idle_for (el_now s) (el_lifecycle s);
          status_idle = tn_probe_interval tn \<le> idle_for (el_now s) (el_status s)
      in if \<not> lifecycle_idle \<and> \<not> status_idle then s\<lparr>el_strikes := no_strikes\<rparr>
         else
           (let (v, d, k) = liveness_probe h (el_subscribed s) (el_daemon s, el_kernel s);
                s1 = s\<lparr>el_daemon := d, el_kernel := k\<rparr>
            in case v of
                 None \<Rightarrow> s1
               | Some Healthy \<Rightarrow> s1\<lparr>el_strikes := no_strikes\<rparr>
               | Some LifecycleWedged \<Rightarrow>
                   if lifecycle_idle
                   then (let n = sk_lifecycle (el_strikes s) + 1;
                             s2 = s1\<lparr>el_strikes := \<lparr>sk_lifecycle = n, sk_status = 0\<rparr>\<rparr>
                         in if tn_probe_strikes tn \<le> n then lose_lifecycle tn stop s2 else s2)
                   else s1\<lparr>el_strikes := no_strikes\<rparr>
               | Some StatusWedged \<Rightarrow>
                   if status_idle
                   then (let n = sk_status (el_strikes s) + 1;
                             s2 = s1\<lparr>el_strikes := \<lparr>sk_lifecycle = 0, sk_status = n\<rparr>\<rparr>
                         in if tn_probe_strikes tn \<le> n then lose_status tn stop s2 else s2)
                   else s1\<lparr>el_strikes := no_strikes\<rparr>))"

text \<open>The end of the coalescing window, with the extra backoff of a storm.\<close>

definition finish_drain :: "tuning \<Rightarrow> bool \<Rightarrow> 'd event_loop \<Rightarrow> 'd event_loop" where
  "finish_drain tn stop s =
     (let storm = (el_draining s = Some True); s1 = s\<lparr>el_draining := None\<rparr>
      in if storm \<and> \<not> el_stopped s1
         then (if stop then s1\<lparr>el_stopped := True\<rparr>
               else s1\<lparr>el_now := el_now s1 + el_status_backoff s1,
                       el_status_backoff := next_backoff (el_status_backoff s1) (tn_max_backoff tn)\<rparr>)
         else s1)"

definition pumping :: "'d event_loop \<Rightarrow> bool" where
  "pumping s \<longleftrightarrow> el_lifecycle s \<noteq> None \<and> el_status s \<noteq> None \<and> el_draining s = None"

definition loop_step :: "'d herdr \<Rightarrow> (string \<Rightarrow> json option) \<Rightarrow> tuning \<Rightarrow> loop_input \<Rightarrow>
    'd event_loop \<Rightarrow> 'd event_loop option" where
  "loop_step h parse tn i s =
     (if el_stopped s then None
      else case i of
        Elapse t \<Rightarrow> Some (s\<lparr>el_now := el_now s + t\<rparr>)
      | StopNow \<Rightarrow> Some (s\<lparr>el_stopped := True\<rparr>)
      | ConnectA io existing stop \<Rightarrow>
          (if el_lifecycle s = None \<and> el_draining s = None then connect_a parse tn io existing stop s else None)
      | ConnectB ticks io stop \<Rightarrow>
          (if el_lifecycle s \<noteq> None \<and> el_status s = None \<and> el_draining s = None
           then connect_b h parse tn ticks io stop s else None)
      | LifecycleRead r stop \<Rightarrow>
          (if pumping s
           then Some (case r of GotLine line \<Rightarrow> lifecycle_line parse tn line s | _ \<Rightarrow> lose_lifecycle tn stop s)
           else None)
      | StatusRead r stop \<Rightarrow>
          (if pumping s
           then Some (case r of GotLine line \<Rightarrow> status_line parse line s | _ \<Rightarrow> lose_status tn stop s)
           else None)
      | Probe stop \<Rightarrow> (if pumping s then Some (probe_tick h tn stop s) else None)
      | DrainRead r stop \<Rightarrow>
          (if el_draining s \<noteq> None
           then Some (case r of
                  GotLine line \<Rightarrow> (mark_lifecycle s)\<lparr>el_live := heard parse (el_live s) line\<rparr>
                | _ \<Rightarrow> finish_drain tn stop (lose_lifecycle tn stop s))
           else None)
      | DrainDone stop \<Rightarrow> (if el_draining s \<noteq> None then Some (finish_drain tn stop s) else None))"

fun loop_run :: "'d herdr \<Rightarrow> (string \<Rightarrow> json option) \<Rightarrow> tuning \<Rightarrow> loop_input list \<Rightarrow>
    'd event_loop \<Rightarrow> 'd event_loop option" where
  "loop_run h parse tn [] s = Some s"
| "loop_run h parse tn (i # is) s =
     (case loop_step h parse tn i s of Some s' \<Rightarrow> loop_run h parse tn is s' | None \<Rightarrow> None)"

subsection \<open>Every announced pane is subscribed\<close>

text \<open>
  What is asked of herdr's enumeration, which is taken while A is up and read: it lists every
  pane A knows of, unless A reports it gone meanwhile, and within that window no pane id is
  closed and taken again.
\<close>

definition fair_enumeration :: "(string \<Rightarrow> json option) \<Rightarrow> string set \<Rightarrow> string list \<Rightarrow> string list \<Rightarrow> bool" where
  "fair_enumeration parse live ids buffered \<longleftrightarrow>
     (\<forall>p \<in> live. \<not> is_gone parse buffered p \<longrightarrow> p \<in> set ids) \<and>
     (\<forall>p. is_gone parse buffered p \<longrightarrow> p \<notin> foldl (heard parse) live buffered)"

definition fair_input :: "(string \<Rightarrow> json option) \<Rightarrow> 'd event_loop \<Rightarrow> loop_input \<Rightarrow> bool" where
  "fair_input parse s i \<longleftrightarrow>
     (case i of
        ConnectB ticks io stop \<Rightarrow>
          (case buffer_while ticks [] of
             Some (Inr ids, buffered) \<Rightarrow> fair_enumeration parse (el_live s) ids buffered
           | _ \<Rightarrow> True)
      | _ \<Rightarrow> True)"

fun fair_run :: "'d herdr \<Rightarrow> (string \<Rightarrow> json option) \<Rightarrow> tuning \<Rightarrow> loop_input list \<Rightarrow> 'd event_loop \<Rightarrow> bool" where
  "fair_run h parse tn [] s \<longleftrightarrow> True"
| "fair_run h parse tn (i # is) s \<longleftrightarrow> fair_input parse s i \<and>
     (case loop_step h parse tn i s of Some s' \<Rightarrow> fair_run h parse tn is s' | None \<Rightarrow> True)"

definition covered :: "'d event_loop \<Rightarrow> bool" where
  "covered s \<longleftrightarrow> (pumping s \<longrightarrow> el_live s \<subseteq> el_subscribed s) \<and>
     (el_draining s \<noteq> None \<longrightarrow> el_status s = None)"

lemma announced_set:
  "set (announced parse ids lines) =
     set ids \<union> {p. \<exists>line \<in> set lines. lifecycle_change parse line = Some (Created (Some p))}"
  by (induction lines arbitrary: ids)
    (auto split: option.splits pane_change.splits if_splits)

lemma heard_one:
  "p \<in> heard parse live line \<Longrightarrow> p \<in> live \<or> lifecycle_change parse line = Some (Created (Some p))"
  by (auto simp: heard_def split: option.splits pane_change.splits)

lemma heard_from:
  "p \<in> foldl (heard parse) live lines \<Longrightarrow>
     p \<in> live \<or> (\<exists>line \<in> set lines. lifecycle_change parse line = Some (Created (Some p)))"
proof (induction lines arbitrary: live)
  case (Cons line lines)
  then have "p \<in> heard parse live line \<or> (\<exists>l \<in> set lines. lifecycle_change parse l = Some (Created (Some p)))"
    by simp
  then show ?case using heard_one[of p parse live line] by auto
qed simp

lemma bootstrap_covers:
  assumes "fair_enumeration parse live ids buffered"
  shows "foldl (heard parse) live buffered \<subseteq> set (bootstrap_pane_set parse ids buffered)"
proof
  fix p assume p: "p \<in> foldl (heard parse) live buffered"
  have "\<not> is_gone parse buffered p" using assms p by (auto simp: fair_enumeration_def)
  moreover have "p \<in> set (announced parse ids buffered)"
    using heard_from[OF p] assms calculation by (auto simp: announced_set fair_enumeration_def)
  ultimately show "p \<in> set (bootstrap_pane_set parse ids buffered)"
    by (simp add: bootstrap_pane_set_def)
qed

text \<open>A pushed line as a change of the pane set, and as what the kernel makes of it.\<close>

definition pushed_heard :: "string set \<Rightarrow> pushed \<Rightarrow> string set" where
  "pushed_heard live pushed =
     (case pushed of
        PushedCreated (Some p) \<Rightarrow> insert p live
      | PushedGone (Some p) i \<Rightarrow> live - {p}
      | _ \<Rightarrow> live)"

lemma parse_agent_status_heard: "pushed_heard live (fst (parse_agent_status data panes)) = live"
  by (simp add: parse_agent_status_def pushed_heard_def split: option.split prod.split)

lemma parse_layout_heard: "pushed_heard live (parse_layout_updated data) = live"
  by (simp add: parse_layout_updated_def pushed_heard_def split: option.split prod.split)

lemma parse_gone_heard:
  "pushed_heard live (parse_pane_gone data panes) =
     (case pane_gone_id data of Some p \<Rightarrow> live - {p} | None \<Rightarrow> live)"
  by (simp add: parse_pane_gone_def pushed_heard_def split: option.split)

lemma heard_pushed:
  "heard parse live line = pushed_heard live (fst (classify_pushed parse line panes))"
proof (cases "pushed_envelope parse line")
  case None
  then show ?thesis by (simp add: heard_def lifecycle_change_def classify_pushed_def pushed_heard_def)
next
  case (Some ed)
  obtain event data where ed: "ed = (event, data)" by (metis surj_pair)
  consider "event = ''pane_agent_status_changed''" | "event = ''pane_created''"
    | "event = ''pane_closed'' \<or> event = ''pane_exited''" | "event = ''layout_updated''"
    | "event \<noteq> ''pane_agent_status_changed''" "event \<noteq> ''pane_created''"
      "\<not> (event = ''pane_closed'' \<or> event = ''pane_exited'')" "event \<noteq> ''layout_updated''"
    by blast
  then show ?thesis
  proof cases
    case 2
    then show ?thesis using Some ed
      by (simp add: heard_def lifecycle_change_def classify_pushed_def pushed_heard_def)
  next
    case 3
    then show ?thesis using Some ed
      by (elim disjE)
        (simp_all add: heard_def lifecycle_change_def classify_pushed_def parse_gone_heard)
  next
    case 5
    then show ?thesis using Some ed
      by (simp add: heard_def lifecycle_change_def classify_pushed_def pushed_heard_def)
  qed (use Some ed in \<open>simp_all add: heard_def lifecycle_change_def classify_pushed_def
        parse_agent_status_heard parse_layout_heard\<close>)
qed

lemma back_off_keeps [simp]:
  "el_lifecycle (back_off_lifecycle tn t stop s) = el_lifecycle s"
  "el_status (back_off_lifecycle tn t stop s) = el_status s"
  "el_draining (back_off_lifecycle tn t stop s) = el_draining s"
  "el_live (back_off_lifecycle tn t stop s) = el_live s"
  "el_subscribed (back_off_lifecycle tn t stop s) = el_subscribed s"
  "el_lifecycle (back_off_status tn t stop s) = el_lifecycle s"
  "el_status (back_off_status tn t stop s) = el_status s"
  "el_draining (back_off_status tn t stop s) = el_draining s"
  "el_live (back_off_status tn t stop s) = el_live s"
  "el_subscribed (back_off_status tn t stop s) = el_subscribed s"
  by (simp_all add: back_off_lifecycle_def back_off_status_def Let_def)

lemma lose_keeps [simp]:
  "el_lifecycle (lose_lifecycle tn stop s) = None" "el_status (lose_lifecycle tn stop s) = el_status s"
  "el_draining (lose_lifecycle tn stop s) = el_draining s"
  "el_status (lose_status tn stop s) = None" "el_draining (lose_status tn stop s) = el_draining s"
  by (simp_all add: lose_lifecycle_def lose_status_def)

lemma mark_lifecycle_keeps [simp]:
  "el_status (mark_lifecycle s) = el_status s" "el_draining (mark_lifecycle s) = el_draining s"
  "el_live (mark_lifecycle s) = el_live s" "el_subscribed (mark_lifecycle s) = el_subscribed s"
  "el_kernel (mark_lifecycle s) = el_kernel s" "el_daemon (mark_lifecycle s) = el_daemon s"
  "el_now (mark_lifecycle s) = el_now s" "el_stopped (mark_lifecycle s) = el_stopped s"
  "el_lifecycle (mark_lifecycle s) = None \<longleftrightarrow> el_lifecycle s = None"
  by (simp_all add: mark_lifecycle_def)

lemma covered_without_status: "el_status s = None \<Longrightarrow> covered s"
  by (simp add: covered_def pumping_def)

lemma covered_without_lifecycle: "el_lifecycle s = None \<Longrightarrow> el_draining s = None \<Longrightarrow> covered s"
  by (simp add: covered_def pumping_def)

lemma connect_a_covered:
  assumes "connect_a parse tn io existing stop s = Some s'"
    and "el_lifecycle s = None" "el_draining s = None"
  shows "covered s'"
proof (cases "connect_lifecycle parse io")
  case (Some r)
  then show ?thesis using assms
    by (cases r) (auto simp: connect_a_def intro: covered_without_status covered_without_lifecycle)
qed (use assms in \<open>simp add: connect_a_def\<close>)

lemma connect_b_covered:
  assumes run: "connect_b h parse tn ticks io stop s = Some s'"
    and guard: "el_status s = None" "el_draining s = None"
    and fair: "fair_input parse s (ConnectB ticks io stop)"
  shows "covered s'"
proof (cases "buffer_while ticks []")
  case (Some eb)
  obtain enumerated buffered where eb: "eb = (enumerated, buffered)" by (metis surj_pair)
  define s1 where "s1 = (if buffered = [] then s else mark_lifecycle s)
    \<lparr>el_live := foldl (heard parse) (el_live s) buffered\<rparr>"
  have s1: "el_status s1 = None" "el_draining s1 = None"
    "el_live s1 = foldl (heard parse) (el_live s) buffered"
    using guard by (simp_all add: s1_def)
  show ?thesis
  proof (cases enumerated)
    case (Inl r)
    then show ?thesis using run Some eb s1
      by (cases r) (auto simp: connect_b_def s1_def[symmetric] intro!: covered_without_status)
  next
    case (Inr ids)
    show ?thesis
    proof (cases "open_subscription parse io")
      case None
      then show ?thesis using run Some eb Inr by (simp add: connect_b_def s1_def[symmetric])
    next
      case o: (Some r)
      show ?thesis
      proof (cases "r = BringReady")
        case True
        have "foldl (heard parse) (el_live s) buffered \<subseteq> set (bootstrap_pane_set parse ids buffered)"
          using fair Some eb Inr by (intro bootstrap_covers) (simp add: fair_input_def)
        then show ?thesis using run Some eb Inr o True s1
          by (auto simp: connect_b_def s1_def[symmetric] covered_def split: prod.splits)
      next
        case False
        then show ?thesis using run Some eb Inr o s1
          by (cases r) (auto simp: connect_b_def s1_def[symmetric] intro!: covered_without_status)
      qed
    qed
  qed
qed (use run in \<open>simp add: connect_b_def\<close>)

text \<open>The first four updates leave the panes, the connections and the coverage alone.\<close>

lemma send_live:
  "covered (s\<lparr>el_kernel := k\<rparr>) \<longleftrightarrow> covered s" "covered (s\<lparr>el_daemon := d\<rparr>) \<longleftrightarrow> covered s"
  "covered (s\<lparr>el_strikes := n\<rparr>) \<longleftrightarrow> covered s" "covered (s\<lparr>el_now := t\<rparr>) \<longleftrightarrow> covered s"
  "covered (s\<lparr>el_stopped := x\<rparr>) \<longleftrightarrow> covered s" "covered (s\<lparr>el_status_backoff := t\<rparr>) \<longleftrightarrow> covered s"
  by (simp_all add: covered_def pumping_def)

lemma lifecycle_line_covered:
  assumes "covered s" "pumping s"
  shows "covered (lifecycle_line parse tn line s)"
proof -
  obtain pushed panes where c: "classify_pushed parse (trim_end line) (cl_panes (kn_client (el_kernel s))) = (pushed, panes)"
    by (metis surj_pair)
  have h: "heard parse (el_live s) (trim_end line) = pushed_heard (el_live s) pushed"
    by (simp add: heard_pushed[of _ _ _ "cl_panes (kn_client (el_kernel s))"] c)
  have sub: "el_live s \<subseteq> el_subscribed s" and dr: "el_draining s = None"
    using assms by (auto simp: covered_def pumping_def)
  show ?thesis
  proof (cases pushed)
    case (PushedCreated p)
    show ?thesis
    proof (cases "pane_needs_widening p (el_subscribed s)")
      case True
      then show ?thesis using PushedCreated
        by (simp add: lifecycle_line_def c widen_def covered_without_status Let_def split: prod.splits)
    next
      case False
      then obtain q where "p = Some q" "q \<in> el_subscribed s"
        by (auto simp: pane_needs_widening_def split: option.splits)
      then show ?thesis using False PushedCreated sub dr
        by (auto simp: lifecycle_line_def c h pushed_heard_def covered_def Let_def)
    qed
  next
    case (PushedGone hp i)
    then show ?thesis using sub dr
      by (cases hp) (auto simp: lifecycle_line_def c h pushed_heard_def covered_def forget_pane_def Let_def)
  qed (use sub dr in \<open>simp_all add: lifecycle_line_def c h pushed_heard_def covered_def Let_def\<close>)
qed

lemma status_line_keeps [simp]:
  "el_lifecycle (status_line parse line s) = el_lifecycle s"
  "el_draining (status_line parse line s) = el_draining s"
  "el_live (status_line parse line s) = el_live s"
  "el_subscribed (status_line parse line s) = el_subscribed s"
  "el_status (status_line parse line s) = None \<longleftrightarrow> el_status s = None"
  "el_lifecycle_backoff (status_line parse line s) = el_lifecycle_backoff s"
  "el_status_backoff (status_line parse line s) = el_status_backoff s"
  by (simp_all add: status_line_def Let_def split: prod.split pushed.split)

lemma status_line_covered: "covered s \<Longrightarrow> covered (status_line parse line s)"
  by (simp add: covered_def pumping_def)

lemma probe_tick_covered:
  assumes "covered s" "el_draining s = None"
  shows "covered (probe_tick h tn stop s)"
  using assms
  by (auto simp: probe_tick_def Let_def send_live intro: covered_without_lifecycle covered_without_status
      split: prod.splits option.splits verdict.splits)

lemma finish_drain_covered: "el_status s = None \<Longrightarrow> covered (finish_drain tn stop s)"
  by (auto simp: finish_drain_def Let_def intro: covered_without_status)

lemma loop_step_covered:
  assumes step: "loop_step h parse tn i s = Some s'" and cov: "covered s" and fair: "fair_input parse s i"
  shows "covered s'"
proof -
  have run: "\<not> el_stopped s" using step by (auto simp: loop_step_def split: if_splits)
  note st = step[unfolded loop_step_def]
  show ?thesis
  proof (cases i)
    case (ConnectA io existing stop)
    then show ?thesis using st run by (auto intro: connect_a_covered split: if_splits)
  next
    case (ConnectB ticks io stop)
    then show ?thesis using st run fair by (auto intro: connect_b_covered split: if_splits)
  next
    case (LifecycleRead r stop)
    then show ?thesis using st run cov
      by (cases r) (auto simp: lifecycle_line_covered pumping_def intro: covered_without_lifecycle
          lifecycle_line_covered split: if_splits)
  next
    case (StatusRead r stop)
    then show ?thesis using st run cov
      by (cases r) (auto intro: status_line_covered covered_without_status split: if_splits)
  next
    case (Probe stop)
    then show ?thesis using st run cov
      by (auto simp: pumping_def intro: probe_tick_covered split: if_splits)
  next
    case (DrainRead r stop)
    then have "el_draining s \<noteq> None" using st run by (auto split: if_splits)
    with cov have "el_status s = None" by (simp add: covered_def)
    then show ?thesis using st run DrainRead
      by (cases r) (auto intro: finish_drain_covered covered_without_status split: if_splits)
  next
    case (DrainDone stop)
    then have "el_draining s \<noteq> None" using st run by (auto split: if_splits)
    with cov have "el_status s = None" by (simp add: covered_def)
    then show ?thesis using st run DrainDone
      by (auto intro: finish_drain_covered split: if_splits)
  qed (use st run cov in \<open>auto simp: send_live\<close>)
qed

lemma loop_run_covered:
  "loop_run h parse tn is s = Some s' \<Longrightarrow> fair_run h parse tn is s \<Longrightarrow> covered s \<Longrightarrow> covered s'"
proof (induction "is" arbitrary: s)
  case (Cons i "is")
  then obtain s1 where s1: "loop_step h parse tn i s = Some s1" "loop_run h parse tn is s1 = Some s'"
    by (auto split: option.splits)
  with Cons show ?case by (auto intro: loop_step_covered)
qed simp

subsection \<open>The bus tells the table, along the loop\<close>

lemma back_off_kernel [simp]:
  "el_kernel (back_off_lifecycle tn t stop s) = el_kernel s"
  "el_kernel (back_off_status tn t stop s) = el_kernel s"
  "el_kernel (lose_lifecycle tn stop s) = el_kernel s"
  "el_kernel (lose_status tn stop s) = el_kernel s"
  "el_kernel (finish_drain tn stop s) = el_kernel s"
  by (simp_all add: back_off_lifecycle_def back_off_status_def lose_lifecycle_def lose_status_def
      finish_drain_def Let_def)

lemma truthful_set_panes [simp]: "truthful (set_panes panes k) \<longleftrightarrow> truthful k"
  by (simp add: set_panes_def)

lemma lifecycle_line_truthful:
  assumes "truthful (el_kernel s)"
  shows "truthful (el_kernel (lifecycle_line parse tn line s))"
proof -
  obtain pushed panes where c: "classify_pushed parse (trim_end line) (cl_panes (kn_client (el_kernel s))) = (pushed, panes)"
    by (metis surj_pair)
  show ?thesis
  proof (cases pushed)
    case (PushedGone hp i)
    obtain k subs where "forget_pane hp i (set_panes panes (el_kernel s), el_subscribed s) = (k, subs)"
      by (metis surj_pair)
    then show ?thesis
      using PushedGone assms truthful_forget[of "set_panes panes (el_kernel s)" hp i "el_subscribed s"]
      by (simp add: lifecycle_line_def c Let_def)
  qed (use assms in \<open>simp_all add: lifecycle_line_def c Let_def widen_def truthful_publish truthful_layout
      split: prod.split\<close>)
qed

lemma status_line_truthful:
  "truthful (el_kernel s) \<Longrightarrow> truthful (el_kernel (status_line parse line s))"
  by (simp add: status_line_def Let_def truthful_publish split: prod.split pushed.split)

lemma probe_tick_truthful:
  assumes "truthful (el_kernel s)"
  shows "truthful (el_kernel (probe_tick h tn stop s))"
proof -
  obtain v d k where l: "liveness_probe h (el_subscribed s) (el_daemon s, el_kernel s) = (v, d, k)"
    by (metis surj_pair)
  then have "truthful k" using truthful_probe[OF assms, of h "el_subscribed s" "el_daemon s"] by simp
  then show ?thesis using assms
    by (simp add: probe_tick_def l Let_def split: option.split verdict.split)
qed

lemma connect_a_truthful:
  "connect_a parse tn io existing stop s = Some s' \<Longrightarrow> truthful (el_kernel s) \<Longrightarrow> truthful (el_kernel s')"
  by (auto simp: connect_a_def split: option.splits bring.splits)

lemma connect_b_truthful:
  assumes run: "connect_b h parse tn ticks io stop s = Some s'" and t: "truthful (el_kernel s)"
  shows "truthful (el_kernel s')"
proof (cases "buffer_while ticks []")
  case (Some eb)
  obtain enumerated buffered where eb: "eb = (enumerated, buffered)" by (metis surj_pair)
  define s1 where "s1 = (if buffered = [] then s else mark_lifecycle s)
    \<lparr>el_live := foldl (heard parse) (el_live s) buffered\<rparr>"
  have s1: "truthful (el_kernel s1)" using t by (simp add: s1_def)
  obtain d k where r: "resync h (el_daemon s1, el_kernel s1) = (d, k)" by (metis surj_pair)
  have k: "truthful k" using truthful_resync[OF s1, of h "el_daemon s1"] r by simp
  have body: "connect_b h parse tn ticks io stop s =
     (case enumerated of
        Inl BringShutdown \<Rightarrow> Some (s1\<lparr>el_stopped := True\<rparr>)
      | Inl BringLifecycleLost \<Rightarrow> Some (lose_lifecycle tn stop s1)
      | Inl _ \<Rightarrow> Some (back_off_status tn None stop s1)
      | Inr ids \<Rightarrow>
          (case open_subscription parse io of
             None \<Rightarrow> None
           | Some BringShutdown \<Rightarrow> Some (s1\<lparr>el_stopped := True\<rparr>)
           | Some BringReady \<Rightarrow>
               Some (s1\<lparr>el_daemon := d, el_kernel := k,
                       el_subscribed := set (bootstrap_pane_set parse ids buffered),
                       el_status := Some \<lparr>cn_opened = el_now s1, cn_last_event = el_now s1\<rparr>,
                       el_strikes := no_strikes\<rparr>)
           | Some BringLifecycleLost \<Rightarrow> Some (lose_lifecycle tn stop s1)
           | Some BringFailed \<Rightarrow> Some (back_off_status tn None stop s1)))"
    by (simp add: connect_b_def Some eb s1_def[symmetric] r split: sum.split bring.split option.split)
  show ?thesis using run s1 k unfolding body
    by (auto split: sum.splits bring.splits option.splits)
qed (use run in \<open>simp add: connect_b_def\<close>)

lemma loop_step_truthful:
  assumes step: "loop_step h parse tn i s = Some s'" and t: "truthful (el_kernel s)"
  shows "truthful (el_kernel s')"
proof -
  note st = step[unfolded loop_step_def]
  show ?thesis
  proof (cases i)
    case (ConnectA io existing stop)
    then show ?thesis using st t by (auto intro: connect_a_truthful split: if_splits)
  next
    case (ConnectB ticks io stop)
    then show ?thesis using st t by (auto intro: connect_b_truthful split: if_splits)
  next
    case (LifecycleRead r stop)
    then show ?thesis using st t
      by (cases r) (auto intro: lifecycle_line_truthful split: if_splits)
  next
    case (StatusRead r stop)
    then show ?thesis using st t
      by (cases r) (auto intro: status_line_truthful split: if_splits)
  next
    case (Probe stop)
    then show ?thesis using st t by (auto intro: probe_tick_truthful split: if_splits)
  next
    case (DrainRead r stop)
    then show ?thesis using st t by (cases r) (auto split: if_splits)
  qed (use st t in \<open>auto split: if_splits\<close>)
qed

lemma loop_run_truthful:
  "loop_run h parse tn is s = Some s' \<Longrightarrow> truthful (el_kernel s) \<Longrightarrow> truthful (el_kernel s')"
proof (induction "is" arbitrary: s)
  case (Cons i "is")
  then obtain s1 where "loop_step h parse tn i s = Some s1" "loop_run h parse tn is s1 = Some s'"
    by (auto split: option.splits)
  with Cons show ?case by (auto intro: loop_step_truthful)
qed simp

subsection \<open>The backoff ladders\<close>

definition ladders_ok :: "tuning \<Rightarrow> 'd event_loop \<Rightarrow> bool" where
  "ladders_ok tn s \<longleftrightarrow>
     tn_initial_backoff tn \<le> el_lifecycle_backoff s \<and> el_lifecycle_backoff s \<le> tn_max_backoff tn \<and>
     tn_initial_backoff tn \<le> el_status_backoff s \<and> el_status_backoff s \<le> tn_max_backoff tn"

lemma ladder_step:
  assumes "i \<le> b" "b \<le> m" shows "i \<le> next_backoff b m" "next_backoff b m \<le> m"
  using assms by (simp_all add: next_backoff_def)

lemma after_stable_between:
  "tn_initial_backoff tn \<le> b \<Longrightarrow> b \<le> tn_max_backoff tn \<Longrightarrow>
     tn_initial_backoff tn \<le> after_stable tn opened now b \<and> after_stable tn opened now b \<le> tn_max_backoff tn"
  by (auto simp: after_stable_def split: option.splits)

lemma back_off_ladders:
  "ladders_ok tn s \<Longrightarrow> ladders_ok tn (back_off_lifecycle tn t stop s)"
  "ladders_ok tn s \<Longrightarrow> ladders_ok tn (back_off_status tn t stop s)"
  using after_stable_between[of tn "el_lifecycle_backoff s" t "el_now s"]
    after_stable_between[of tn "el_status_backoff s" t "el_now s"]
  by (auto simp: ladders_ok_def back_off_lifecycle_def back_off_status_def Let_def intro: ladder_step)

lemma ladders_frame [simp]:
  "ladders_ok tn (s\<lparr>el_kernel := k\<rparr>) = ladders_ok tn s" "ladders_ok tn (s\<lparr>el_daemon := d\<rparr>) = ladders_ok tn s"
  "ladders_ok tn (s\<lparr>el_strikes := n\<rparr>) = ladders_ok tn s" "ladders_ok tn (s\<lparr>el_now := t\<rparr>) = ladders_ok tn s"
  "ladders_ok tn (s\<lparr>el_stopped := x\<rparr>) = ladders_ok tn s" "ladders_ok tn (s\<lparr>el_live := l\<rparr>) = ladders_ok tn s"
  "ladders_ok tn (s\<lparr>el_lifecycle := c\<rparr>) = ladders_ok tn s" "ladders_ok tn (s\<lparr>el_status := c\<rparr>) = ladders_ok tn s"
  "ladders_ok tn (s\<lparr>el_subscribed := p\<rparr>) = ladders_ok tn s" "ladders_ok tn (s\<lparr>el_draining := b\<rparr>) = ladders_ok tn s"
  "ladders_ok tn (s\<lparr>el_grow_history := g\<rparr>) = ladders_ok tn s" "ladders_ok tn (mark_lifecycle s) = ladders_ok tn s"
  by (simp_all add: ladders_ok_def mark_lifecycle_def)

lemma lose_ladders:
  "ladders_ok tn s \<Longrightarrow> ladders_ok tn (lose_lifecycle tn stop s)"
  "ladders_ok tn s \<Longrightarrow> ladders_ok tn (lose_status tn stop s)"
  unfolding lose_lifecycle_def lose_status_def by (rule back_off_ladders, simp)+

lemma finish_drain_ladders: "ladders_ok tn s \<Longrightarrow> ladders_ok tn (finish_drain tn stop s)"
  by (auto simp: finish_drain_def Let_def) (auto simp: ladders_ok_def intro: ladder_step)

lemma lifecycle_line_ladders [simp]: "ladders_ok tn (lifecycle_line parse tn line s) = ladders_ok tn s"
  by (simp add: lifecycle_line_def Let_def widen_def split: prod.split pushed.split)

lemma status_line_ladders [simp]: "ladders_ok tn (status_line parse line s) = ladders_ok tn s"
  by (simp add: ladders_ok_def)

lemma connect_b_ladders:
  assumes run: "connect_b h parse tn ticks io stop s = Some s'" and l: "ladders_ok tn s"
  shows "ladders_ok tn s'"
proof (cases "buffer_while ticks []")
  case (Some eb)
  obtain enumerated buffered where eb: "eb = (enumerated, buffered)" by (metis surj_pair)
  define s1 where "s1 = (if buffered = [] then s else mark_lifecycle s)
    \<lparr>el_live := foldl (heard parse) (el_live s) buffered\<rparr>"
  have "ladders_ok tn s1" using l by (simp add: s1_def)
  then show ?thesis using run
    by (auto simp: connect_b_def Some eb s1_def[symmetric] back_off_ladders lose_ladders
        split: option.splits prod.splits sum.splits bring.splits)
qed (use run in \<open>simp add: connect_b_def\<close>)

lemma loop_step_ladders:
  assumes step: "loop_step h parse tn i s = Some s'" and l: "ladders_ok tn s"
  shows "ladders_ok tn s'"
proof -
  note st = step[unfolded loop_step_def]
  show ?thesis
  proof (cases i)
    case (ConnectA io existing stop)
    then show ?thesis using st l
      by (auto simp: connect_a_def back_off_ladders split: if_splits option.splits bring.splits)
  next
    case (ConnectB ticks io stop)
    then show ?thesis using st l by (auto intro: connect_b_ladders split: if_splits)
  next
    case (LifecycleRead r stop)
    then show ?thesis using st l by (cases r) (auto simp: lose_ladders split: if_splits)
  next
    case (StatusRead r stop)
    then show ?thesis using st l by (cases r) (auto simp: lose_ladders split: if_splits)
  next
    case (Probe stop)
    then show ?thesis using st l
      by (auto simp: probe_tick_def Let_def lose_ladders split: if_splits prod.splits option.splits verdict.splits)
  next
    case (DrainRead r stop)
    then show ?thesis using st l
      by (cases r) (auto simp: lose_ladders finish_drain_ladders split: if_splits)
  qed (use st l in \<open>auto simp: finish_drain_ladders split: if_splits\<close>)
qed

lemma loop_run_ladders:
  "loop_run h parse tn is s = Some s' \<Longrightarrow> ladders_ok tn s \<Longrightarrow> ladders_ok tn s'"
proof (induction "is" arbitrary: s)
  case (Cons i "is")
  then obtain s1 where "loop_step h parse tn i s = Some s1" "loop_run h parse tn is s1 = Some s'"
    by (auto split: option.splits)
  with Cons show ?case by (auto intro: loop_step_ladders)
qed simp

subsection \<open>Properties\<close>

text \<open>
  C8 (no deaf pane). Whatever arrives on the two connections and however often they are lost,
  whenever both are up and read, every pane connection A has announced and not reported gone
  is in the set connection B subscribed to, if each enumeration taken while A was up listed the
  panes A knew and no pane id was closed and taken again while the enumeration was out.
\<close>

theorem no_deaf_pane:
  assumes "fair_run h parse tn is (start_loop tn d c now)"
    and "loop_run h parse tn is (start_loop tn d c now) = Some s" and "pumping s"
  shows "el_live s \<subseteq> el_subscribed s"
proof -
  have "covered (start_loop tn d c now)" by (simp add: covered_def start_loop_def pumping_def)
  then have "covered s" using loop_run_covered[OF assms(2,1)] by simp
  then show ?thesis using assms(3) by (simp add: covered_def)
qed

text \<open>
  C9 (the bus tells the table). Whatever the loop goes through, a subscriber that has applied
  every event of the bus since the start, in order, holds exactly the status table of the kernel.
\<close>

theorem bus_tells_table:
  assumes "loop_run h parse tn is (start_loop tn d c now) = Some s"
  shows "bus_view (kn_bus (el_kernel s)) = map_of (kn_last_status (el_kernel s))"
proof -
  have "truthful (el_kernel (start_loop tn d c now))"
    by (simp add: start_loop_def truthful_def bus_view_def)
  then show ?thesis using loop_run_truthful[OF assms] by (simp add: truthful_def)
qed

text \<open>
  (backoff). Both reconnect ladders stay between the initial and the largest backoff, in
  every state the loop reaches: it neither spins nor sleeps longer than the cap.
\<close>

theorem backoff_bounded:
  assumes "tn_initial_backoff tn \<le> tn_max_backoff tn"
    and "loop_run h parse tn is (start_loop tn d c now) = Some s"
  shows "tn_initial_backoff tn \<le> el_lifecycle_backoff s \<and> el_lifecycle_backoff s \<le> tn_max_backoff tn \<and>
    tn_initial_backoff tn \<le> el_status_backoff s \<and> el_status_backoff s \<le> tn_max_backoff tn"
proof -
  have "ladders_ok tn (start_loop tn d c now)" using assms(1) by (simp add: ladders_ok_def start_loop_def)
  then show ?thesis using loop_run_ladders[OF assms(2)] by (simp add: ladders_ok_def)
qed

definition good_io :: "string \<Rightarrow> connect_io" where
  "good_io ack = \<lparr>ci_connects = True, ci_writes = True, ci_ticks = [AckRead (GotLine ack)]\<rparr>"

lemma good_io_ready: "is_subscription_ack parse (trim_end ack) \<Longrightarrow> open_subscription parse (good_io ack) = Some BringReady"
  by (simp add: open_subscription_def good_io_def Let_def)





text \<open>
  (a reused id). A pane closed and announced again under the same id while the enumeration
  is out exists and is left out of connection B's set, whatever else was read.
\<close>

theorem reused_id_left_out:
  assumes "lifecycle_change parse closed = Some (Closed (Some p))"
    and "lifecycle_change parse created = Some (Created (Some p))"
  shows "p \<in> foldl (heard parse) live (before @ [closed] @ between @ [created]) \<and>
    p \<notin> set (bootstrap_pane_set parse ids (before @ [closed] @ between @ [created]))"
  using assms by (simp add: heard_def bootstrap_pane_set_def is_gone_def)

text \<open>A concrete run: both connections come up, a pane is announced, connection B is rebuilt.\<close>

lemma demo_lines:
  "trim_end ''a'' = ''a''" "trim_end ''n'' = ''n''"
  "is_subscription_ack demo_parse ''a''"
  "lifecycle_change demo_parse ''n'' = Some (Created (Some ''p2''))"
  "lifecycle_change demo_parse ''g'' = Some (Closed (Some ''p2''))"
  by (simp_all add: trim_end_letter byte_classes)
    (simp_all add: is_subscription_ack_def demo_parse_def jget_str_def lifecycle_change_def
      pushed_envelope_def underscored_def pane_created_id_def pane_gone_id_def or_else_def)

lemma demo_ready: "open_subscription demo_parse (good_io ''a'') = Some BringReady"
  by (rule good_io_ready) (simp add: demo_lines)

definition kernel_inputs :: "loop_input list" where
  "kernel_inputs =
     [ConnectA (good_io ''a'') {} False,
      ConnectB [EnumRead (GotLine ''n''), EnumDone (Inr [])] (good_io ''a'') False]"

definition kernel_start :: "unit event_loop" where
  "kernel_start = start_loop default_tuning () (new_client new_pane_registry new_tab_registry) 0"

lemma demo_run:
  "\<exists>s. loop_run demo_herdr demo_parse default_tuning kernel_inputs kernel_start = Some s \<and> pumping s \<and>
     el_live s = {''p2''}"
  by (simp add: kernel_inputs_def kernel_start_def start_loop_def loop_step_def connect_a_def connect_lifecycle_def
      demo_ready connect_b_def Let_def heard_def demo_lines pumping_def mark_lifecycle_def split: prod.split)

lemma demo_fair: "fair_run demo_herdr demo_parse default_tuning kernel_inputs kernel_start"
proof -
  have "heard demo_parse {} ''n'' = {''p2''}" by (simp add: heard_def demo_lines)
  moreover have "\<not> is_gone demo_parse [''n''] p" for p by (simp add: is_gone_def demo_lines)
  ultimately have "fair_enumeration demo_parse {} [] [''n'']" by (simp add: fair_enumeration_def)
  then show ?thesis
    by (simp add: kernel_inputs_def kernel_start_def start_loop_def fair_input_def loop_step_def connect_a_def
        connect_lifecycle_def demo_ready split: option.split)
qed

theorem no_deaf_pane_witness:
  "\<exists>s. loop_run demo_herdr demo_parse default_tuning kernel_inputs kernel_start = Some s \<and>
     ''p2'' \<in> el_live s \<and> el_live s \<subseteq> el_subscribed s"
proof -
  obtain s where s: "loop_run demo_herdr demo_parse default_tuning kernel_inputs kernel_start = Some s" "pumping s"
    "el_live s = {''p2''}" using demo_run by blast
  have "el_live s \<subseteq> el_subscribed s"
    using no_deaf_pane[OF demo_fair[unfolded kernel_start_def] s(1)[unfolded kernel_start_def] s(2)] .
  then show ?thesis using s by blast
qed

theorem bus_tells_table_witness:
  "\<exists>s. loop_run demo_herdr demo_parse default_tuning kernel_inputs kernel_start = Some s \<and>
     bus_view (kn_bus (el_kernel s)) = map_of (kn_last_status (el_kernel s))"
proof -
  obtain s where s: "loop_run demo_herdr demo_parse default_tuning kernel_inputs kernel_start = Some s"
    using demo_run by blast
  then show ?thesis using bus_tells_table[OF s[unfolded kernel_start_def]] by blast
qed

theorem backoff_bounded_witness:
  "\<exists>s. loop_run demo_herdr demo_parse default_tuning kernel_inputs kernel_start = Some s \<and>
     1000 \<le> el_status_backoff s \<and> el_status_backoff s \<le> 60000"
proof -
  obtain s where s: "loop_run demo_herdr demo_parse default_tuning kernel_inputs kernel_start = Some s"
    using demo_run by blast
  then show ?thesis using backoff_bounded[OF _ s[unfolded kernel_start_def]]
    by (auto simp: default_tuning_def)
qed


theorem reused_id_left_out_witness:
  "''p2'' \<in> foldl (heard demo_parse) {} ([] @ [''g''] @ [] @ [''n'']) \<and>
   ''p2'' \<notin> set (bootstrap_pane_set demo_parse [''p1'', ''p2''] ([] @ [''g''] @ [] @ [''n'']))"
  by (rule reused_id_left_out[OF demo_lines(5,4)])

end
