(* ===== verification/SpaceOps.thy ===== *)
theory SpaceOps
  imports PaneOps Layout
begin

text \<open>
  The space RPCs, \<open>muxrd/src/grpc/space_ops.rs\<close>: listing, switching, creating, renaming and
  closing spaces. The backend is the record of the trait methods the handlers call, each on a
  daemon state; a method runs in a blocking task, which can also panic. A relay's answer to a
  queued switch is an argument.
\<close>

subsection \<open>The backend as the handlers see it\<close>

text \<open>An error carries whether it is an unknown space.\<close>

datatype 'a task = Returned 'a | Errored bool | Panicked

record 'd space_backend =
  sb_supports_spaces :: bool
  sb_list_spaces :: "string \<Rightarrow> 'd \<Rightarrow> space_snapshot list task \<times> 'd"
  sb_create_space :: "string option \<Rightarrow> 'd \<Rightarrow> action_ack task \<times> 'd"
  sb_rename_space :: "string \<Rightarrow> string \<Rightarrow> 'd \<Rightarrow> action_ack task \<times> 'd"
  sb_close_space :: "string \<Rightarrow> bool \<Rightarrow> 'd \<Rightarrow> action_ack task \<times> 'd"
  sb_removed_by_close :: "string \<Rightarrow> bool \<Rightarrow> 'd \<Rightarrow> string list task \<times> 'd"
  sb_query_layout :: "string \<Rightarrow> string option \<Rightarrow> 'd \<Rightarrow> layout_snapshot task \<times> 'd"

text \<open>How an RPC ends; a panic aborts its task only.\<close>

datatype 'a rpc = Replied 'a | Failed status | Aborted

text \<open>A blocking call whose error and panic are both \<open>Internal\<close>.\<close>

definition call :: "'a task \<times> 'd \<Rightarrow> ('a \<Rightarrow> 'd \<Rightarrow> 'b rpc \<times> 'd) \<Rightarrow> 'b rpc \<times> 'd" where
  "call r k = (case r of (Returned a, d) \<Rightarrow> k a d | (_, d) \<Rightarrow> (Failed Internal, d))"

subsection \<open>Per-connection view state\<close>

record relay_view_state =
  vs_active_tab :: "64 word option"
  vs_focused_pane :: "pane_ref option"
  vs_current_space :: "string option"

record view_state_entry =
  ve_session :: string
  ve_state :: relay_view_state

type_synonym view_registry = "string \<rightharpoonup> view_state_entry"

datatype connection_space = UnknownConnection | DaemonActive | InSpace string

definition connection_space :: "view_registry \<Rightarrow> string \<Rightarrow> string \<Rightarrow> connection_space" where
  "connection_space views sess cid =
     (if cid = [] then UnknownConnection
      else (case views cid of
              None \<Rightarrow> UnknownConnection
            | Some e \<Rightarrow>
                if ve_session e \<noteq> sess then UnknownConnection
                else (case vs_current_space (ve_state e) of Some i \<Rightarrow> InSpace i | None \<Rightarrow> DaemonActive)))"

definition connection_current_space :: "view_registry \<Rightarrow> string \<Rightarrow> string \<Rightarrow> string option" where
  "connection_current_space views sess cid =
     (case connection_space views sess cid of InSpace i \<Rightarrow> Some i | _ \<Rightarrow> None)"

text \<open>The relay a space command may steer: an exact connection of the session, nothing else.\<close>

definition resolve_space_relay :: "control_registry \<Rightarrow> string \<Rightarrow> string \<Rightarrow> string option" where
  "resolve_space_relay reg sess cid = exact_match reg sess cid"

subsection \<open>Validators and small functions\<close>

definition MAX_SPACE_LABEL_LEN :: nat where "MAX_SPACE_LABEL_LEN = 64"
definition MAX_SPACE_ID_LEN :: nat where "MAX_SPACE_ID_LEN = 128"

definition label_char :: "char \<Rightarrow> bool" where
  "label_char c \<longleftrightarrow> is_ascii_alphanumeric c \<or> c \<in> {CHR '' '', CHR ''_'', CHR ''-'', CHR ''.''}"

definition space_id_char :: "char \<Rightarrow> bool" where
  "space_id_char c \<longleftrightarrow> is_ascii_alphanumeric c \<or> c \<in> {CHR ''_'', CHR ''-'', CHR ''.'', CHR '':''}"

text \<open>A byte of a multi-byte character is no label character, so bytes stand for the characters.\<close>

definition validate_space_label :: "string \<Rightarrow> status + unit" where
  "validate_space_label label =
     (if label = [] then Inl InvalidArgument
      else if MAX_SPACE_LABEL_LEN < length label then Inl InvalidArgument
      else if \<not> list_all label_char label then Inl InvalidArgument
      else Inr ())"

definition validate_space_id :: "string \<Rightarrow> status + unit" where
  "validate_space_id space =
     (if space = [] then Inl InvalidArgument
      else if MAX_SPACE_ID_LEN < length space then Inl InvalidArgument
      else if \<not> list_all space_id_char space then Inl InvalidArgument
      else Inr ())"

definition would_close_last_space :: "nat \<Rightarrow> bool" where
  "would_close_last_space count \<longleftrightarrow> count \<le> 1"

definition would_close_every_space :: "nat \<Rightarrow> nat \<Rightarrow> bool" where
  "would_close_every_space count removed \<longleftrightarrow> count \<le> removed"

fun join_comma :: "string list \<Rightarrow> string" where
  "join_comma [] = []"
| "join_comma [s] = s"
| "join_comma (s # t # ss) = s @ '', '' @ join_comma (t # ss)"

definition describe_removed :: "string list \<Rightarrow> string" where
  "describe_removed removed =
     (case removed of
        [] \<Rightarrow> []
      | [one] \<Rightarrow> ''closed 1 space: '' @ one
      | many \<Rightarrow> ''closed '' @ dec (length many) @ '' spaces as a worktree group: '' @ join_comma many)"

definition pick_repoint_target :: "space_snapshot list \<Rightarrow> string option" where
  "pick_repoint_target spaces =
     map_option ss_id
       (case find ss_active spaces of
          Some s \<Rightarrow> Some s
        | None \<Rightarrow> (case spaces of [] \<Rightarrow> None | s # _ \<Rightarrow> Some s))"

definition ack_msg :: "action_ack \<Rightarrow> proto_ack" where
  "ack_msg a =
     \<lparr>ok = a_ok a, error = (case a_error a of Some e \<Rightarrow> e | None \<Rightarrow> []),
      info = (case a_info a of Some i \<Rightarrow> i | None \<Rightarrow> [])\<rparr>"

definition refused_ack :: "string \<Rightarrow> proto_ack" where
  "refused_ack e = \<lparr>ok = False, error = e, info = []\<rparr>"

subsection \<open>The service\<close>

record 'd space_service =
  sp_zellij_ok :: "string \<Rightarrow> bool"
  sp_backends :: "'d space_backend backend_set"
  sp_views :: view_registry

definition sp_resolve :: "'d space_service \<Rightarrow> string \<Rightarrow> status + 'd space_backend \<times> string" where
  "sp_resolve svc sid = resolve_session (sp_zellij_ok svc) (sp_backends svc) sid"

subsection \<open>The handlers\<close>

record space_msg =
  sm_id :: string
  sm_name :: string
  sm_active :: bool

definition get_spaces_impl :: "'d space_service \<Rightarrow> string \<Rightarrow> string \<Rightarrow> 'd \<Rightarrow> space_msg list rpc \<times> 'd" where
  "get_spaces_impl svc sess cid d =
     (case sp_resolve svc sess of
        Inl e \<Rightarrow> (Failed e, d)
      | Inr (b, bare) \<Rightarrow>
          (case short_conn cid of
             None \<Rightarrow> (Aborted, d)
           | Some _ \<Rightarrow>
               call (sb_list_spaces b bare d) (\<lambda>snapshots d'.
                 let relay_space = connection_current_space (sp_views svc) sess cid
                 in (Replied (map (\<lambda>s. \<lparr>sm_id = ss_id s, sm_name = ss_name s,
                        sm_active = (case relay_space of Some ws \<Rightarrow> ss_id s = ws | None \<Rightarrow> ss_active s)\<rparr>) snapshots),
                     d'))))"

text \<open>A relay's answer to a queued switch: its result, the reply dropped, or the timeout.\<close>

datatype switch_reply = Switched | SwitchFailed string | ReplyDropped | ReplyTimeout

definition switch_ack :: "switch_reply \<Rightarrow> proto_ack" where
  "switch_ack r =
     (case r of
        Switched \<Rightarrow> \<lparr>ok = True, error = [], info = []\<rparr>
      | SwitchFailed e \<Rightarrow> refused_ack (''SwitchSpace failed: '' @ e)
      | ReplyDropped \<Rightarrow> refused_ack ''SwitchSpace: relay cancelled the request''
      | ReplyTimeout \<Rightarrow> refused_ack ''SwitchSpace: timed out waiting for the relay'')"

definition switch_space_impl :: "'d space_service \<Rightarrow> string \<Rightarrow> string \<Rightarrow> string \<Rightarrow> switch_reply \<Rightarrow>
    control_registry \<Rightarrow> proto_ack rpc \<times> control_registry" where
  "switch_space_impl svc sess cid space reply reg =
     (case validate_space_id space of
        Inl e \<Rightarrow> (Failed e, reg)
      | Inr _ \<Rightarrow>
          (case sp_resolve svc sess of
             Inl e \<Rightarrow> (Failed e, reg)
           | Inr _ \<Rightarrow>
               (case short_conn cid of
                  None \<Rightarrow> (Aborted, reg)
                | Some _ \<Rightarrow>
                    (case resolve_space_relay reg sess cid of
                       None \<Rightarrow> (Replied (refused_ack ''reattach required (no matching connection)''), reg)
                     | Some tx \<Rightarrow>
                         if \<not> send_ok tx reg
                         then (Replied (refused_ack ''SwitchSpace: relay unavailable (tearing down)''), reg)
                         else (Replied (switch_ack reply), send_to tx (SwitchSpace space) reg)))))"

definition run_space_action :: "action_ack task \<times> 'd \<Rightarrow> proto_ack rpc \<times> 'd" where
  "run_space_action r = call r (\<lambda>a d. (Replied (ack_msg a), d))"

definition create_space_impl :: "'d space_service \<Rightarrow> bool option \<Rightarrow> string \<Rightarrow> string \<Rightarrow> 'd \<Rightarrow> proto_ack rpc \<times> 'd" where
  "create_space_impl svc ext sess label d =
     (case reject_if_read_only ext of
        Inl e \<Rightarrow> (Failed e, d)
      | Inr _ \<Rightarrow>
          (case sp_resolve svc sess of
             Inl e \<Rightarrow> (Failed e, d)
           | Inr (b, _) \<Rightarrow>
               if label = [] then run_space_action (sb_create_space b None d)
               else (case validate_space_label label of
                       Inl e \<Rightarrow> (Failed e, d)
                     | Inr _ \<Rightarrow> run_space_action (sb_create_space b (Some label) d))))"

definition rename_space_impl :: "'d space_service \<Rightarrow> bool option \<Rightarrow> string \<Rightarrow> string \<Rightarrow> string \<Rightarrow> 'd \<Rightarrow>
    proto_ack rpc \<times> 'd" where
  "rename_space_impl svc ext sess space label d =
     (case reject_if_read_only ext of
        Inl e \<Rightarrow> (Failed e, d)
      | Inr _ \<Rightarrow>
          (case sp_resolve svc sess of
             Inl e \<Rightarrow> (Failed e, d)
           | Inr (b, _) \<Rightarrow>
               (case validate_space_id space of
                  Inl e \<Rightarrow> (Failed e, d)
                | Inr _ \<Rightarrow>
                    (case validate_space_label label of
                       Inl e \<Rightarrow> (Failed e, d)
                     | Inr _ \<Rightarrow> run_space_action (sb_rename_space b space label d)))))"

subsection \<open>Closing a space\<close>

record close_req =
  cl_session :: string
  cl_connection :: string
  cl_space :: string
  cl_group :: bool

definition close_refusal :: "bool \<Rightarrow> nat \<Rightarrow> nat \<Rightarrow> string option" where
  "close_refusal close_group count removed =
     (if close_group
      then (if would_close_every_space count removed
            then Some (''cannot close this group: it covers all '' @ dec count @
                   '' space(s) on this daemon, which would leave none'')
            else None)
      else (if would_close_last_space count then Some ''cannot close the last space'' else None))"

definition list_spaces_after_close :: "'d space_backend \<Rightarrow> string \<Rightarrow> 'd \<Rightarrow> space_snapshot list option \<times> 'd" where
  "list_spaces_after_close b bare d =
     (case sb_list_spaces b bare d of (Returned ss, d') \<Rightarrow> (Some ss, d') | (_, d') \<Rightarrow> (None, d'))"

text \<open>Best effort: the relay's reply only goes to the log.\<close>

definition repoint_caller_after_close :: "control_registry \<Rightarrow> string \<Rightarrow> string \<Rightarrow> string option \<Rightarrow> control_registry" where
  "repoint_caller_after_close reg sess cid target =
     (case resolve_space_relay reg sess cid of
        None \<Rightarrow> reg
      | Some tx \<Rightarrow>
          (case target of
             None \<Rightarrow> reg
           | Some t \<Rightarrow> if send_ok tx reg then send_to tx (SwitchSpace t) reg else reg))"

definition no_spaces_warning :: string where
  "no_spaces_warning =
     ''; WARNING: no spaces remain on this daemon '' @ [CHR 0xE2, CHR 0x80, CHR 0x94] @
     '' create a space before attaching again''"

text \<open>What follows a close the backend acknowledged.\<close>

definition after_close :: "'d space_service \<Rightarrow> close_req \<Rightarrow> 'd space_backend \<Rightarrow> string \<Rightarrow> string list \<Rightarrow>
    control_registry \<Rightarrow> 'd \<Rightarrow> (proto_ack rpc \<times> control_registry) \<times> 'd" where
  "after_close svc rq b bare removals reg d =
     (let (remaining, d') = list_spaces_after_close b bare d;
          inf = describe_removed removals @ (if remaining = Some [] then no_spaces_warning else []);
          reg' = (if connection_current_space (sp_views svc) (cl_session rq) (cl_connection rq) = Some (cl_space rq)
                  then repoint_caller_after_close reg (cl_session rq) (cl_connection rq)
                         (Option.bind remaining pick_repoint_target)
                  else reg)
      in ((Replied \<lparr>ok = True, error = [], info = inf\<rparr>, reg'), d'))"

definition closing :: "'d space_service \<Rightarrow> close_req \<Rightarrow> 'd space_backend \<Rightarrow> string \<Rightarrow> string list \<Rightarrow>
    control_registry \<Rightarrow> 'd \<Rightarrow> (proto_ack rpc \<times> control_registry) \<times> 'd" where
  "closing svc rq b bare removals reg d =
     (case sb_close_space b (cl_space rq) (cl_group rq) d of
        (Returned ack, d') \<Rightarrow>
          if a_ok ack then after_close svc rq b bare removals reg d'
          else ((Replied (ack_msg ack), reg), d')
      | (_, d') \<Rightarrow> ((Failed Internal, reg), d'))"

definition removal_set :: "'d space_backend \<Rightarrow> close_req \<Rightarrow> 'd \<Rightarrow> string list task \<times> 'd" where
  "removal_set b rq d =
     (if cl_group rq then sb_removed_by_close b (cl_space rq) True d else (Returned [cl_space rq], d))"

definition close_space_impl :: "'d space_service \<Rightarrow> bool option \<Rightarrow> close_req \<Rightarrow> control_registry \<Rightarrow> 'd \<Rightarrow>
    (proto_ack rpc \<times> control_registry) \<times> 'd" where
  "close_space_impl svc ext rq reg d =
     (case reject_if_read_only ext of
        Inl e \<Rightarrow> ((Failed e, reg), d)
      | Inr _ \<Rightarrow>
          (case sp_resolve svc (cl_session rq) of
             Inl e \<Rightarrow> ((Failed e, reg), d)
           | Inr (b, bare) \<Rightarrow>
               (case validate_space_id (cl_space rq) of
                  Inl e \<Rightarrow> ((Failed e, reg), d)
                | Inr _ \<Rightarrow>
                    (case sb_list_spaces b bare d of
                       (Returned spaces, d1) \<Rightarrow>
                         (case removal_set b rq d1 of
                            (Returned removals, d2) \<Rightarrow>
                              (case close_refusal (cl_group rq) (length spaces) (length removals) of
                                 Some e \<Rightarrow> ((Replied (refused_ack e), reg), d2)
                               | None \<Rightarrow> closing svc rq b bare removals reg d2)
                          | (_, d2) \<Rightarrow> ((Failed Internal, reg), d2))
                     | (_, d1) \<Rightarrow> ((Failed Internal, reg), d1)))))"

subsection \<open>Properties\<close>

lemma send_to_other: "k \<noteq> key \<Longrightarrow> map_of (send_to key cmd reg) k = map_of reg k"
  by (induction reg) (auto simp: send_to_def)

lemma relay_match_Some:
  "exact_match reg sess cid = Some tx \<longleftrightarrow>
     tx = cid \<and> cid \<noteq> [] \<and> (\<exists>e. map_of reg cid = Some e \<and> session e = sess)"
  by (auto simp: exact_match_def split: option.splits)

definition steers_only :: "string \<Rightarrow> string \<Rightarrow> control_registry \<Rightarrow> control_registry \<Rightarrow> bool" where
  "steers_only sess cid reg reg' \<longleftrightarrow>
     (\<forall>k. k \<noteq> cid \<longrightarrow> map_of reg' k = map_of reg k) \<and>
     (reg' = reg \<or> cid \<noteq> [] \<and> (\<exists>e. map_of reg cid = Some e \<and> session e = sess))"

lemma steers_refl [simp]: "steers_only sess cid reg reg"
  by (simp add: steers_only_def)

lemma steers_send: "resolve_space_relay reg sess cid = Some tx \<Longrightarrow> steers_only sess cid reg (send_to tx cmd reg)"
  by (auto simp: resolve_space_relay_def relay_match_Some steers_only_def send_to_other)

lemma repoint_steers: "steers_only sess cid reg (repoint_caller_after_close reg sess cid target)"
  by (auto simp: repoint_caller_after_close_def steers_send split: option.split)

lemma close_steers: "steers_only (cl_session rq) (cl_connection rq) reg (snd (fst (close_space_impl svc ext rq reg d)))"
  by (auto simp: close_space_impl_def closing_def after_close_def Let_def repoint_steers
      split: sum.split prod.split task.split option.split)

text \<open>
  (space commands steer the caller only). SwitchSpace and CloseSpace never queue a command for
  any relay but the one registered under the caller's own, non-empty connection id and for the
  session the request names.
\<close>

theorem space_commands_isolated:
  "steers_only sess cid reg (snd (switch_space_impl svc sess cid space reply reg)) \<and>
   steers_only (cl_session rq) (cl_connection rq) reg (snd (fst (close_space_impl svc ext rq reg d)))"
  by (simp add: close_steers switch_space_impl_def steers_send split: sum.split option.split)

text \<open>
  What the handler relies on: \<open>spaces\<close> are the daemon's, a listing lists them and the resolution
  of a group is a read, and a close removes what that resolution answered (the named space
  without the group flag) or nothing.
\<close>

definition honest_spaces :: "'d space_backend \<Rightarrow> ('d \<Rightarrow> string list) \<Rightarrow> bool" where
  "honest_spaces b spaces \<longleftrightarrow>
     (\<forall>d. distinct (spaces d)) \<and>
     (\<forall>s d. spaces (snd (sb_list_spaces b s d)) = spaces d) \<and>
     (\<forall>s d ss. fst (sb_list_spaces b s d) = Returned ss \<longrightarrow> map ss_id ss = spaces d) \<and>
     (\<forall>s g d. spaces (snd (sb_removed_by_close b s g d)) = spaces d) \<and>
     (\<forall>s d d' rs. sb_removed_by_close b s True d = (Returned rs, d') \<longrightarrow>
        spaces (snd (sb_close_space b s True d')) \<in> {spaces d, filter (\<lambda>w. w \<notin> set rs) (spaces d)}) \<and>
     (\<forall>s d. spaces (snd (sb_close_space b s False d)) \<in> {spaces d, filter (\<lambda>w. w \<noteq> s) (spaces d)})"

lemma filter_leaves_one:
  assumes "distinct xs" "length rs < length xs"
  shows "filter (\<lambda>w. w \<notin> set rs) xs \<noteq> []"
proof
  assume "filter (\<lambda>w. w \<notin> set rs) xs = []"
  then have "set xs \<subseteq> set rs" by (auto simp: filter_empty_conv)
  then have "card (set xs) \<le> length rs" by (meson card_length card_mono finite_set le_trans)
  then show False using assms by (simp add: distinct_card)
qed

lemma closing_spaces:
  assumes h: "honest_spaces b spaces"
  shows "spaces (snd (closing svc rq b bare removals reg d)) = spaces (snd (sb_close_space b (cl_space rq) (cl_group rq) d))"
proof -
  have l: "sb_list_spaces b s e = (r, e') \<Longrightarrow> spaces e' = spaces e" for s e r e'
    using h unfolding honest_spaces_def by (metis snd_conv)
  show ?thesis
    by (auto simp: closing_def after_close_def list_spaces_after_close_def Let_def l
        split: prod.split task.split)
qed

text \<open>
  (never without a space). Against a backend whose listing and group resolution are honest,
  and with no other change in between, CloseSpace never leaves the daemon without a space,
  with or without the group flag and however the backend ends the close.
\<close>

theorem close_leaves_a_space:
  assumes b: "sp_resolve svc (cl_session rq) = Inr (b, bare)" and h: "honest_spaces b spaces"
    and some: "spaces d \<noteq> []"
  shows "spaces (snd (close_space_impl svc ext rq reg d)) \<noteq> []"
proof -
  obtain r d1 where l: "sb_list_spaces b bare d = (r, d1)" by (metis surj_pair)
  have d1: "spaces d1 = spaces d" using h l unfolding honest_spaces_def by (metis snd_conv)
  obtain rr d2 where m: "removal_set b rq d1 = (rr, d2)" by (metis surj_pair)
  have d2: "spaces d2 = spaces d"
    using h m d1 unfolding honest_spaces_def removal_set_def by (metis snd_conv)
  have close: "spaces (snd (closing svc rq b bare rs reg d2)) \<noteq> []"
    if r: "r = Returned ss" "rr = Returned rs" "close_refusal (cl_group rq) (length ss) (length rs) = None" for ss rs
  proof -
    have ss: "length ss = length (spaces d)"
      using h l r(1) unfolding honest_spaces_def by (metis fst_conv length_map)
    have dist: "distinct (spaces d)" using h by (simp add: honest_spaces_def)
    show ?thesis
    proof (cases "cl_group rq")
      case True
      then have lt: "length rs < length (spaces d)"
        using r(3) ss by (auto simp: close_refusal_def would_close_every_space_def split: if_splits)
      have "spaces (snd (sb_close_space b (cl_space rq) True d2)) \<in>
          {spaces d1, filter (\<lambda>w. w \<notin> set rs) (spaces d1)}"
      proof -
        have "sb_removed_by_close b (cl_space rq) True d1 = (Returned rs, d2)"
          using m r(2) True by (simp add: removal_set_def)
        then show ?thesis using h unfolding honest_spaces_def by blast
      qed
      then show ?thesis
        using some filter_leaves_one[OF dist lt] True by (auto simp: closing_spaces[OF h] d1)
    next
      case False
      then have lt: "length [cl_space rq] < length (spaces d)"
        using r(3) ss by (auto simp: close_refusal_def would_close_last_space_def split: if_splits)
      have "spaces (snd (sb_close_space b (cl_space rq) False d2)) \<in>
          {spaces d2, filter (\<lambda>w. w \<noteq> cl_space rq) (spaces d2)}"
        using h unfolding honest_spaces_def by blast
      then show ?thesis
        using some filter_leaves_one[OF dist lt] False by (auto simp: closing_spaces[OF h] d2)
    qed
  qed
  show ?thesis using b l m close some
    by (auto simp: close_space_impl_def d1 d2 split: sum.split task.split option.split)
qed

text \<open>
  (a group close strands its caller). When the caller's relay shows another space than the
  one named, CloseSpace queues nothing for it, also when the close takes the shown space with
  its group: the wire stream keeps pointing at a dead workspace.
\<close>

theorem group_close_strands_caller:
  assumes "connection_current_space (sp_views svc) (cl_session rq) (cl_connection rq) = Some w" "w \<noteq> cl_space rq"
  shows "snd (fst (close_space_impl svc ext rq reg d)) = reg"
  using assms
  by (auto simp: close_space_impl_def closing_def after_close_def Let_def split: sum.split prod.split task.split option.split)

text \<open>A daemon with three spaces, of which \<open>w1\<close> and \<open>w2\<close> are a group.\<close>

definition demo_removed :: "string \<Rightarrow> bool \<Rightarrow> string list" where
  "demo_removed s g = (if g \<and> s \<in> {''w1'', ''w2''} then [''w1'', ''w2''] else [s])"

definition demo_space_backend :: "string list space_backend" where
  "demo_space_backend =
     \<lparr>sb_supports_spaces = True,
      sb_list_spaces = (\<lambda>_ d. (Returned (map (\<lambda>i. \<lparr>ss_id = i, ss_name = i, ss_active = False\<rparr>) (remdups d)), d)),
      sb_create_space = (\<lambda>_ d. (Errored False, d)),
      sb_rename_space = (\<lambda>_ _ d. (Errored False, d)),
      sb_close_space = (\<lambda>s g d. (Returned \<lparr>a_ok = True, a_error = None, a_info = None\<rparr>,
                                  filter (\<lambda>w. w \<notin> set (demo_removed s g)) d)),
      sb_removed_by_close = (\<lambda>s g d. (Returned (demo_removed s g), d)),
      sb_query_layout = (\<lambda>_ _ d. (Errored False, d))\<rparr>"

definition demo_space_service :: "string list space_service" where
  "demo_space_service =
     \<lparr>sp_zellij_ok = (\<lambda>_. True), sp_backends = [(Herdr, demo_space_backend)],
      sp_views = [''c'' \<mapsto> \<lparr>ve_session = ''herdr:herdr'',
                  ve_state = \<lparr>vs_active_tab = None, vs_focused_pane = None, vs_current_space = Some ''w2''\<rparr>\<rparr>]\<rparr>"

definition demo_close :: close_req where
  "demo_close = \<lparr>cl_session = ''herdr:herdr'', cl_connection = ''c'', cl_space = ''w1'', cl_group = True\<rparr>"

lemma demo_space_resolves: "sp_resolve demo_space_service ''herdr:herdr'' = Inr (demo_space_backend, ''herdr'')"
  by (simp add: sp_resolve_def demo_space_service_def resolve_session_def resolve_session_kind_def
      resolve_owner_def parse_backend_kind_def backend_get_def validate_session_def
      validate_session_name_def session_char_def byte_classes)

lemma demo_space_honest: "honest_spaces demo_space_backend remdups"
  by (auto simp: honest_spaces_def demo_space_backend_def demo_removed_def remdups_filter o_def)

theorem close_leaves_a_space_witness:
  "remdups (snd (close_space_impl demo_space_service (Some False) demo_close [] [''w1'', ''w2'', ''w3''])) \<noteq> []"
  by (rule close_leaves_a_space[OF _ demo_space_honest, where bare = "''herdr''"])
    (simp_all add: demo_close_def demo_space_resolves)

theorem group_close_strands_caller_witness:
  "snd (close_space_impl demo_space_service (Some False) demo_close [] [''w1'', ''w2'', ''w3'']) = [''w3''] \<and>
   snd (fst (close_space_impl demo_space_service (Some False) demo_close [] [''w1'', ''w2'', ''w3''])) = []"
proof
  show "snd (close_space_impl demo_space_service (Some False) demo_close [] [''w1'', ''w2'', ''w3'']) = [''w3'']"
    by (simp add: close_space_impl_def demo_close_def demo_space_resolves validate_space_id_def MAX_SPACE_ID_LEN_def
        space_id_char_def byte_classes demo_space_backend_def removal_set_def demo_removed_def close_refusal_def
        would_close_every_space_def closing_def after_close_def list_spaces_after_close_def Let_def)
  show "snd (fst (close_space_impl demo_space_service (Some False) demo_close [] [''w1'', ''w2'', ''w3''])) = []"
    by (rule group_close_strands_caller[where w = "''w2''"])
      (simp_all add: demo_close_def demo_space_service_def connection_current_space_def connection_space_def)
qed

end
