(* ===== verification/LayoutOps.thy ===== *)
theory LayoutOps
  imports SpaceOps AgentWatch
begin

text \<open>
  GetLayout, \<open>muxrd/src/grpc/layout.rs\<close>: the layout asked of a live relay or of the backend, the
  override with the caller's own view, and the message built from it. Which relay is asked and
  how it answers are visible: the registry is in iteration order, the relay's answer an argument.
\<close>

subsection \<open>Messages\<close>

record agent_mark_msg =
  mm_kind :: string
  mm_name :: string
  mm_status :: nat

definition mark_msg :: "agent_mark \<Rightarrow> agent_mark_msg" where
  "mark_msg m = \<lparr>mm_kind = mk_kind m, mm_name = unwrap_or_empty (mk_name m), mm_status = agent_status_msg (mk_status m)\<rparr>"

record pane_msg =
  pm_id :: "32 word"
  pm_title :: string
  pm_focused :: bool
  pm_floating :: bool
  pm_exited :: bool
  pm_command :: string
  pm_cwd :: string
  pm_x :: "32 word"
  pm_y :: "32 word"
  pm_rows :: "32 word"
  pm_cols :: "32 word"
  pm_plugin :: bool
  pm_fullscreen :: bool
  pm_agent :: "agent_mark_msg option"

record tab_msg =
  tm_position :: "32 word"
  tm_name :: string
  tm_active :: bool
  tm_has_bell :: bool
  tm_panes_to_hide :: "32 word"
  tm_tab_id :: "32 word"
  tm_panes :: "pane_msg list"
  tm_fullscreen_active :: bool
  tm_floating_visible :: bool

subsection \<open>Pure policy\<close>

definition pane_is_client_visible :: "bool \<Rightarrow> bool" where
  "pane_is_client_visible plugin \<longleftrightarrow> \<not> plugin"

definition is_space_scoped :: "string \<Rightarrow> bool" where "is_space_scoped space \<longleftrightarrow> space \<noteq> []"

definition rejects_space_scope :: "string \<Rightarrow> bool \<Rightarrow> bool" where
  "rejects_space_scope space supports \<longleftrightarrow> is_space_scoped space \<and> \<not> supports"

definition space_is_own :: "connection_space \<Rightarrow> string \<Rightarrow> bool" where
  "space_is_own view space \<longleftrightarrow> view = InSpace space"

definition space_query_status :: "bool \<Rightarrow> status" where
  "space_query_status unknown = (if unknown then NotFound else Internal)"

definition resolve_effective_active_tab :: "relay_view_state option \<Rightarrow> layout_snapshot \<Rightarrow> 64 word option" where
  "resolve_effective_active_tab relay_vs snapshot =
     (case relay_vs of
        None \<Rightarrow> None
      | Some vs \<Rightarrow>
          (case vs_active_tab vs of
             Some at \<Rightarrow> Some at
           | None \<Rightarrow>
               (case vs_focused_pane vs of
                  None \<Rightarrow> None
                | Some fp \<Rightarrow>
                    map_option ts_tab_id
                      (find (\<lambda>t. list_ex (is_pane fp)
                                (filter (\<lambda>p. pane_is_client_visible (ps_plugin p)) (ts_panes t)))
                         (ls_tabs snapshot)))))"

definition pane_focused :: "bool \<Rightarrow> relay_view_state option \<Rightarrow> pane_snapshot \<Rightarrow> bool" where
  "pane_focused in_active_tab relay_vs p =
     (if in_active_tab
      then (case Option.bind relay_vs vs_focused_pane of Some fp \<Rightarrow> is_pane fp p | None \<Rightarrow> ps_focused p)
      else ps_focused p)"

definition pane_message :: "bool \<Rightarrow> relay_view_state option \<Rightarrow> pane_snapshot \<Rightarrow> pane_msg" where
  "pane_message in_active_tab relay_vs p =
     \<lparr>pm_id = ps_id p, pm_title = ps_title p, pm_focused = pane_focused in_active_tab relay_vs p,
      pm_floating = ps_floating p, pm_exited = ps_exited p, pm_command = ps_command p, pm_cwd = ps_cwd p,
      pm_x = ps_x p, pm_y = ps_y p, pm_rows = ps_rows p, pm_cols = ps_cols p, pm_plugin = ps_plugin p,
      pm_fullscreen = ps_fullscreen p, pm_agent = map_option mark_msg (ps_agent p)\<rparr>"

text \<open>\<open>tab_id as u32\<close> keeps the low half.\<close>

definition build_tab_msgs :: "layout_snapshot \<Rightarrow> relay_view_state option \<Rightarrow> tab_msg list" where
  "build_tab_msgs snapshot relay_vs =
     (let effective = resolve_effective_active_tab relay_vs snapshot
      in map (\<lambda>t.
           let active = (case effective of Some at \<Rightarrow> ts_tab_id t = at | None \<Rightarrow> ts_active t);
               in_active_tab = (case effective of Some at \<Rightarrow> ts_tab_id t = at | None \<Rightarrow> False)
           in \<lparr>tm_position = ts_position t, tm_name = ts_name t, tm_active = active, tm_has_bell = ts_has_bell t,
               tm_panes_to_hide = ts_panes_to_hide t, tm_tab_id = ucast (ts_tab_id t),
               tm_panes = map (pane_message in_active_tab relay_vs)
                            (filter (\<lambda>p. pane_is_client_visible (ps_plugin p)) (ts_panes t)),
               tm_fullscreen_active = ts_fullscreen_active t, tm_floating_visible = ts_floating_visible t\<rparr>)
           (ls_tabs snapshot))"

definition should_apply_view_state_override :: "bool \<Rightarrow> string \<Rightarrow> string \<Rightarrow> bool" where
  "should_apply_view_state_override via_relay request_cid relay_cid \<longleftrightarrow>
     via_relay \<and> request_cid \<noteq> [] \<and> relay_cid = request_cid"

subsection \<open>The handler\<close>

text \<open>A relay's answer to a queued query: a layout, a failure, the reply dropped, the timeout.\<close>

datatype query_reply = LayoutReply layout_snapshot | QueryFailed | QueryDropped | QueryTimeout

definition backend_query_layout :: "'d space_backend \<Rightarrow> string \<Rightarrow> 'd \<Rightarrow> (layout_snapshot \<Rightarrow> 'd \<Rightarrow> 'a rpc \<times> 'd) \<Rightarrow>
    'a rpc \<times> 'd" where
  "backend_query_layout b bare d k = call (sb_query_layout b bare None d) k"

definition space_query_layout :: "'d space_backend \<Rightarrow> string \<Rightarrow> string \<Rightarrow> 'd \<Rightarrow>
    (layout_snapshot \<Rightarrow> 'd \<Rightarrow> 'a rpc \<times> 'd) \<Rightarrow> 'a rpc \<times> 'd" where
  "space_query_layout b bare space d k =
     (case sb_query_layout b bare (Some space) d of
        (Returned l, d') \<Rightarrow> k l d'
      | (Errored unknown, d') \<Rightarrow> (Failed (space_query_status unknown), d')
      | (Panicked, d') \<Rightarrow> (Failed Internal, d'))"

text \<open>The relay asked: the caller's own, else the first of the session in the registry.\<close>

definition layout_relay :: "control_registry \<Rightarrow> string \<Rightarrow> string \<Rightarrow> string option" where
  "layout_relay reg sess cid =
     (case exact_match reg sess cid of
        Some k \<Rightarrow> Some k
      | None \<Rightarrow> map_option fst (find (\<lambda>(k, e). session e = sess) reg))"

text \<open>The breadcrumb of the relay asked is logged with the answer.\<close>

definition layout_answer :: "'d space_service \<Rightarrow> string \<Rightarrow> bool \<Rightarrow> string \<Rightarrow> layout_snapshot \<Rightarrow> 'd \<Rightarrow>
    tab_msg list rpc \<times> 'd" where
  "layout_answer svc cid via_relay relay_cid snapshot d =
     (let relay_vs = (if should_apply_view_state_override via_relay cid relay_cid
                      then map_option ve_state (sp_views svc relay_cid) else None)
      in (case short_conn relay_cid of
            None \<Rightarrow> Aborted
          | Some _ \<Rightarrow> Replied (build_tab_msgs snapshot relay_vs), d))"

definition space_scoped_layout :: "'d space_service \<Rightarrow> string \<Rightarrow> string \<Rightarrow> 'd space_backend \<Rightarrow> string \<Rightarrow> string \<Rightarrow> 'd \<Rightarrow>
    tab_msg list rpc \<times> 'd" where
  "space_scoped_layout svc sess cid b bare space d =
     (case validate_space_id space of
        Inl e \<Rightarrow> (Failed e, d)
      | Inr _ \<Rightarrow>
          if rejects_space_scope space (sb_supports_spaces b) then (Failed InvalidArgument, d)
          else space_query_layout b bare space d (\<lambda>snapshot d'.
            let own = space_is_own (connection_space (sp_views svc) sess cid) space;
                relay_vs = (if own
                            then (case sp_views svc cid of
                                    Some e \<Rightarrow> if ve_session e = sess then Some (ve_state e) else None
                                  | None \<Rightarrow> None)
                            else None)
            in (Replied (build_tab_msgs snapshot relay_vs), d')))"

definition get_layout_impl :: "'d space_service \<Rightarrow> string \<Rightarrow> string \<Rightarrow> string \<Rightarrow> query_reply \<Rightarrow> control_registry \<Rightarrow> 'd \<Rightarrow>
    (tab_msg list rpc \<times> 'd) \<times> control_registry" where
  "get_layout_impl svc sess cid space reply reg d =
     (case sp_resolve svc sess of
        Inl e \<Rightarrow> ((Failed e, d), reg)
      | Inr (b, bare) \<Rightarrow>
          (case short_conn cid of
             None \<Rightarrow> ((Aborted, d), reg)
           | Some _ \<Rightarrow>
               if is_space_scoped space then (space_scoped_layout svc sess cid b bare space d, reg)
               else
                 (let ephemeral = backend_query_layout b bare d (layout_answer svc cid False [])
                  in (case layout_relay reg sess cid of
                        None \<Rightarrow> (ephemeral, reg)
                      | Some k \<Rightarrow>
                          if \<not> send_ok k reg then (ephemeral, reg)
                          else (case reply of
                                  LayoutReply l \<Rightarrow> layout_answer svc cid True k l d
                                | _ \<Rightarrow> ephemeral,
                                send_to k QueryLayout reg)))))"

subsection \<open>Properties\<close>

definition with_views :: "view_registry \<Rightarrow> 'd space_service \<Rightarrow> 'd space_service" where
  "with_views vw svc = svc\<lparr>sp_views := vw\<rparr>"

lemma with_views_simps [simp]:
  "sp_resolve (with_views vw svc) sid = sp_resolve svc sid" "sp_views (with_views vw svc) = vw"
  by (simp_all add: with_views_def sp_resolve_def)

lemma connection_space_cong:
  "vw cid = vw' cid \<Longrightarrow> connection_space vw sess cid = connection_space vw' sess cid"
  by (simp add: connection_space_def)

lemma layout_answer_cong:
  "vw cid = vw' cid \<Longrightarrow>
     layout_answer (with_views vw svc) cid r k = layout_answer (with_views vw' svc) cid r k"
  by (auto simp: fun_eq_iff layout_answer_def should_apply_view_state_override_def split: option.split)

lemma space_scoped_cong:
  "vw cid = vw' cid \<Longrightarrow>
     space_scoped_layout (with_views vw svc) sess cid b bare space d =
     space_scoped_layout (with_views vw' svc) sess cid b bare space d"
  by (simp add: space_scoped_layout_def connection_space_cong[of vw cid vw'] split: sum.split)

text \<open>
  (a client's view is its own). The answers of GetLayout and GetSpaces, and what GetLayout
  queues for a relay, do not depend on where any other connection is: replacing the tracked view
  state of all other connections changes nothing. So no client learns another's current tab,
  pane or space, also when another client's relay answers the query.
\<close>

theorem views_private:
  assumes "vw cid = vw' cid"
  shows "get_layout_impl (with_views vw svc) sess cid space reply reg d =
      get_layout_impl (with_views vw' svc) sess cid space reply reg d \<and>
    get_spaces_impl (with_views vw svc) sess cid d = get_spaces_impl (with_views vw' svc) sess cid d"
proof
  show "get_layout_impl (with_views vw svc) sess cid space reply reg d =
      get_layout_impl (with_views vw' svc) sess cid space reply reg d"
    unfolding get_layout_impl_def with_views_simps space_scoped_cong[of vw cid vw', OF assms]
      layout_answer_cong[of vw cid vw', OF assms]
    by (rule refl)
  show "get_spaces_impl (with_views vw svc) sess cid d = get_spaces_impl (with_views vw' svc) sess cid d"
    using assms by (simp add: get_spaces_impl_def connection_current_space_def connection_space_cong[of vw cid vw']
        split: sum.split prod.split option.split)
qed

lemma build_tab_msgs_None:
  "build_tab_msgs l None =
     map (\<lambda>t. \<lparr>tm_position = ts_position t, tm_name = ts_name t, tm_active = ts_active t, tm_has_bell = ts_has_bell t,
               tm_panes_to_hide = ts_panes_to_hide t, tm_tab_id = ucast (ts_tab_id t),
               tm_panes = map (pane_message False None) (filter (\<lambda>p. \<not> ps_plugin p) (ts_panes t)),
               tm_fullscreen_active = ts_fullscreen_active t, tm_floating_visible = ts_floating_visible t\<rparr>)
       (ls_tabs l)"
  by (simp add: build_tab_msgs_def resolve_effective_active_tab_def pane_is_client_visible_def)

text \<open>The tab of the client, when its view is tracked: the recorded one, else the one its pane is in.\<close>

lemma active_tab_of:
  "resolve_effective_active_tab relay_vs l = Some at \<Longrightarrow>
     map tm_active (build_tab_msgs l relay_vs) = map (\<lambda>t. ts_tab_id t = at) (ls_tabs l)"
  by (simp add: build_tab_msgs_def Let_def o_def)

lemma one_true:
  "distinct (map f xs) \<Longrightarrow> length (filter id (map (\<lambda>x. f x = y) xs)) = (if y \<in> f ` set xs then 1 else 0)"
  by (induction xs) (auto simp: filter_map o_def)

text \<open>
  (one tab, one focus). When the caller's relay tracks a tab that the layout has, exactly one
  tab of the answer is active, it is that one, and within it a pane is focused exactly when it is
  the tracked pane, if one is tracked. Panes of plugins are never in the answer.
\<close>

theorem own_view_shown:
  assumes "distinct (map ts_tab_id (ls_tabs l))" and t: "t \<in> set (ls_tabs l)"
    and "resolve_effective_active_tab (Some vs) l = Some (ts_tab_id t)"
  shows "length (filter tm_active (build_tab_msgs l (Some vs))) = 1 \<and>
    (\<exists>m \<in> set (build_tab_msgs l (Some vs)). tm_active m \<and> tm_name m = ts_name t \<and>
       (\<forall>fp. vs_focused_pane vs = Some fp \<longrightarrow>
          map pm_focused (tm_panes m) = map (is_pane fp) (filter (\<lambda>p. \<not> ps_plugin p) (ts_panes t)))) \<and>
    (\<forall>m \<in> set (build_tab_msgs l (Some vs)). \<forall>p \<in> set (tm_panes m). \<not> pm_plugin p)"
proof (intro conjI)
  let ?ms = "build_tab_msgs l (Some vs)"
  have "length (filter tm_active ?ms) = length (filter id (map tm_active ?ms))" by (simp add: filter_map o_def)
  then show "length (filter tm_active ?ms) = 1"
    using active_tab_of[OF assms(3)] one_true[OF assms(1), of "ts_tab_id t"] t by simp
  show "\<exists>m \<in> set ?ms. tm_active m \<and> tm_name m = ts_name t \<and>
       (\<forall>fp. vs_focused_pane vs = Some fp \<longrightarrow>
          map pm_focused (tm_panes m) = map (is_pane fp) (filter (\<lambda>p. \<not> ps_plugin p) (ts_panes t)))"
    using t assms(3)
    by (auto simp: build_tab_msgs_def Let_def pane_message_def pane_focused_def pane_is_client_visible_def
        intro!: bexI[of _ t])
  show "\<forall>m \<in> set ?ms. \<forall>p \<in> set (tm_panes m). \<not> pm_plugin p"
    by (auto simp: build_tab_msgs_def Let_def pane_message_def pane_is_client_visible_def)
qed

definition demo_pane_snapshot :: "32 word \<Rightarrow> bool \<Rightarrow> pane_snapshot" where
  "demo_pane_snapshot i plugin =
     \<lparr>ps_id = i, ps_title = [], ps_focused = False, ps_floating = False, ps_exited = False, ps_command = [],
      ps_cwd = [], ps_x = 0, ps_y = 0, ps_rows = 1, ps_cols = 1, ps_plugin = plugin, ps_fullscreen = False,
      ps_agent = None\<rparr>"

definition demo_tab_snapshot :: "64 word \<Rightarrow> bool \<Rightarrow> pane_snapshot list \<Rightarrow> tab_snapshot" where
  "demo_tab_snapshot i act panes =
     \<lparr>ts_tab_id = i, ts_position = 0, ts_name = [], ts_active = act, ts_has_bell = False, ts_panes_to_hide = 0,
      ts_fullscreen_active = False, ts_floating_visible = False, ts_panes = panes\<rparr>"

definition demo_two_tabs :: layout_snapshot where
  "demo_two_tabs = \<lparr>ls_tabs = [demo_tab_snapshot 1 True [demo_pane_snapshot 10 False, demo_pane_snapshot 20 True],
                              demo_tab_snapshot 2 False [demo_pane_snapshot 20 False]]\<rparr>"

definition demo_view :: relay_view_state where
  "demo_view = \<lparr>vs_active_tab = None, vs_focused_pane = Some \<lparr>pane_id = 20, is_plugin = False\<rparr>,
                vs_current_space = None\<rparr>"

theorem own_view_shown_witness:
  "length (filter tm_active (build_tab_msgs demo_two_tabs (Some demo_view))) = 1"
proof -
  let ?t = "demo_tab_snapshot 2 False [demo_pane_snapshot 20 False]"
  have "distinct (map ts_tab_id (ls_tabs demo_two_tabs))" "?t \<in> set (ls_tabs demo_two_tabs)"
    "resolve_effective_active_tab (Some demo_view) demo_two_tabs = Some (ts_tab_id ?t)"
    by (simp_all add: demo_two_tabs_def demo_tab_snapshot_def demo_pane_snapshot_def demo_view_def
        resolve_effective_active_tab_def is_pane_def pane_is_client_visible_def)
  from own_view_shown[OF this] show ?thesis by blast
qed

theorem views_private_witness:
  "get_layout_impl (with_views [''d'' \<mapsto> \<lparr>ve_session = ''herdr:herdr'', ve_state = demo_view\<rparr>] demo_space_service)
      ''herdr:herdr'' ''c'' [] QueryTimeout [] [''w1''] =
   get_layout_impl (with_views Map.empty demo_space_service) ''herdr:herdr'' ''c'' [] QueryTimeout [] [''w1'']"
  by (rule views_private[THEN conjunct1]) simp

end
