(* ===== verification/RelayInbound.thy ===== *)
theory RelayInbound
  imports SpaceOps AgentWatch
begin

text \<open>
  The inbound half of an attached terminal, \<open>muxrd/src/relay/inbound.rs\<close>, with the geometry
  floor of \<open>relay/mod.rs\<close>: client frames, routed controls, the token re-check and eviction act on
  the backend's sender. Every call of the sender is recorded in order; how it ends, the live
  pane reads and whether an RPC has given up are the environment. UTF-8 validity is the
  parameter \<open>utf8\<close>.
\<close>

subsection \<open>The backend's sender\<close>

datatype mux_mouse = WheelUp | WheelDown

record fullscreen_hint =
  fh_floating :: bool
  fh_floating_visible :: bool
  fh_focused_floating :: bool
  fh_tab_fullscreen :: bool
  fh_target_is_relay_focus :: bool

datatype sender_op =
    GoToTab "64 word"
  | SetFocus pane_ref
  | EnterSpace string
  | FullscreenOp pane_ref fullscreen_hint
  | LayoutQuery
  | InputChars string
  | InputBytes string
  | MouseAt mux_mouse "16 word" "16 word"
  | ResizeTo "16 word" "16 word"
  | ClientExited

datatype op_result = OpSent | OpFailed | OpPanicked

subsection \<open>Geometry\<close>

definition MAX_TERMINAL_DIM :: "16 word" where "MAX_TERMINAL_DIM = 1024"
definition MIN_TERMINAL_ROWS :: "16 word" where "MIN_TERMINAL_ROWS = 4"
definition MIN_TERMINAL_COLS :: "16 word" where "MIN_TERMINAL_COLS = 20"

definition clamp_dim :: "32 word \<Rightarrow> 16 word \<Rightarrow> 16 word \<Rightarrow> 16 word" where
  "clamp_dim v def_dim floor_dim =
     (if v = 0 then def_dim else max (ucast (min v (ucast MAX_TERMINAL_DIM))) floor_dim)"

definition floored_resize :: "32 word \<Rightarrow> 32 word \<Rightarrow> 16 word \<times> 16 word" where
  "floored_resize rows cols = (clamp_dim rows 24 MIN_TERMINAL_ROWS, clamp_dim cols 80 MIN_TERMINAL_COLS)"

subsection \<open>The read-only boundary\<close>

definition read_only_denies :: "relay_control \<Rightarrow> bool" where
  "read_only_denies cmd = (case cmd of ToggleFullscreen p h \<Rightarrow> True | _ \<Rightarrow> False)"

definition gate_control :: "relay_control option \<Rightarrow> bool \<Rightarrow> relay_control option" where
  "gate_control cmd ro = (case cmd of Some c \<Rightarrow> if ro \<and> read_only_denies c then None else Some c | None \<Rightarrow> None)"

definition is_wheel_kind :: "32 word \<Rightarrow> bool" where
  "is_wheel_kind raw \<longleftrightarrow> raw = 0 \<or> raw = 1"

text \<open>The generated accessor: an unknown value is the default, the first kind.\<close>

definition mouse_kind_of :: "32 word \<Rightarrow> mux_mouse" where
  "mouse_kind_of raw = (if raw = 1 then WheelDown else WheelUp)"

subsection \<open>Fullscreen: where the relay is\<close>

record relay_tab_view =
  tv_focused_pane :: "pane_ref option"
  tv_active_tab :: "64 word option"

definition no_view :: relay_tab_view where "no_view = \<lparr>tv_focused_pane = None, tv_active_tab = None\<rparr>"

definition tab_view_of :: "relay_view_state \<Rightarrow> relay_tab_view" where
  "tab_view_of s = \<lparr>tv_focused_pane = vs_focused_pane s, tv_active_tab = vs_active_tab s\<rparr>"

definition pane_label :: "pane_ref \<Rightarrow> string" where
  "pane_label p = (if is_plugin p then ''plugin pane '' else ''pane '') @ dec (unat (pane_id p))"

definition hidden_floating_refusal :: "pane_ref \<Rightarrow> string" where
  "hidden_floating_refusal p = pane_label p @ '' is a hidden floating pane; fullscreen applies to tiled panes''"

definition other_tab_refusal :: "pane_ref \<Rightarrow> string" where
  "other_tab_refusal p = pane_label p @ '' is in another tab; switch to it first''"

definition RELAY_TAB_UNKNOWN :: string where
  "RELAY_TAB_UNKNOWN = ''relay tab unknown; switch to the pane's tab first''"

definition RELAY_FOCUS_UNKNOWN :: string where
  "RELAY_FOCUS_UNKNOWN = ''relay focus unknown; tap the fullscreen pane first''"

definition relay_own_tab :: "pane_fullscreen_context \<Rightarrow> relay_tab_view \<Rightarrow> 64 word option" where
  "relay_own_tab ctx view =
     (if tv_focused_pane view \<noteq> None then fc_relay_focus_tab_id ctx else tv_active_tab view)"

definition require_relay_tab :: "pane_ref \<Rightarrow> pane_fullscreen_context \<Rightarrow> relay_tab_view \<Rightarrow> string + unit" where
  "require_relay_tab pane ctx view =
     (case fc_tab_id ctx of
        None \<Rightarrow> Inr ()
      | Some target \<Rightarrow>
          (case relay_own_tab ctx view of
             Some own \<Rightarrow> if own = target then Inr () else Inl (other_tab_refusal pane)
           | None \<Rightarrow> Inl RELAY_TAB_UNKNOWN))"

definition target_is_relay_focus :: "pane_ref \<Rightarrow> bool \<Rightarrow> bool \<Rightarrow> relay_tab_view \<Rightarrow> bool" where
  "target_is_relay_focus pane floating visible view \<longleftrightarrow>
     tv_focused_pane view = Some pane \<and> (floating \<or> \<not> visible)"

datatype tab_after = Known "64 word" | TabUnknown | TabUnchanged

record applied_toggle =
  at_hint :: fullscreen_hint
  at_tab_after :: tab_after
  at_pane :: pane_ref

definition resolve_live_context :: "pane_ref \<Rightarrow> pane_fullscreen_context \<Rightarrow> relay_tab_view \<Rightarrow> string + applied_toggle" where
  "resolve_live_context pane ctx view =
     (if \<not> fc_exists ctx then Inl (pane_label pane @ '' not found'')
      else if fc_floating ctx \<and> \<not> fc_floating_visible ctx then Inl (hidden_floating_refusal pane)
      else
        (let focused_floating = fc_floating ctx \<and> fc_focused_floating ctx = Some pane;
             exit = \<not> fc_floating ctx \<and> fc_tab_fullscreen ctx
         in case (if focused_floating \<or> exit then require_relay_tab pane ctx view else Inr ()) of
              Inl e \<Rightarrow> Inl e
            | Inr _ \<Rightarrow>
                (let send_pane = (if exit
                                  then (case tv_focused_pane view of
                                          Some anchor \<Rightarrow> Some anchor
                                        | None \<Rightarrow> if fc_tab_id ctx \<noteq> None then None else Some pane)
                                  else Some pane)
                 in case send_pane of
                      None \<Rightarrow> Inl RELAY_FOCUS_UNKNOWN
                    | Some p \<Rightarrow>
                        Inr \<lparr>at_hint = \<lparr>fh_floating = fc_floating ctx, fh_floating_visible = fc_floating_visible ctx,
                                fh_focused_floating = focused_floating, fh_tab_fullscreen = fc_tab_fullscreen ctx,
                                fh_target_is_relay_focus =
                                  target_is_relay_focus pane (fc_floating ctx) (fc_floating_visible ctx) view\<rparr>,
                             at_tab_after = (case fc_tab_id ctx of Some t \<Rightarrow> Known t | None \<Rightarrow> TabUnchanged),
                             at_pane = p\<rparr>)))"

definition hint_is_hide :: "floating_hint \<Rightarrow> bool" where
  "hint_is_hide h \<longleftrightarrow> target_is_floating h \<and> floating_visible h \<and> target_is_focused_floating h"

definition resolve_client_hint :: "pane_ref \<Rightarrow> floating_hint \<Rightarrow> relay_tab_view \<Rightarrow> string + applied_toggle" where
  "resolve_client_hint pane h view =
     (if target_is_floating h \<and> \<not> floating_visible h then Inl (hidden_floating_refusal pane)
      else
        (let skip_focus = target_is_relay_focus pane (target_is_floating h) (floating_visible h) view
         in Inr \<lparr>at_hint = \<lparr>fh_floating = target_is_floating h, fh_floating_visible = floating_visible h,
                   fh_focused_floating = target_is_focused_floating h, fh_tab_fullscreen = False,
                   fh_target_is_relay_focus = skip_focus\<rparr>,
                at_tab_after = (if skip_focus then TabUnchanged else TabUnknown), at_pane = pane\<rparr>))"

text \<open>The live read: its context, or a failure, a panic, the timeout.\<close>

datatype context_answer = CtxRead pane_fullscreen_context | CtxFailed | CtxPanicked | CtxTimeout

definition resolve_toggle_target :: "(pane_ref \<Rightarrow> pane_ref option \<Rightarrow> context_answer) \<Rightarrow> pane_ref \<Rightarrow> floating_hint option \<Rightarrow>
    relay_tab_view \<Rightarrow> string + applied_toggle" where
  "resolve_toggle_target query pane hint view =
     (let live = (case query pane (tv_focused_pane view) of
            CtxRead ctx \<Rightarrow> resolve_live_context pane ctx view
          | CtxTimeout \<Rightarrow> Inl (''live state of '' @ pane_label pane @ '' timed out; fullscreen skipped'')
          | _ \<Rightarrow> Inl (''could not read the live state of '' @ pane_label pane @ ''; fullscreen skipped''))
      in case hint of
           Some h \<Rightarrow> if \<not> hint_is_hide h then resolve_client_hint pane h view else live
         | None \<Rightarrow> live)"

definition abandoned_message :: "pane_ref \<Rightarrow> string" where
  "abandoned_message p = ''fullscreen toggle for '' @ pane_label p @ '' abandoned by its caller; nothing sent''"

text \<open>\<open>gave_up\<close>: the waiting RPC dropped its receiver before the resolution, and before the send.\<close>

definition toggle_fullscreen_once :: "(pane_ref \<Rightarrow> pane_ref option \<Rightarrow> context_answer) \<Rightarrow> pane_ref \<Rightarrow> floating_hint option \<Rightarrow>
    relay_tab_view \<Rightarrow> bool \<times> bool \<Rightarrow> bool \<Rightarrow> (string + applied_toggle) \<times> sender_op list" where
  "toggle_fullscreen_once query pane hint view gave_up sends =
     (if fst gave_up then (Inl (abandoned_message pane), [])
      else (case resolve_toggle_target query pane hint view of
              Inl refusal \<Rightarrow> (Inl refusal, [])
            | Inr r \<Rightarrow>
                if snd gave_up then (Inl (abandoned_message pane), [])
                else (if sends then Inr r
                      else Inl (''fullscreen toggle for '' @ pane_label pane @ '' could not be sent''),
                      [FullscreenOp (at_pane r) (at_hint r)])))"

datatype toggle_focus_effect = FocusCleared | FocusUnchanged | FocusTarget

definition toggle_effect :: "fullscreen_hint \<Rightarrow> toggle_focus_effect" where
  "toggle_effect h =
     (if fh_floating h then (if fh_floating_visible h \<and> fh_focused_floating h then FocusCleared else FocusTarget)
      else if fh_tab_fullscreen h then FocusUnchanged
      else FocusTarget)"

definition record_applied_toggle :: "pane_ref \<Rightarrow> applied_toggle \<Rightarrow> relay_view_state \<Rightarrow> relay_view_state" where
  "record_applied_toggle pane a s =
     (let s1 = (case toggle_effect (at_hint a) of
                  FocusCleared \<Rightarrow> s\<lparr>vs_focused_pane := None\<rparr>
                | FocusUnchanged \<Rightarrow> s
                | FocusTarget \<Rightarrow> s\<lparr>vs_focused_pane := Some pane\<rparr>)
      in case at_tab_after a of
           Known t \<Rightarrow> s1\<lparr>vs_active_tab := Some t\<rparr>
         | TabUnknown \<Rightarrow> s1\<lparr>vs_active_tab := None\<rparr>
         | TabUnchanged \<Rightarrow> s1)"

subsection \<open>The token\<close>

definition revalidate_token :: "string option \<Rightarrow> (string \<Rightarrow> token_answer) \<Rightarrow> bool" where
  "revalidate_token token validate =
     (case token of
        None \<Rightarrow> False
      | Some t \<Rightarrow> (case validate t of Verdict valid \<Rightarrow> valid | DbError \<Rightarrow> False | TaskPanic \<Rightarrow> False))"

subsection \<open>Frames\<close>

definition MAX_INPUT_FRAME_BYTES :: nat where "MAX_INPUT_FRAME_BYTES = 1024 * 1024"

definition forward_input :: "(string \<Rightarrow> bool) \<Rightarrow> string \<Rightarrow> sender_op" where
  "forward_input utf8 bytes = (if utf8 bytes then InputChars bytes else InputBytes bytes)"

definition handle_input_frame :: "(string \<Rightarrow> bool) \<Rightarrow> string \<Rightarrow> bool \<Rightarrow> sender_op list" where
  "handle_input_frame utf8 bytes ro =
     (if ro then []
      else if MAX_INPUT_FRAME_BYTES < length bytes then []
      else [forward_input utf8 bytes])"

record mouse_input =
  mi_kind :: "32 word"
  mi_col :: "32 word"
  mi_row :: "32 word"

definition handle_mouse_frame :: "mouse_input \<Rightarrow> bool \<Rightarrow> 16 word \<times> 16 word \<Rightarrow> sender_op list" where
  "handle_mouse_frame m ro grid =
     (if ro \<and> \<not> is_wheel_kind (mi_kind m) then []
      else if ucast (snd grid) \<le> mi_col m \<or> ucast (fst grid) \<le> mi_row m then []
      else [MouseAt (mouse_kind_of (mi_kind m)) (ucast (mi_col m)) (ucast (mi_row m))])"

datatype client_frame =
    FInput string
  | FResize "32 word" "32 word"
  | FMouse mouse_input
  | FAttach
  | FNone

subsection \<open>The loop\<close>

record inbound_cfg =
  ic_connection_id :: string
  ic_read_only :: bool
  ic_token :: "string option"
  ic_sync_layout :: bool

text \<open>What the relay has answered the RPCs that wait, in order.\<close>

datatype inbound_answer =
    SpaceAnswer "string option"
  | ToggleAnswer "string option"
  | LayoutRefused
  | LayoutOffloaded

record inbound =
  ib_ops :: "sender_op list"
  ib_views :: view_registry
  ib_control :: control_registry
  ib_grid :: "16 word \<times> 16 word"
  ib_next_seq :: "64 word"
  ib_queries :: "64 word list"
  ib_answers :: "inbound_answer list"
  ib_running :: bool

text \<open>
  The environment of one routed command: how the sender's call ends, the live pane reads, whether
  the RPC waits and has given up, and whether the render thread is gone.
\<close>

record command_env =
  ce_op :: op_result
  ce_query :: "pane_ref \<Rightarrow> pane_ref option \<Rightarrow> context_answer"
  ce_waits :: bool
  ce_gave_up :: "bool \<times> bool"
  ce_render_gone :: bool

datatype inbound_input =
    ReaderWatch bool
  | Evicted
  | TokenRecheck "string \<Rightarrow> token_answer"
  | Routed relay_control command_env
  | RoutedNone
  | Frame client_frame bool
  | StreamError
  | StreamEnd

definition update_view :: "inbound_cfg \<Rightarrow> (relay_view_state \<Rightarrow> relay_view_state) \<Rightarrow> inbound \<Rightarrow> inbound" where
  "update_view cfg f s =
     (case ib_views s (ic_connection_id cfg) of
        Some e \<Rightarrow> s\<lparr>ib_views := (ib_views s)(ic_connection_id cfg \<mapsto> e\<lparr>ve_state := f (ve_state e)\<rparr>)\<rparr>
      | None \<Rightarrow> s)"

definition did :: "sender_op list \<Rightarrow> inbound \<Rightarrow> inbound" where
  "did ops s = s\<lparr>ib_ops := ib_ops s @ ops\<rparr>"

definition answer :: "inbound_answer \<Rightarrow> inbound \<Rightarrow> inbound" where
  "answer a s = s\<lparr>ib_answers := ib_answers s @ [a]\<rparr>"

text \<open>Leaving the loop: both registry entries of this connection go.\<close>

definition leave :: "inbound_cfg \<Rightarrow> inbound \<Rightarrow> inbound" where
  "leave cfg s =
     s\<lparr>ib_running := False,
       ib_control := filter (\<lambda>(k, _). k \<noteq> ic_connection_id cfg) (ib_control s),
       ib_views := (ib_views s)(ic_connection_id cfg := None)\<rparr>"

definition relay_view :: "inbound_cfg \<Rightarrow> inbound \<Rightarrow> relay_tab_view" where
  "relay_view cfg s =
     (case ib_views s (ic_connection_id cfg) of Some e \<Rightarrow> tab_view_of (ve_state e) | None \<Rightarrow> no_view)"

definition handle_query_layout :: "bool \<Rightarrow> bool \<Rightarrow> 64 word \<Rightarrow> inbound \<Rightarrow> inbound" where
  "handle_query_layout sync_layout render_gone seq s =
     (if sync_layout then answer LayoutOffloaded s
      else if render_gone then answer LayoutRefused s
      else did [LayoutQuery] (s\<lparr>ib_queries := ib_queries s @ [seq]\<rparr>))"

definition run_command :: "inbound_cfg \<Rightarrow> relay_control \<Rightarrow> command_env \<Rightarrow> inbound \<Rightarrow> inbound" where
  "run_command cfg cmd env s =
     (case cmd of
        SwitchTab t \<Rightarrow>
          (let s1 = did [GoToTab t] s
           in case ce_op env of
                OpPanicked \<Rightarrow> leave cfg s1
              | OpFailed \<Rightarrow> s1
              | OpSent \<Rightarrow> update_view cfg (\<lambda>v. v\<lparr>vs_active_tab := Some t, vs_focused_pane := None\<rparr>) s1)
      | FocusPane p \<Rightarrow>
          (let s1 = did [SetFocus p] s
           in case ce_op env of
                OpPanicked \<Rightarrow> leave cfg s1
              | OpFailed \<Rightarrow> s1
              | OpSent \<Rightarrow> update_view cfg (\<lambda>v. v\<lparr>vs_focused_pane := Some p, vs_active_tab := None\<rparr>) s1)
      | SwitchSpace w \<Rightarrow>
          (let s1 = did [EnterSpace w] s
           in case ce_op env of
                OpPanicked \<Rightarrow> leave cfg (answer (SpaceAnswer (Some ''SwitchSpace op panicked; stream torn down'')) s1)
              | OpFailed \<Rightarrow> answer (SpaceAnswer (Some [])) s1
              | OpSent \<Rightarrow> answer (SpaceAnswer None)
                  (update_view cfg (\<lambda>v. v\<lparr>vs_active_tab := None, vs_focused_pane := None, vs_current_space := Some w\<rparr>) s1))
      | ToggleFullscreen p h \<Rightarrow>
          (let (outcome, ops) = toggle_fullscreen_once (ce_query env) p h (relay_view cfg s)
                                  (if ce_waits env then ce_gave_up env else (False, False)) (ce_op env = OpSent);
               s1 = did ops s;
               s2 = (case outcome of Inr a \<Rightarrow> update_view cfg (record_applied_toggle p a) s1 | Inl _ \<Rightarrow> s1)
           in if ce_waits env
              then answer (ToggleAnswer (case outcome of Inl e \<Rightarrow> Some e | Inr _ \<Rightarrow> None)) s2
              else s2)
      | QueryLayout \<Rightarrow>
          (let seq = ib_next_seq s
           in handle_query_layout (ic_sync_layout cfg) (ce_render_gone env) seq (s\<lparr>ib_next_seq := seq + 1\<rparr>)))"

definition run_frame :: "(string \<Rightarrow> bool) \<Rightarrow> inbound_cfg \<Rightarrow> client_frame \<Rightarrow> bool \<Rightarrow> inbound \<Rightarrow> inbound" where
  "run_frame utf8 cfg f sends s =
     (case f of
        FInput bytes \<Rightarrow> did (handle_input_frame utf8 bytes (ic_read_only cfg)) s
      | FResize rows cols \<Rightarrow>
          (let (r, c) = floored_resize rows cols; s1 = did [ResizeTo r c] s
           in if sends then s1\<lparr>ib_grid := (r, c)\<rparr> else s1)
      | FMouse m \<Rightarrow> did (handle_mouse_frame m (ic_read_only cfg) (ib_grid s)) s
      | FAttach \<Rightarrow> s
      | FNone \<Rightarrow> s)"

definition inbound_step :: "(string \<Rightarrow> bool) \<Rightarrow> inbound_cfg \<Rightarrow> inbound_input \<Rightarrow> inbound \<Rightarrow> inbound" where
  "inbound_step utf8 cfg i s =
     (if \<not> ib_running s then s
      else case i of
        ReaderWatch finished \<Rightarrow> if finished then leave cfg s else s
      | Evicted \<Rightarrow> leave cfg s
      | TokenRecheck validate \<Rightarrow> if revalidate_token (ic_token cfg) validate then s else leave cfg s
      | Routed cmd env \<Rightarrow>
          (case gate_control (Some cmd) (ic_read_only cfg) of
             Some c \<Rightarrow> run_command cfg c env s
           | None \<Rightarrow> s)
      | RoutedNone \<Rightarrow> s
      | Frame f sends \<Rightarrow> run_frame utf8 cfg f sends s
      | StreamError \<Rightarrow> leave cfg s
      | StreamEnd \<Rightarrow> leave cfg s)"

definition inbound_run :: "(string \<Rightarrow> bool) \<Rightarrow> inbound_cfg \<Rightarrow> inbound_input list \<Rightarrow> inbound \<Rightarrow> inbound" where
  "inbound_run utf8 cfg is s = foldl (\<lambda>s i. inbound_step utf8 cfg i s) s is"

definition start_inbound :: "16 word \<times> 16 word \<Rightarrow> view_registry \<Rightarrow> control_registry \<Rightarrow> inbound" where
  "start_inbound grid vw reg =
     \<lparr>ib_ops = [], ib_views = vw, ib_control = reg, ib_grid = grid, ib_next_seq = 0, ib_queries = [],
      ib_answers = [], ib_running = True\<rparr>"

subsection \<open>What the sender is told\<close>

text \<open>Operations a viewer may cause: moves of its own view, reads, its own size, scrolling.\<close>

fun viewer_op :: "sender_op \<Rightarrow> bool" where
  "viewer_op (FullscreenOp p h) = False"
| "viewer_op (InputChars t) = False"
| "viewer_op (InputBytes t) = False"
| "viewer_op ClientExited = False"
| "viewer_op op = True"

definition dim_ok :: "16 word \<Rightarrow> 16 word \<Rightarrow> bool" where
  "dim_ok floor_dim n \<longleftrightarrow> floor_dim \<le> n \<and> n \<le> MAX_TERMINAL_DIM"

definition grid_ok :: "16 word \<times> 16 word \<Rightarrow> bool" where
  "grid_ok g \<longleftrightarrow> dim_ok MIN_TERMINAL_ROWS (fst g) \<and> dim_ok MIN_TERMINAL_COLS (snd g)"

fun bounded_op :: "sender_op \<Rightarrow> bool" where
  "bounded_op (ResizeTo r c) = grid_ok (r, c)"
| "bounded_op (MouseAt k c r) \<longleftrightarrow> c < MAX_TERMINAL_DIM \<and> r < MAX_TERMINAL_DIM"
| "bounded_op (InputChars t) = (length t \<le> 1048576)"
| "bounded_op (InputBytes t) = (length t \<le> 1048576)"
| "bounded_op op = True"

lemma unat_narrow: "unat (ucast (v :: 32 word) :: 16 word) = unat v mod 65536"
  by (simp add: unsigned_ucast_eq unsigned_take_bit_eq take_bit_eq_mod)

lemma unat_widen: "unat (ucast (v :: 16 word) :: 32 word) = unat v"
proof -
  have "unat v < 2 ^ 16" using unsigned_less[of v] by simp
  then show ?thesis by (simp add: unsigned_ucast_eq unsigned_take_bit_eq take_bit_eq_mod)
qed

lemma clamp_dim_ok:
  assumes "dim_ok floor_dim def_dim" "floor_dim \<le> MAX_TERMINAL_DIM"
  shows "dim_ok floor_dim (clamp_dim v def_dim floor_dim)"
proof -
  have "ucast (min v (ucast MAX_TERMINAL_DIM)) \<le> MAX_TERMINAL_DIM"
    by (simp add: word_le_nat_alt unat_narrow MAX_TERMINAL_DIM_def min_def)
  then show ?thesis using assms by (auto simp: clamp_dim_def dim_ok_def)
qed

lemma floored_resize_ok: "grid_ok (floored_resize rows cols)"
  unfolding floored_resize_def grid_ok_def fst_conv snd_conv
  by (intro conjI clamp_dim_ok)
    (simp_all add: dim_ok_def MIN_TERMINAL_ROWS_def MIN_TERMINAL_COLS_def MAX_TERMINAL_DIM_def)

text \<open>Every step only adds operations, each of them allowed.\<close>

definition step_ops :: "(sender_op \<Rightarrow> bool) \<Rightarrow> inbound \<Rightarrow> inbound \<Rightarrow> bool" where
  "step_ops P s s' \<longleftrightarrow> (\<exists>ops. ib_ops s' = ib_ops s @ ops \<and> (\<forall>op \<in> set ops. P op))"

lemma step_ops_refl: "ib_ops s' = ib_ops s \<Longrightarrow> step_ops P s s'"
  by (simp add: step_ops_def)

lemma step_ops_did: "ib_ops s' = ib_ops s @ ops \<Longrightarrow> \<forall>op \<in> set ops. P op \<Longrightarrow> step_ops P s s'"
  by (auto simp: step_ops_def)

lemma inbound_frame [simp]:
  "ib_ops (leave cfg s) = ib_ops s" "ib_ops (update_view cfg f s) = ib_ops s" "ib_ops (answer a s) = ib_ops s"
  "ib_ops (did ops s) = ib_ops s @ ops"
  "ib_grid (leave cfg s) = ib_grid s" "ib_grid (update_view cfg f s) = ib_grid s" "ib_grid (answer a s) = ib_grid s"
  "ib_grid (did ops s) = ib_grid s"
  "ib_views (answer a s) = ib_views s" "ib_views (did ops s) = ib_views s"
  "ib_control (answer a s) = ib_control s" "ib_control (did ops s) = ib_control s"
  "ib_control (update_view cfg f s) = ib_control s"
  by (simp_all add: leave_def update_view_def answer_def did_def split: option.split)

lemma toggle_ops: "op \<in> set (snd (toggle_fullscreen_once q p h v g b)) \<Longrightarrow> \<exists>p' h'. op = FullscreenOp p' h'"
  by (auto simp: toggle_fullscreen_once_def split: if_splits sum.splits)

lemma run_command_ops:
  "\<exists>ops. ib_ops (run_command cfg cmd env s) = ib_ops s @ ops \<and>
     (\<forall>op \<in> set ops. bounded_op op \<and> (viewer_op op \<or> read_only_denies cmd))"
proof (cases cmd)
  case (ToggleFullscreen p h)
  obtain outcome ops where o: "toggle_fullscreen_once (ce_query env) p h (relay_view cfg s)
      (if ce_waits env then ce_gave_up env else (False, False)) (ce_op env = OpSent) = (outcome, ops)"
    by (metis surj_pair)
  have "\<forall>op \<in> set ops. bounded_op op"
    using toggle_ops[of _ "ce_query env" p h "relay_view cfg s"
        "if ce_waits env then ce_gave_up env else (False, False)" "ce_op env = OpSent"] o
    by fastforce
  then show ?thesis
    by (intro exI[of _ ops])
      (simp add: run_command_def ToggleFullscreen o read_only_denies_def Let_def split: sum.split)
qed (auto simp: run_command_def handle_query_layout_def Let_def split: op_result.split)

lemma run_command_grid [simp]: "ib_grid (run_command cfg cmd env s) = ib_grid s"
  by (auto simp: run_command_def handle_query_layout_def Let_def split: relay_control.split op_result.split prod.split sum.split)

lemma mouse_ops:
  assumes "grid_ok g" "op \<in> set (handle_mouse_frame m ro g)"
  shows "viewer_op op \<and> bounded_op op"
proof -
  have op: "op = MouseAt (mouse_kind_of (mi_kind m)) (ucast (mi_col m)) (ucast (mi_row m))"
    and lt: "\<not> ucast (snd g) \<le> mi_col m" "\<not> ucast (fst g) \<le> mi_row m"
    using assms(2) by (auto simp: handle_mouse_frame_def split: if_splits)
  have bound: "unat (snd g) \<le> 1024" "unat (fst g) \<le> 1024"
    using assms(1) by (simp_all add: grid_ok_def dim_ok_def MAX_TERMINAL_DIM_def word_le_nat_alt)
  have n: "unat (mi_col m) < unat (snd g)" "unat (mi_row m) < unat (fst g)"
    using lt by (simp_all add: word_le_nat_alt unat_widen not_le)
  have "unat (ucast (mi_col m) :: 16 word) < 1024" "unat (ucast (mi_row m) :: 16 word) < 1024"
    using n bound by (simp_all add: unat_narrow)
  then show ?thesis by (simp add: op MAX_TERMINAL_DIM_def word_less_nat_alt)
qed

lemma run_frame_ops:
  assumes "grid_ok (ib_grid s)"
  shows "\<exists>ops. ib_ops (run_frame utf8 cfg f sends s) = ib_ops s @ ops \<and>
     (\<forall>op \<in> set ops. bounded_op op \<and> (ic_read_only cfg \<longrightarrow> viewer_op op))"
proof (cases f)
  case (FInput bytes)
  then show ?thesis
    by (intro exI[of _ "handle_input_frame utf8 bytes (ic_read_only cfg)"])
      (auto simp: run_frame_def handle_input_frame_def forward_input_def MAX_INPUT_FRAME_BYTES_def)
next
  case (FResize rows cols)
  obtain r c where rc: "floored_resize rows cols = (r, c)" by (metis surj_pair)
  then show ?thesis using floored_resize_ok[of rows cols] FResize
    by (intro exI[of _ "[ResizeTo r c]"]) (auto simp: run_frame_def rc Let_def)
next
  case (FMouse m)
  then show ?thesis using mouse_ops[OF assms]
    by (intro exI[of _ "handle_mouse_frame m (ic_read_only cfg) (ib_grid s)"]) (auto simp: run_frame_def)
qed (simp_all add: run_frame_def)

lemma run_frame_grid: "grid_ok (ib_grid s) \<Longrightarrow> grid_ok (ib_grid (run_frame utf8 cfg f sends s))"
  using floored_resize_ok by (auto simp: run_frame_def Let_def split: client_frame.split prod.split)
    (metis floored_resize_ok)

definition ops_ok :: "inbound_cfg \<Rightarrow> inbound \<Rightarrow> bool" where
  "ops_ok cfg s \<longleftrightarrow> grid_ok (ib_grid s) \<and>
     (\<forall>op \<in> set (ib_ops s). bounded_op op \<and> (ic_read_only cfg \<longrightarrow> viewer_op op))"

lemma inbound_step_ops:
  assumes "ops_ok cfg s"
  shows "ops_ok cfg (inbound_step utf8 cfg i s)"
proof (cases "ib_running s")
  case running: True
  show ?thesis
  proof (cases i)
    case (Routed cmd env)
    show ?thesis
    proof (cases "ic_read_only cfg \<and> read_only_denies cmd")
      case True
      then show ?thesis using assms running Routed by (simp add: inbound_step_def gate_control_def)
    next
      case False
      obtain ops where ops: "ib_ops (run_command cfg cmd env s) = ib_ops s @ ops"
        "\<forall>op \<in> set ops. bounded_op op \<and> (viewer_op op \<or> read_only_denies cmd)"
        using run_command_ops by blast
      have "inbound_step utf8 cfg i s = run_command cfg cmd env s"
        using running Routed False by (auto simp: inbound_step_def gate_control_def)
      then show ?thesis using assms ops False by (auto simp: ops_ok_def)
    qed
  next
    case (Frame f sends)
    have g: "grid_ok (ib_grid s)" using assms by (simp add: ops_ok_def)
    then show ?thesis using assms running Frame run_frame_ops[OF g, of utf8 cfg f sends] run_frame_grid[OF g]
      by (fastforce simp: inbound_step_def ops_ok_def)
  qed (use assms running in \<open>simp_all add: inbound_step_def ops_ok_def\<close>)
qed (use assms in \<open>simp add: inbound_step_def\<close>)

lemma inbound_run_ops: "ops_ok cfg s \<Longrightarrow> ops_ok cfg (inbound_run utf8 cfg is s)"
  unfolding inbound_run_def by (induction "is" arbitrary: s) (simp_all add: inbound_step_ops)

text \<open>
  C15 (the read-only boundary of a stream). Over the whole life of an attached terminal of a
  read-only token, whatever frames the client sends and whatever commands are routed to it, the
  backend's sender is never told to type and never to toggle a fullscreen: only the viewer's own
  tab, pane, space, size and scrolling, and reads; and a mouse frame of any kind but the two
  wheel kinds is dropped.
\<close>

theorem read_only_stream_cannot_write:
  assumes "ic_read_only cfg" and "grid_ok grid"
  shows "(\<forall>op \<in> set (ib_ops (inbound_run utf8 cfg is (start_inbound grid vw reg))). viewer_op op) \<and>
    (\<forall>m g. \<not> is_wheel_kind (mi_kind m) \<longrightarrow> handle_mouse_frame m (ic_read_only cfg) g = [])"
proof -
  have "ops_ok cfg (start_inbound grid vw reg)" using assms(2) by (simp add: ops_ok_def start_inbound_def)
  from inbound_run_ops[OF this] show ?thesis using assms(1) by (simp add: ops_ok_def handle_mouse_frame_def)
qed

text \<open>
  (what a stream may ask for is bounded). Whatever a client sends, every size the backend is
  told and the grid the relay keeps are within 4 to 1024 rows and 20 to 1024 columns, every mouse
  event lies inside them, and no input is longer than one MiB.
\<close>

theorem stream_bounds:
  assumes "grid_ok grid"
  shows "grid_ok (ib_grid (inbound_run utf8 cfg is (start_inbound grid vw reg))) \<and>
    (\<forall>op \<in> set (ib_ops (inbound_run utf8 cfg is (start_inbound grid vw reg))). bounded_op op)"
proof -
  have "ops_ok cfg (start_inbound grid vw reg)" using assms by (simp add: ops_ok_def start_inbound_def)
  from inbound_run_ops[OF this] show ?thesis by (simp add: ops_ok_def)
qed

subsection \<open>The tracking rule\<close>

text \<open>
  \<open>tab_of\<close> is the tab each pane is in. A live read that finds its pane is truthful when it reports
  that pane's tab, and the tab of the relay's focus if it reports one.
\<close>

definition agrees :: "(pane_ref \<rightharpoonup> 64 word) \<Rightarrow> relay_view_state \<Rightarrow> bool" where
  "agrees tab_of v \<longleftrightarrow>
     (\<forall>p t. vs_focused_pane v = Some p \<longrightarrow> vs_active_tab v = Some t \<longrightarrow> tab_of p = Some t)"

definition truthful_read :: "(pane_ref \<rightharpoonup> 64 word) \<Rightarrow> (pane_ref \<Rightarrow> pane_ref option \<Rightarrow> context_answer) \<Rightarrow> bool" where
  "truthful_read tab_of query \<longleftrightarrow>
     (\<forall>pane focus ctx. query pane focus = CtxRead ctx \<longrightarrow> fc_exists ctx \<longrightarrow>
        (\<exists>t. fc_tab_id ctx = Some t \<and> tab_of pane = Some t) \<and>
        (\<forall>t. fc_relay_focus_tab_id ctx = Some t \<longrightarrow> (\<exists>f. focus = Some f \<and> tab_of f = Some t)))"

definition own_view :: "inbound_cfg \<Rightarrow> inbound \<Rightarrow> relay_view_state option" where
  "own_view cfg s = map_option ve_state (ib_views s (ic_connection_id cfg))"

definition tracks :: "(pane_ref \<rightharpoonup> 64 word) \<Rightarrow> inbound_cfg \<Rightarrow> inbound \<Rightarrow> bool" where
  "tracks tab_of cfg s \<longleftrightarrow> (\<forall>v. own_view cfg s = Some v \<longrightarrow> agrees tab_of v)"

lemma own_view_simps [simp]:
  "own_view cfg (leave cfg s) = None" "own_view cfg (answer a s) = own_view cfg s"
  "own_view cfg (did ops s) = own_view cfg s"
  "own_view cfg (update_view cfg f s) = map_option f (own_view cfg s)"
  by (auto simp: own_view_def leave_def update_view_def split: option.split)

lemma relay_view_own:
  "relay_view cfg s = (case own_view cfg s of Some v \<Rightarrow> tab_view_of v | None \<Rightarrow> no_view)"
  by (simp add: relay_view_def own_view_def split: option.split)

lemma live_toggle_agrees:
  assumes r: "resolve_live_context pane ctx (tab_view_of v) = Inr a" and v: "agrees tab_of v"
    and t: "truthful_read tab_of query" "query pane (vs_focused_pane v) = CtxRead ctx"
  shows "agrees tab_of (record_applied_toggle pane a v)"
proof -
  have ex: "fc_exists ctx" using r by (auto simp: resolve_live_context_def split: if_splits)
  obtain tab where tab: "fc_tab_id ctx = Some tab" "tab_of pane = Some tab"
    and focus: "\<And>t'. fc_relay_focus_tab_id ctx = Some t' \<Longrightarrow> \<exists>f. vs_focused_pane v = Some f \<and> tab_of f = Some t'"
    using t ex unfolding truthful_read_def by blast
  show ?thesis
  proof (cases "\<not> fc_floating ctx \<and> fc_tab_fullscreen ctx")
    case True
    have "\<exists>f. vs_focused_pane v = Some f \<and> tab_of f = Some tab"
      using r True tab focus ex
      by (auto simp: resolve_live_context_def Let_def require_relay_tab_def relay_own_tab_def tab_view_of_def
          split: if_splits option.splits)
    moreover have "at_tab_after a = Known tab" "toggle_effect (at_hint a) = FocusUnchanged"
      using r True tab ex
      by (auto simp: resolve_live_context_def Let_def toggle_effect_def split: if_splits option.splits sum.splits)
    ultimately show ?thesis by (auto simp: record_applied_toggle_def agrees_def)
  next
    case False
    have "at_tab_after a = Known tab" "toggle_effect (at_hint a) \<noteq> FocusUnchanged"
      using r False tab ex
      by (auto simp: resolve_live_context_def Let_def toggle_effect_def split: if_splits option.splits sum.splits)
    then show ?thesis using tab
      by (cases "toggle_effect (at_hint a)") (auto simp: record_applied_toggle_def agrees_def)
  qed
qed

lemma hinted_toggle_agrees:
  assumes r: "resolve_client_hint pane h (tab_view_of v) = Inr a" and "\<not> hint_is_hide h" and v: "agrees tab_of v"
  shows "agrees tab_of (record_applied_toggle pane a v)"
proof -
  have eff: "toggle_effect (at_hint a) = FocusTarget"
    using r assms(2) by (auto simp: resolve_client_hint_def Let_def toggle_effect_def hint_is_hide_def split: if_splits)
  show ?thesis
  proof (cases "target_is_relay_focus pane (target_is_floating h) (floating_visible h) (tab_view_of v)")
    case True
    then have "vs_focused_pane v = Some pane" "at_tab_after a = TabUnchanged"
      using r by (auto simp: target_is_relay_focus_def tab_view_of_def resolve_client_hint_def Let_def split: if_splits)
    then show ?thesis using v eff by (simp add: record_applied_toggle_def agrees_def)
  next
    case False
    then have "at_tab_after a = TabUnknown"
      using r by (auto simp: resolve_client_hint_def Let_def split: if_splits)
    then show ?thesis using eff by (simp add: record_applied_toggle_def agrees_def)
  qed
qed

lemma toggle_agrees:
  assumes "toggle_fullscreen_once query pane h (tab_view_of v) g b = (Inr a, ops)"
    and "agrees tab_of v" "truthful_read tab_of query"
  shows "agrees tab_of (record_applied_toggle pane a v)"
proof -
  have r: "resolve_toggle_target query pane h (tab_view_of v) = Inr a"
    using assms(1) by (auto simp: toggle_fullscreen_once_def split: if_splits sum.splits)
  show ?thesis
  proof (cases "\<exists>h'. h = Some h' \<and> \<not> hint_is_hide h'")
    case True
    then show ?thesis using r hinted_toggle_agrees[OF _ _ assms(2)]
      by (auto simp: resolve_toggle_target_def)
  next
    case False
    then obtain ctx where "query pane (vs_focused_pane v) = CtxRead ctx"
      "resolve_live_context pane ctx (tab_view_of v) = Inr a"
      using r by (auto simp: resolve_toggle_target_def Let_def split: option.splits context_answer.splits if_splits)
        (simp_all add: tab_view_of_def)
    then show ?thesis using live_toggle_agrees assms(2,3) by blast
  qed
qed

lemma run_command_tracks:
  assumes "tracks tab_of cfg s" "truthful_read tab_of (ce_query env)"
  shows "tracks tab_of cfg (run_command cfg cmd env s)"
proof (cases cmd)
  case (ToggleFullscreen p h)
  obtain outcome ops where o: "toggle_fullscreen_once (ce_query env) p h (relay_view cfg s)
      (if ce_waits env then ce_gave_up env else (False, False)) (ce_op env = OpSent) = (outcome, ops)"
    by (metis surj_pair)
  show ?thesis
  proof (cases outcome)
    case (Inl e)
    then show ?thesis using assms by (simp add: run_command_def ToggleFullscreen o Let_def tracks_def)
  next
    case (Inr a)
    have "agrees tab_of (record_applied_toggle p a v)" if v: "own_view cfg s = Some v" for v
    proof -
      have "toggle_fullscreen_once (ce_query env) p h (tab_view_of v)
          (if ce_waits env then ce_gave_up env else (False, False)) (ce_op env = OpSent) = (Inr a, ops)"
        using o Inr v by (simp add: relay_view_own)
      then show ?thesis using toggle_agrees[OF _ _ assms(2)] assms(1) v by (auto simp: tracks_def)
    qed
    then show ?thesis using Inr by (auto simp: run_command_def ToggleFullscreen o Let_def tracks_def)
  qed
next
  case QueryLayout
  then show ?thesis using assms(1) by (simp add: run_command_def handle_query_layout_def Let_def tracks_def own_view_def)
qed (use assms(1) in \<open>auto simp: run_command_def handle_query_layout_def Let_def tracks_def agrees_def split: op_result.split\<close>)

lemma run_frame_view [simp]: "own_view cfg (run_frame utf8 cfg f sends s) = own_view cfg s"
  by (simp add: run_frame_def own_view_def Let_def split: client_frame.split prod.split)

definition truthful_input :: "(pane_ref \<rightharpoonup> 64 word) \<Rightarrow> inbound_input \<Rightarrow> bool" where
  "truthful_input tab_of i \<longleftrightarrow> (case i of Routed cmd env \<Rightarrow> truthful_read tab_of (ce_query env) | _ \<Rightarrow> True)"

lemma inbound_step_tracks:
  assumes "tracks tab_of cfg s" "truthful_input tab_of i"
  shows "tracks tab_of cfg (inbound_step utf8 cfg i s)"
proof (cases i)
  case (Routed cmd env)
  then show ?thesis using assms run_command_tracks[of tab_of cfg s env cmd]
    by (auto simp: inbound_step_def gate_control_def truthful_input_def)
qed (use assms in \<open>auto simp: inbound_step_def tracks_def\<close>)

lemma inbound_run_tracks:
  "tracks tab_of cfg s \<Longrightarrow> \<forall>i \<in> set is. truthful_input tab_of i \<Longrightarrow> tracks tab_of cfg (inbound_run utf8 cfg is s)"
  unfolding inbound_run_def by (induction "is" arbitrary: s) (simp_all add: inbound_step_tracks)

text \<open>
  (the tracking rule). When the live reads of the backend tell each pane's tab, then in every
  state of an attached terminal the tracked pane is in the tracked tab whenever both are known,
  whatever is switched, focused or toggled, refused, abandoned or lost on the way.
\<close>

theorem tracked_tab_holds_tracked_pane:
  assumes "\<forall>i \<in> set is. truthful_input tab_of i"
    and "\<And>v. own_view cfg (start_inbound grid vw reg) = Some v \<Longrightarrow> agrees tab_of v"
    and "own_view cfg (inbound_run utf8 cfg is (start_inbound grid vw reg)) = Some v"
    and "vs_focused_pane v = Some p" "vs_active_tab v = Some t"
  shows "tab_of p = Some t"
proof -
  have "tracks tab_of cfg (inbound_run utf8 cfg is (start_inbound grid vw reg))"
    using assms(1,2) by (intro inbound_run_tracks) (auto simp: tracks_def)
  then show ?thesis using assms(3-5) by (auto simp: tracks_def agrees_def)
qed

text \<open>
  (a shared layout is changed on the relay's own tab only). A floating hide and a fullscreen exit
  act on the client's active tab, not on the pane they name. Against truthful reads, one is sent
  only when the relay's own tracked evidence places it on the named pane's tab, and an exit
  is aimed at the relay's own tracked pane.
\<close>

theorem shared_layout_on_own_tab:
  assumes "truthful_read tab_of query"
    and "toggle_fullscreen_once query pane h view gave_up sends = (outcome, ops)"
    and "FullscreenOp q fh \<in> set ops" "toggle_effect fh \<noteq> FocusTarget"
  shows "\<exists>t. tab_of pane = Some t \<and>
     (case tv_focused_pane view of Some f \<Rightarrow> tab_of f = Some t | None \<Rightarrow> tv_active_tab view = Some t) \<and>
     (toggle_effect fh = FocusUnchanged \<longrightarrow> tv_focused_pane view = Some q)"
proof -
  obtain a where a: "resolve_toggle_target query pane h view = Inr a" "at_hint a = fh" "at_pane a = q"
    using assms(2,3) by (auto simp: toggle_fullscreen_once_def split: if_splits sum.splits)
  have nh: "\<not> (\<exists>h'. h = Some h' \<and> \<not> hint_is_hide h')"
  proof
    assume "\<exists>h'. h = Some h' \<and> \<not> hint_is_hide h'"
    then obtain h' where h': "\<not> hint_is_hide h'" "resolve_client_hint pane h' view = Inr a"
      using a(1) by (auto simp: resolve_toggle_target_def)
    then have "toggle_effect fh = FocusTarget"
      using a(2) by (auto simp: resolve_client_hint_def Let_def toggle_effect_def hint_is_hide_def split: if_splits)
    then show False using assms(4) by simp
  qed
  then obtain ctx where q: "query pane (tv_focused_pane view) = CtxRead ctx"
    and r: "resolve_live_context pane ctx view = Inr a"
    using a(1) by (auto simp: resolve_toggle_target_def Let_def split: option.splits context_answer.splits if_splits)
  have ex: "fc_exists ctx" using r by (auto simp: resolve_live_context_def split: if_splits)
  obtain t where t: "fc_tab_id ctx = Some t" "tab_of pane = Some t"
    and focus: "\<And>t'. fc_relay_focus_tab_id ctx = Some t' \<Longrightarrow> \<exists>f. tv_focused_pane view = Some f \<and> tab_of f = Some t'"
    using assms(1) q ex unfolding truthful_read_def by blast
  have gate: "require_relay_tab pane ctx view = Inr ()"
    and exit: "toggle_effect fh = FocusUnchanged \<longrightarrow> tv_focused_pane view = Some q"
    using r a assms(4) t ex
    by (auto simp: resolve_live_context_def Let_def toggle_effect_def split: if_splits option.splits sum.splits)
  have "case tv_focused_pane view of Some f \<Rightarrow> tab_of f = Some t | None \<Rightarrow> tv_active_tab view = Some t"
    using gate t focus
    by (auto simp: require_relay_tab_def relay_own_tab_def split: option.splits if_splits)
  then show ?thesis using t exit by blast
qed

text \<open>
  (the rule fails without tab ids). On a backend whose reads report no tab ids (the default read,
  which herdr uses), a tab switch followed by a fullscreen toggle of any pane leaves that pane
  tracked together with the tab switched to, whatever tab the pane is in.
\<close>

theorem tracking_lost_without_tab_ids:
  assumes "own_view cfg s = Some v" "ib_running s" "\<not> ic_read_only cfg"
    and "ce_op e1 = OpSent" "ce_op e2 = OpSent" "\<not> ce_waits e2"
    and "ce_query e2 p None = CtxRead ctx" "fc_exists ctx" "\<not> fc_floating ctx" "\<not> fc_tab_fullscreen ctx"
      "fc_tab_id ctx = None"
  shows "\<exists>v'. own_view cfg (inbound_run utf8 cfg [Routed (SwitchTab t) e1, Routed (ToggleFullscreen p None) e2] s) = Some v' \<and>
     vs_active_tab v' = Some t \<and> vs_focused_pane v' = Some p"
proof -
  let ?v1 = "v\<lparr>vs_active_tab := Some t, vs_focused_pane := None\<rparr>"
  define s1 where "s1 = inbound_step utf8 cfg (Routed (SwitchTab t) e1) s"
  have s1: "own_view cfg s1 = Some ?v1" "ib_running s1"
    using assms(1-4)
    by (auto simp: s1_def inbound_step_def gate_control_def run_command_def handle_query_layout_def Let_def)
      (auto simp: update_view_def did_def split: option.split)
  have r: "relay_view cfg s1 = \<lparr>tv_focused_pane = None, tv_active_tab = Some t\<rparr>"
    using s1 by (simp add: relay_view_own tab_view_of_def)
  have "own_view cfg (inbound_step utf8 cfg (Routed (ToggleFullscreen p None) e2) s1) =
      Some (?v1\<lparr>vs_focused_pane := Some p\<rparr>)"
    using assms(3,5-) s1
    by (simp add: inbound_step_def gate_control_def run_command_def handle_query_layout_def Let_def toggle_fullscreen_once_def
        resolve_toggle_target_def resolve_live_context_def r record_applied_toggle_def toggle_effect_def)
  then show ?thesis by (simp add: inbound_run_def s1_def)
qed

text \<open>Concrete streams.\<close>

definition demo_cfg :: "bool \<Rightarrow> inbound_cfg" where
  "demo_cfg ro = \<lparr>ic_connection_id = ''c'', ic_read_only = ro, ic_token = Some ''t'', ic_sync_layout = False\<rparr>"

definition demo_inbound_pane :: pane_ref where "demo_inbound_pane = \<lparr>pane_id = 7, is_plugin = False\<rparr>"

definition demo_ctx :: "64 word option \<Rightarrow> pane_fullscreen_context" where
  "demo_ctx t = not_found\<lparr>fc_exists := True, fc_tab_id := t\<rparr>"

definition demo_env :: "64 word option \<Rightarrow> command_env" where
  "demo_env t = \<lparr>ce_op = OpSent, ce_query = (\<lambda>p f. if p = demo_inbound_pane then CtxRead (demo_ctx t) else CtxFailed),
     ce_waits = False, ce_gave_up = (False, False), ce_render_gone = False\<rparr>"

definition demo_stream :: inbound where
  "demo_stream = start_inbound (24, 80)
     [''c'' \<mapsto> \<lparr>ve_session = ''zellij:dev'',
        ve_state = \<lparr>vs_active_tab = None, vs_focused_pane = None, vs_current_space = None\<rparr>\<rparr>] []"

lemma demo_grid: "grid_ok (24, 80)"
  by (simp add: grid_ok_def dim_ok_def MIN_TERMINAL_ROWS_def MIN_TERMINAL_COLS_def MAX_TERMINAL_DIM_def)

theorem read_only_stream_cannot_write_witness:
  "list_all viewer_op (ib_ops (inbound_run (\<lambda>_. True) (demo_cfg True)
      [Frame (FInput ''rm'') True, Routed (ToggleFullscreen demo_inbound_pane None) (demo_env None)]
      (start_inbound (24, 80) Map.empty [])))"
  unfolding list_all_iff
  by (rule read_only_stream_cannot_write[THEN conjunct1]) (simp_all add: demo_cfg_def demo_grid)

theorem stream_bounds_witness:
  "grid_ok (ib_grid (inbound_run (\<lambda>_. True) (demo_cfg True) [Frame (FResize 1 65535) True]
      (start_inbound (24, 80) Map.empty [])))"
  by (rule stream_bounds[OF demo_grid, THEN conjunct1])

theorem tracked_tab_holds_tracked_pane_witness:
  "\<exists>v. own_view (demo_cfg False) (inbound_run (\<lambda>_. True) (demo_cfg False)
      [Routed (ToggleFullscreen demo_inbound_pane None) (demo_env (Some 3))] demo_stream) = Some v \<and>
     vs_focused_pane v = Some demo_inbound_pane \<and> [demo_inbound_pane \<mapsto> (3 :: 64 word)] demo_inbound_pane = vs_active_tab v"
proof -
  let ?is = "[Routed (ToggleFullscreen demo_inbound_pane None) (demo_env (Some 3))]"
  obtain v where v: "own_view (demo_cfg False) (inbound_run (\<lambda>_. True) (demo_cfg False) ?is demo_stream) = Some v"
    "vs_focused_pane v = Some demo_inbound_pane" "vs_active_tab v = Some 3"
    by (simp add: inbound_run_def inbound_step_def demo_stream_def start_inbound_def gate_control_def demo_cfg_def
        run_command_def relay_view_def tab_view_of_def toggle_fullscreen_once_def resolve_toggle_target_def
        demo_env_def demo_ctx_def not_found_def resolve_live_context_def record_applied_toggle_def toggle_effect_def
        update_view_def did_def own_view_def)
  have "[demo_inbound_pane \<mapsto> (3 :: 64 word)] demo_inbound_pane = Some 3"
  proof (rule tracked_tab_holds_tracked_pane[where tab_of = "[demo_inbound_pane \<mapsto> 3]" and cfg = "demo_cfg False"])
    show "\<forall>i \<in> set ?is. truthful_input [demo_inbound_pane \<mapsto> 3] i"
      by (simp add: truthful_input_def truthful_read_def demo_env_def demo_ctx_def not_found_def)
    show "own_view (demo_cfg False) (inbound_run (\<lambda>_. True) (demo_cfg False) ?is (start_inbound (24, 80)
        [''c'' \<mapsto> \<lparr>ve_session = ''zellij:dev'',
           ve_state = \<lparr>vs_active_tab = None, vs_focused_pane = None, vs_current_space = None\<rparr>\<rparr>] [])) = Some v"
      using v(1) by (simp add: demo_stream_def)
    show "vs_focused_pane v = Some demo_inbound_pane" "vs_active_tab v = Some 3" by (fact v)+
  qed (auto simp: own_view_def start_inbound_def demo_cfg_def agrees_def)
  then show ?thesis using v by auto
qed

theorem tracking_lost_without_tab_ids_witness:
  "\<exists>v. own_view (demo_cfg False) (inbound_run (\<lambda>_. True) (demo_cfg False)
      [Routed (SwitchTab 5) (demo_env None), Routed (ToggleFullscreen demo_inbound_pane None) (demo_env None)] demo_stream) = Some v \<and>
     vs_active_tab v = Some 5 \<and> vs_focused_pane v = Some demo_inbound_pane"
  by (rule tracking_lost_without_tab_ids[where ctx = "demo_ctx None"])
    (simp_all add: demo_cfg_def demo_stream_def own_view_def start_inbound_def demo_env_def demo_ctx_def not_found_def)

definition demo_tab_of :: "pane_ref \<rightharpoonup> 64 word" where "demo_tab_of = [demo_inbound_pane \<mapsto> 3]"

definition demo_live :: "pane_ref \<Rightarrow> pane_ref option \<Rightarrow> context_answer" where
  "demo_live p f = (if p = demo_inbound_pane
     then CtxRead (demo_ctx (Some 3)\<lparr>fc_tab_fullscreen := True, fc_relay_focus_tab_id := Option.bind f demo_tab_of\<rparr>)
     else CtxFailed)"

theorem shared_layout_on_own_tab_witness:
  "\<exists>t fh. demo_tab_of demo_inbound_pane = Some t \<and>
     FullscreenOp demo_inbound_pane fh \<in> set (snd (toggle_fullscreen_once demo_live demo_inbound_pane None
       \<lparr>tv_focused_pane = Some demo_inbound_pane, tv_active_tab = None\<rparr> (False, False) True))"
proof -
  let ?tog = "toggle_fullscreen_once demo_live demo_inbound_pane None
       \<lparr>tv_focused_pane = Some demo_inbound_pane, tv_active_tab = None\<rparr> (False, False) True"
  obtain out ops where r: "?tog = (out, ops)" by (metis surj_pair)
  obtain fh where fh: "FullscreenOp demo_inbound_pane fh \<in> set ops" "toggle_effect fh = FocusUnchanged"
    using r by (auto simp: toggle_fullscreen_once_def resolve_toggle_target_def resolve_live_context_def demo_live_def
      demo_ctx_def demo_tab_of_def not_found_def require_relay_tab_def relay_own_tab_def toggle_effect_def Let_def)
  have t: "truthful_read demo_tab_of demo_live"
    by (auto simp: truthful_read_def demo_live_def demo_ctx_def demo_tab_of_def not_found_def
        split: if_splits option.splits) (auto split: bind_splits if_splits)
  have "\<exists>t. demo_tab_of demo_inbound_pane = Some t"
    using shared_layout_on_own_tab[OF t r fh(1)] fh(2) by auto
  then show ?thesis using r fh(1) by auto
qed

end
