(* ===== verification/RelayReader.thy ===== *)
theory RelayReader
  imports RelayInbound "HOL-Library.Sublist"
begin

text \<open>
  The outbound half of an attached terminal, \<open>muxrd/src/relay/reader.rs\<close>: the render loop with
  its in-flight layout query, and the shutdown guard. One turn of the loop is a step; what the
  backend sent, which queries were handed over, whose receiver is gone, the stop flag and
  whether the client still reads are its inputs. The JSON of a layout is parsed by the
  parameter \<open>parse\<close> (\<open>parse_zellij_layout\<close>); a failed parse is \<open>None\<close>. A query's reply channel is
  its sequence number.
\<close>

subsection \<open>Messages and frames\<close>

datatype stream_event =
    ExitEvent string
  | RenamedEvent string
  | ConfigEvent
  | SwitchEvent string

datatype mux_msg =
    RenderMsg string
  | LogMsg string
  | EventMsg stream_event
  | OtherMsg

datatype server_frame = RenderFrame string | ControlFrame string string

definition event_frame :: "stream_event \<Rightarrow> server_frame" where
  "event_frame e =
     (case e of
        ExitEvent r \<Rightarrow> ControlFrame ''exit'' r
      | RenamedEvent n \<Rightarrow> ControlFrame ''renamed_session'' n
      | ConfigEvent \<Rightarrow> ControlFrame ''config_updated'' []
      | SwitchEvent n \<Rightarrow> ControlFrame ''switch_session'' n)"

subsection \<open>The in-flight query\<close>

record in_flight_query =
  q_seq :: "64 word"
  q_tabs :: "string option"

definition new_query :: "64 word \<Rightarrow> in_flight_query" where
  "new_query n = \<lparr>q_seq = n, q_tabs = None\<rparr>"

text \<open>A held query whose receiver is gone is retired, then the last new one is held.\<close>

definition drain_queries :: "(64 word \<Rightarrow> bool) \<Rightarrow> 64 word list \<Rightarrow> in_flight_query option \<Rightarrow> in_flight_query option" where
  "drain_queries closed new slot =
     (let kept = (case slot of Some q \<Rightarrow> if closed (q_seq q) then None else Some q | None \<Rightarrow> None)
      in fold (\<lambda>n _. Some (new_query n)) new kept)"

definition fulfil :: "(string \<Rightarrow> string \<Rightarrow> layout_snapshot option) \<Rightarrow> string \<Rightarrow> string \<Rightarrow> layout_snapshot option" where
  "fulfil parse tabs panes =
     (if tabs = [] then None else if panes = [] then None else parse tabs panes)"

definition capture_query_log :: "(string \<Rightarrow> string \<Rightarrow> layout_snapshot option) \<Rightarrow> (64 word \<Rightarrow> bool) \<Rightarrow> string \<Rightarrow>
    in_flight_query option \<Rightarrow> in_flight_query option \<times> (64 word \<times> layout_snapshot option) list" where
  "capture_query_log parse closed json slot =
     (case slot of
        None \<Rightarrow> (None, [])
      | Some q \<Rightarrow>
          if closed (q_seq q) then (None, [])
          else (case q_tabs q of
                  None \<Rightarrow> (Some (q\<lparr>q_tabs := Some json\<rparr>), [])
                | Some tabs \<Rightarrow> (None, [(q_seq q, fulfil parse tabs json)])))"

subsection \<open>The loop\<close>

record reader =
  rd_held :: "in_flight_query option"
  rd_sent :: "server_frame list"
  rd_replies :: "(64 word \<times> layout_snapshot option) list"
  rd_renders :: "64 word"
  rd_running :: bool

record turn =
  tn_stop :: bool
  tn_new :: "64 word list"
  tn_closed :: "64 word \<Rightarrow> bool"
  tn_msg :: "mux_msg option"
  tn_stop_after :: bool
  tn_new_after :: "64 word list"
  tn_closed_after :: "64 word \<Rightarrow> bool"
  tn_sends :: bool

definition start_reader :: reader where
  "start_reader = \<lparr>rd_held = None, rd_sent = [], rd_replies = [], rd_renders = 0, rd_running = True\<rparr>"

text \<open>Leaving the loop drops a held query, which cancels its receiver.\<close>

definition end_reader :: "reader \<Rightarrow> reader" where
  "end_reader s = s\<lparr>rd_held := None, rd_running := False\<rparr>"

definition send_frame :: "bool \<Rightarrow> server_frame \<Rightarrow> reader \<Rightarrow> reader" where
  "send_frame sends f s = (if sends then s\<lparr>rd_sent := rd_sent s @ [f]\<rparr> else end_reader s)"

definition handle_msg :: "(string \<Rightarrow> string \<Rightarrow> layout_snapshot option) \<Rightarrow> (64 word \<Rightarrow> bool) \<Rightarrow> bool \<Rightarrow> mux_msg \<Rightarrow> reader \<Rightarrow> reader" where
  "handle_msg parse closed sends m s =
     (case m of
        RenderMsg bytes \<Rightarrow>
          (let s1 = send_frame sends (RenderFrame bytes) s
           in if sends then s1\<lparr>rd_renders := rd_renders s1 + 1\<rparr> else s1)
      | LogMsg json \<Rightarrow>
          (let (slot, replies) = capture_query_log parse closed json (rd_held s)
           in s\<lparr>rd_held := slot, rd_replies := rd_replies s @ replies\<rparr>)
      | EventMsg e \<Rightarrow>
          (let s1 = send_frame sends (event_frame e) s
           in case e of ExitEvent _ \<Rightarrow> end_reader s1 | _ \<Rightarrow> s1)
      | OtherMsg \<Rightarrow> s)"

definition render_turn :: "(string \<Rightarrow> string \<Rightarrow> layout_snapshot option) \<Rightarrow> turn \<Rightarrow> reader \<Rightarrow> reader" where
  "render_turn parse t s =
     (if \<not> rd_running s then s
      else if tn_stop t then end_reader s
      else
        (let s1 = s\<lparr>rd_held := drain_queries (tn_closed t) (tn_new t) (rd_held s)\<rparr>
         in case tn_msg t of
              None \<Rightarrow> end_reader s1
            | Some m \<Rightarrow>
                if tn_stop_after t then end_reader s1
                else handle_msg parse (tn_closed_after t) (tn_sends t) m
                       (s1\<lparr>rd_held := drain_queries (tn_closed_after t) (tn_new_after t) (rd_held s1)\<rparr>)))"

definition render_loop :: "(string \<Rightarrow> string \<Rightarrow> layout_snapshot option) \<Rightarrow> turn list \<Rightarrow> reader \<Rightarrow> reader" where
  "render_loop parse ts s = fold (render_turn parse) ts s"

text \<open>\<open>Drop for ShutdownGuard\<close>: the stop flag is set, then the parked read is woken.\<close>

definition shutdown_nudge :: "bool \<Rightarrow> 16 word \<Rightarrow> 16 word \<Rightarrow> sender_op" where
  "shutdown_nudge ro rows cols = (if ro then ClientExited else ResizeTo rows cols)"

subsection \<open>What the client sees\<close>

text \<open>The frames of a message list, up to and with the first exit.\<close>

fun forwarded :: "mux_msg list \<Rightarrow> server_frame list" where
  "forwarded [] = []"
| "forwarded (RenderMsg b # ms) = RenderFrame b # forwarded ms"
| "forwarded (EventMsg e # ms) =
     event_frame e # (case e of ExitEvent _ \<Rightarrow> [] | _ \<Rightarrow> forwarded ms)"
| "forwarded (_ # ms) = forwarded ms"

fun messages :: "turn list \<Rightarrow> mux_msg list" where
  "messages [] = []"
| "messages (t # ts) = (case tn_msg t of Some m \<Rightarrow> m # messages ts | None \<Rightarrow> [])"

definition reads_on :: "turn \<Rightarrow> bool" where
  "reads_on t \<longleftrightarrow> \<not> tn_stop t \<and> \<not> tn_stop_after t \<and> tn_sends t \<and> tn_msg t \<noteq> None"

lemma ended_stays [simp]: "\<not> rd_running s \<Longrightarrow> render_loop parse ts s = s"
  unfolding render_loop_def by (induction ts) (simp_all add: render_turn_def)

lemma end_reader_simps [simp]:
  "rd_sent (end_reader s) = rd_sent s" "rd_replies (end_reader s) = rd_replies s"
  "rd_held (end_reader s) = None" "rd_running (end_reader s) = False" "rd_renders (end_reader s) = rd_renders s"
  by (simp_all add: end_reader_def)

lemma render_loop_Cons: "render_loop parse (t # ts) s = render_loop parse ts (render_turn parse t s)"
  by (simp add: render_loop_def)

lemma forwards_prefix:
  "\<exists>fs. rd_sent (render_loop parse ts s) = rd_sent s @ fs \<and> prefix fs (forwarded (messages ts))"
proof (induction ts arbitrary: s)
  case Nil
  then show ?case by (simp add: render_loop_def)
next
  case (Cons t ts)
  show ?case
  proof (cases "\<not> rd_running s \<or> tn_stop t \<or> tn_stop_after t \<or> tn_msg t = None")
    case True
    then have "rd_sent (render_turn parse t s) = rd_sent s \<and> \<not> rd_running (render_turn parse t s)"
      by (auto simp: render_turn_def Let_def split: option.split)
    then show ?thesis by (simp add: render_loop_Cons)
  next
    case False
    then obtain m where m: "tn_msg t = Some m" and run: "rd_running s" "\<not> tn_stop t" "\<not> tn_stop_after t" by blast
    define s1 where "s1 = s\<lparr>rd_held := drain_queries (tn_closed_after t) (tn_new_after t)
        (drain_queries (tn_closed t) (tn_new t) (rd_held s))\<rparr>"
    have turn: "render_turn parse t s = handle_msg parse (tn_closed_after t) (tn_sends t) m s1"
      using run m by (simp add: render_turn_def s1_def Let_def)
    obtain fs where fs: "rd_sent (render_loop parse ts (render_turn parse t s)) = rd_sent (render_turn parse t s) @ fs"
      "prefix fs (forwarded (messages ts))" using Cons.IH by blast
    show ?thesis
    proof (cases m)
      case (RenderMsg b)
      show ?thesis
      proof (cases "tn_sends t")
        case True
        then show ?thesis using fs RenderMsg
          by (auto simp: render_loop_Cons turn m handle_msg_def send_frame_def s1_def)
      next
        case False
        then show ?thesis using RenderMsg
          by (simp add: render_loop_Cons turn m handle_msg_def send_frame_def s1_def)
      qed
    next
      case (EventMsg e)
      show ?thesis
      proof (cases "tn_sends t")
        case True
        then show ?thesis using fs EventMsg
          by (cases e) (auto simp: render_loop_Cons turn m handle_msg_def send_frame_def s1_def)
      next
        case False
        then show ?thesis using EventMsg
          by (cases e) (simp_all add: render_loop_Cons turn m handle_msg_def send_frame_def s1_def)
      qed
    qed (use fs in \<open>auto simp: render_loop_Cons turn m handle_msg_def s1_def split: prod.split\<close>)
  qed
qed

lemma forwards_all:
  assumes "\<forall>t \<in> set ts. reads_on t" "rd_running s"
  shows "rd_sent (render_loop parse ts s) = rd_sent s @ forwarded (messages ts)"
  using assms
proof (induction ts arbitrary: s)
  case Nil
  then show ?case by (simp add: render_loop_def)
next
  case (Cons t ts)
  then obtain m where m: "tn_msg t = Some m" by (auto simp: reads_on_def)
  define s1 where "s1 = s\<lparr>rd_held := drain_queries (tn_closed_after t) (tn_new_after t)
      (drain_queries (tn_closed t) (tn_new t) (rd_held s))\<rparr>"
  have s1: "rd_sent s1 = rd_sent s" "rd_running s1" using Cons.prems by (simp_all add: s1_def)
  have turn: "render_turn parse t s = handle_msg parse (tn_closed_after t) True m s1"
    using Cons.prems m by (simp add: render_turn_def s1_def Let_def reads_on_def)
  have ih: "rd_running s' \<Longrightarrow> rd_sent (render_loop parse ts s') = rd_sent s' @ forwarded (messages ts)" for s'
    using Cons.IH Cons.prems(1) by simp
  show ?case
  proof (cases m)
    case (EventMsg e)
    then show ?thesis using s1 ih
      by (cases e) (simp_all add: render_loop_Cons turn m handle_msg_def send_frame_def)
  qed (use s1 ih in \<open>simp_all add: render_loop_Cons turn m handle_msg_def send_frame_def split: prod.split\<close>)
qed

text \<open>
  (frames are forwarded in order). Whatever layout queries are handed over, answered or
  retired meanwhile, the client gets a prefix of the backend's renders and events, in order and
  without a gap; all of them, up to the exit, while it keeps reading.
\<close>

theorem frames_in_order:
  "prefix (rd_sent (render_loop parse ts start_reader)) (forwarded (messages ts)) \<and>
   ((\<forall>t \<in> set ts. reads_on t) \<longrightarrow> rd_sent (render_loop parse ts start_reader) = forwarded (messages ts))"
  using forwards_prefix[of parse ts start_reader] forwards_all[of ts start_reader parse]
  by (auto simp: start_reader_def)

subsection \<open>Which query a reply answers\<close>

text \<open>
  Logs carry no tag. As a ghost, each turn is paired with the query its log answers (if it brings
  one). \<open>handed\<close>: the queries handed over so far. \<open>logs_for\<close>: the logs that answer a query.
\<close>

type_synonym tagged_turn = "turn \<times> 64 word"

definition handed :: "tagged_turn list \<Rightarrow> 64 word list" where
  "handed ts = concat (map (\<lambda>(t, _). tn_new t @ tn_new_after t) ts)"

definition logs_for :: "64 word \<Rightarrow> tagged_turn list \<Rightarrow> string list" where
  "logs_for n ts =
     concat (map (\<lambda>(t, m). case tn_msg t of Some (LogMsg j) \<Rightarrow> if m = n then [j] else [] | _ \<Rightarrow> []) ts)"

definition log_current :: "tagged_turn list \<Rightarrow> tagged_turn \<Rightarrow> bool" where
  "log_current before x =
     (case tn_msg (fst x) of
        Some (LogMsg _) \<Rightarrow> handed (before @ [x]) \<noteq> [] \<and> List.last (handed (before @ [x])) = snd x
      | _ \<Rightarrow> True)"

text \<open>No straggler: a log answers the query handed over last before it.\<close>

definition no_straggler :: "tagged_turn list \<Rightarrow> bool" where
  "no_straggler ts \<longleftrightarrow> (\<forall>n < length ts. log_current (take n ts) (ts ! n))"

lemma no_straggler_snoc: "no_straggler (ts @ [x]) \<longleftrightarrow> no_straggler ts \<and> log_current ts x"
  by (auto simp: no_straggler_def nth_append less_Suc_eq)

lemma handed_snoc [simp]: "handed (ts @ [(t, m)]) = handed ts @ tn_new t @ tn_new_after t"
  by (simp add: handed_def)

lemma logs_snoc: "logs_for n (ts @ [(t, m)]) =
    logs_for n ts @ (case tn_msg t of Some (LogMsg j) \<Rightarrow> if m = n then [j] else [] | _ \<Rightarrow> [])"
  by (simp add: logs_for_def)

lemma drain_cases:
  "drain_queries closed new f = (if new = [] then
      (case f of Some q \<Rightarrow> if closed (q_seq q) then None else Some q | None \<Rightarrow> None)
    else Some (new_query (List.last new)))"
proof -
  have "new \<noteq> [] \<Longrightarrow> fold (\<lambda>n _. Some (new_query n)) new x = Some (new_query (List.last new))" for x
    by (induction new arbitrary: x rule: rev_induct) auto
  then show ?thesis by (auto simp: drain_queries_def Let_def)
qed

text \<open>A held query is the last handed over and holds what answered it so far.\<close>

definition slot_tracks :: "64 word list \<Rightarrow> (64 word \<Rightarrow> string list) \<Rightarrow> in_flight_query option \<Rightarrow> bool" where
  "slot_tracks hs logs slot \<longleftrightarrow>
     (\<forall>q. slot = Some q \<longrightarrow> hs \<noteq> [] \<and> List.last hs = q_seq q \<and>
        logs (q_seq q) = (case q_tabs q of None \<Rightarrow> [] | Some t \<Rightarrow> [t]))"

definition paired :: "(string \<Rightarrow> string \<Rightarrow> layout_snapshot option) \<Rightarrow> tagged_turn list \<Rightarrow> reader \<Rightarrow> bool" where
  "paired parse ts s \<longleftrightarrow>
     slot_tracks (handed ts) (\<lambda>n. logs_for n ts) (rd_held s) \<and>
     (\<forall>(n, r) \<in> set (rd_replies s). \<exists>t p rest. logs_for n ts = t # p # rest \<and> r = fulfil parse t p) \<and>
     distinct (map fst (rd_replies s))"

lemma drain_tracks:
  assumes "slot_tracks hs logs slot" "distinct (hs @ new)" "\<And>n. n \<in> set new \<Longrightarrow> logs n = []"
  shows "slot_tracks (hs @ new) logs (drain_queries closed new slot)"
  using assms by (auto simp: slot_tracks_def drain_cases new_query_def split: option.splits if_splits)

lemma capture_paired:
  assumes c: "capture_query_log parse closed j slot = (slot', replies)" and t: "slot_tracks hs logs slot"
    and j: "hs \<noteq> []" "List.last hs = m" "\<And>n. logs' n = logs n @ (if m = n then [j] else [])"
  shows "slot_tracks hs logs' slot'"
    and "(n, r) \<in> set replies \<Longrightarrow> (\<exists>t. logs' n = [t, j] \<and> r = fulfil parse t j) \<and> length (logs n) = 1"
    and "length replies \<le> 1"
proof -
  consider "slot' = None" "replies = []"
    | q where "slot = Some q" "q_tabs q = None" "slot' = Some (q\<lparr>q_tabs := Some j\<rparr>)" "replies = []"
    | q tb where "slot = Some q" "q_tabs q = Some tb" "slot' = None" "replies = [(q_seq q, fulfil parse tb j)]"
    using c by (auto simp: capture_query_log_def split: option.splits if_splits)
  note cases = this
  show "slot_tracks hs logs' slot'"
    using cases t j by cases (simp_all add: slot_tracks_def)
  show "(n, r) \<in> set replies \<Longrightarrow> (\<exists>t. logs' n = [t, j] \<and> r = fulfil parse t j) \<and> length (logs n) = 1"
    using cases t j by cases (simp_all add: slot_tracks_def)
  show "length replies \<le> 1" using cases by cases simp_all
qed

lemma logs_for_handed: "no_straggler ts \<Longrightarrow> logs_for n ts \<noteq> [] \<Longrightarrow> n \<in> set (handed ts)"
proof (induction ts rule: rev_induct)
  case Nil
  then show ?case by (simp add: logs_for_def)
next
  case (snoc x ts)
  obtain t m where x: "x = (t, m)" by (cases x)
  show ?case
  proof (cases "logs_for n ts = []")
    case True
    then have "\<exists>j. tn_msg t = Some (LogMsg j) \<and> m = n"
      using snoc.prems by (auto simp: x logs_snoc split: option.splits mux_msg.splits if_splits)
    then have "n = List.last (handed (ts @ [x])) \<and> handed (ts @ [x]) \<noteq> []"
      using snoc.prems(1) by (auto simp: no_straggler_snoc log_current_def x)
    then show ?thesis by (metis last_in_set)
  next
    case False
    then show ?thesis using snoc by (auto simp: no_straggler_snoc x)
  qed
qed

lemma send_frame_query [simp]:
  "rd_replies (send_frame b f s) = rd_replies s" "rd_held (send_frame b f s) = (if b then rd_held s else None)"
  by (simp_all add: send_frame_def)

lemma handle_msg_query:
  "(case m of LogMsg j \<Rightarrow> False | _ \<Rightarrow> True) \<Longrightarrow>
     rd_replies (handle_msg parse closed sends m s) = rd_replies s \<and>
     rd_held (handle_msg parse closed sends m s) \<in> {None, rd_held s}"
  by (cases m) (auto simp: handle_msg_def Let_def split: stream_event.split)

lemma tracks_None [simp]: "slot_tracks hs logs None"
  by (simp add: slot_tracks_def)

lemma ended_holds_nothing:
  "rd_running s \<or> rd_held s = None \<Longrightarrow>
     rd_running (render_turn parse t s) \<or> rd_held (render_turn parse t s) = None"
  by (auto simp: render_turn_def handle_msg_def send_frame_def Let_def
      split: option.splits mux_msg.splits stream_event.splits prod.splits if_splits)

lemma ended_loop_holds_nothing:
  "rd_running s \<or> rd_held s = None \<Longrightarrow>
     rd_running (render_loop parse ts s) \<or> rd_held (render_loop parse ts s) = None"
proof (induction ts arbitrary: s)
  case (Cons t ts)
  then show ?case using ended_holds_nothing[OF Cons.prems] by (simp add: render_loop_Cons)
qed (simp add: render_loop_def)

text \<open>The slot a turn matches its message against.\<close>

definition matched :: "turn \<Rightarrow> reader \<Rightarrow> in_flight_query option" where
  "matched t s = drain_queries (tn_closed_after t) (tn_new_after t) (drain_queries (tn_closed t) (tn_new t) (rd_held s))"

definition goes_on :: "turn \<Rightarrow> reader \<Rightarrow> bool" where
  "goes_on t s \<longleftrightarrow> rd_running s \<and> \<not> tn_stop t \<and> \<not> tn_stop_after t"

lemma turn_log:
  assumes "goes_on t s" "tn_msg t = Some (LogMsg j)"
    and "capture_query_log parse (tn_closed_after t) j (matched t s) = (slot, replies)"
  shows "rd_replies (render_turn parse t s) = rd_replies s @ replies \<and> rd_held (render_turn parse t s) = slot"
  using assms by (simp add: goes_on_def render_turn_def matched_def handle_msg_def Let_def)

lemma turn_other:
  assumes "rd_running s \<or> rd_held s = None" "\<not> (goes_on t s \<and> (\<exists>j. tn_msg t = Some (LogMsg j)))"
  shows "rd_replies (render_turn parse t s) = rd_replies s \<and> rd_held (render_turn parse t s) \<in> {None, matched t s}"
proof (cases "goes_on t s \<and> tn_msg t \<noteq> None")
  case True
  then obtain m where m: "tn_msg t = Some m" by blast
  then have "case m of LogMsg j \<Rightarrow> False | _ \<Rightarrow> True" using True assms(2) by (cases m) auto
  from handle_msg_query[OF this, of parse "tn_closed_after t" "tn_sends t" "s\<lparr>rd_held := matched t s\<rparr>"]
  show ?thesis using True m by (simp add: goes_on_def render_turn_def matched_def Let_def)
next
  case False
  then show ?thesis using assms(1) by (auto simp: goes_on_def render_turn_def Let_def split: option.split)
qed

lemma turn_paired:
  assumes ih: "paired parse ts s" and empty: "rd_running s \<or> rd_held s = None"
    and ns: "no_straggler ts" "log_current ts (t, m)"
    and dist: "distinct (handed ts @ tn_new t @ tn_new_after t)"
  shows "paired parse (ts @ [(t, m)]) (render_turn parse t s)"
proof -
  have kept: "\<exists>tb p rest. logs_for n (ts @ [(t, m)]) = tb # p # rest \<and> r = fulfil parse tb p"
    if "(n, r) \<in> set (rd_replies s)" for n r
    using ih that by (fastforce simp: paired_def logs_snoc)
  have fresh: "logs_for n ts = []" if "n \<in> set (tn_new t @ tn_new_after t)" for n
    using logs_for_handed[OF ns(1), of n] dist that by auto
  have tr1: "slot_tracks (handed ts @ tn_new t) (\<lambda>n. logs_for n ts) (drain_queries (tn_closed t) (tn_new t) (rd_held s))"
    using ih dist fresh by (intro drain_tracks) (auto simp: paired_def)
  have tr2: "slot_tracks (handed ts @ tn_new t @ tn_new_after t) (\<lambda>n. logs_for n ts) (matched t s)"
    using drain_tracks[OF tr1, of "tn_new_after t" "tn_closed_after t"] dist fresh by (simp add: matched_def)
  show ?thesis
  proof (cases "goes_on t s \<and> (\<exists>j. tn_msg t = Some (LogMsg j))")
    case False
    have "slot_tracks (handed (ts @ [(t, m)])) (\<lambda>n. logs_for n (ts @ [(t, m)])) (rd_held (render_turn parse t s))"
    proof (cases "\<exists>j. tn_msg t = Some (LogMsg j)")
      case True
      then have "rd_held (render_turn parse t s) = None"
        using False empty by (auto simp: goes_on_def render_turn_def Let_def)
      then show ?thesis by simp
    next
      case no_log: False
      then have "logs_for n (ts @ [(t, m)]) = logs_for n ts" for n
        by (auto simp: logs_snoc split: option.splits mux_msg.splits)
      then show ?thesis using turn_other[OF empty False, of parse] tr2 by auto
    qed
    then show ?thesis using turn_other[OF empty False, of parse] kept ih by (auto simp: paired_def)
  next
    case True
    then obtain j where go: "goes_on t s" and j: "tn_msg t = Some (LogMsg j)" by blast
    obtain slot replies where c: "capture_query_log parse (tn_closed_after t) j (matched t s) = (slot, replies)"
      by (metis surj_pair)
    have cur: "handed ts @ tn_new t @ tn_new_after t \<noteq> []" "List.last (handed ts @ tn_new t @ tn_new_after t) = m"
      using ns(2) by (simp_all add: log_current_def j)
    have logs': "logs_for n (ts @ [(t, m)]) = logs_for n ts @ (if m = n then [j] else [])" for n
      by (simp add: logs_snoc j)
    note cp = capture_paired[OF c tr2 cur logs']
    have "n \<notin> fst ` set (rd_replies s)" if "(n, r) \<in> set replies" for n r
      using cp(2)[OF that] ih by (fastforce simp: paired_def)
    then have "distinct (map fst (rd_replies s @ replies))"
      using ih cp(3) by (cases replies) (fastforce simp: paired_def image_iff)+
    moreover have "\<exists>tb p rest. logs_for n (ts @ [(t, m)]) = tb # p # rest \<and> r = fulfil parse tb p"
      if "(n, r) \<in> set (rd_replies s @ replies)" for n r
      using that kept[of n r] cp(2)[of n r] by auto
    ultimately show ?thesis using cp(1) turn_log[OF go j c] by (auto simp: paired_def)
  qed
qed

lemma render_loop_paired:
  assumes "no_straggler ts" "distinct (handed ts)"
  shows "paired parse ts (render_loop parse (map fst ts) start_reader)"
  using assms
proof (induction ts rule: rev_induct)
  case Nil
  then show ?case by (simp add: render_loop_def paired_def start_reader_def)
next
  case (snoc x ts)
  obtain t m where x: "x = (t, m)" by (cases x)
  have "render_loop parse (map fst (ts @ [(t, m)])) start_reader =
      render_turn parse t (render_loop parse (map fst ts) start_reader)"
    by (simp add: render_loop_def)
  moreover have "paired parse (ts @ [(t, m)]) (render_turn parse t (render_loop parse (map fst ts) start_reader))"
    using snoc ended_loop_holds_nothing[of start_reader parse "map fst ts"]
    by (intro turn_paired) (simp_all add: no_straggler_snoc x start_reader_def)
  ultimately show ?case by (simp only: x)
qed

text \<open>
  C17 (a layout reply is the answer to its query). When every log answers the query handed over last
  before it (no log of a retired query arrives after the next was handed over), each query is
  answered at most once, with the parse of its own tabs log and its own panes log.
\<close>

theorem replies_match_their_query:
  assumes "no_straggler ts" "distinct (handed ts)"
    and "(n, r) \<in> set (rd_replies (render_loop parse (map fst ts) start_reader))"
  shows "\<exists>tabs panes rest. logs_for n ts = tabs # panes # rest \<and> r = fulfil parse tabs panes \<and>
    (\<forall>r'. (n, r') \<in> set (rd_replies (render_loop parse (map fst ts) start_reader)) \<longrightarrow> r' = r)"
proof -
  from render_loop_paired[OF assms(1,2), of parse]
  have p: "\<forall>(n, r) \<in> set (rd_replies (render_loop parse (map fst ts) start_reader)).
      \<exists>t p rest. logs_for n ts = t # p # rest \<and> r = fulfil parse t p"
    and d: "distinct (map fst (rd_replies (render_loop parse (map fst ts) start_reader)))"
    by (auto simp: paired_def)
  have "(n, r') \<in> set (rd_replies (render_loop parse (map fst ts) start_reader)) \<Longrightarrow> r' = r" for r'
    using d assms(3) by (meson eq_key_imp_eq_value)
  then show ?thesis using p assms(3) by fast
qed

text \<open>Turns with one message, for the concrete runs.\<close>

definition plain_turn :: "64 word list \<Rightarrow> 64 word list \<Rightarrow> mux_msg \<Rightarrow> turn" where
  "plain_turn new closed m =
     \<lparr>tn_stop = False, tn_new = new, tn_closed = (\<lambda>n. n \<in> set closed), tn_msg = Some m, tn_stop_after = False,
      tn_new_after = [], tn_closed_after = (\<lambda>n. n \<in> set closed), tn_sends = True\<rparr>"

text \<open>
  (a straggler answers the next query). When a query times out after its tabs log and its panes
  log arrives after the next query was handed over, that next query is answered from the panes of
  the old query read as tabs and its own tabs read as panes, and its own panes log is dropped.
\<close>

theorem straggler_answers_next_query:
  assumes "a \<noteq> b"
  shows "rd_replies (render_loop parse
      [plain_turn [a] [] (LogMsg tabs1), plain_turn [b] [a] (LogMsg panes1),
       plain_turn [] [a] (LogMsg tabs2), plain_turn [] [a] (LogMsg panes2)] start_reader)
    = [(b, fulfil parse panes1 tabs2)]"
  using assms
  by (simp add: render_loop_def render_turn_def plain_turn_def start_reader_def drain_queries_def new_query_def
      handle_msg_def capture_query_log_def Let_def)

theorem straggler_answers_next_query_witness:
  "rd_replies (render_loop (\<lambda>_ _. None)
      [plain_turn [0] [] (LogMsg ''T1''), plain_turn [1] [0] (LogMsg ''P1''),
       plain_turn [] [0] (LogMsg ''T2''), plain_turn [] [0] (LogMsg ''P2'')] start_reader)
    = [(1, fulfil (\<lambda>_ _. None) ''P1'' ''T2'')]"
  by (rule straggler_answers_next_query) simp

theorem frames_in_order_witness:
  "rd_sent (render_loop (\<lambda>_ _. None) [plain_turn [] [] (RenderMsg ''a''), plain_turn [] [] (EventMsg (ExitEvent ''bye'')),
      plain_turn [] [] (RenderMsg ''b'')] start_reader) = [RenderFrame ''a'', ControlFrame ''exit'' ''bye'']"
  using frames_in_order[of "\<lambda>_ _. None" "[plain_turn [] [] (RenderMsg ''a''), plain_turn [] [] (EventMsg (ExitEvent ''bye'')),
      plain_turn [] [] (RenderMsg ''b'')]"]
  by (simp add: reads_on_def plain_turn_def event_frame_def)

theorem replies_match_their_query_witness:
  "\<exists>tabs panes rest. logs_for 7 [(plain_turn [7] [] (LogMsg ''T''), 7), (plain_turn [] [] (LogMsg ''P''), 7)]
     = tabs # panes # rest"
proof -
  let ?ts = "[(plain_turn [7] [] (LogMsg ''T''), 7 :: 64 word), (plain_turn [] [] (LogMsg ''P''), 7)]"
  have "no_straggler ?ts"
    by (auto simp: no_straggler_def log_current_def handed_def plain_turn_def less_Suc_eq)
  moreover have "distinct (handed ?ts)" by (simp add: handed_def plain_turn_def)
  moreover have "(7, fulfil (\<lambda>_ _. None) ''T'' ''P'') \<in> set (rd_replies (render_loop (\<lambda>_ _. None) (map fst ?ts) start_reader))"
    by (simp add: render_loop_def render_turn_def plain_turn_def start_reader_def drain_queries_def new_query_def
        handle_msg_def capture_query_log_def Let_def)
  ultimately show ?thesis using replies_match_their_query by blast
qed

end
