(* ===== verification/SessionOps.thy ===== *)
theory SessionOps
  imports LayoutOps ClientCount
begin

text \<open>
  The session RPCs, \<open>muxrd/src/grpc/session_ops.rs\<close>: ListSessions across all backends, and
  rename, kill and create. What each backend does within its timeout is an argument; a mutation
  ends in the backend call it makes.
\<close>

subsection \<open>Listing\<close>

datatype 'a timed = InTime "'a task" | TimedOutCall

text \<open>
  One backend's behaviour for a listing: its sessions with age and whether they are
  resurrectable only, whether it reports agents, what its inventory answers for each name and
  how that task ends, and its spaces.
\<close>

record backend_answers =
  ba_sessions :: "(string \<times> 64 word \<times> bool) list timed"
  ba_supports_agents :: bool
  ba_list_agents :: "string \<Rightarrow> agent_snapshot list option"
  ba_agents_task :: "unit timed"
  ba_spaces :: "space_snapshot list timed"

record session_info =
  si_name :: string
  si_age_secs :: "64 word"
  si_resurrectable :: bool
  si_connected_clients :: "32 word"
  si_backend :: nat
  si_id :: string
  si_space_count :: "32 word"
  si_agents :: "agent_summary option"

definition proto_backend :: "backend_kind \<Rightarrow> nat" where
  "proto_backend k = (case k of Zellij \<Rightarrow> 1 | Herdr \<Rightarrow> 2)"

text \<open>The tag of a request; \<open>None\<close> is an unknown tag, \<open>Some None\<close> an unspecified backend.\<close>

definition kind_from_proto :: "nat \<Rightarrow> backend_kind option option" where
  "kind_from_proto n =
     (if n = 0 then Some None else if n = 1 then Some (Some Zellij) else if n = 2 then Some (Some Herdr) else None)"

definition session_agent_summaries :: "backend_answers \<Rightarrow> (string \<times> 64 word \<times> bool) list \<Rightarrow> (string \<rightharpoonup> agent_summary)" where
  "session_agent_summaries a sessions =
     (let live = map fst (filter (\<lambda>(_, _, resurrectable). \<not> resurrectable) sessions)
      in if live = [] then Map.empty
         else (case ba_agents_task a of
                 InTime (Returned _) \<Rightarrow>
                   foldl (\<lambda>m n. case ba_list_agents a n of
                                   Some agents \<Rightarrow> m(n \<mapsto> summarise (sort_agents agents)) | None \<Rightarrow> m)
                     Map.empty live
               | _ \<Rightarrow> Map.empty))"

definition backend_agent_map :: "backend_answers \<Rightarrow> (string \<rightharpoonup> agent_summary)" where
  "backend_agent_map a =
     (case ba_sessions a of
        InTime (Returned ss) \<Rightarrow> if ba_supports_agents a then session_agent_summaries a ss else Map.empty
      | _ \<Rightarrow> Map.empty)"

text \<open>\<open>u32::try_from(len).unwrap_or(u32::MAX)\<close>\<close>

definition len_u32 :: "nat \<Rightarrow> 32 word" where
  "len_u32 n = of_nat (min n 4294967295)"

definition herdr_space_count :: "backend_kind \<Rightarrow> backend_answers \<Rightarrow> 32 word" where
  "herdr_space_count k a =
     (if k = Herdr
      then (case ba_spaces a of InTime (Returned ss) \<Rightarrow> len_u32 (length ss) | _ \<Rightarrow> 0)
      else 0)"

text \<open>The summary of a name goes to its first row.\<close>

fun session_rows :: "session_clients \<Rightarrow> backend_kind \<Rightarrow> 32 word \<Rightarrow> (string \<rightharpoonup> agent_summary) \<Rightarrow>
    (string \<times> 64 word \<times> bool) list \<Rightarrow> session_info list" where
  "session_rows clients k spaces agents [] = []"
| "session_rows clients k spaces agents ((name, age, res) # ss) =
     \<lparr>si_name = name, si_age_secs = age, si_resurrectable = res,
      si_connected_clients = client_count clients (make_id k name), si_backend = proto_backend k,
      si_id = make_id k name, si_space_count = spaces, si_agents = agents name\<rparr>
     # session_rows clients k spaces (agents(name := None)) ss"

definition backend_rows :: "session_clients \<Rightarrow> backend_kind \<times> backend_answers \<Rightarrow> session_info list" where
  "backend_rows clients ka =
     (case ba_sessions (snd ka) of
        InTime (Returned ss) \<Rightarrow>
          session_rows clients (fst ka) (herdr_space_count (fst ka) (snd ka)) (backend_agent_map (snd ka)) ss
      | _ \<Rightarrow> [])"

definition list_sessions_impl :: "session_clients \<Rightarrow> backend_answers backend_set \<Rightarrow> session_info list" where
  "list_sessions_impl clients bs = concat (map (backend_rows clients) bs)"

subsection \<open>Renaming, killing, creating\<close>

datatype session_op = OpRenameSession string | OpKillSession | OpCreateSession "string option"

text \<open>\<open>MustNotHappen\<close> is the panic of \<open>expect\<close> on an empty backend set.\<close>

datatype 'b session_outcome = Denied status | MustNotHappen | CallBackend 'b string session_op

definition rename_session_impl :: "(string \<Rightarrow> bool) \<Rightarrow> 'b backend_set \<Rightarrow> bool option \<Rightarrow> string \<Rightarrow> string \<Rightarrow>
    'b session_outcome" where
  "rename_session_impl zok bs ext sid name =
     (case reject_if_read_only ext of
        Inl e \<Rightarrow> Denied e
      | Inr _ \<Rightarrow>
          (case resolve_session zok bs sid of
             Inl e \<Rightarrow> Denied e
           | Inr (b, bare) \<Rightarrow>
               (case validate_session zok name of
                  Inl e \<Rightarrow> Denied e
                | Inr _ \<Rightarrow> CallBackend b bare (OpRenameSession name))))"

definition kill_session_impl :: "(string \<Rightarrow> bool) \<Rightarrow> 'b backend_set \<Rightarrow> bool option \<Rightarrow> string \<Rightarrow> 'b session_outcome" where
  "kill_session_impl zok bs ext sid =
     (case reject_if_read_only ext of
        Inl e \<Rightarrow> Denied e
      | Inr _ \<Rightarrow>
          if is_collapsed_backend_session sid then Denied InvalidArgument
          else (case resolve_session zok bs sid of
                  Inl e \<Rightarrow> Denied e
                | Inr (b, bare) \<Rightarrow> CallBackend b bare OpKillSession))"

text \<open>The backend to create on: \<open>None\<close> is the panic, \<open>Some (Inl e)\<close> a refusal.\<close>

definition create_target :: "'b backend_set \<Rightarrow> nat \<Rightarrow> (status + 'b) option" where
  "create_target bs tag =
     (let pick = (\<lambda>k. Some (case backend_get bs k of Some b \<Rightarrow> Inr b | None \<Rightarrow> Inl NotFound))
      in (case kind_from_proto tag of
            None \<Rightarrow> Some (Inl InvalidArgument)
          | Some (Some k) \<Rightarrow> pick k
          | Some None \<Rightarrow>
              (case backend_kinds bs of
                 [] \<Rightarrow> None
               | [k] \<Rightarrow> pick k
               | _ \<Rightarrow> Some (Inl InvalidArgument))))"

definition create_session_impl :: "(string \<Rightarrow> bool) \<Rightarrow> 'b backend_set \<Rightarrow> bool option \<Rightarrow> nat \<Rightarrow> string \<Rightarrow> string \<Rightarrow>
    'b session_outcome" where
  "create_session_impl zok bs ext tag name layout =
     (case reject_if_read_only ext of
        Inl e \<Rightarrow> Denied e
      | Inr _ \<Rightarrow>
          (case create_target bs tag of
             None \<Rightarrow> MustNotHappen
           | Some (Inl e) \<Rightarrow> Denied e
           | Some (Inr b) \<Rightarrow>
               (case validate_session zok name of
                  Inl e \<Rightarrow> Denied e
                | Inr _ \<Rightarrow>
                    if layout = [] then CallBackend b name (OpCreateSession None)
                    else (case validate_layout_name layout of
                            Inl e \<Rightarrow> Denied e
                          | Inr _ \<Rightarrow> CallBackend b name (OpCreateSession (Some layout))))))"

text \<open>The read-only flag an attach gets: closed when the extension is missing.\<close>

definition attach_read_only :: "bool option \<Rightarrow> bool" where
  "attach_read_only ext = (case ext of Some ro \<Rightarrow> ro | None \<Rightarrow> True)"

subsection \<open>Properties\<close>

lemma session_rows_ids: "map si_id (session_rows clients k spaces agents ss) = map (make_id k \<circ> fst) ss"
  by (induction clients k spaces agents ss rule: session_rows.induct) (simp_all del: fun_upd_apply)

lemma session_rows_row:
  "r \<in> set (session_rows clients k spaces agents ss) \<Longrightarrow>
     si_id r = make_id k (si_name r) \<and> (si_name r, si_age_secs r, si_resurrectable r) \<in> set ss"
  by (induction clients k spaces agents ss rule: session_rows.induct) (auto simp del: fun_upd_apply)

lemma backend_get_distinct: "distinct (map fst bs) \<Longrightarrow> (k, b) \<in> set bs \<Longrightarrow> backend_get bs k = Some b"
proof (induction bs)
  case (Cons x bs)
  obtain k' b' where x: "x = (k', b')" by (cases x)
  show ?case
  proof (cases "k' = k")
    case True
    then have "(k, b) \<notin> set bs" using Cons.prems(1) x by (auto intro: rev_image_eqI)
    then show ?thesis using True Cons.prems(2) x by (simp add: backend_get_def)
  next
    case False
    then show ?thesis using Cons x by (auto simp: backend_get_def)
  qed
qed simp

lemma backend_rows_row:
  assumes "r \<in> set (backend_rows clients (k, a))"
  shows "si_id r = make_id k (si_name r)"
  using assms session_rows_row by (fastforce simp: backend_rows_def split: timed.splits task.splits)

text \<open>
  (what is listed can be addressed). Every row of ListSessions whose name passes the guard has
  an id that resolves to the backend it came from and its own bare name, on the same set of
  backends with one backend for each kind.
\<close>

theorem listed_sessions_resolve:
  assumes "distinct (map fst bs)" and "r \<in> set (list_sessions_impl clients bs)"
    and "validate_session_name zok (si_name r)"
  shows "\<exists>k b. (k, b) \<in> set bs \<and> r \<in> set (backend_rows clients (k, b)) \<and>
    resolve_session_kind zok bs (si_id r) = Inr (k, b, si_name r)"
proof -
  obtain k b where kb: "(k, b) \<in> set bs" "r \<in> set (backend_rows clients (k, b))"
    using assms(2) by (auto simp: list_sessions_impl_def)
  have "backend_get bs k = Some b"
    by (rule backend_get_distinct[OF assms(1) kb(1)])
  then have "resolve_session_kind zok bs (make_id k (si_name r)) = Inr (k, b, si_name r)"
    using assms(3) by (auto simp: resolve_session_kind_Inr resolve_owner_Inr)
  then show ?thesis using kb backend_rows_row[OF kb(2)] by auto
qed

text \<open>
  (a backend that fails hides only itself). The listing is the concatenation, backend by
  backend, of the sessions each answered in time, in its order; a backend that errs, panics or
  times out contributes none and takes none away.
\<close>

theorem failing_backend_hides_itself:
  "map si_id (list_sessions_impl clients bs) =
     concat (map (\<lambda>(k, a). case ba_sessions a of InTime (Returned ss) \<Rightarrow> map (make_id k \<circ> fst) ss | _ \<Rightarrow> []) bs)"
  by (induction bs)
    (auto simp: list_sessions_impl_def backend_rows_def session_rows_ids split: timed.split task.split)

lemma session_call_simps:
  "rename_session_impl zok bs ext sid name = CallBackend b s op \<longleftrightarrow>
     ext = Some False \<and> resolve_session zok bs sid = Inr (b, s) \<and> validate_session_name zok name \<and>
     op = OpRenameSession name"
  "kill_session_impl zok bs ext sid = CallBackend b s op \<longleftrightarrow>
     ext = Some False \<and> \<not> is_collapsed_backend_session sid \<and> resolve_session zok bs sid = Inr (b, s) \<and>
     op = OpKillSession"
  by (cases ext; auto simp: rename_session_impl_def kill_session_impl_def validate_session_def
      split: sum.splits if_splits)+

text \<open>
  (who may change sessions, and which). A rename, kill or creation reaches a backend only for a
  token known to be writable; the backend is one of the server's; the session's name, and a new
  one, is a non-empty string over the allowed characters; and a kill never names a collapsed session.
\<close>

theorem session_mutations_safe:
  assumes "out \<in> {rename_session_impl zok bs ext sid new, kill_session_impl zok bs ext sid,
                    create_session_impl zok bs ext tag new layout}"
    and "out = CallBackend b s op"
  shows "ext = Some False \<and> b \<in> snd ` set bs \<and> s \<noteq> [] \<and> list_all session_char s \<and>
    (\<forall>n. op = OpRenameSession n \<longrightarrow> n \<noteq> [] \<and> list_all session_char n) \<and>
    (op = OpKillSession \<longrightarrow> \<not> is_collapsed_backend_session sid)"
proof -
  have named: "b \<in> snd ` set bs \<and> s \<noteq> [] \<and> list_all session_char s" if "resolve_session zok bs sid = Inr (b, s)"
  proof -
    obtain k where "resolve_session_kind zok bs sid = Inr (k, b, s)"
      using \<open>resolve_session zok bs sid = Inr (b, s)\<close> by (auto simp: resolve_session_Inr)
    from resolve_kind_safe[OF this] show ?thesis by (metis image_eqI snd_conv)
  qed
  have target: "create_target bs tag = Some (Inr b) \<Longrightarrow> b \<in> snd ` set bs"
    by (auto simp: create_target_def Let_def dest!: backend_get_mem intro: rev_image_eqI
        split: option.splits list.splits)
  consider "rename_session_impl zok bs ext sid new = CallBackend b s op"
    | "kill_session_impl zok bs ext sid = CallBackend b s op"
    | "create_session_impl zok bs ext tag new layout = CallBackend b s op"
    using assms by blast
  then show ?thesis
  proof cases
    case 1
    then show ?thesis using named by (auto simp: session_call_simps validate_session_name_def)
  next
    case 2
    then show ?thesis using named by (auto simp: session_call_simps)
  next
    case 3
    then show ?thesis using target
      by (cases ext)
        (auto simp: create_session_impl_def validate_session_def validate_session_name_def
          split: sum.splits option.splits if_splits)
  qed
qed

definition demo_answers :: backend_answers where
  "demo_answers = \<lparr>ba_sessions = InTime (Returned [(''dev'', 5, False)]), ba_supports_agents = False,
     ba_list_agents = (\<lambda>_. None), ba_agents_task = InTime (Returned ()), ba_spaces = InTime (Returned [])\<rparr>"

lemma dev_name: "validate_session_name (\<lambda>_. True) ''dev''"
  by (simp add: validate_session_name_def session_char_def byte_classes)

theorem listed_sessions_resolve_witness:
  "\<exists>k b. (k, b) \<in> set [(Zellij, demo_answers)] \<and>
     resolve_session_kind (\<lambda>_. True) [(Zellij, demo_answers)] (make_id Zellij ''dev'') = Inr (k, b, ''dev'')"
proof -
  let ?r = "hd (list_sessions_impl [] [(Zellij, demo_answers)])"
  have r: "?r \<in> set (list_sessions_impl [] [(Zellij, demo_answers)])" "si_name ?r = ''dev''"
    "si_id ?r = make_id Zellij ''dev''"
    by (simp_all add: list_sessions_impl_def backend_rows_def demo_answers_def)
  have "validate_session_name (\<lambda>_. True) (si_name ?r)" using r dev_name by simp
  from listed_sessions_resolve[OF _ r(1) this] show ?thesis using r by auto
qed

theorem session_mutations_safe_witness:
  "create_session_impl (\<lambda>_. True) [(Zellij, ())] (Some False) 0 ''dev'' [] = CallBackend () ''dev'' (OpCreateSession None) \<and>
   list_all session_char ''dev''"
proof
  show c: "create_session_impl (\<lambda>_. True) [(Zellij, ())] (Some False) 0 ''dev'' [] =
      CallBackend () ''dev'' (OpCreateSession None)"
    using dev_name by (simp add: create_session_impl_def create_target_def kind_from_proto_def backend_kinds_def
        backend_get_def validate_session_def)
  show "list_all session_char ''dev''"
    using session_mutations_safe[OF _ c, where zok = "\<lambda>_. True" and bs = "[(Zellij, ())]" and ext = "Some False"
        and sid = "[]" and new = "''dev''" and tag = 0 and layout = "[]"] by blast
qed

end
