(* ===== verification/RelayAttach.thy ===== *)
theory RelayAttach
  imports RelayReader SessionOps AttachEviction
begin

text \<open>
  The attach of a terminal, \<open>attach_relay\<close> of \<open>muxrd/src/relay/mod.rs\<close> with \<open>relay/helpers.rs\<close>:
  the first frame, the geometry, the resume hint, the session's backend, the client count, the
  connection id, the first view and the two registries, and what the end of the stream undoes.
  The backend's answers, the random id and the token hash are parameters. A stream that another
  task serves meanwhile is not interleaved here.
\<close>

subsection \<open>The request\<close>

record attach_req =
  ar_session :: string
  ar_rows :: "32 word"
  ar_cols :: "32 word"
  ar_client_instance :: string
  ar_resume_space_id :: string
  ar_resume_tab_id :: "64 word"
  ar_resume_pane_id :: "32 word"

datatype first_frame =
    StreamClosed
  | FrameFailed
  | AttachFrame attach_req
  | OtherFrame
  | NoKind

definition MAX_RESUME_SPACE_ID_LEN :: nat where "MAX_RESUME_SPACE_ID_LEN = 128"

definition resume_target_of :: "attach_req \<Rightarrow> resume_target" where
  "resume_target_of a =
     (let space = ar_resume_space_id a
      in \<lparr>rt_space_id = (if space \<noteq> [] \<and> length space \<le> MAX_RESUME_SPACE_ID_LEN \<and>
                            list_all (\<lambda>b. is_ascii_alphanumeric b \<or> b \<in> {CHR ''_'', CHR ''-'', CHR ''.'', CHR '':''}) space
                          then Some space else None),
          rt_tab_id = (if ar_resume_tab_id a \<noteq> 0 then Some (ar_resume_tab_id a) else None),
          rt_pane_id = (if ar_resume_pane_id a \<noteq> 0 then Some (ar_resume_pane_id a) else None)\<rparr>)"

text \<open>The tier is only logged.\<close>

definition resume_target_for :: "attach_req \<Rightarrow> bool \<Rightarrow> resume_target" where
  "resume_target_for a ro = resume_target_of a"

subsection \<open>The connection id and the first view\<close>

text \<open>\<open>{:032x}\<close> of 128 random bits.\<close>

definition mint_connection_id :: "128 word \<Rightarrow> string" where
  "mint_connection_id r = hex_bytes (map (\<lambda>i. ucast (drop_bit (8 * i) r)) (rev [0..<16]))"

definition default_view :: relay_view_state where
  "default_view = \<lparr>vs_active_tab = None, vs_focused_pane = None, vs_current_space = None\<rparr>"

definition view_state_from_resumed :: "resumed_view \<Rightarrow> relay_view_state" where
  "view_state_from_resumed v =
     \<lparr>vs_active_tab = Some (rv_tab_id v), vs_focused_pane = Some (rv_pane v), vs_current_space = Some (rv_space_id v)\<rparr>"

definition init_relay_view_state :: "layout_snapshot \<Rightarrow> relay_view_state" where
  "init_relay_view_state snapshot =
     (let active = find ts_active (ls_tabs snapshot)
      in \<lparr>vs_active_tab = map_option ts_tab_id active,
          vs_focused_pane = Option.bind active
            (\<lambda>t. map_option (\<lambda>p. \<lparr>pane_id = ps_id p, is_plugin = ps_plugin p\<rparr>) (find ps_focused (ts_panes t))),
          vs_current_space = None\<rparr>)"

subsection \<open>The attach\<close>

record 'h daemon =
  dm_clients :: session_clients
  dm_views :: view_registry
  dm_control :: control_registry
  dm_attach :: "'h attach_registry"
  dm_arrivals :: "64 word"

text \<open>The backend's answer to the open: a panic, a failure, a handle.\<close>

datatype open_result = OpenPanicked | OpenFailed | Opened string "resumed_view option"

text \<open>
  What the attach meets: the backend's open, its layout read (\<open>None\<close>: failed or panicked) and the
  random bits.
\<close>

record 'b attach_env =
  ae_open :: "'b \<Rightarrow> string \<Rightarrow> 16 word \<Rightarrow> 16 word \<Rightarrow> bool \<Rightarrow> resume_target \<Rightarrow> open_result"
  ae_layout :: "'b \<Rightarrow> string \<Rightarrow> layout_snapshot option"
  ae_random :: "128 word"

text \<open>The relay that runs from then on: what its inbound task is started with.\<close>

record 'h attached =
  at_cid :: string
  at_grid :: "16 word \<times> 16 word"
  at_guard :: string
  at_lease :: "'h lease"
  at_first :: server_frame

definition first_view :: "'b attach_env \<Rightarrow> 'b \<Rightarrow> string \<Rightarrow> resumed_view option \<Rightarrow> relay_view_state" where
  "first_view env b name resumed =
     (case resumed of
        Some v \<Rightarrow> view_state_from_resumed v
      | None \<Rightarrow> (case ae_layout env b name of Some l \<Rightarrow> init_relay_view_state l | None \<Rightarrow> default_view))"

definition set_up_relay :: "(string \<Rightarrow> 'h) \<Rightarrow> 'b attach_env \<Rightarrow> attach_req \<Rightarrow> bool \<Rightarrow> string option \<Rightarrow> 64 word \<Rightarrow>
    16 word \<times> 16 word \<Rightarrow> string \<Rightarrow> relay_view_state \<Rightarrow> 'h daemon \<Rightarrow> 'h attached \<times> 'h daemon" where
  "set_up_relay ident env a ro token arrival grid key first d =
     (let (clients, guard) = attach_client (dm_clients d) key;
          cid = mint_connection_id (ae_random env);
          views = (dm_views d)(cid \<mapsto> \<lparr>ve_session = ar_session a, ve_state = first\<rparr>);
          control = AList.update cid \<lparr>session = ar_session a, ce_read_only = ro, receiver_open = True, queued = []\<rparr> (dm_control d);
          (attach, lease, evicted) = register (dm_attach d) (new_attach_key ident token (ar_client_instance a)) cid arrival
      in (\<lparr>at_cid = cid, at_grid = grid, at_guard = guard, at_lease = lease,
           at_first = ControlFrame ''connection_id'' cid\<rparr>,
          d\<lparr>dm_clients := clients, dm_views := views, dm_control := control, dm_attach := attach\<rparr>))"

definition attach_relay :: "(string \<Rightarrow> bool) \<Rightarrow> (string \<Rightarrow> 'h) \<Rightarrow> 'b backend_set \<Rightarrow> bool \<Rightarrow> string option \<Rightarrow> 'b attach_env \<Rightarrow>
    first_frame \<Rightarrow> 'h daemon \<Rightarrow> (status + 'h attached) \<times> 'h daemon" where
  "attach_relay zok ident bs ro token env first d0 =
     (let (arrivals, arrival) = next_attach_arrival (dm_arrivals d0);
          d = d0\<lparr>dm_arrivals := arrivals\<rparr>
      in case first of
           StreamClosed \<Rightarrow> (Inl InvalidArgument, d)
         | FrameFailed \<Rightarrow> (Inl Internal, d)
         | OtherFrame \<Rightarrow> (Inl InvalidArgument, d)
         | NoKind \<Rightarrow> (Inl InvalidArgument, d)
         | AttachFrame a \<Rightarrow>
             (let rows = clamp_dim (ar_rows a) 24 MIN_TERMINAL_ROWS;
                  cols = clamp_dim (ar_cols a) 80 MIN_TERMINAL_COLS
              in case resolve_session_kind zok bs (ar_session a) of
                   Inl e \<Rightarrow> (Inl e, d)
                 | Inr (kind, b, bare) \<Rightarrow>
                     (case ae_open env b bare rows cols ro (resume_target_for a ro) of
                        OpenPanicked \<Rightarrow> (Inl Internal, d)
                      | OpenFailed \<Rightarrow> (Inl NotFound, d)
                      | Opened name resumed \<Rightarrow>
                          (let (r, d') = set_up_relay ident env a ro token arrival (rows, cols) (make_id kind bare)
                                           (first_view env b name resumed) d
                           in (Inr r, d')))))"

text \<open>The inbound task of the relay, and what it drops when its loop has ended.\<close>

definition relay_cfg :: "'h attached \<Rightarrow> bool \<Rightarrow> string option \<Rightarrow> bool \<Rightarrow> inbound_cfg" where
  "relay_cfg r ro token sync =
     \<lparr>ic_connection_id = at_cid r, ic_read_only = ro, ic_token = token, ic_sync_layout = sync\<rparr>"

definition start_relay :: "'h attached \<Rightarrow> 'h daemon \<Rightarrow> inbound" where
  "start_relay r d = start_inbound (at_grid r) (dm_views d) (dm_control d)"

definition end_relay :: "'h attached \<Rightarrow> inbound \<Rightarrow> 'h daemon \<Rightarrow> 'h daemon" where
  "end_relay r s d =
     d\<lparr>dm_views := ib_views s, dm_control := ib_control s,
       dm_attach := drop_lease (dm_attach d) (at_lease r),
       dm_clients := drop_guard (dm_clients d) (at_guard r)\<rparr>"

subsection \<open>Connection ids\<close>

lemma byte_of_bits: "bit (r :: 128 word) n \<longleftrightarrow> n < 128 \<and> bit (ucast (drop_bit (8 * (n div 8)) r) :: 8 word) (n mod 8)"
proof -
  have "8 * (n div 8) + n mod 8 = n" by simp
  moreover have "bit r n \<Longrightarrow> n < 128" using bit_imp_le_length[of r n] by simp
  ultimately show ?thesis by (auto simp: bit_ucast_iff bit_drop_bit_eq)
qed

lemma hex_byte_inj: "hex_byte a = hex_byte b \<Longrightarrow> a = b"
proof -
  assume h: "hex_byte a = hex_byte b"
  have "unat a < 256" "unat b < 256" using unsigned_less[of a] unsigned_less[of b] by simp_all
  then have "unat a div 16 = unat b div 16" "unat a mod 16 = unat b mod 16"
    using h by (auto simp: hex_byte_def intro!: digit_char_inj)
  then have "unat a = unat b" by (metis div_mult_mod_eq)
  then show ?thesis by (rule word_unat_eq_iff[THEN iffD2])
qed

lemma hex_bytes_inj: "hex_bytes as = hex_bytes bs \<Longrightarrow> as = bs"
proof (induction as arbitrary: bs)
  case Nil
  then have "length (hex_bytes bs) = 0" by (metis length_hex_bytes list.size(3) mult_0_right)
  then show ?case by simp
next
  case (Cons a as)
  then obtain b bs' where bs: "bs = b # bs'"
    by (cases bs) (auto simp: hex_bytes_def hex_byte_def)
  then have "hex_byte a = hex_byte b" "hex_bytes as = hex_bytes bs'"
    using Cons.prems by (simp_all add: hex_bytes_def hex_byte_def)
  then show ?case using Cons.IH hex_byte_inj bs by blast
qed

lemma mint_inj: "mint_connection_id r = mint_connection_id r' \<Longrightarrow> r = r'"
proof -
  assume "mint_connection_id r = mint_connection_id r'"
  then have "map (\<lambda>i. ucast (drop_bit (8 * i) r) :: 8 word) (rev [0..<16]) =
      map (\<lambda>i. ucast (drop_bit (8 * i) r')) (rev [0..<16])"
    unfolding mint_connection_id_def by (rule hex_bytes_inj)
  then have b: "i < 16 \<Longrightarrow> (ucast (drop_bit (8 * i) r) :: 8 word) = ucast (drop_bit (8 * i) r')" for i
    by simp
  show "r = r'"
  proof (rule bit_eqI)
    fix n
    show "bit r n = bit r' n"
    proof (cases "n < 128")
      case True
      then have "n div 8 < 16" by simp
      then show ?thesis using b[of "n div 8"] byte_of_bits[of r n] byte_of_bits[of r' n] by simp
    qed (simp add: byte_of_bits[of r n] byte_of_bits[of r' n])
  qed
qed

lemma mint_chars: "list_all is_lower_hex (mint_connection_id r)"
  by (simp add: mint_connection_id_def hex_bytes_lower)

lemma mint_length: "length (mint_connection_id r) = 32"
  by (simp add: mint_connection_id_def)

text \<open>
  (the type of a connection id). A minted id is 32 lowercase hexadecimal digits, so the slice of
  its first eight bytes that the log lines take cannot panic, and different random values give
  different ids.
\<close>

theorem connection_id_shape:
  "length (mint_connection_id r) = 32 \<and> list_all is_lower_hex (mint_connection_id r) \<and>
   short_conn (mint_connection_id r) = Some (take 8 (mint_connection_id r)) \<and> inj mint_connection_id"
proof -
  have "list_all (\<lambda>c. byte c < 128) (mint_connection_id r)"
    using mint_chars[of r] by (rule list.pred_mono_strong) (auto simp: is_lower_hex_def is_ascii_digit_def)
  then show ?thesis
    using mint_chars[of r] mint_length[of r] short_conn_cases(1) mint_inj by (auto intro: injI)
qed

subsection \<open>What an attach does\<close>

definition safe_target :: "resume_target \<Rightarrow> bool" where
  "safe_target t \<longleftrightarrow>
     (\<forall>sp. rt_space_id t = Some sp \<longrightarrow> sp \<noteq> [] \<and> length sp \<le> 128 \<and>
        list_all (\<lambda>b. is_ascii_alphanumeric b \<or> b \<in> {CHR ''_'', CHR ''-'', CHR ''.'', CHR '':''}) sp) \<and>
     rt_tab_id t \<noteq> Some 0 \<and> rt_pane_id t \<noteq> Some 0"

lemma resume_target_safe: "safe_target (resume_target_for a ro)"
  by (simp add: safe_target_def resume_target_for_def resume_target_of_def MAX_RESUME_SPACE_ID_LEN_def Let_def)

lemma attach_cases:
  assumes "attach_relay zok ident bs ro token env first d = (res, d')"
  obtains (refused) e where "res = Inl e" "d' = d\<lparr>dm_arrivals := dm_arrivals d + 1\<rparr>"
  | (opened) a kind b bare name resumed r where "res = Inr r" "first = AttachFrame a"
      "resolve_session_kind zok bs (ar_session a) = Inr (kind, b, bare)"
      "ae_open env b bare (fst (at_grid r)) (snd (at_grid r)) ro (resume_target_for a ro) = Opened name resumed"
      "at_grid r = (clamp_dim (ar_rows a) 24 MIN_TERMINAL_ROWS, clamp_dim (ar_cols a) 80 MIN_TERMINAL_COLS)"
      "set_up_relay ident env a ro token (dm_arrivals d + 1) (at_grid r) (make_id kind bare)
         (first_view env b name resumed) (d\<lparr>dm_arrivals := dm_arrivals d + 1\<rparr>) = (r, d')"
proof (cases res)
  case (Inl e)
  then show ?thesis using assms
    by (intro refused[of e])
      (auto simp: attach_relay_def next_attach_arrival_def Let_def
        split: first_frame.splits sum.splits open_result.splits prod.splits)
next
  case (Inr r)
  then obtain a where a: "first = AttachFrame a"
    using assms by (auto simp: attach_relay_def next_attach_arrival_def Let_def split: first_frame.splits)
  obtain kind b bare where k: "resolve_session_kind zok bs (ar_session a) = Inr (kind, b, bare)"
    using assms Inr a by (auto simp: attach_relay_def next_attach_arrival_def Let_def split: sum.splits)
  show ?thesis
    using assms Inr a k
    by (auto simp: attach_relay_def next_attach_arrival_def Let_def set_up_relay_def
        split: open_result.splits prod.splits intro!: opened[of r a kind b bare])
qed

lemma set_up_fields:
  assumes "set_up_relay ident env a ro token arrival grid key first d = (r, d')"
  shows "at_cid r = mint_connection_id (ae_random env)" "at_guard r = key" "at_grid r = grid"
    "dm_clients d' = fst (attach_client (dm_clients d) key)"
    "dm_views d' = (dm_views d)(at_cid r \<mapsto> \<lparr>ve_session = ar_session a, ve_state = first\<rparr>)"
    "dm_control d' = AList.update (at_cid r)
       \<lparr>session = ar_session a, ce_read_only = ro, receiver_open = True, queued = []\<rparr> (dm_control d)"
    "\<exists>ev. register (dm_attach d) (new_attach_key ident token (ar_client_instance a)) (at_cid r) arrival =
       (dm_attach d', at_lease r, ev)"
    "at_first r = ControlFrame ''connection_id'' (at_cid r)" "dm_arrivals d' = dm_arrivals d"
  using assms by (auto simp: set_up_relay_def attach_client_def Let_def split: prod.splits)

text \<open>
  (an attach is all or nothing). A refused attach changes nothing but the arrival counter: nothing
  is counted, no registry entry appears and no other relay is evicted. An attach that succeeds asked
  the session's own backend for a grid within the bounds and a well-formed resume hint, is counted
  under an id that resolves to that backend and name again, and is registered under its fresh id
  with the caller's tier.
\<close>

theorem attach_all_or_nothing:
  assumes "attach_relay zok ident bs ro token env first d = (res, d')"
  shows "case res of
      Inl e \<Rightarrow> d' = d\<lparr>dm_arrivals := dm_arrivals d'\<rparr>
    | Inr r \<Rightarrow> (\<exists>a kind b bare name resumed target.
        first = AttachFrame a \<and> resolve_session_kind zok bs (ar_session a) = Inr (kind, b, bare) \<and>
        ae_open env b bare (fst (at_grid r)) (snd (at_grid r)) ro target = Opened name resumed \<and>
        grid_ok (at_grid r) \<and> safe_target target \<and>
        resolve_session_kind zok [(kind, b)] (at_guard r) = Inr (kind, b, bare) \<and>
        counter (dm_clients d') (at_guard r) = counter (dm_clients d) (at_guard r) + 1 \<and>
        map_of (dm_control d') (at_cid r) =
          Some \<lparr>session = ar_session a, ce_read_only = ro, receiver_open = True, queued = []\<rparr> \<and>
        map_option ve_session (dm_views d' (at_cid r)) = Some (ar_session a))"
  using assms
proof (cases rule: attach_cases)
  case (refused e)
  then show ?thesis by simp
next
  case (opened a kind b bare name resumed r)
  note f = set_up_fields[OF opened(6)]
  have "grid_ok (at_grid r)"
    using floored_resize_ok[of "ar_rows a" "ar_cols a"] by (simp add: opened(5) floored_resize_def)
  moreover have "resolve_session_kind zok [(kind, b)] (make_id kind bare) = Inr (kind, b, bare)"
    using opened(3) by (auto simp: resolve_session_kind_def resolve_owner_def backend_get_def split: sum.splits prod.splits)
  moreover have "counter (dm_clients d') (at_guard r) = counter (dm_clients d) (at_guard r) + 1"
    by (simp add: f(2,4) attach_client_def counter_update)
  moreover have "map_of (dm_control d') (at_cid r) =
      Some \<lparr>session = ar_session a, ce_read_only = ro, receiver_open = True, queued = []\<rparr>"
    unfolding f(6) by (simp add: update_conv')
  moreover have "map_option ve_session (dm_views d' (at_cid r)) = Some (ar_session a)"
    unfolding f(5) by simp
  ultimately show ?thesis
    unfolding opened(1) sum.case f(2)
    using opened(2-4) resume_target_safe[of a ro]
    by (intro exI[of _ a] exI[of _ kind] exI[of _ b] exI[of _ bare] exI[of _ name] exI[of _ resumed]
        exI[of _ "resume_target_for a ro"]) (simp add: f(2))
qed

subsection \<open>The whole life of a relay\<close>

text \<open>What a layout says of where its panes are.\<close>

definition layout_tells :: "(pane_ref \<rightharpoonup> 64 word) \<Rightarrow> layout_snapshot \<Rightarrow> bool" where
  "layout_tells tab_of l \<longleftrightarrow>
     (\<forall>t \<in> set (ls_tabs l). \<forall>p \<in> set (ts_panes t).
        tab_of \<lparr>pane_id = ps_id p, is_plugin = ps_plugin p\<rparr> = Some (ts_tab_id t))"

definition truthful_attach :: "(pane_ref \<rightharpoonup> 64 word) \<Rightarrow> 'b attach_env \<Rightarrow> bool" where
  "truthful_attach tab_of env \<longleftrightarrow>
     (\<forall>b n l. ae_layout env b n = Some l \<longrightarrow> layout_tells tab_of l) \<and>
     (\<forall>b n rows cols ro t name v. ae_open env b n rows cols ro t = Opened name (Some v) \<longrightarrow>
        tab_of (rv_pane v) = Some (rv_tab_id v))"

lemma init_view_agrees: "layout_tells tab_of l \<Longrightarrow> agrees tab_of (init_relay_view_state l)"
  by (fastforce simp: agrees_def init_relay_view_state_def layout_tells_def Let_def dest!: find_Some_D
      split: Option.bind_splits)

lemma first_view_agrees:
  assumes "truthful_attach tab_of env" "ae_open env b n rows cols ro t = Opened name resumed"
  shows "agrees tab_of (first_view env b name resumed)"
proof (cases resumed)
  case None
  show ?thesis
  proof (cases "ae_layout env b name")
    case None
    then show ?thesis using \<open>resumed = None\<close> by (simp add: first_view_def default_view_def agrees_def)
  next
    case (Some l)
    then have "layout_tells tab_of l" using assms(1) by (auto simp: truthful_attach_def)
    then show ?thesis using \<open>resumed = None\<close> Some init_view_agrees by (simp add: first_view_def)
  qed
next
  case (Some v)
  then show ?thesis using assms
    by (fastforce simp: first_view_def truthful_attach_def agrees_def view_state_from_resumed_def)
qed

text \<open>
  (the tracked view is true from the attach on). A relay's first view comes from the resumed
  view or from the layout read at attach. When those and the live reads tell each pane's tab, then
  at every moment of the stream the tracked pane is in the tracked tab whenever both are known.
\<close>

theorem tracked_from_the_attach:
  assumes "attach_relay zok ident bs ro token env first d = (Inr r, d')"
    and "truthful_attach tab_of env" "\<forall>i \<in> set ins. truthful_input tab_of i"
    and "own_view (relay_cfg r ro token sync) (inbound_run enc (relay_cfg r ro token sync) ins (start_relay r d')) = Some v"
    and "vs_focused_pane v = Some p" "vs_active_tab v = Some t"
  shows "tab_of p = Some t"
  using assms(1)
proof (cases rule: attach_cases)
  case (opened a kind b bare name resumed r')
  then have r: "r' = r" by simp
  note f = set_up_fields[OF opened(6)]
  have "own_view (relay_cfg r ro token sync) (start_relay r d') = Some (first_view env b name resumed)"
    by (simp add: own_view_def relay_cfg_def start_relay_def start_inbound_def f(5)[unfolded r])
  then have "tracks tab_of (relay_cfg r ro token sync) (start_relay r d')"
    using first_view_agrees[OF assms(2) opened(4)] by (simp add: tracks_def)
  from inbound_run_tracks[OF this assms(3)] show ?thesis
    using assms(4-6) by (auto simp: tracks_def agrees_def)
qed simp

text \<open>What the bookkeeping of a command does to the registries.\<close>

lemma bookkeeping:
  "k \<noteq> ic_connection_id cfg \<Longrightarrow> ib_views (update_view cfg f s) k = ib_views s k"
  "k \<noteq> ic_connection_id cfg \<Longrightarrow> ib_views (leave cfg s) k = ib_views s k"
  "ib_views (did ops s) = ib_views s" "ib_views (answer x s) = ib_views s"
  "ib_views (handle_query_layout b c n s) = ib_views s"
  "ib_control (update_view cfg f s) = ib_control s" "ib_running (update_view cfg f s) = ib_running s"
  "ib_control (did ops s) = ib_control s" "ib_running (did ops s) = ib_running s"
  "ib_control (answer x s) = ib_control s" "ib_running (answer x s) = ib_running s"
  "ib_control (handle_query_layout b c n s) = ib_control s" "ib_running (handle_query_layout b c n s) = ib_running s"
  "ib_control (leave cfg s) = filter (\<lambda>(k, _). k \<noteq> ic_connection_id cfg) (ib_control s)"
  "ib_views (leave cfg s) (ic_connection_id cfg) = None" "\<not> ib_running (leave cfg s)"
  by (auto simp: update_view_def leave_def did_def answer_def handle_query_layout_def split: option.split)

lemma run_command_others:
  "k \<noteq> ic_connection_id cfg \<Longrightarrow> ib_views (run_command cfg cmd env s) k = ib_views s k"
  by (cases cmd; cases "ce_op env") (simp_all add: run_command_def bookkeeping Let_def split: prod.split sum.split)

lemma run_command_ends:
  "ib_running s \<Longrightarrow>
   (ib_running (run_command cfg cmd env s) \<and> ib_control (run_command cfg cmd env s) = ib_control s) \<or>
   (\<not> ib_running (run_command cfg cmd env s) \<and> ib_views (run_command cfg cmd env s) (ic_connection_id cfg) = None \<and>
    ib_control (run_command cfg cmd env s) = filter (\<lambda>(k, _). k \<noteq> ic_connection_id cfg) (ib_control s))"
  by (cases cmd; cases "ce_op env") (simp_all add: run_command_def bookkeeping Let_def split: prod.split sum.split)

text \<open>The relay runs with the registries of others as they are, or it has left and its entries are gone.\<close>

definition own_entries_only :: "inbound_cfg \<Rightarrow> view_registry \<Rightarrow> control_registry \<Rightarrow> inbound \<Rightarrow> bool" where
  "own_entries_only cfg vw reg s \<longleftrightarrow>
     (\<forall>k. k \<noteq> ic_connection_id cfg \<longrightarrow> ib_views s k = vw k) \<and>
     (if ib_running s then ib_control s = reg
      else ib_views s (ic_connection_id cfg) = None \<and>
        ib_control s = filter (\<lambda>(k, _). k \<noteq> ic_connection_id cfg) reg)"

lemma own_entries_leave:
  "own_entries_only cfg vw reg s \<Longrightarrow> ib_running s \<Longrightarrow> own_entries_only cfg vw reg (leave cfg s)"
  by (simp add: own_entries_only_def leave_def)

lemma own_entries_command:
  "own_entries_only cfg vw reg s \<Longrightarrow> ib_running s \<Longrightarrow> own_entries_only cfg vw reg (run_command cfg cmd env s)"
  using run_command_others[of _ cfg cmd env s] run_command_ends[of s cfg cmd env]
  by (auto simp: own_entries_only_def)

lemma own_entries_frame:
  "own_entries_only cfg vw reg s \<Longrightarrow> own_entries_only cfg vw reg (run_frame utf8 cfg fr sends s)"
  by (simp add: own_entries_only_def run_frame_def did_def Let_def split: client_frame.split prod.split)

lemma own_entries_step:
  assumes "own_entries_only cfg vw reg s"
  shows "own_entries_only cfg vw reg (inbound_step utf8 cfg i s)"
  using assms own_entries_leave own_entries_command own_entries_frame
  by (cases i) (auto simp: inbound_step_def gate_control_def)

lemma own_entries_run:
  "own_entries_only cfg vw reg s \<Longrightarrow> own_entries_only cfg vw reg (inbound_run utf8 cfg is s)"
  unfolding inbound_run_def by (induction "is" arbitrary: s) (simp_all add: own_entries_step)

lemma filter_update_fresh:
  "k \<notin> fst ` set xs \<Longrightarrow> filter (\<lambda>(j, _). j \<noteq> k) (AList.update k v xs) = xs"
  by (induction xs) (auto simp: filter_id_conv)

lemma lease_gone:
  assumes "register reg key conn arrival = (reg', l, ev)" "\<And>k. holder reg k \<noteq> Some conn"
  shows "holder (drop_lease reg' l) k \<noteq> Some conn"
  using assms(1) assms(2)[of k]
  by (auto simp: register_def drop_lease_def deregister_def holder_def fire_def Let_def split: option.splits if_splits)

text \<open>
  C16 (a relay leaves nothing behind). However the stream of an attached terminal ends, whatever
  happened in it, both registries are what they were before the attach, every session's client
  count is what it was, and the connection holds no client instance.
\<close>

theorem relay_leaves_nothing:
  assumes "attach_relay zok ident bs ro token env first d = (Inr r, d1)"
    and fresh: "dm_views d (at_cid r) = None" "at_cid r \<notin> fst ` set (dm_control d)"
      "\<And>k. holder (dm_attach d) k \<noteq> Some (at_cid r)"
    and s: "s = inbound_run enc (relay_cfg r ro token sync) ins (start_relay r d1)" "\<not> ib_running s"
  shows "dm_views (end_relay r s d1) = dm_views d \<and> dm_control (end_relay r s d1) = dm_control d \<and>
    counter (dm_clients (end_relay r s d1)) x = counter (dm_clients d) x \<and>
    holder (dm_attach (end_relay r s d1)) k \<noteq> Some (at_cid r)"
  using assms(1)
proof (cases rule: attach_cases)
  case (opened a kind b bare name resumed r')
  then have r: "r' = r" by simp
  note f = set_up_fields[OF opened(6), unfolded r]
  have "own_entries_only (relay_cfg r ro token sync) (dm_views d1) (dm_control d1) (start_relay r d1)"
    by (simp add: own_entries_only_def start_relay_def start_inbound_def)
  from own_entries_run[OF this, of enc ins] s
  have own: "\<And>k. k \<noteq> at_cid r \<Longrightarrow> ib_views s k = dm_views d1 k" "ib_views s (at_cid r) = None"
    "ib_control s = filter (\<lambda>(k, _). k \<noteq> at_cid r) (dm_control d1)"
    by (auto simp: own_entries_only_def relay_cfg_def)
  have "ib_views s = dm_views d"
  proof
    fix k show "ib_views s k = dm_views d k" using own(1)[of k] own(2) fresh(1) by (cases "k = at_cid r") (auto simp: f(5))
  qed
  moreover have "ib_control s = dm_control d"
    unfolding own(3) f(6) using fresh(2) by (simp add: filter_update_fresh)
  moreover have "counter (drop_guard (dm_clients d1) (at_guard r)) x = counter (dm_clients d) x"
    by (simp add: f(2,4) attach_client_def drop_guard_def counter_update)
  moreover have "holder (drop_lease (dm_attach d1) (at_lease r)) k \<noteq> Some (at_cid r)"
    using f(7) lease_gone fresh(3) by fastforce
  ultimately show ?thesis by (simp add: end_relay_def)
qed simp

text \<open>A concrete attach: a zellij daemon whose one tab holds the focused pane.\<close>

definition demo_attach_req :: attach_req where
  "demo_attach_req = \<lparr>ar_session = ''dev'', ar_rows = 1, ar_cols = 0, ar_client_instance = ''phone'',
     ar_resume_space_id = ''w/..'', ar_resume_tab_id = 0, ar_resume_pane_id = 0\<rparr>"

definition demo_attach_layout :: layout_snapshot where
  "demo_attach_layout = \<lparr>ls_tabs = [demo_tab_snapshot 3 True [(demo_pane_snapshot 7 False)\<lparr>ps_focused := True\<rparr>]]\<rparr>"

definition demo_attach_env :: "unit attach_env" where
  "demo_attach_env = \<lparr>ae_open = (\<lambda>b n r c ro t. Opened n None), ae_layout = (\<lambda>b n. Some demo_attach_layout),
     ae_random = 5\<rparr>"

definition demo_daemon :: "string daemon" where
  "demo_daemon = \<lparr>dm_clients = [], dm_views = Map.empty, dm_control = [], dm_attach = empty_attach_registry, dm_arrivals = 0\<rparr>"

definition demo_attached :: "(status + string attached) \<times> string daemon" where
  "demo_attached = attach_relay (\<lambda>_. True) id [(Zellij, ())] False (Some ''tok'') demo_attach_env
     (AttachFrame demo_attach_req) demo_daemon"

definition demo_relay :: "string attached" where
  "demo_relay = projr (fst demo_attached)"

lemma demo_resolved: "resolve_session_kind (\<lambda>_. True) [(Zellij, ())] ''dev'' = Inr (Zellij, (), ''dev'')"
  by (simp add: resolve_session_kind_def resolve_owner_def validate_session_def dev_name)

lemma demo_attach: "attach_relay (\<lambda>_. True) id [(Zellij, ())] False (Some ''tok'') demo_attach_env
     (AttachFrame demo_attach_req) demo_daemon = (Inr demo_relay, snd demo_attached)"
  by (auto simp: demo_relay_def demo_attached_def attach_relay_def next_attach_arrival_def demo_attach_req_def
      demo_resolved demo_attach_env_def Let_def split: prod.split)

theorem attach_all_or_nothing_witness:
  "map_of (dm_control (snd demo_attached)) (at_cid demo_relay)
     = Some \<lparr>session = ''dev'', ce_read_only = False, receiver_open = True, queued = []\<rparr> \<and>
   grid_ok (at_grid demo_relay)"
  using attach_all_or_nothing[OF demo_attach] by (auto simp: demo_attach_req_def)

theorem tracked_from_the_attach_witness:
  "[\<lparr>pane_id = 7, is_plugin = False\<rparr> \<mapsto> (3 :: 64 word)] \<lparr>pane_id = 7, is_plugin = False\<rparr> = Some 3"
proof (rule tracked_from_the_attach[OF demo_attach, where tab_of = "[\<lparr>pane_id = 7, is_plugin = False\<rparr> \<mapsto> 3]" and ins = "[]" and enc = "\<lambda>_. True" and sync = False and
      v = "init_relay_view_state demo_attach_layout"])
  show "truthful_attach [\<lparr>pane_id = 7, is_plugin = False\<rparr> \<mapsto> 3] demo_attach_env"
    by (simp add: truthful_attach_def demo_attach_env_def layout_tells_def demo_attach_layout_def
        demo_tab_snapshot_def demo_pane_snapshot_def)
  have "snd demo_attached = snd (set_up_relay id demo_attach_env demo_attach_req False (Some ''tok'') 1 (at_grid demo_relay)
      (make_id Zellij ''dev'') (init_relay_view_state demo_attach_layout) (demo_daemon\<lparr>dm_arrivals := 1\<rparr>))" (is "_ = snd ?u")
    by (auto simp: demo_attached_def demo_relay_def attach_relay_def next_attach_arrival_def demo_attach_req_def
        demo_resolved demo_attach_env_def first_view_def demo_daemon_def set_up_relay_def Let_def split: prod.split)
  moreover have "fst ?u = demo_relay"
    by (auto simp: demo_attached_def demo_relay_def attach_relay_def next_attach_arrival_def demo_attach_req_def
        demo_resolved demo_attach_env_def first_view_def demo_daemon_def set_up_relay_def Let_def split: prod.split)
  ultimately have "?u = (demo_relay, snd demo_attached)" by (metis prod.collapse)
  note f = set_up_fields[OF this]
  show "own_view (relay_cfg demo_relay False (Some ''tok'') False) (inbound_run (\<lambda>_. True)
      (relay_cfg demo_relay False (Some ''tok'') False) [] (start_relay demo_relay (snd demo_attached)))
      = Some (init_relay_view_state demo_attach_layout)"
    by (simp add: inbound_run_def own_view_def relay_cfg_def start_relay_def start_inbound_def f(5))
  show "vs_focused_pane (init_relay_view_state demo_attach_layout) = Some \<lparr>pane_id = 7, is_plugin = False\<rparr>"
    "vs_active_tab (init_relay_view_state demo_attach_layout) = Some 3"
    by (simp_all add: init_relay_view_state_def demo_attach_layout_def demo_tab_snapshot_def demo_pane_snapshot_def)
qed simp

theorem relay_leaves_nothing_witness:
  "dm_views (end_relay demo_relay (inbound_run (\<lambda>_. True) (relay_cfg demo_relay False (Some ''tok'') False) [StreamEnd]
      (start_relay demo_relay (snd demo_attached))) (snd demo_attached)) = Map.empty"
proof -
  let ?s = "inbound_run (\<lambda>_. True) (relay_cfg demo_relay False (Some ''tok'') False) [StreamEnd]
      (start_relay demo_relay (snd demo_attached))"
  have "dm_views demo_daemon = Map.empty" by (simp add: demo_daemon_def)
  moreover have "dm_views (end_relay demo_relay ?s (snd demo_attached)) = dm_views demo_daemon"
    by (rule relay_leaves_nothing[OF demo_attach, where k = demo_key and x = "[]" and ins = "[StreamEnd]" and sync = False and enc = "\<lambda>_. True", THEN conjunct1])
      (simp_all add: demo_daemon_def holder_def empty_attach_registry_def inbound_run_def inbound_step_def
        start_relay_def start_inbound_def leave_def)
  ultimately show ?thesis by simp
qed

end
