(* ===== verification/HerdrAttach.thy ===== *)
theory HerdrAttach
  imports HerdrBackend RelayInbound Wire
begin

text \<open>
  herdr's data plane, \<open>muxrd/src/multiplexer/herdr/relay.rs\<close>: which pane an attach lands on (the
  resume ladder), the handshake, and the sender that re-points its stream by releasing one
  connection and opening the next. Every message written is kept per connection; whether a
  connection, a write or the server's \<open>Welcome\<close> succeeds is input. The hand-over of a new
  connection to the reader thread is the theory \<open>HerdrSwap\<close>.
\<close>

datatype attach_error =
    ControlFailed herdr_error
  | NoPanes
  | UnknownTabId
  | UnknownPaneId
  | WireFailed
  | HandshakeRefused
  | ReaderGone

type_synonym ('a, 'd) att = "(attach_error + 'a) \<times> 'd \<times> client"

definition via_control :: "('a, 'd) ctl \<Rightarrow> ('a \<Rightarrow> 'd \<times> client \<Rightarrow> ('b, 'd) att) \<Rightarrow> ('b, 'd) att" where
  "via_control r f = (case r of (Inl e, s) \<Rightarrow> (Inl (ControlFailed e), s) | (Inr a, s) \<Rightarrow> f a s)"

lemma via_control_simps [simp]:
  "via_control (Inl e, s) f = (Inl (ControlFailed e), s)" "via_control (Inr a, s) f = f a s"
  by (simp_all add: via_control_def)

lemma via_control_InrE:
  assumes "via_control r f = (Inr b, s')"
  obtains a s where "r = (Inr a, s)" "f a s = (Inr b, s')"
proof -
  obtain x s where r: "r = (x, s)" by (metis surj_pair)
  then show ?thesis using assms that by (cases x) simp_all
qed

subsection \<open>Choosing a pane\<close>

text \<open>The scan of both resolvers: every pane is registered, the last focused one in scope wins.\<close>

record scan =
  sc_panes :: pane_inner
  sc_first :: "(32 word \<times> string) option"
  sc_focused :: "(32 word \<times> string) option"

definition scan_pane :: "(pane_info \<Rightarrow> bool) \<Rightarrow> pane_info \<Rightarrow> scan \<Rightarrow> scan" where
  "scan_pane scope p s =
     (let (reg, i) = assign_or_get (sc_panes s) (pi_id p) (pi_terminal_id p);
          hit = (i, pi_terminal_id p);
          s1 = s\<lparr>sc_panes := reg\<rparr>
      in if scope p
         then s1\<lparr>sc_first := or_else (sc_first s) (Some hit),
                 sc_focused := (if pi_focused p then Some hit else sc_focused s)\<rparr>
         else s1)"

definition scan_panes :: "(pane_info \<Rightarrow> bool) \<Rightarrow> pane_info list \<Rightarrow> pane_inner \<Rightarrow> pane_inner \<times> (32 word \<times> string) option" where
  "scan_panes scope panes reg =
     (let s = fold (scan_pane scope) panes \<lparr>sc_panes = reg, sc_first = None, sc_focused = None\<rparr>
      in (sc_panes s, or_else (sc_focused s) (sc_first s)))"

definition with_scan :: "(pane_info \<Rightarrow> bool) \<Rightarrow> pane_info list \<Rightarrow> 'd \<times> client \<Rightarrow> (32 word \<times> string, 'd) att" where
  "with_scan scope panes s =
     (let (reg, hit) = scan_panes scope panes (cl_panes (snd s));
          s' = (fst s, (snd s)\<lparr>cl_panes := reg\<rparr>)
      in case hit of Some h \<Rightarrow> (Inr h, s') | None \<Rightarrow> (Inl NoPanes, s'))"

definition resolve_focused_terminal :: "'d herdr \<Rightarrow> string \<Rightarrow> 'd \<times> client \<Rightarrow> (32 word \<times> string, 'd) att" where
  "resolve_focused_terminal h ws s = via_control (list_panes h ws s) (with_scan (\<lambda>_. True))"

definition pick_tab_pane :: "string \<Rightarrow> pane_info list \<Rightarrow> 'd \<times> client \<Rightarrow> (32 word \<times> string, 'd) att" where
  "pick_tab_pane tab = with_scan (\<lambda>p. pi_tab_id p = tab)"

definition resolve_tab_focused_pane :: "'d herdr \<Rightarrow> string \<Rightarrow> string \<Rightarrow> 'd \<times> client \<Rightarrow> (32 word \<times> string, 'd) att" where
  "resolve_tab_focused_pane h ws tab s = via_control (list_panes h ws s) (pick_tab_pane tab)"

record attach_target =
  tg_workspace_id :: string
  tg_tab_id :: "64 word"
  tg_pane_id :: "32 word"
  tg_terminal_id :: string

fun focused_or_first :: "pane_info list \<Rightarrow> pane_info option" where
  "focused_or_first [] = None"
| "focused_or_first (p # ps) = Some (fold (\<lambda>q best. if pi_focused q then q else best) ps p)"

definition chosen_pane :: "pane_info list \<Rightarrow> string option \<Rightarrow> string option \<Rightarrow> pane_info option" where
  "chosen_pane panes hint_pane hint_tab =
     (let corroborated = Option.bind hint_pane (\<lambda>hp. Option.bind hint_tab (\<lambda>ht.
            find (\<lambda>p. pi_id p = hp \<and> pi_tab_id p = ht) panes));
          by_tab = Option.bind hint_tab (\<lambda>ht. focused_or_first (filter (\<lambda>p. pi_tab_id p = ht) panes))
      in or_else corroborated (or_else by_tab (focused_or_first panes)))"

definition pick_resume_pane :: "pane_info list \<Rightarrow> string \<Rightarrow> string option \<Rightarrow> string option \<Rightarrow> 'd \<times> client \<Rightarrow>
    (attach_target, 'd) att" where
  "pick_resume_pane panes ws hint_pane hint_tab s =
     (let c = snd s;
          reg = fold (\<lambda>p r. fst (assign_or_get r (pi_id p) (pi_terminal_id p))) panes (cl_panes c)
      in case chosen_pane panes hint_pane hint_tab of
           None \<Rightarrow> (Inl NoPanes, fst s, c\<lparr>cl_panes := reg\<rparr>)
         | Some p \<Rightarrow>
             (let (tabs, tab) = tab_assign_or_get (cl_tabs c) (pi_tab_id p);
                  (reg', pane) = assign_or_get reg (pi_id p) (pi_terminal_id p)
              in (Inr \<lparr>tg_workspace_id = ws, tg_tab_id = tab, tg_pane_id = pane, tg_terminal_id = pi_terminal_id p\<rparr>,
                  fst s, c\<lparr>cl_panes := reg', cl_tabs := tabs\<rparr>)))"

definition hint_ids :: "client \<Rightarrow> resume_target \<Rightarrow> string option \<times> string option" where
  "hint_ids c r =
     (Option.bind (rt_pane_id r) (herdr_pane_id_of (cl_panes c)), Option.bind (rt_tab_id r) (herdr_tab_id (cl_tabs c)))"

definition resolve_attach_target_with :: "(string \<Rightarrow> 'd \<times> client \<Rightarrow> (pane_info list, 'd) ctl) \<Rightarrow> string \<Rightarrow> string option \<Rightarrow>
    string option \<Rightarrow> string option \<Rightarrow> 'd \<times> client \<Rightarrow> (attach_target, 'd) att" where
  "resolve_attach_target_with list_in default_ws hint_space hint_pane hint_tab s =
     (let resolve_in = (\<lambda>ws s. via_control (list_in ws s) (\<lambda>panes. pick_resume_pane panes ws hint_pane hint_tab))
      in case hint_space of
           Some space \<Rightarrow>
             if space \<noteq> default_ws
             then (case resolve_in space s of
                     (Inr target, s') \<Rightarrow> (Inr target, s')
                   | (Inl e, s') \<Rightarrow> resolve_in default_ws s')
             else resolve_in default_ws s
         | None \<Rightarrow> resolve_in default_ws s)"

definition resolve_attach_target :: "'d herdr \<Rightarrow> string \<Rightarrow> resume_target \<Rightarrow> 'd \<times> client \<Rightarrow> (attach_target, 'd) att" where
  "resolve_attach_target h default_ws r s =
     (let (hint_pane, hint_tab) = hint_ids (snd s) r
      in resolve_attach_target_with (list_panes h) default_ws (rt_space_id r) hint_pane hint_tab s)"

definition resumed_view_for :: "resume_target \<Rightarrow> attach_target \<Rightarrow> resumed_view option" where
  "resumed_view_for r t =
     (if resume_is_empty r then None
      else Some \<lparr>rv_space_id = tg_workspace_id t, rv_tab_id = tg_tab_id t,
                 rv_pane = \<lparr>pane_id = tg_pane_id t, is_plugin = False\<rparr>\<rparr>)"

subsection \<open>The handshake\<close>

text \<open>Versions outside the tested range are only logged.\<close>

definition discover_protocol :: "'d herdr \<Rightarrow> 'd \<times> client \<Rightarrow> (32 word, 'd) ctl" where
  "discover_protocol h s = and_then (ping h s) (\<lambda>i s'. (Inr (hs_protocol i), s'))"

datatype attach_mode = ControlMode | ObserveMode

definition for_read_only :: "bool \<Rightarrow> attach_mode" where
  "for_read_only ro = (if ro then ObserveMode else ControlMode)"

definition attach_message :: "attach_mode \<Rightarrow> string \<Rightarrow> client_message" where
  "attach_message m terminal =
     (case m of ControlMode \<Rightarrow> AttachTerminal terminal True | ObserveMode \<Rightarrow> ObserveTerminal terminal)"

definition assert_welcome :: "server_message \<Rightarrow> attach_error + unit" where
  "assert_welcome m =
     (case m of
        Welcome version encoding err \<Rightarrow> (case err of Some _ \<Rightarrow> Inl HandshakeRefused | None \<Rightarrow> Inr ())
      | _ \<Rightarrow> Inl HandshakeRefused)"

text \<open>
  How one dial goes: the connection and its timeouts, the write of the hello, what is read for the
  \<open>Welcome\<close>, the write of the attach message, the split of the stream.
\<close>

record dial =
  dl_connects :: bool
  dl_hello :: bool
  dl_welcome :: "framing_error + wire_frame"
  dl_attach :: bool
  dl_split :: bool

definition hello_message :: "32 word \<Rightarrow> 16 word \<Rightarrow> 16 word \<Rightarrow> client_message" where
  "hello_message protocol rows cols = TerminalHello protocol cols rows 0 0 False"

text \<open>The outcome and what was written, in order.\<close>

definition connect_and_attach :: "dial \<Rightarrow> 16 word \<Rightarrow> 16 word \<Rightarrow> string \<Rightarrow> 32 word \<Rightarrow> attach_mode \<Rightarrow>
    (attach_error + unit) \<times> client_message list" where
  "connect_and_attach dl rows cols terminal protocol mode =
     (let hello = hello_message protocol rows cols
      in if \<not> dl_connects dl \<or> \<not> dl_hello dl then (Inl WireFailed, [])
         else (case dl_welcome dl of
                 Inl _ \<Rightarrow> (Inl WireFailed, [hello])
               | Inr (UnknownFrame _ _) \<Rightarrow> (Inl HandshakeRefused, [hello])
               | Inr (FrameMessage m) \<Rightarrow>
                   (case assert_welcome m of
                      Inl e \<Rightarrow> (Inl e, [hello])
                    | Inr _ \<Rightarrow>
                        if dl_attach dl then (Inr (), [hello, attach_message mode terminal])
                        else (Inl WireFailed, [hello]))))"

definition dial_and_split :: "dial \<Rightarrow> 16 word \<Rightarrow> 16 word \<Rightarrow> string \<Rightarrow> 32 word \<Rightarrow> attach_mode \<Rightarrow>
    (attach_error + unit) \<times> client_message list" where
  "dial_and_split dl rows cols terminal protocol mode =
     (case connect_and_attach dl rows cols terminal protocol mode of
        (Inr _, ms) \<Rightarrow> (if dl_split dl then Inr () else Inl WireFailed, ms)
      | r \<Rightarrow> r)"

subsection \<open>The sender\<close>

text \<open>
  \<open>sn_conns\<close>: what was written on every connection this attach ever opened; \<open>sn_cur\<close>: the one the
  write half is of; \<open>sn_swaps\<close>: what was handed to the reader.
\<close>

record herdr_sender =
  sn_conns :: "client_message list list"
  sn_cur :: nat
  sn_swaps :: "nat option list"
  sn_workspace :: string
  sn_terminal :: string
  sn_rows :: "16 word"
  sn_cols :: "16 word"
  sn_wire :: "32 word"
  sn_mode :: attach_mode

definition write_current :: "bool \<Rightarrow> client_message \<Rightarrow> herdr_sender \<Rightarrow> herdr_sender" where
  "write_current sent m sn =
     (if sent then sn\<lparr>sn_conns := (sn_conns sn)[sn_cur sn := sn_conns sn ! sn_cur sn @ [m]]\<rparr> else sn)"

text \<open>How the steps of one operation end: each dial, the writes, whether the reader is there.\<close>

record op_env =
  oe_dials :: "dial list"
  oe_write :: bool
  oe_detach :: bool
  oe_reader :: bool

definition RECONNECT_ATTEMPTS :: nat where "RECONNECT_ATTEMPTS = 2"

fun reconnect :: "'d herdr \<Rightarrow> bool \<Rightarrow> string \<Rightarrow> dial list \<Rightarrow> attach_error \<Rightarrow> herdr_sender \<Rightarrow> 'd \<times> client \<Rightarrow>
    (attach_error + unit) \<times> herdr_sender \<times> 'd \<times> client" where
  "reconnect h reader terminal [] err sn s = (Inl err, sn\<lparr>sn_swaps := sn_swaps sn @ [None]\<rparr>, s)"
| "reconnect h reader terminal (dl # dls) err sn s =
     (let (p, s1) = discover_protocol h s;
          sn1 = (case p of Inr v \<Rightarrow> sn\<lparr>sn_wire := v\<rparr> | Inl _ \<Rightarrow> sn);
          (r, ms) = dial_and_split dl (sn_rows sn1) (sn_cols sn1) terminal (sn_wire sn1) (sn_mode sn1);
          sn2 = sn1\<lparr>sn_conns := sn_conns sn1 @ [ms]\<rparr>
      in case r of
           Inr _ \<Rightarrow>
             (let new = length (sn_conns sn1);
                  sn3 = sn2\<lparr>sn_cur := new, sn_terminal := terminal\<rparr>
              in if reader then (Inr (), sn3\<lparr>sn_swaps := sn_swaps sn3 @ [Some new]\<rparr>, s1)
                 else (Inl ReaderGone, sn3, s1))
         | Inl e \<Rightarrow> reconnect h reader terminal dls e sn2 s1)"

definition reattach :: "'d herdr \<Rightarrow> op_env \<Rightarrow> string \<Rightarrow> herdr_sender \<Rightarrow> 'd \<times> client \<Rightarrow>
    (attach_error + unit) \<times> herdr_sender \<times> 'd \<times> client" where
  "reattach h env terminal sn s =
     reconnect h (oe_reader env) terminal (take RECONNECT_ATTEMPTS (oe_dials env)) WireFailed
       (write_current (oe_detach env) DetachTerminal sn) s"

text \<open>Bytes of text as the wire counts them.\<close>

definition to_bytes :: "string \<Rightarrow> bytes" where
  "to_bytes s = map (\<lambda>c. of_nat (byte c)) s"

text \<open>The layout is read out of band, for the workspace the stream is in.\<close>

definition herdr_layout_result :: "'d herdr \<Rightarrow> herdr_sender \<Rightarrow> 'd \<times> client \<Rightarrow> (layout_snapshot, 'd) ctl" where
  "herdr_layout_result h sn s = query_layout h (sn_workspace sn) s"

text \<open>Resolve a pane's terminal, then re-point at it.\<close>

definition repoint :: "'d herdr \<Rightarrow> op_env \<Rightarrow> (32 word \<times> string, 'd) att \<Rightarrow> herdr_sender \<Rightarrow>
    (attach_error + unit) \<times> herdr_sender \<times> 'd \<times> client" where
  "repoint h env r sn =
     (case r of (Inl e, s) \<Rightarrow> (Inl e, sn, s) | (Inr (_, terminal), s) \<Rightarrow> reattach h env terminal sn s)"

definition written :: "bool \<Rightarrow> client_message \<Rightarrow> herdr_sender \<Rightarrow> 'd \<times> client \<Rightarrow> (attach_error + unit) \<times> herdr_sender \<times> 'd \<times> client" where
  "written sent m sn s = (if sent then Inr () else Inl WireFailed, write_current sent m sn, s)"

definition herdr_op :: "'d herdr \<Rightarrow> op_env \<Rightarrow> sender_op \<Rightarrow> herdr_sender \<times> 'd \<times> client \<Rightarrow>
    (attach_error + unit) \<times> herdr_sender \<times> 'd \<times> client" where
  "herdr_op h env op st =
     (let (sn, s) = st
      in case op of
           GoToTab t \<Rightarrow>
             (case herdr_tab_id (cl_tabs (snd s)) t of
                None \<Rightarrow> (Inl UnknownTabId, sn, s)
              | Some tab \<Rightarrow> repoint h env (resolve_tab_focused_pane h (sn_workspace sn) tab s) sn)
         | SetFocus p \<Rightarrow>
             (case terminal_id_of (cl_panes (snd s)) (pane_id p) of
                None \<Rightarrow> (Inl UnknownPaneId, sn, s)
              | Some terminal \<Rightarrow> reattach h env terminal sn s)
         | EnterSpace space \<Rightarrow>
             (case repoint h env (resolve_focused_terminal h space s) sn of
                (Inr _, sn', s') \<Rightarrow> (Inr (), sn'\<lparr>sn_workspace := space\<rparr>, s')
              | r \<Rightarrow> r)
         | FullscreenOp p hint \<Rightarrow>
             (case zoom_pane h (Some (pane_id p)) ZoomToggle s of
                (Inl e, s') \<Rightarrow> (Inl (ControlFailed e), sn, s')
              | (Inr ack, s') \<Rightarrow> (Inr (), sn, s'))
         | LayoutQuery \<Rightarrow> (Inr (), sn, s)
         | InputChars text \<Rightarrow> written (oe_write env) (Input (to_bytes text)) sn s
         | InputBytes bytes \<Rightarrow> written (oe_write env) (Input (to_bytes bytes)) sn s
         | MouseAt kind col row \<Rightarrow>
             written (oe_write env)
               (AttachScroll Wheel (case kind of WheelUp \<Rightarrow> ScrollDirUp | WheelDown \<Rightarrow> ScrollDirDown) 1 (Some col) (Some row) 0) sn s
         | ResizeTo rows cols \<Rightarrow>
             written (oe_write env) (Resize cols rows 0 0 False) (sn\<lparr>sn_rows := rows, sn_cols := cols\<rparr>) s
         | ClientExited \<Rightarrow> written (oe_write env) DetachTerminal sn s)"

definition herdr_ops :: "'d herdr \<Rightarrow> (sender_op \<times> op_env) list \<Rightarrow> herdr_sender \<times> 'd \<times> client \<Rightarrow> herdr_sender \<times> 'd \<times> client" where
  "herdr_ops h ops st = fold (\<lambda>(op, env) st. snd (herdr_op h env op st)) ops st"

subsection \<open>Opening an attach\<close>

definition open_attach :: "'d herdr \<Rightarrow> dial \<Rightarrow> string \<Rightarrow> 16 word \<Rightarrow> 16 word \<Rightarrow> bool \<Rightarrow> resume_target \<Rightarrow> 'd \<times> client \<Rightarrow>
    (herdr_sender \<times> resumed_view option, 'd) att" where
  "open_attach h dl ws rows cols ro resume s =
     (case resolve_attach_target h ws resume s of
        (Inl e, s1) \<Rightarrow> (Inl e, s1)
      | (Inr t, s1) \<Rightarrow>
          via_control (discover_protocol h s1) (\<lambda>protocol s2.
            (case dial_and_split dl rows cols (tg_terminal_id t) protocol (for_read_only ro) of
               (Inl e, _) \<Rightarrow> (Inl e, s2)
             | (Inr _, ms) \<Rightarrow>
                 (Inr (\<lparr>sn_conns = [ms], sn_cur = 0, sn_swaps = [], sn_workspace = tg_workspace_id t,
                        sn_terminal = tg_terminal_id t, sn_rows = rows, sn_cols = cols, sn_wire = protocol,
                        sn_mode = for_read_only ro\<rparr>,
                       resumed_view_for resume t), s2))))"

definition open_attach_with_resume :: "'d herdr \<Rightarrow> dial \<Rightarrow> string \<Rightarrow> 16 word \<Rightarrow> 16 word \<Rightarrow> bool \<Rightarrow> resume_target \<Rightarrow>
    'd \<times> client \<Rightarrow> (herdr_sender \<times> resumed_view option, 'd) att" where
  "open_attach_with_resume h dl sess rows cols ro resume s =
     via_control (resolve_workspace h sess s) (\<lambda>ws. open_attach h dl ws rows cols ro resume)"

definition herdr_open_attach :: "'d herdr \<Rightarrow> dial \<Rightarrow> string \<Rightarrow> 16 word \<Rightarrow> 16 word \<Rightarrow> bool \<Rightarrow>
    'd \<times> client \<Rightarrow> (herdr_sender \<times> resumed_view option, 'd) att" where
  "herdr_open_attach h dl sess rows cols ro =
     open_attach_with_resume h dl sess rows cols ro \<lparr>rt_space_id = None, rt_tab_id = None, rt_pane_id = None\<rparr>"

subsection \<open>Messages the reader delivers\<close>

datatype relayed = RelayRender bytes | RelayExit string | RelayOther

definition map_server_message :: "server_message \<Rightarrow> relayed" where
  "map_server_message m =
     (case m of
        Terminal f \<Rightarrow> RelayRender (tf_bytes f)
      | ServerShutdown reason \<Rightarrow> RelayExit (case reason of Some r \<Rightarrow> r | None \<Rightarrow> [])
      | _ \<Rightarrow> RelayOther)"

definition recv_from :: "(bytes \<Rightarrow> (server_message \<times> nat) option) \<Rightarrow> stream \<Rightarrow> (relayed \<times> stream) option" where
  "recv_from bincode s =
     (case read_server_message bincode s of
        Inr (FrameMessage m, s') \<Rightarrow> Some (map_server_message m, s')
      | Inr (UnknownFrame tag len, s') \<Rightarrow> Some (RelayOther, s')
      | Inl _ \<Rightarrow> None)"

subsection \<open>The wire traffic of an attach\<close>

definition is_attach :: "client_message \<Rightarrow> bool" where
  "is_attach m = (case m of AttachTerminal _ _ \<Rightarrow> True | ObserveTerminal _ \<Rightarrow> True | _ \<Rightarrow> False)"

text \<open>What a client that only watches may say.\<close>

definition viewer_message :: "client_message \<Rightarrow> bool" where
  "viewer_message m =
     (case m of
        TerminalHello _ _ _ _ _ _ \<Rightarrow> True | ObserveTerminal _ \<Rightarrow> True | Resize _ _ _ _ _ \<Rightarrow> True
      | DetachTerminal \<Rightarrow> True | AttachScroll _ _ _ _ _ _ \<Rightarrow> True | _ \<Rightarrow> False)"

text \<open>
  A log of connections is well-formed when every connection was put on at most one terminal, and
  the current one was put on the sender's terminal in the sender's mode.
\<close>

definition dialled :: "client_message list \<Rightarrow> bool" where
  "dialled ms \<longleftrightarrow> length (filter is_attach ms) \<le> 1"

definition conns_ok :: "herdr_sender \<Rightarrow> bool" where
  "conns_ok sn \<longleftrightarrow>
     sn_cur sn < length (sn_conns sn) \<and> (\<forall>ms \<in> set (sn_conns sn). dialled ms) \<and>
     filter is_attach (sn_conns sn ! sn_cur sn) = [attach_message (sn_mode sn) (sn_terminal sn)]"

lemma attach_message_is: "is_attach (attach_message m t)"
  by (cases m) (simp_all add: attach_message_def is_attach_def)

lemma dial_messages:
  assumes "dial_and_split dl rows cols t v mode = (r, ms)"
  shows "dialled ms" "r = Inr () \<Longrightarrow> filter is_attach ms = [attach_message mode t]"
    "set ms \<subseteq> {hello_message v rows cols, attach_message mode t}"
  using assms attach_message_is[of mode t]
  by (auto simp: dial_and_split_def connect_and_attach_def dialled_def hello_message_def is_attach_def Let_def
      split: if_splits sum.splits wire_frame.splits prod.splits)

lemma write_current_fields [simp]:
  "sn_cur (write_current b m sn) = sn_cur sn" "sn_mode (write_current b m sn) = sn_mode sn"
  "sn_terminal (write_current b m sn) = sn_terminal sn" "length (sn_conns (write_current b m sn)) = length (sn_conns sn)"
  "sn_rows (write_current b m sn) = sn_rows sn" "sn_cols (write_current b m sn) = sn_cols sn"
  by (simp_all add: write_current_def)

lemma write_current_ok:
  assumes "conns_ok sn" "\<not> is_attach m"
  shows "conns_ok (write_current b m sn)"
  using assms by (auto simp: conns_ok_def write_current_def dialled_def set_update_distinct nth_list_update
      dest!: set_update_subset_insert[THEN subsetD])

lemma write_current_messages:
  "sn_cur sn < length (sn_conns sn) \<Longrightarrow> ms \<in> set (sn_conns (write_current b m sn)) \<Longrightarrow>
     x \<in> set ms \<Longrightarrow> x = m \<or> (\<exists>ms' \<in> set (sn_conns sn). x \<in> set ms')"
  by (auto simp: write_current_def split: if_splits dest!: set_update_subset_insert[THEN subsetD])

text \<open>What one operation may write, given the operations that may be asked for.\<close>

definition says :: "(client_message \<Rightarrow> bool) \<Rightarrow> herdr_sender \<Rightarrow> bool" where
  "says may sn \<longleftrightarrow> (\<forall>ms \<in> set (sn_conns sn). \<forall>m \<in> set ms. may m)"

text \<open>What holds of the sender through a reconnect: the rule for its attempts.\<close>

lemma reconnect_rule:
  assumes "reconnect h reader t dls err sn s = (r, sn', s')" "P sn"
    and wire: "\<And>sn v. P sn \<Longrightarrow> P (sn\<lparr>sn_wire := v\<rparr>)"
    and swaps: "\<And>sn x. P sn \<Longrightarrow> P (sn\<lparr>sn_swaps := x\<rparr>)"
    and failed: "\<And>sn dl e ms. P sn \<Longrightarrow>
      dial_and_split dl (sn_rows sn) (sn_cols sn) t (sn_wire sn) (sn_mode sn) = (Inl e, ms) \<Longrightarrow>
      P (sn\<lparr>sn_conns := sn_conns sn @ [ms]\<rparr>)"
    and won: "\<And>sn dl ms. P sn \<Longrightarrow>
      dial_and_split dl (sn_rows sn) (sn_cols sn) t (sn_wire sn) (sn_mode sn) = (Inr (), ms) \<Longrightarrow>
      P (sn\<lparr>sn_conns := sn_conns sn @ [ms], sn_cur := length (sn_conns sn), sn_terminal := t\<rparr>)"
  shows "P sn'"
  using assms(1,2)
proof (induction dls arbitrary: err sn s)
  case Nil
  then show ?case using swaps by auto
next
  case (Cons dl dls)
  obtain p s1 where p: "discover_protocol h s = (p, s1)" by (metis surj_pair)
  define sn1 where "sn1 = (case p of Inr v \<Rightarrow> sn\<lparr>sn_wire := v\<rparr> | Inl _ \<Rightarrow> sn)"
  have P1: "P sn1" using wire Cons.prems(2) by (simp add: sn1_def split: sum.split)
  obtain r1 ms where d: "dial_and_split dl (sn_rows sn1) (sn_cols sn1) t (sn_wire sn1) (sn_mode sn1) = (r1, ms)"
    by (metis surj_pair)
  show ?case
  proof (cases r1)
    case (Inl e)
    then have "reconnect h reader t dls e (sn1\<lparr>sn_conns := sn_conns sn1 @ [ms]\<rparr>) s1 = (r, sn', s')"
      using Cons.prems(1) d by (simp add: p sn1_def[symmetric] Let_def)
    then show ?thesis using Cons.IH failed[OF P1] d Inl by blast
  next
    case (Inr u)
    then show ?thesis
      using Cons.prems(1) won[OF P1] swaps d by (auto simp: p sn1_def[symmetric] Let_def split: if_splits)
  qed
qed

lemma reconnect_ok:
  assumes "reconnect h reader t dls err sn s = (r, sn', s')" "conns_ok sn"
  shows "conns_ok sn'"
  using assms
proof (rule reconnect_rule[where P = conns_ok])
  show "conns_ok (sn\<lparr>sn_conns := sn_conns sn @ [ms]\<rparr>)"
    if "conns_ok sn" "dial_and_split dl (sn_rows sn) (sn_cols sn) t (sn_wire sn) (sn_mode sn) = (Inl e, ms)" for sn dl e ms
    using that(1) dial_messages(1)[OF that(2)] by (auto simp: conns_ok_def nth_append)
  show "conns_ok (sn\<lparr>sn_conns := sn_conns sn @ [ms], sn_cur := length (sn_conns sn), sn_terminal := t\<rparr>)"
    if "conns_ok sn" "dial_and_split dl (sn_rows sn) (sn_cols sn) t (sn_wire sn) (sn_mode sn) = (Inr (), ms)" for sn dl ms
    using that(1) dial_messages(1,2)[OF that(2)] by (auto simp: conns_ok_def)
qed (simp_all add: conns_ok_def)

lemma reconnect_says:
  assumes "reconnect h reader t dls err sn s = (r, sn', s')" "says may sn \<and> sn_mode sn = mode"
    and "\<And>v a b. may (hello_message v a b)" "may (attach_message mode t)"
  shows "says may sn' \<and> sn_mode sn' = mode"
  using assms(1,2)
proof (rule reconnect_rule[where P = "\<lambda>sn. says may sn \<and> sn_mode sn = mode"])
  have m: "\<forall>m \<in> set ms. may m" if "dial_and_split dl a b t v mode = (r, ms)" for dl a b v r ms
    using dial_messages(3)[OF that] assms(3,4) by auto
  show "says may (sn\<lparr>sn_conns := sn_conns sn @ [ms]\<rparr>) \<and> sn_mode (sn\<lparr>sn_conns := sn_conns sn @ [ms]\<rparr>) = mode"
    if "says may sn \<and> sn_mode sn = mode"
      "dial_and_split dl (sn_rows sn) (sn_cols sn) t (sn_wire sn) (sn_mode sn) = (Inl e, ms)" for sn dl e ms
    using that m by (auto simp: says_def)
  show "says may (sn\<lparr>sn_conns := sn_conns sn @ [ms], sn_cur := length (sn_conns sn), sn_terminal := t\<rparr>) \<and>
      sn_mode (sn\<lparr>sn_conns := sn_conns sn @ [ms], sn_cur := length (sn_conns sn), sn_terminal := t\<rparr>) = mode"
    if "says may sn \<and> sn_mode sn = mode"
      "dial_and_split dl (sn_rows sn) (sn_cols sn) t (sn_wire sn) (sn_mode sn) = (Inr (), ms)" for sn dl ms
    using that m by (auto simp: says_def)
qed (simp_all add: says_def)

text \<open>The messages an operation of the relay stands for, besides a re-point's.\<close>

definition op_message :: "sender_op \<Rightarrow> client_message \<Rightarrow> bool" where
  "op_message op m =
     (case op of
        InputChars t \<Rightarrow> m = Input (to_bytes t)
      | InputBytes b \<Rightarrow> m = Input (to_bytes b)
      | MouseAt k c r \<Rightarrow> (\<exists>dir. m = AttachScroll Wheel dir 1 (Some c) (Some r) 0)
      | ResizeTo r c \<Rightarrow> m = Resize c r 0 0 False
      | ClientExited \<Rightarrow> m = DetachTerminal
      | _ \<Rightarrow> False)"

lemma op_message_plain: "op_message op m \<Longrightarrow> \<not> is_attach m"
  by (cases op) (auto simp: op_message_def is_attach_def)

text \<open>An operation is one write, a re-point, or leaves the connections alone.\<close>

lemma herdr_op_cases:
  assumes "herdr_op h env op (sn, s) = (r, sn', s')"
  obtains (kept) "sn' = sn"
  | (wrote) b m sn1 where "op_message op m" "sn' = write_current b m sn1"
      "sn_conns sn1 = sn_conns sn" "sn_cur sn1 = sn_cur sn" "sn_mode sn1 = sn_mode sn" "sn_terminal sn1 = sn_terminal sn"
  | (moved) t sn1 s1 ws where "reattach h env t sn s1 = (r, sn1, s')" "sn' = sn1\<lparr>sn_workspace := ws\<rparr>"
proof -
  have same: "sn1 = sn1\<lparr>sn_workspace := sn_workspace sn1\<rparr>" for sn1 :: herdr_sender by simp
  have rp: "repoint h env q sn = (r', sn1, s1) \<Longrightarrow> sn1 = sn \<or> (\<exists>t s0. reattach h env t sn s0 = (r', sn1, s1))" for q r' sn1 s1
    by (auto simp: repoint_def split: sum.splits prod.splits)
  show ?thesis
  proof (cases op)
    case (GoToTab t)
    show ?thesis
    proof (cases "herdr_tab_id (cl_tabs (snd s)) t")
      case None
      then show ?thesis using assms GoToTab kept by (simp add: herdr_op_def Let_def)
    next
      case (Some tab)
      then have "repoint h env (resolve_tab_focused_pane h (sn_workspace sn) tab s) sn = (r, sn', s')"
        using assms GoToTab by (simp add: herdr_op_def Let_def)
      from rp[OF this] show ?thesis using kept moved[OF _ same] by blast
    qed
  next
    case (SetFocus p)
    show ?thesis
    proof (cases "terminal_id_of (cl_panes (snd s)) (pane_id p)")
      case None
      then show ?thesis using assms SetFocus kept by (simp add: herdr_op_def Let_def)
    next
      case (Some t)
      then have "reattach h env t sn s = (r, sn', s')" using assms SetFocus by (simp add: herdr_op_def Let_def)
      then show ?thesis using moved[OF _ same] by blast
    qed
  next
    case (EnterSpace w)
    obtain r0 sn0 s0 where q: "repoint h env (resolve_focused_terminal h w s) sn = (r0, sn0, s0)" by (metis prod_cases3)
    show ?thesis
    proof (cases r0)
      case (Inl e)
      then have "r = r0" "sn' = sn0" "s' = s0" using assms EnterSpace q by (auto simp: herdr_op_def Let_def)
      then show ?thesis using rp[OF q] kept moved[OF _ same] by blast
    next
      case (Inr u)
      then have "r = r0" "sn' = sn0\<lparr>sn_workspace := w\<rparr>" "s' = s0" using assms EnterSpace q by (auto simp: herdr_op_def Let_def)
      moreover have "\<exists>t s1. reattach h env t sn s1 = (r0, sn0, s0)"
        using q Inr by (auto simp: repoint_def split: sum.splits prod.splits)
      ultimately show ?thesis using moved by blast
    qed
  next
    case (FullscreenOp p hint)
    then show ?thesis using assms kept by (auto simp: herdr_op_def Let_def split: sum.splits prod.splits)
  next
    case LayoutQuery
    then show ?thesis using assms kept by (simp add: herdr_op_def)
  next
    case (InputChars t)
    then show ?thesis using assms
      by (intro wrote[where b = "oe_write env" and m = "Input (to_bytes t)" and ?sn1.0 = sn])
        (simp_all add: herdr_op_def written_def op_message_def)
  next
    case (InputBytes t)
    then show ?thesis using assms
      by (intro wrote[where b = "oe_write env" and m = "Input (to_bytes t)" and ?sn1.0 = sn])
        (simp_all add: herdr_op_def written_def op_message_def)
  next
    case (MouseAt k c rw)
    then show ?thesis using assms
      by (intro wrote[where b = "oe_write env" and ?sn1.0 = sn and
          m = "AttachScroll Wheel (case k of WheelUp \<Rightarrow> ScrollDirUp | WheelDown \<Rightarrow> ScrollDirDown) 1 (Some c) (Some rw) 0"])
        (simp_all add: herdr_op_def written_def op_message_def)
  next
    case (ResizeTo rw c)
    then show ?thesis using assms
      by (intro wrote[where b = "oe_write env" and m = "Resize c rw 0 0 False" and ?sn1.0 = "sn\<lparr>sn_rows := rw, sn_cols := c\<rparr>"])
        (simp_all add: herdr_op_def written_def op_message_def)
  next
    case ClientExited
    then show ?thesis using assms
      by (intro wrote[where b = "oe_write env" and m = DetachTerminal and ?sn1.0 = sn])
        (simp_all add: herdr_op_def written_def op_message_def)
  qed
qed

lemma conns_ok_cong:
  "sn_conns a = sn_conns b \<Longrightarrow> sn_cur a = sn_cur b \<Longrightarrow> sn_mode a = sn_mode b \<Longrightarrow> sn_terminal a = sn_terminal b \<Longrightarrow>
     conns_ok a = conns_ok b"
  by (simp add: conns_ok_def)

lemma herdr_op_conns:
  assumes "herdr_op h env op (sn, s) = (r, sn', s')" "conns_ok sn"
  shows "conns_ok sn'"
  using assms(1)
proof (cases rule: herdr_op_cases)
  case kept
  then show ?thesis using assms(2) by simp
next
  case (wrote b m sn1)
  then have "conns_ok sn1" using assms(2) conns_ok_cong by blast
  then show ?thesis using write_current_ok op_message_plain wrote(1,2) by blast
next
  case (moved t sn1 s1 ws)
  have "conns_ok (write_current (oe_detach env) DetachTerminal sn)"
    using assms(2) by (intro write_current_ok) (simp_all add: is_attach_def)
  then have "conns_ok sn1" using reconnect_ok[OF moved(1)[unfolded reattach_def]] by blast
  then show ?thesis unfolding moved(2) by (simp add: conns_ok_def)
qed

lemma reconnect_mode:
  "reconnect h reader t dls err sn s = (r, sn', s') \<Longrightarrow> sn_mode sn' = sn_mode sn"
  by (rule reconnect_rule[where P = "\<lambda>x. sn_mode x = sn_mode sn"]) simp_all

lemma herdr_op_mode:
  assumes "herdr_op h env op (sn, s) = (r, sn', s')"
  shows "sn_mode sn' = sn_mode sn"
  using assms
proof (cases rule: herdr_op_cases)
  case (moved t sn1 s1 ws)
  then show ?thesis using reconnect_mode by (fastforce simp: reattach_def)
qed simp_all

lemma viewer_messages:
  "viewer_message (hello_message v a b)" "viewer_message (attach_message ObserveMode t)" "viewer_message DetachTerminal"
  by (simp_all add: viewer_message_def hello_message_def attach_message_def)

lemma viewer_op_message: "viewer_op op \<Longrightarrow> op_message op m \<Longrightarrow> viewer_message m"
  by (cases op) (auto simp: op_message_def viewer_message_def)

text \<open>A viewer's sender: it observes, and so it stays.\<close>

definition viewer_sender :: "herdr_sender \<Rightarrow> bool" where
  "viewer_sender sn \<longleftrightarrow> says viewer_message sn \<and> sn_mode sn = ObserveMode \<and> conns_ok sn"

lemma herdr_op_viewer:
  assumes "herdr_op h env op (sn, s) = (r, sn', s')" "viewer_sender sn" "viewer_op op"
  shows "viewer_sender sn'"
proof -
  have ok: "conns_ok sn'" using herdr_op_conns[OF assms(1)] assms(2) by (simp add: viewer_sender_def)
  have "says viewer_message sn' \<and> sn_mode sn' = ObserveMode"
    using assms(1)
  proof (cases rule: herdr_op_cases)
    case kept
    then show ?thesis using assms(2) by (simp add: viewer_sender_def)
  next
    case (wrote b m sn1)
    have "viewer_message m" using viewer_op_message assms(3) wrote(1) by blast
    then show ?thesis
      using assms(2) wrote write_current_messages[of sn1 _ b m]
      by (fastforce simp: viewer_sender_def says_def conns_ok_def)
  next
    case (moved t sn1 s1 ws)
    have "says viewer_message (write_current (oe_detach env) DetachTerminal sn)"
      using assms(2) write_current_messages[of sn _ "oe_detach env" DetachTerminal] viewer_messages(3)
      by (fastforce simp: viewer_sender_def says_def conns_ok_def)
    then have "says viewer_message (write_current (oe_detach env) DetachTerminal sn) \<and>
        sn_mode (write_current (oe_detach env) DetachTerminal sn) = ObserveMode"
      using assms(2) by (simp add: viewer_sender_def)
    from reconnect_says[OF moved(1)[unfolded reattach_def] this viewer_messages(1,2)]
    have "says viewer_message sn1 \<and> sn_mode sn1 = ObserveMode" .
    then show ?thesis unfolding moved(2) by (simp add: says_def)
  qed
  then show ?thesis using ok by (simp add: viewer_sender_def)
qed

lemma herdr_ops_inv:
  assumes "\<And>op env sn s r sn' s'. (op, env) \<in> set ops \<Longrightarrow> P sn \<Longrightarrow> herdr_op h env op (sn, s) = (r, sn', s') \<Longrightarrow> P sn'"
    and "P sn"
  shows "P (fst (herdr_ops h ops (sn, s)))"
  using assms
proof (induction ops arbitrary: sn s)
  case (Cons x ops)
  obtain op env where x: "x = (op, env)" by (cases x)
  obtain r sn1 s1 where o: "herdr_op h env op (sn, s) = (r, sn1, s1)" by (metis prod_cases3)
  have "P sn1" using Cons.prems(1)[OF _ Cons.prems(2) o] x by simp
  moreover have "P sn2'" if "(op2, env2) \<in> set ops" "P sn2" "herdr_op h env2 op2 (sn2, t2) = (q, sn2', t2')"
    for op2 env2 sn2 t2 q sn2' t2'
    using Cons.prems(1)[OF _ that(2,3)] that(1) by simp
  ultimately have "P (fst (herdr_ops h ops (sn1, s1)))" using Cons.IH by blast
  then show ?case by (simp add: herdr_ops_def x o)
qed (simp add: herdr_ops_def)

lemma opened_sender:
  assumes "open_attach_with_resume h dl sess rows cols ro resume s = (Inr (sn, v), s')"
  shows "conns_ok sn" "sn_mode sn = for_read_only ro" "ro \<Longrightarrow> viewer_sender sn"
proof -
  obtain ws s0 where ws: "resolve_workspace h sess s = (Inr ws, s0)"
    and o: "open_attach h dl ws rows cols ro resume s0 = (Inr (sn, v), s')"
    using assms unfolding open_attach_with_resume_def by (rule via_control_InrE)
  obtain t s1 where t1: "resolve_attach_target h ws resume s0 = (Inr t, s1)"
    using o by (auto simp: open_attach_def split: sum.splits prod.splits)
  obtain protocol s2 where p: "discover_protocol h s1 = (Inr protocol, s2)"
  proof -
    from o t1 have "via_control (discover_protocol h s1) (\<lambda>protocol s2.
        (case dial_and_split dl rows cols (tg_terminal_id t) protocol (for_read_only ro) of
           (Inl e, _) \<Rightarrow> (Inl e, s2)
         | (Inr _, ms) \<Rightarrow>
             (Inr (\<lparr>sn_conns = [ms], sn_cur = 0, sn_swaps = [], sn_workspace = tg_workspace_id t,
                    sn_terminal = tg_terminal_id t, sn_rows = rows, sn_cols = cols, sn_wire = protocol,
                    sn_mode = for_read_only ro\<rparr>, resumed_view_for resume t), s2))) = (Inr (sn, v), s')"
      by (simp add: open_attach_def)
    then show ?thesis using that by (rule via_control_InrE)
  qed
  obtain r ms where d0: "dial_and_split dl rows cols (tg_terminal_id t) protocol (for_read_only ro) = (r, ms)"
    by (metis surj_pair)
  then have d: "dial_and_split dl rows cols (tg_terminal_id t) protocol (for_read_only ro) = (Inr (), ms)"
    using o t1 p by (auto simp: open_attach_def split: sum.splits)
  have t: "sn = \<lparr>sn_conns = [ms], sn_cur = 0, sn_swaps = [], sn_workspace = tg_workspace_id t,
      sn_terminal = tg_terminal_id t, sn_rows = rows, sn_cols = cols, sn_wire = protocol, sn_mode = for_read_only ro\<rparr>"
    using o t1 p d by (simp add: open_attach_def)
  show ok: "conns_ok sn" using dial_messages(1,2)[OF d] by (simp add: t conns_ok_def)
  show mode: "sn_mode sn = for_read_only ro" by (simp add: t)
  show "ro \<Longrightarrow> viewer_sender sn"
    using ok dial_messages(3)[OF d] viewer_messages(1,2)
    by (auto simp: viewer_sender_def t says_def for_read_only_def)
qed

text \<open>
  C18 (a viewer never owns a herdr terminal). The whole of a read-only stream, from what its client
  sends to what goes over herdr's wire: on every connection the attach ever opens, the messages are
  hellos, observe requests, sizes, detaches and wheel scrolls. No input is typed and no terminal is
  taken over, however the stream is re-pointed and whatever fails on the way.
\<close>

theorem viewer_never_owns:
  assumes "open_attach_with_resume h dl sess rows cols True resume s = (Inr (sn, v), s')"
    and "ic_read_only cfg" "grid_ok grid"
    and "map fst ops = ib_ops (inbound_run enc cfg ins (start_inbound grid vw reg))"
    and "ms \<in> set (sn_conns (fst (herdr_ops h ops (sn, s'))))" "m \<in> set ms"
  shows "viewer_message m"
proof -
  have "ops_ok cfg (start_inbound grid vw reg)" using assms(3) by (simp add: ops_ok_def start_inbound_def)
  from inbound_run_ops[OF this, of enc ins] assms(2,4)
  have "\<forall>op \<in> set (map fst ops). viewer_op op" by (simp add: ops_ok_def)
  then have "viewer_sender (fst (herdr_ops h ops (sn, s')))"
    using opened_sender(3)[OF assms(1)] herdr_op_viewer
    by (intro herdr_ops_inv[where P = viewer_sender]) force+
  then show ?thesis using assms(5,6) by (auto simp: viewer_sender_def says_def)
qed

text \<open>
  (one terminal per connection). Whatever is asked of a herdr stream, no connection is ever put on
  a second terminal (which would leak the first one's size lock), and the connection in use is the one
  that was put on the terminal the sender says it shows, in the mode of the attach.
\<close>

theorem one_terminal_per_connection:
  assumes "open_attach_with_resume h dl sess rows cols ro resume s = (Inr (sn, v), s')"
    and "sn' = fst (herdr_ops h ops (sn, s'))"
  shows "(\<forall>ms \<in> set (sn_conns sn'). length (filter is_attach ms) \<le> 1) \<and>
    filter is_attach (sn_conns sn' ! sn_cur sn') = [attach_message (for_read_only ro) (sn_terminal sn')]"
proof -
  let ?P = "\<lambda>sn. conns_ok sn \<and> sn_mode sn = for_read_only ro"
  have "?P (fst (herdr_ops h ops (sn, s')))"
  proof (rule herdr_ops_inv)
    fix op env sn s r sn' s'
    assume "?P sn" "herdr_op h env op (sn, s) = (r, sn', s')"
    then show "?P sn'" using herdr_op_conns herdr_op_mode by metis
  next
    show "?P sn" using opened_sender(1,2)[OF assms(1)] by simp
  qed
  then show ?thesis using assms(2) by (simp add: conns_ok_def dialled_def)
qed

subsection \<open>Where a resume lands\<close>

lemma focused_fold: "fold (\<lambda>q best. if pi_focused q then q else best) ps p \<in> insert p (set ps)"
  by (induction ps arbitrary: p) (auto split: if_splits)

lemma focused_or_first_mem: "focused_or_first ps = Some p \<Longrightarrow> p \<in> set ps"
  using focused_fold by (cases ps) auto

lemma focused_or_first_Some: "focused_or_first ps = None \<longleftrightarrow> ps = []"
  by (cases ps) simp_all

lemma chosen_mem: "chosen_pane ps hp ht = Some p \<Longrightarrow> p \<in> set ps"
  by (auto simp: chosen_pane_def or_else_def Let_def dest!: find_Some_D focused_or_first_mem
      split: option.splits Option.bind_splits)

lemma chosen_none: "chosen_pane ps hp ht = None \<longleftrightarrow> ps = []"
proof
  assume "chosen_pane ps hp ht = None"
  then have "focused_or_first ps = None" by (auto simp: chosen_pane_def or_else_def Let_def split: option.splits)
  then show "ps = []" by (simp add: focused_or_first_Some)
qed (simp add: chosen_pane_def or_else_def split: Option.bind_split)

text \<open>The registries after a resolution still name the pane and the tab it chose.\<close>

definition registries_ok :: "nat \<Rightarrow> client \<Rightarrow> bool" where
  "registries_ok n c \<longleftrightarrow> pane_inv (cl_panes c) \<and> n < pane_room (cl_panes c) \<and>
     tab_inv (cl_tabs c) \<and> 0 < tab_room (cl_tabs c)"

definition names_pane :: "client \<Rightarrow> attach_target \<Rightarrow> pane_info \<Rightarrow> bool" where
  "names_pane c t p \<longleftrightarrow>
     herdr_pane_id_of (cl_panes c) (tg_pane_id t) = Some (pi_id p) \<and>
     terminal_id_of (cl_panes c) (tg_pane_id t) = Some (pi_terminal_id p) \<and>
     herdr_tab_id (cl_tabs c) (tg_tab_id t) = Some (pi_tab_id p) \<and> tg_terminal_id t = pi_terminal_id p"

lemma assign_all_inv:
  "pane_inv r \<Longrightarrow> length ps < pane_room r \<Longrightarrow>
     pane_inv (fold (\<lambda>p r. fst (assign_or_get r (pi_id p) (pi_terminal_id p))) ps r) \<and>
     pane_room r \<le> length ps + pane_room (fold (\<lambda>p r. fst (assign_or_get r (pi_id p) (pi_terminal_id p))) ps r)"
proof (induction ps arbitrary: r)
  case (Cons p ps)
  let ?r = "fst (assign_or_get r (pi_id p) (pi_terminal_id p))"
  have inv: "pane_inv ?r" using Cons.prems by (simp add: assign_or_get_def assign_inner_inv)
  have "pane_room r \<le> Suc (pane_room ?r)"
    using panes.assign_room[of r "pi_id p" "Fresh (pi_terminal_id p)"] Cons.prems by simp
  then show ?case using Cons.IH[OF inv] Cons.prems(2) by simp
qed simp

lemma assign_names:
  assumes "pane_inv r" "0 < pane_room r" "assign_or_get r h t = (r', i)"
  shows "herdr_pane_id_of r' i = Some h" "terminal_id_of r' i = Some t"
proof -
  show "herdr_pane_id_of r' i = Some h"
    using panes.assign_get[OF assms(1,2), of h "Fresh t"] panes.assign_inv[OF assms(1,2), of h "Fresh t"] assms(3)
      panes.rev_get by simp
  show "terminal_id_of r' i = Some t"
  proof (cases "pane_by_herdr r h")
    case None
    then show ?thesis using assms assign_inner_fresh[of r h t True]
      by (auto simp: assign_or_get_def terminal_id_of_def)
  next
    case (Some j)
    then have "pane_by_id r j \<noteq> None" using assms(1) by (auto simp: pane_inv_def herdr_pane_id_of_def)
    then show ?thesis using assms(3) Some
      by (auto simp: assign_or_get_def assign_inner_known terminal_id_of_def refresh_terminal_def split: option.splits if_splits)
  qed
qed

lemma assign_tab_names:
  assumes "tab_inv r" "0 < tab_room r" "tab_assign_or_get r h = (r', i)"
  shows "herdr_tab_id r' i = Some h"
  using tabs.assign_get[OF assms(1,2), of h] tabs.assign_inv[OF assms(1,2), of h] assms(3) tabs.rev_get by simp

text \<open>
  (where a resume lands). Whatever hints a client sends, the attach lands on a pane that herdr just
  listed for the workspace, and the ids it reports translate back to exactly that pane and its
  tab. A pane hint alone never decides anything; with a tab hint that names a listed tab the landing
  is in that tab, and on the hinted pane when that pane is in it.
\<close>

theorem resume_lands:
  assumes "registries_ok (Suc (length ps)) (snd s)" "ps \<noteq> []"
  shows "\<exists>p t s'. p \<in> set ps \<and> pick_resume_pane ps ws hp ht s = (Inr t, s') \<and> tg_workspace_id t = ws \<and>
    names_pane (snd s') t p \<and>
    (case ht of None \<Rightarrow> focused_or_first ps = Some p
     | Some tab \<Rightarrow> (\<exists>q \<in> set ps. pi_tab_id q = tab) \<longrightarrow> pi_tab_id p = tab) \<and>
    (\<forall>q \<in> set ps. hp = Some (pi_id q) \<longrightarrow> ht = Some (pi_tab_id q) \<longrightarrow> pi_id p = pi_id q)"
proof -
  obtain p where p: "chosen_pane ps hp ht = Some p" using assms(2) chosen_none by fastforce
  let ?c = "snd s"
  define all where "all = fold (\<lambda>p r. fst (assign_or_get r (pi_id p) (pi_terminal_id p))) ps (cl_panes (snd s))"
  obtain tabs tab where t: "tab_assign_or_get (cl_tabs ?c) (pi_tab_id p) = (tabs, tab)" by (metis surj_pair)
  obtain reg pane where r: "assign_or_get all (pi_id p) (pi_terminal_id p) = (reg, pane)" by (metis surj_pair)
  have inv: "pane_inv all" "0 < pane_room all"
    using assign_all_inv[of "cl_panes ?c" ps] assms(1) by (auto simp: registries_ok_def all_def)
  have res: "pick_resume_pane ps ws hp ht s =
      (Inr \<lparr>tg_workspace_id = ws, tg_tab_id = tab, tg_pane_id = pane, tg_terminal_id = pi_terminal_id p\<rparr>,
       fst s, ?c\<lparr>cl_panes := reg, cl_tabs := tabs\<rparr>)"
    by (simp add: pick_resume_pane_def p t r all_def[symmetric] Let_def)
  have names: "names_pane (?c\<lparr>cl_panes := reg, cl_tabs := tabs\<rparr>)
      \<lparr>tg_workspace_id = ws, tg_tab_id = tab, tg_pane_id = pane, tg_terminal_id = pi_terminal_id p\<rparr> p"
    using assign_names[OF inv r] assign_tab_names[OF _ _ t] assms(1) by (simp add: names_pane_def registries_ok_def)
  have in_tab: "pi_tab_id p = tab'" if "ht = Some tab'" "\<exists>q \<in> set ps. pi_tab_id q = tab'" for tab'
  proof -
    have "filter (\<lambda>q. pi_tab_id q = tab') ps \<noteq> []" using that(2) by (auto simp: filter_empty_conv)
    then obtain f where "focused_or_first (filter (\<lambda>q. pi_tab_id q = tab') ps) = Some f"
      using focused_or_first_Some by (metis option.exhaust)
    then have f: "f \<in> set ps \<and> pi_tab_id f = tab'" "focused_or_first (filter (\<lambda>q. pi_tab_id q = tab') ps) = Some f"
      using focused_or_first_mem by fastforce+
    show ?thesis
    proof (cases "Option.bind hp (\<lambda>h. find (\<lambda>p. pi_id p = h \<and> pi_tab_id p = tab') ps)")
      case None
      then show ?thesis using p that(1) f by (simp add: chosen_pane_def or_else_def)
    next
      case (Some c)
      then have "pi_tab_id c = tab'" by (cases hp) (auto dest!: find_Some_D)
      then show ?thesis using p that(1) Some by (simp add: chosen_pane_def or_else_def)
    qed
  qed
  have on_pane: "pi_id p = pi_id q" if "q \<in> set ps" "hp = Some (pi_id q)" "ht = Some (pi_tab_id q)" for q
  proof -
    have "find (\<lambda>x. pi_id x = pi_id q \<and> pi_tab_id x = pi_tab_id q) ps \<noteq> None"
      using that(1) by (auto simp: find_None_iff)
    then show ?thesis using p that
      by (auto simp: chosen_pane_def or_else_def Let_def dest!: find_Some_D split: option.splits)
  qed
  show ?thesis
  proof (intro exI conjI)
    show "case ht of None \<Rightarrow> focused_or_first ps = Some p
      | Some tab \<Rightarrow> (\<exists>q \<in> set ps. pi_tab_id q = tab) \<longrightarrow> pi_tab_id p = tab"
      using p in_tab by (cases ht) (auto simp: chosen_pane_def or_else_def split: Option.bind_splits)
  qed (use chosen_mem[OF p] res names on_pane in auto)
qed

text \<open>
  (no hint fails an attach). As long as herdr lists panes for the default workspace, an attach finds
  a pane, whatever space, pane or tab the client asks for and whatever herdr answers for that space.
\<close>

theorem hint_never_fails_attach:
  assumes "\<And>s. \<exists>ps s'. list_in default_ws s = (Inr ps, s') \<and> ps \<noteq> []"
  shows "\<exists>t s'. resolve_attach_target_with list_in default_ws space hp ht s = (Inr t, s') \<and>
    (tg_workspace_id t = default_ws \<or> space = Some (tg_workspace_id t))"
proof -
  have target: "tg_workspace_id t = ws"
    if "via_control (list_in ws s) (\<lambda>panes. pick_resume_pane panes ws hp ht) = (Inr t, s')" for ws s t s'
    using that by (rule via_control_InrE) (auto simp: pick_resume_pane_def Let_def split: option.splits prod.splits)
  have default: "\<exists>t s'. via_control (list_in default_ws s) (\<lambda>panes. pick_resume_pane panes default_ws hp ht) = (Inr t, s')" for s
  proof -
    obtain ps s' where ps: "list_in default_ws s = (Inr ps, s')" "ps \<noteq> []" using assms by blast
    then obtain p where "chosen_pane ps hp ht = Some p" using chosen_none by fastforce
    then show ?thesis by (simp add: ps pick_resume_pane_def Let_def split: prod.split)
  qed
  show ?thesis
  proof (cases "\<exists>sp. space = Some sp \<and> sp \<noteq> default_ws")
    case True
    then obtain sp where sp: "space = Some sp" "sp \<noteq> default_ws" by blast
    obtain r s1 where r: "via_control (list_in sp s) (\<lambda>panes. pick_resume_pane panes sp hp ht) = (r, s1)"
      by (metis surj_pair)
    show ?thesis
    proof (cases r)
      case (Inr t)
      then show ?thesis using r target[of sp s] sp by (simp add: resolve_attach_target_with_def Let_def)
    next
      case (Inl e)
      then show ?thesis using r sp default[of s1] target[of default_ws s1]
        by (auto simp: resolve_attach_target_with_def Let_def)
    qed
  next
    case False
    then show ?thesis using default[of s] target[of default_ws s]
      by (auto simp: resolve_attach_target_with_def Let_def split: option.split)
  qed
qed

text \<open>A herdr with one workspace and one pane, and a dial that goes through.\<close>

definition wire_herdr :: "unit herdr" where
  "wire_herdr = demo_herdr\<lparr>
     hd_send := (\<lambda>d rq. (d, ReplyLine (if rq_method rq = ''ping'' then ''g''
        else if rq_method rq = ''workspace.list'' then ''w'' else ''p''))),
     hd_decode := (\<lambda>v. if v = JString ''g'' then Some (Pong ''0.9.0'' 22) else hd_decode demo_herdr v)\<rparr>"

definition demo_dial :: dial where
  "demo_dial = \<lparr>dl_connects = True, dl_hello = True, dl_welcome = Inr (FrameMessage (Welcome 22 TerminalAnsi None)),
     dl_attach = True, dl_split = True\<rparr>"

definition demo_client :: client where "demo_client = new_client new_pane_registry new_tab_registry"

definition no_hint :: resume_target where "no_hint = \<lparr>rt_space_id = None, rt_tab_id = None, rt_pane_id = None\<rparr>"

lemma wire_herdr_answers:
  "ping wire_herdr ((), c) = (Inr \<lparr>hs_version = ''0.9.0'', hs_protocol = 22\<rparr>, (), snd (next_id c))"
  "list_workspaces wire_herdr ((), c) = (Inr [demo_workspace], (), snd (next_id c))"
  "list_panes wire_herdr ws ((), c) = (Inr [demo_pane], (), snd (next_id c))"
  by (simp_all add: ping_def list_workspaces_def list_panes_def expect_def call_typed_def call_raw_def next_id_def
      wire_herdr_def demo_herdr_def Let_def read_reply_def raw_response_def MAX_RESPONSE_BYTES_def trim_end_letter
      byte_classes jget_str_def)

lemma demo_open:
  "\<exists>s'. open_attach_with_resume wire_herdr demo_dial ''herdr'' 24 80 ro no_hint ((), demo_client) =
     (Inr (\<lparr>sn_conns = [[hello_message 22 24 80, attach_message (for_read_only ro) (pi_terminal_id demo_pane)]], sn_cur = 0,
            sn_swaps = [], sn_workspace = wi_id demo_workspace, sn_terminal = pi_terminal_id demo_pane, sn_rows = 24,
            sn_cols = 80, sn_wire = 22, sn_mode = for_read_only ro\<rparr>, None), s')"
  by (simp add: open_attach_with_resume_def resolve_workspace_def HERDR_SESSION_def active_or_first_workspace_id_def
      wire_herdr_answers pick_active_or_first_def or_else_def open_attach_def resolve_attach_target_def hint_ids_def
      no_hint_def resolve_attach_target_with_def pick_resume_pane_def chosen_pane_def discover_protocol_def
      dial_and_split_def connect_and_attach_def demo_dial_def assert_welcome_def resumed_view_for_def resume_is_empty_def
      Let_def split: prod.split option.split)

theorem viewer_never_owns_witness:
  "viewer_message (attach_message (for_read_only True) (pi_terminal_id demo_pane))"
proof -
  obtain sn s' where o: "open_attach_with_resume wire_herdr demo_dial ''herdr'' 24 80 True no_hint ((), demo_client) =
      (Inr (sn, None), s')"
    and c: "sn_conns sn = [[hello_message 22 24 80, attach_message (for_read_only True) (pi_terminal_id demo_pane)]]"
    using demo_open[of True] by fastforce
  show ?thesis
    by (rule viewer_never_owns[OF o, where cfg = "demo_cfg True" and grid = "(24, 80)" and ops = "[]" and ins = "[]"
          and ms = "hd (sn_conns sn)"])
      (simp_all add: c demo_cfg_def demo_grid herdr_ops_def inbound_run_def start_inbound_def)
qed

theorem one_terminal_per_connection_witness:
  "length (filter is_attach [hello_message 22 24 80, attach_message (for_read_only False) (pi_terminal_id demo_pane)]) \<le> 1"
proof -
  obtain sn s' where o: "open_attach_with_resume wire_herdr demo_dial ''herdr'' 24 80 False no_hint ((), demo_client) =
      (Inr (sn, None), s')"
    and c: "sn_conns sn = [[hello_message 22 24 80, attach_message (for_read_only False) (pi_terminal_id demo_pane)]]"
    using demo_open[of False] by fastforce
  have "sn = fst (herdr_ops wire_herdr [] (sn, s'))" by (simp add: herdr_ops_def)
  from one_terminal_per_connection[OF o this] show ?thesis unfolding c by simp
qed

theorem resume_lands_witness:
  "\<exists>t s'. pick_resume_pane [demo_pane] ''w1'' None None ((), demo_client) = (Inr t, s') \<and> names_pane (snd s') t demo_pane"
proof -
  have "registries_ok (Suc (length [demo_pane])) (snd ((), demo_client))"
    using pane_inv_new tab_inv_new
    by (simp add: registries_ok_def demo_client_def new_client_def pane_room_def tab_room_def
        new_pane_registry_def new_tab_registry_def FIRST_ID_def)
  from resume_lands[OF this, of "''w1''" None None] show ?thesis by auto
qed

theorem hint_never_fails_attach_witness:
  "\<exists>t s'. resolve_attach_target_with (list_panes wire_herdr) ''w1'' (Some ''gone'') None None ((), demo_client) = (Inr t, s')"
proof -
  have "\<exists>ps s'. list_panes wire_herdr ''w1'' s = (Inr ps, s') \<and> ps \<noteq> []" for s :: "unit \<times> client"
    by (cases s) (simp add: wire_herdr_answers)
  from hint_never_fails_attach[of "list_panes wire_herdr" "''w1''", OF this] show ?thesis by blast
qed

end
