(* ===== verification/HerdrSwap.thy ===== *)
theory HerdrSwap
  imports HerdrAttach
begin

text \<open>
  The hand-over of a new connection in a running herdr stream: \<open>reattach\<close> and \<open>try_adopt_swap\<close> of
  \<open>muxrd/src/multiplexer/herdr/relay.rs\<close>, on two threads that share the flag \<open>swap_pending\<close>
  and a channel. Every access to either is a step of its own, so the steps interleave as the
  threads' do. Connections are numbered; a connection is closed by the sender's release or by
  the server. What a connection carries is the theory \<open>HerdrAttach\<close>.
\<close>

subsection \<open>The two threads\<close>

text \<open>Where \<open>reattach\<close> is, between two of its accesses; \<open>Dialling\<close> counts the attempts left.\<close>

datatype swap_sender = Idle | Armed | Dialling nat | Dialled | HandedOver | GaveUp

datatype end_cause = NoSwapSeen | SwapFailed | GraceOver

text \<open>
  Where \<open>recv\<close> is: reading a connection, at its end, having found the channel empty, waiting with
  the flag seen set, or done.
\<close>

datatype swap_reader = Reading nat | AtEnd nat | FoundEmpty nat | Awaiting nat | Ended end_cause

text \<open>
  \<open>by_server\<close>, \<open>failed\<close> and \<open>raced\<close> are ghosts: the server closed a connection, a reattach gave up,
  and a swap was completed between the reader's look at the channel and its look at the flag.
\<close>

record swap =
  sw_sender :: swap_sender
  sw_reader :: swap_reader
  sw_pending :: bool
  sw_channel :: "nat option list"
  sw_write :: nat
  sw_next :: nat
  sw_closed :: "nat set"
  sw_by_server :: bool
  sw_failed :: bool
  sw_raced :: bool

definition new_swap :: swap where
  "new_swap = \<lparr>sw_sender = Idle, sw_reader = Reading 0, sw_pending = False, sw_channel = [], sw_write = 0, sw_next = 1,
     sw_closed = {}, sw_by_server = False, sw_failed = False, sw_raced = False\<rparr>"

definition reader_gone :: "swap \<Rightarrow> bool" where
  "reader_gone s = (case sw_reader s of Ended _ \<Rightarrow> True | _ \<Rightarrow> False)"

definition found_empty :: "swap \<Rightarrow> bool" where
  "found_empty s = (case sw_reader s of FoundEmpty _ \<Rightarrow> True | _ \<Rightarrow> False)"

text \<open>The reader takes the head of the channel.\<close>

definition take_swap :: "swap \<Rightarrow> swap" where
  "take_swap s =
     (case sw_channel s of
        [] \<Rightarrow> s
      | x # rest \<Rightarrow> s\<lparr>sw_channel := rest, sw_reader := (case x of Some c \<Rightarrow> Reading c | None \<Rightarrow> Ended SwapFailed)\<rparr>)"

inductive swap_step :: "swap \<Rightarrow> swap \<Rightarrow> bool" where
  arm: "sw_sender s = Idle \<Longrightarrow> swap_step s (s\<lparr>sw_pending := True, sw_sender := Armed\<rparr>)"
| release: "sw_sender s = Armed \<Longrightarrow>
    swap_step s (s\<lparr>sw_closed := insert (sw_write s) (sw_closed s), sw_sender := Dialling RECONNECT_ATTEMPTS\<rparr>)"
| dial_fails: "sw_sender s = Dialling (Suc n) \<Longrightarrow> swap_step s (s\<lparr>sw_sender := Dialling n\<rparr>)"
| dial_works: "sw_sender s = Dialling (Suc n) \<Longrightarrow>
    swap_step s (s\<lparr>sw_write := sw_next s, sw_next := Suc (sw_next s), sw_sender := Dialled\<rparr>)"
| hand_over: "sw_sender s = Dialled \<Longrightarrow> \<not> reader_gone s \<Longrightarrow>
    swap_step s (s\<lparr>sw_channel := sw_channel s @ [Some (sw_write s)], sw_sender := HandedOver\<rparr>)"
| no_reader: "sw_sender s = Dialled \<Longrightarrow> reader_gone s \<Longrightarrow>
    swap_step s (s\<lparr>sw_pending := False, sw_sender := Idle\<rparr>)"
| disarm: "sw_sender s = HandedOver \<Longrightarrow>
    swap_step s (s\<lparr>sw_pending := False, sw_sender := Idle, sw_raced := sw_raced s \<or> found_empty s\<rparr>)"
| give_up: "sw_sender s = Dialling 0 \<Longrightarrow>
    swap_step s (s\<lparr>sw_channel := sw_channel s @ [None], sw_sender := GaveUp, sw_failed := True\<rparr>)"
| disarm_failed: "sw_sender s = GaveUp \<Longrightarrow> swap_step s (s\<lparr>sw_pending := False, sw_sender := Idle\<rparr>)"
| server_closes: "c < sw_next s \<Longrightarrow> swap_step s (s\<lparr>sw_closed := insert c (sw_closed s), sw_by_server := True\<rparr>)"
| end_of_stream: "sw_reader s = Reading c \<Longrightarrow> c \<in> sw_closed s \<Longrightarrow> swap_step s (s\<lparr>sw_reader := AtEnd c\<rparr>)"
| adopt: "sw_reader s = AtEnd c \<Longrightarrow> sw_channel s \<noteq> [] \<Longrightarrow> swap_step s (take_swap s)"
| look_empty: "sw_reader s = AtEnd c \<Longrightarrow> sw_channel s = [] \<Longrightarrow> swap_step s (s\<lparr>sw_reader := FoundEmpty c\<rparr>)"
| await: "sw_reader s = FoundEmpty c \<Longrightarrow> sw_pending s \<Longrightarrow> swap_step s (s\<lparr>sw_reader := Awaiting c\<rparr>)"
| no_swap: "sw_reader s = FoundEmpty c \<Longrightarrow> \<not> sw_pending s \<Longrightarrow> swap_step s (s\<lparr>sw_reader := Ended NoSwapSeen\<rparr>)"
| adopt_late: "sw_reader s = Awaiting c \<Longrightarrow> sw_channel s \<noteq> [] \<Longrightarrow> swap_step s (take_swap s)"
| grace_over: "sw_reader s = Awaiting c \<Longrightarrow> sw_channel s = [] \<Longrightarrow> swap_step s (s\<lparr>sw_reader := Ended GraceOver\<rparr>)"

inductive swap_reachable :: "swap \<Rightarrow> bool" where
  start: "swap_reachable new_swap"
| step: "swap_reachable s \<Longrightarrow> swap_step s t \<Longrightarrow> swap_reachable t"

subsection \<open>The invariant\<close>

fun on_connection :: "swap_reader \<Rightarrow> nat option" where
  "on_connection (Reading c) = Some c"
| "on_connection (AtEnd c) = Some c"
| "on_connection (FoundEmpty c) = Some c"
| "on_connection (Awaiting c) = Some c"
| "on_connection (Ended _) = None"

text \<open>The connection the reader will be on once it has taken all that is in the channel.\<close>

definition headed_for :: "nat \<Rightarrow> nat option list \<Rightarrow> nat option" where
  "headed_for c ch = List.last (Some c # ch)"

definition past_end :: "swap_reader \<Rightarrow> nat option" where
  "past_end r = (case r of Reading _ \<Rightarrow> None | Ended _ \<Rightarrow> None | AtEnd c \<Rightarrow> Some c | FoundEmpty c \<Rightarrow> Some c | Awaiting c \<Rightarrow> Some c)"

definition swap_inv :: "swap \<Rightarrow> bool" where
  "swap_inv s \<longleftrightarrow>
     sw_pending s = (sw_sender s \<noteq> Idle) \<and> sw_write s < sw_next s \<and>
     (\<not> sw_failed s \<longrightarrow> None \<notin> set (sw_channel s)) \<and>
     (\<not> sw_failed s \<longrightarrow> sw_sender s \<noteq> Dialled \<longrightarrow> sw_sender s \<noteq> GaveUp \<longrightarrow>
        (\<forall>c. on_connection (sw_reader s) = Some c \<longrightarrow> headed_for c (sw_channel s) = Some (sw_write s))) \<and>
     (\<not> sw_by_server s \<longrightarrow> \<not> sw_failed s \<longrightarrow> sw_sender s \<in> {Idle, Armed, Dialled, HandedOver} \<longrightarrow> sw_write s \<notin> sw_closed s) \<and>
     (\<forall>c. past_end (sw_reader s) = Some c \<longrightarrow> c \<in> sw_closed s) \<and>
     (\<forall>c \<in> sw_closed s. c < sw_next s) \<and>
     (\<not> sw_pending s \<longrightarrow> found_empty s \<longrightarrow> sw_by_server s \<or> sw_failed s \<or> sw_raced s) \<and>
     (sw_reader s = Ended NoSwapSeen \<longrightarrow> sw_by_server s \<or> sw_failed s \<or> sw_raced s) \<and>
     (sw_reader s = Ended SwapFailed \<longrightarrow> sw_failed s) \<and>
     (sw_sender s = GaveUp \<longrightarrow> sw_failed s)"

lemma headed_simps [simp]:
  "headed_for c [] = Some c" "headed_for c (ch @ [x]) = x" "headed_for c (Some d # ch) = headed_for d ch"
  by (simp_all add: headed_for_def)

lemma swap_inv_new: "swap_inv new_swap"
  by (simp add: swap_inv_def new_swap_def past_end_def found_empty_def)

lemma take_swap_inv:
  assumes "swap_inv s" "sw_channel s \<noteq> []" "past_end (sw_reader s) \<noteq> None"
  shows "swap_inv (take_swap s)"
proof -
  obtain x rest where ch: "sw_channel s = x # rest" using assms(2) by (cases "sw_channel s") auto
  obtain c where c: "on_connection (sw_reader s) = Some c"
    using assms(3) by (cases "sw_reader s") (auto simp: past_end_def)
  show ?thesis
  proof (cases x)
    case None
    then show ?thesis using assms(1) ch by (auto simp: swap_inv_def take_swap_def past_end_def found_empty_def)
  next
    case (Some d)
    then show ?thesis using assms(1) ch c by (auto simp: swap_inv_def take_swap_def past_end_def found_empty_def)
  qed
qed

lemma swap_step_inv:
  assumes "swap_step s t" "swap_inv s"
  shows "swap_inv t"
  using assms
proof (cases rule: swap_step.cases)
  case (look_empty c)
  have "sw_by_server s \<or> sw_failed s" if "\<not> sw_pending s"
    using assms(2) look_empty that by (auto simp: swap_inv_def past_end_def)
  then show ?thesis using assms(2) look_empty by (auto simp: swap_inv_def past_end_def found_empty_def)
next
  case (adopt c)
  then show ?thesis using assms(2) take_swap_inv by (simp add: past_end_def)
next
  case (adopt_late c)
  then show ?thesis using assms(2) take_swap_inv by (simp add: past_end_def)
qed (auto simp: swap_inv_def past_end_def found_empty_def reader_gone_def RECONNECT_ATTEMPTS_def
    split: swap_reader.splits)

lemma swap_reachable_inv: "swap_reachable s \<Longrightarrow> swap_inv s"
  by (induction rule: swap_reachable.induct) (auto intro: swap_inv_new swap_step_inv)


subsection \<open>What the two halves agree on\<close>

text \<open>
  C19 (halves_agree). Whenever no re-attach is under way and none has failed, the reader of a herdr
  stream that still runs, once it has taken what is in the channel, is on the connection
  that the sender writes to: however the threads interleave and however many re-attaches ran, keys
  and frames end up on one connection, so on one terminal.
\<close>

theorem halves_agree:
  assumes "swap_reachable s" "sw_sender s = Idle" "\<not> sw_failed s" "on_connection (sw_reader s) = Some c"
  shows "headed_for c (sw_channel s) = Some (sw_write s)"
  using swap_reachable_inv [OF assms(1)] assms(2-4) by (simp add: swap_inv_def)

text \<open>Two re-attaches the reader has not yet noticed: the old connection is read, two are in the channel.\<close>

definition swapped_twice :: swap where
  "swapped_twice = \<lparr>sw_sender = Idle, sw_reader = Reading 0, sw_pending = False, sw_channel = [Some 1, Some 2],
     sw_write = 2, sw_next = 3, sw_closed = {1, 0}, sw_by_server = False, sw_failed = False, sw_raced = False\<rparr>"

lemma reach:
  "swap_reachable s \<Longrightarrow> swap_step s t \<Longrightarrow> t = u \<Longrightarrow> swap_reachable u"
  by (auto intro: swap_reachable.step)

lemma one_reattach:
  assumes "swap_reachable s" "sw_sender s = Idle" "\<not> reader_gone s"
  shows "swap_reachable (s\<lparr>sw_sender := Idle, sw_pending := False, sw_channel := sw_channel s @ [Some (sw_next s)],
     sw_write := sw_next s, sw_next := Suc (sw_next s), sw_closed := insert (sw_write s) (sw_closed s),
     sw_raced := sw_raced s \<or> found_empty s\<rparr>)"
proof -
  let ?a = "s\<lparr>sw_pending := True, sw_sender := Armed\<rparr>"
  let ?b = "?a\<lparr>sw_closed := insert (sw_write s) (sw_closed s), sw_sender := Dialling RECONNECT_ATTEMPTS\<rparr>"
  let ?c = "?b\<lparr>sw_write := sw_next s, sw_next := Suc (sw_next s), sw_sender := Dialled\<rparr>"
  let ?d = "?c\<lparr>sw_channel := sw_channel s @ [Some (sw_next s)], sw_sender := HandedOver\<rparr>"
  have "swap_reachable ?a" by (rule reach [OF assms(1) swap_step.arm]) (simp_all add: assms)
  then have "swap_reachable ?b" by (rule reach [OF _ swap_step.release]) simp_all
  then have "swap_reachable ?c"
    by (rule reach [OF _ swap_step.dial_works [where n = 1]]) (simp_all add: RECONNECT_ATTEMPTS_def)
  then have "swap_reachable ?d"
    by (rule reach [OF _ swap_step.hand_over]) (use assms(3) in \<open>simp_all add: reader_gone_def\<close>)
  then show ?thesis
    by (rule reach [OF _ swap_step.disarm]) (simp_all add: found_empty_def)
qed

lemma swapped_twice_reachable: "swap_reachable swapped_twice"
proof -
  have "swap_reachable (new_swap\<lparr>sw_sender := Idle, sw_pending := False, sw_channel := [Some 1], sw_write := 1,
      sw_next := 2, sw_closed := {0}, sw_raced := False\<rparr>)"
    using one_reattach [OF swap_reachable.start] by (simp add: new_swap_def reader_gone_def found_empty_def numeral_2_eq_2)
  from one_reattach [OF this] show ?thesis
    by (simp add: new_swap_def reader_gone_def found_empty_def swapped_twice_def numeral_2_eq_2 numeral_3_eq_3)
qed

theorem halves_agree_witness:
  "headed_for 0 (sw_channel swapped_twice) = Some (sw_write swapped_twice) \<and> sw_write swapped_twice = 2"
  using halves_agree [OF swapped_twice_reachable, of 0] by (simp add: swapped_twice_def)

lemma reader_ends_for_cause:
  assumes "swap_reachable s" "sw_reader s = Ended e" "e \<noteq> GraceOver"
  shows "sw_by_server s \<or> sw_failed s \<or> sw_raced s"
  using swap_reachable_inv [OF assms(1)] assms(2,3) by (cases e) (auto simp: swap_inv_def)

text \<open>
  (swap_lost_race). \<open>recv\<close> looks at the channel first and at the flag second, and \<open>reattach\<close>
  hands the connection over first and clears the flag second. A hand-over and a clear that both fall
  between the reader's two looks are missed: the reader ends the stream as after a disconnect by
  the server, although no connection was closed by the server, no attempt failed, and the live new
  connection is waiting in the channel.
\<close>

theorem swap_lost_race:
  "\<exists>s. swap_reachable s \<and> sw_reader s = Ended NoSwapSeen \<and> sw_sender s = Idle \<and> \<not> sw_by_server s \<and>
     \<not> sw_failed s \<and> sw_write s \<notin> sw_closed s \<and> sw_channel s = [Some (sw_write s)]"
proof -
  let ?a = "new_swap\<lparr>sw_pending := True, sw_sender := Armed\<rparr>"
  let ?b = "?a\<lparr>sw_closed := {0}, sw_sender := Dialling RECONNECT_ATTEMPTS\<rparr>"
  let ?c = "?b\<lparr>sw_reader := AtEnd 0\<rparr>"
  let ?d = "?c\<lparr>sw_reader := FoundEmpty 0\<rparr>"
  let ?e = "?d\<lparr>sw_write := 1, sw_next := 2, sw_sender := Dialled\<rparr>"
  let ?f = "?e\<lparr>sw_channel := [Some 1], sw_sender := HandedOver\<rparr>"
  let ?g = "?f\<lparr>sw_pending := False, sw_sender := Idle, sw_raced := True\<rparr>"
  let ?h = "?g\<lparr>sw_reader := Ended NoSwapSeen\<rparr>"
  have "swap_reachable ?a" by (rule reach [OF swap_reachable.start swap_step.arm]) (simp_all add: new_swap_def)
  then have "swap_reachable ?b" by (rule reach [OF _ swap_step.release]) (simp_all add: new_swap_def)
  then have "swap_reachable ?c" by (rule reach [OF _ swap_step.end_of_stream [where c = 0]]) (simp_all add: new_swap_def)
  then have "swap_reachable ?d" by (rule reach [OF _ swap_step.look_empty [where c = 0]]) (simp_all add: new_swap_def)
  then have "swap_reachable ?e"
    by (rule reach [OF _ swap_step.dial_works [where n = 1]]) (simp_all add: new_swap_def RECONNECT_ATTEMPTS_def)
  then have "swap_reachable ?f"
    by (rule reach [OF _ swap_step.hand_over]) (simp_all add: new_swap_def reader_gone_def)
  then have "swap_reachable ?g" by (rule reach [OF _ swap_step.disarm]) (simp_all add: new_swap_def found_empty_def)
  then have "swap_reachable ?h" by (rule reach [OF _ swap_step.no_swap [where c = 0]]) (simp_all add: new_swap_def)
  then show ?thesis by (intro exI [of _ ?h]) (simp add: new_swap_def)
qed

subsection \<open>How long a re-attach may take\<close>

definition WIRE_TIMEOUT :: nat where "WIRE_TIMEOUT = 3"
definition CONNECT_SLACK :: nat where "CONNECT_SLACK = 1"
definition SWAP_SLACK :: nat where "SWAP_SLACK = 1"
definition SWAP_GRACE :: nat where
  "SWAP_GRACE = RECONNECT_ATTEMPTS * (3 * WIRE_TIMEOUT + CONNECT_SLACK) + SWAP_SLACK"

text \<open>
  The bounds of the operations of one attempt, in their order: the ping of \<open>discover_protocol\<close> is
  written and answered on the control socket (its own connect is as free as the wire's), then
  come the connect, the hello, the welcome and the attach.
\<close>

definition attempt_bounds :: "nat \<Rightarrow> nat list" where
  "attempt_bounds read_timeout =
     [read_timeout, read_timeout, CONNECT_SLACK, WIRE_TIMEOUT, WIRE_TIMEOUT, WIRE_TIMEOUT]"

lemma grace_covers_wire_only:
  "sum_list (attempt_bounds 0) * RECONNECT_ATTEMPTS \<le> SWAP_GRACE"
  "SWAP_GRACE < sum_list (attempt_bounds 3) * RECONNECT_ATTEMPTS"
  by (simp_all add: attempt_bounds_def SWAP_GRACE_def RECONNECT_ATTEMPTS_def WIRE_TIMEOUT_def CONNECT_SLACK_def
      SWAP_SLACK_def)

end
