(* ===== verification/CtlNet.thy ===== *)
theory CtlNet
  imports Prelude
begin

text \<open>
  The addresses \<open>muxrctl\<close> works with: \<open>IpAddr::from_str\<close> of the standard library (the parser
  the certificate and pairing code calls), the interface filter of
  \<open>muxrctl/src/pairing/net.rs\<close>, the choice of the host a pairing QR advertises
  (\<open>muxrctl/src/tui/runner.rs\<close>) and the pairing URI of \<open>muxrctl/src/pairing/payload.rs\<close>.
  The base64 of the token is a library's and stays a parameter.
\<close>

subsection \<open>\<open>IpAddr\<close>\<close>

datatype ip = V4 nat nat nat nat | V6 "nat list"

text \<open>\<open>char::to_digit\<close>.\<close>

definition to_digit :: "nat \<Rightarrow> char \<Rightarrow> nat option" where
  "to_digit radix c =
     (let b = byte c;
          d = (if is_ascii_digit c then Some (b - 48)
               else if is_ascii_lower c then Some (b - 87)
               else if is_ascii_upper c then Some (b - 55) else None)
      in case d of Some n \<Rightarrow> if n < radix then Some n else None | None \<Rightarrow> None)"

fun take_digits :: "nat \<Rightarrow> string \<Rightarrow> nat list \<times> string" where
  "take_digits radix [] = ([], [])"
| "take_digits radix (c # s) =
     (case to_digit radix c of
        None \<Rightarrow> ([], c # s)
      | Some d \<Rightarrow> (let (ds, r) = take_digits radix s in (d # ds, r)))"

text \<open>\<open>Parser::read_number\<close>: at most \<open>max_digits\<close> digits, below \<open>lim\<close>.\<close>

definition read_number :: "nat \<Rightarrow> nat \<Rightarrow> bool \<Rightarrow> nat \<Rightarrow> string \<Rightarrow> (nat \<times> string) option" where
  "read_number radix max_digits allow_zero_prefix lim s =
     (let (ds, r) = take_digits radix s;
          v = foldl (\<lambda>n d. n * radix + d) 0 ds
      in if ds = [] \<or> max_digits < length ds \<or> lim \<le> v \<or>
            (\<not> allow_zero_prefix \<and> hd s = CHR ''0'' \<and> 1 < length ds) then None
         else Some (v, r))"

definition read_separator :: "char \<Rightarrow> nat \<Rightarrow> (string \<Rightarrow> ('a \<times> string) option) \<Rightarrow> string \<Rightarrow> ('a \<times> string) option" where
  "read_separator sep index inner s =
     (if index = 0 then inner s
      else (case s of [] \<Rightarrow> None | c # r \<Rightarrow> if c = sep then inner r else None))"

definition read_octet :: "nat \<Rightarrow> string \<Rightarrow> (nat \<times> string) option" where
  "read_octet index = read_separator CHR ''.'' index (read_number 10 3 False 256)"

definition read_ipv4 :: "string \<Rightarrow> ((nat \<times> nat \<times> nat \<times> nat) \<times> string) option" where
  "read_ipv4 s =
     Option.bind (read_octet 0 s) (\<lambda>(a, s1). Option.bind (read_octet 1 s1) (\<lambda>(b, s2).
     Option.bind (read_octet 2 s2) (\<lambda>(c, s3). Option.bind (read_octet 3 s3) (\<lambda>(d, s4).
     Some ((a, b, c, d), s4)))))"

text \<open>The groups read, whether they end in an embedded IPv4 address, and the rest.\<close>

fun read_groups :: "nat \<Rightarrow> nat \<Rightarrow> string \<Rightarrow> nat list \<times> bool \<times> string" where
  "read_groups i 0 s = ([], False, s)"
| "read_groups i (Suc n) s =
     (case (if 0 < n then read_separator CHR '':'' i read_ipv4 s else None) of
        Some ((a, b, c, d), r) \<Rightarrow> ([a * 256 + b, c * 256 + d], True, r)
      | None \<Rightarrow>
          (case read_separator CHR '':'' i (read_number 16 4 True 65536) s of
             None \<Rightarrow> ([], False, s)
           | Some (g, r) \<Rightarrow> (let (gs, v4, r') = read_groups (Suc i) n r in (g # gs, v4, r'))))"

definition read_ipv6 :: "string \<Rightarrow> (nat list \<times> string) option" where
  "read_ipv6 s =
     (let (head, head_v4, r) = read_groups 0 8 s
      in if length head = 8 then Some (head, r)
         else if head_v4 then None
         else (case r of
                 c # d # r' \<Rightarrow>
                   if c = CHR '':'' \<and> d = CHR '':''
                   then (let (tail, _, r'') = read_groups 0 (7 - length head) r'
                         in Some (head @ replicate (8 - length head - length tail) 0 @ tail, r''))
                   else None
               | _ \<Rightarrow> None))"

definition parse_ip :: "string \<Rightarrow> ip option" where
  "parse_ip s =
     (case read_ipv4 s of
        Some ((a, b, c, d), r) \<Rightarrow> if r = [] then Some (V4 a b c d) else None
      | None \<Rightarrow> (case read_ipv6 s of Some (gs, r) \<Rightarrow> if r = [] then Some (V6 gs) else None | None \<Rightarrow> None))"

fun is_unspecified :: "ip \<Rightarrow> bool" where
  "is_unspecified (V4 a b c d) = (a = 0 \<and> b = 0 \<and> c = 0 \<and> d = 0)"
| "is_unspecified (V6 gs) = (gs = replicate 8 0)"

fun is_loopback :: "ip \<Rightarrow> bool" where
  "is_loopback (V4 a b c d) = (a = 127)"
| "is_loopback (V6 gs) = (gs = replicate 7 0 @ [1])"

type_synonym ipv4 = "nat \<times> nat \<times> nat \<times> nat"

definition ipv4_ok :: "ipv4 \<Rightarrow> bool" where
  "ipv4_ok = (\<lambda>(a, b, c, d). a < 256 \<and> b < 256 \<and> c < 256 \<and> d < 256)"

definition of_ipv4 :: "ipv4 \<Rightarrow> ip" where
  "of_ipv4 = (\<lambda>(a, b, c, d). V4 a b c d)"

definition show_ipv4 :: "ipv4 \<Rightarrow> string" where
  "show_ipv4 = (\<lambda>(a, b, c, d). dec a @ ''.'' @ dec b @ ''.'' @ dec c @ ''.'' @ dec d)"

subsection \<open>Printing and parsing an IPv4 address\<close>

lemma to_digit_digit_char: "d < 10 \<Longrightarrow> to_digit 10 (digit_char d) = Some d"
  by (simp add: to_digit_def is_ascii_digit_def byte_digit_char)

lemma to_digit_dot: "to_digit 10 CHR ''.'' = None"
  by (simp add: to_digit_def byte_classes)

text \<open>What may follow a number: nothing, or a character that is no digit.\<close>

definition stops :: "string \<Rightarrow> bool" where
  "stops r \<longleftrightarrow> (case r of [] \<Rightarrow> True | c # _ \<Rightarrow> to_digit 10 c = None)"

lemma stops_simps [simp]: "stops []" "stops (CHR ''.'' # r)"
  by (simp_all add: stops_def to_digit_dot)

lemma take_digits_stop: "stops r \<Longrightarrow> take_digits 10 r = ([], r)"
  by (cases r) (simp_all add: stops_def)

lemma take_digits_append:
  "list_all (\<lambda>c. to_digit 10 c \<noteq> None) s \<Longrightarrow> stops r \<Longrightarrow>
    take_digits 10 (s @ r) = (map (\<lambda>c. the (to_digit 10 c)) s, r)"
  by (induction s) (auto simp: take_digits_stop)

lemma dec_digits: "list_all (\<lambda>c. to_digit 10 c \<noteq> None) (dec n)"
proof (induction n rule: dec.induct)
  case (1 n)
  show ?case
  proof (cases "n < 10")
    case True
    then show ?thesis by (simp add: dec.simps[of n] to_digit_digit_char)
  next
    case False
    then show ?thesis using 1 by (simp add: dec.simps[of n] to_digit_digit_char)
  qed
qed

lemma dec_value: "foldl (\<lambda>n d. n * 10 + d) 0 (map (\<lambda>c. the (to_digit 10 c)) (dec n)) = n"
proof (induction n rule: dec.induct)
  case (1 n)
  show ?case
  proof (cases "n < 10")
    case True
    then show ?thesis by (simp add: dec.simps[of n] to_digit_digit_char)
  next
    case False
    then show ?thesis using 1 by (simp add: dec.simps[of n] to_digit_digit_char)
  qed
qed

lemma dec_length_octet: "n < 256 \<Longrightarrow> length (dec n) \<le> 3"
proof -
  assume n: "n < 256"
  have "n div 10 div 10 < 10" using n by simp
  then show ?thesis by (simp add: dec.simps[of n] dec.simps[of "n div 10"] dec.simps[of "n div 10 div 10"])
qed

lemma dec_hd: "0 < n \<Longrightarrow> hd (dec n) \<noteq> CHR ''0''"
proof (induction n rule: dec.induct)
  case (1 n)
  show ?case
  proof (cases "n < 10")
    case True
    have "digit_char n \<noteq> digit_char 0" using digit_char_inj[of n 0] True 1(2) by auto
    moreover have "digit_char 0 = CHR ''0''" by code_simp
    ultimately show ?thesis using True by (simp add: dec.simps[of n])
  next
    case False
    then show ?thesis using 1 by (simp add: dec.simps[of n] hd_append)
  qed
qed

lemma read_number_dec:
  assumes "n < 256" "stops r"
  shows "read_number 10 3 False 256 (dec n @ r) = Some (n, r)"
proof -
  have t: "take_digits 10 (dec n @ r) = (map (\<lambda>c. the (to_digit 10 c)) (dec n), r)"
    using take_digits_append[OF dec_digits assms(2)] .
  have z: "\<not> (hd (dec n @ r) = CHR ''0'' \<and> 1 < length (dec n))"
  proof (cases "n = 0")
    case True
    then show ?thesis by (simp add: dec.simps[of 0])
  next
    case False
    then show ?thesis using dec_hd[of n] by (simp add: hd_append)
  qed
  show ?thesis
    using z dec_value[of n] dec_length_octet[OF assms(1)] assms(1) by (auto simp: read_number_def t Let_def)
qed

lemma read_octet_dec:
  assumes "n < 256" "stops r"
  shows "read_octet 0 (dec n @ r) = Some (n, r)"
    and "read_octet (Suc i) (CHR ''.'' # dec n @ r) = Some (n, r)"
  using read_number_dec[OF assms] by (simp_all add: read_octet_def read_separator_def)

lemma parse_show_ipv4: "ipv4_ok p \<Longrightarrow> parse_ip (show_ipv4 p) = Some (of_ipv4 p)"
proof -
  assume ok: "ipv4_ok p"
  obtain a b c d where p: "p = (a, b, c, d)" by (metis surj_pair)
  have lt: "a < 256" "b < 256" "c < 256" "d < 256" using ok by (simp_all add: ipv4_ok_def p)
  have d': "read_octet 3 (CHR ''.'' # dec d) = Some (d, [])"
    using read_octet_dec(2)[of d "[]" 2] lt by (simp add: numeral_3_eq_3)
  have "read_ipv4 (show_ipv4 p) = Some ((a, b, c, d), [])"
    using read_octet_dec(2)[of b "''.'' @ dec c @ ''.'' @ dec d" 0]
      read_octet_dec(2)[of c "''.'' @ dec d" 1] lt d'
    by (simp add: p show_ipv4_def read_ipv4_def read_octet_dec numeral_2_eq_2)
  then show ?thesis by (simp add: parse_ip_def of_ipv4_def p)
qed


subsection \<open>Trimming text without blanks at its ends\<close>

lemma ws_code_ends:
  assumes "q \<in> set ws_codes"
  shows "q \<noteq> [] \<and> \<not> is_ascii_alphanumeric (hd q) \<and> \<not> is_ascii_alphanumeric (List.last q)"
proof -
  have b: "map byte q \<in> set white_space"
    using assms by (auto simp: ws_codes_def white_space_def byte_def o_def)
  have "list_all (\<lambda>bs. bs \<noteq> [] \<and> (hd bs \<le> 32 \<or> 128 \<le> hd bs) \<and> (List.last bs \<le> 32 \<or> 128 \<le> List.last bs)) white_space"
    by (simp add: white_space_def upt_rec)
  with b have e: "map byte q \<noteq> [] \<and> (hd (map byte q) \<le> 32 \<or> 128 \<le> hd (map byte q)) \<and>
      (List.last (map byte q) \<le> 32 \<or> 128 \<le> List.last (map byte q))"
    by (auto simp only: list_all_iff)
  then have "q \<noteq> []" by simp
  with e show ?thesis
    by (auto simp: hd_map last_map is_ascii_alphanumeric_def is_ascii_digit_def is_ascii_lower_def is_ascii_upper_def)
qed

lemma strip_one_None: "(\<And>p t. p \<in> set ps \<Longrightarrow> p \<noteq> [] \<Longrightarrow> s \<noteq> p @ t) \<Longrightarrow> strip_one ps s = None"
proof -
  assume "\<And>p t. p \<in> set ps \<Longrightarrow> p \<noteq> [] \<Longrightarrow> s \<noteq> p @ t"
  then have "filter (\<lambda>p. strip_prefix p s \<noteq> None \<and> p \<noteq> []) ps = []"
    by (auto simp: filter_empty_conv strip_prefix_Some)
  then show ?thesis unfolding strip_one_def by simp
qed

lemma trim_solid:
  assumes "s \<noteq> []" "is_ascii_alphanumeric (hd s)" "is_ascii_alphanumeric (List.last s)"
  shows "trim s = s"
proof -
  have "strip_one ws_codes s = None"
    using ws_code_ends assms(2) by (intro strip_one_None) (auto simp: hd_append)
  moreover have "strip_one (map rev ws_codes) (rev s) = None"
  proof (rule strip_one_None)
    fix p t
    assume p: "p \<in> set (map rev ws_codes)" "p \<noteq> []"
    then obtain q where q: "q \<in> set ws_codes" "p = rev q" by auto
    show "rev s \<noteq> p @ t"
    proof
      assume "rev s = p @ t"
      then have "s = rev t @ q" using q(2) by (metis rev_append rev_rev_ident)
      then show False using ws_code_ends[OF q(1)] assms(3) by (simp add: last_append)
    qed
  qed
  ultimately show ?thesis by (simp add: trim_def trim_start_def strip_all_id)
qed

lemma strip_all_None: "strip_one ps (strip_all ps s) = None"
proof (induction ps s rule: strip_all.induct)
  case (1 ps s)
  then show ?case by (cases "strip_one ps s") (simp_all add: strip_all.simps[of ps s])
qed

lemma strip_all_suffix: "\<exists>p. s = p @ strip_all ps s"
proof (induction ps s rule: strip_all.induct)
  case (1 ps s)
  show ?case
  proof (cases "strip_one ps s")
    case None
    then show ?thesis by (simp add: strip_all.simps[of ps s])
  next
    case (Some t)
    then obtain q where "s = q @ t"
      by (auto simp: strip_one_def filter_eq_Cons_iff strip_prefix_Some split: list.splits)
    moreover obtain p where "t = p @ strip_all ps t" using 1[OF Some] by blast
    ultimately have "s = (q @ p) @ strip_all ps t" by simp
    then show ?thesis using Some by (metis strip_all.simps option.simps(5))
  qed
qed

lemma strip_one_NoneD:
  assumes "strip_one ps s = None" "p \<in> set ps" "p \<noteq> []"
  shows "s \<noteq> p @ t"
proof
  let ?f = "filter (\<lambda>p. strip_prefix p s \<noteq> None \<and> p \<noteq> []) ps"
  assume "s = p @ t"
  then have "p \<in> set ?f" using assms(2,3) by (simp add: strip_prefix_Some)
  then have "?f \<noteq> []" by (metis list.set(1) empty_iff)
  then obtain q qs where f: "?f = q # qs" by (meson list.exhaust)
  then have "q \<in> set ?f" by (metis list.set_intros(1))
  then have "strip_prefix q s \<noteq> None" by auto
  then show False using assms(1) f by (simp add: strip_one_def)
qed

lemma strip_one_prefix: "strip_one ps (s @ t) = None \<Longrightarrow> strip_one ps s = None"
  by (rule strip_one_None) (metis append_assoc strip_one_NoneD)

text \<open>Nothing is left to trim of a trimmed text.\<close>

lemma trim_trim [simp]: "trim (trim s) = trim s"
proof -
  let ?a = "trim_start s" and ?rs = "map rev ws_codes"
  obtain p where p: "rev ?a = p @ strip_all ?rs (rev ?a)" using strip_all_suffix by blast
  then have a: "?a = trim s @ rev p" unfolding trim_def by (metis rev_append rev_rev_ident)
  have "strip_one ws_codes ?a = None" by (simp add: trim_start_def strip_all_None)
  then have "strip_one ws_codes (trim s) = None" using a strip_one_prefix by metis
  then have "trim_start (trim s) = trim s" by (simp add: trim_start_def strip_all_id)
  moreover have "strip_all ?rs (rev (trim s)) = rev (trim s)"
    by (simp add: trim_def strip_all_id strip_all_None)
  ultimately show ?thesis by (simp add: trim_def[of "trim s"])
qed

text \<open>The text around the last occurrence of a character, as \<open>rfind\<close> splits it.\<close>

definition rsplit_once :: "char \<Rightarrow> string \<Rightarrow> (string \<times> string) option" where
  "rsplit_once d s = map_option (\<lambda>(b, a). (rev a, rev b)) (split_once d (rev s))"

subsection \<open>Reachable addresses\<close>

text \<open>\<open>pairing/net.rs\<close>, on the IPv4 addresses of the interfaces.\<close>

definition is_link_local :: "ipv4 \<Rightarrow> bool" where
  "is_link_local = (\<lambda>(a, b, c, d). a = 169 \<and> b = 254)"

definition reachable_step :: "ipv4 \<Rightarrow> ipv4 list \<Rightarrow> ipv4 list" where
  "reachable_step p out =
     (if is_loopback (of_ipv4 p) \<or> is_link_local p \<or> is_unspecified (of_ipv4 p) \<or> p \<in> set out then out
      else out @ [p])"

definition reachable_ipv4 :: "ipv4 list option \<Rightarrow> ipv4 list" where
  "reachable_ipv4 ifaces = (case ifaces of None \<Rightarrow> [] | Some ps \<Rightarrow> fold reachable_step ps [])"

lemma reachable_ipv4_sound:
  "p \<in> set (reachable_ipv4 (Some ps)) \<longleftrightarrow>
     p \<in> set ps \<and> \<not> is_loopback (of_ipv4 p) \<and> \<not> is_link_local p \<and> \<not> is_unspecified (of_ipv4 p)"
proof -
  have "p \<in> set (fold reachable_step ps out) \<longleftrightarrow> p \<in> set out \<or>
      (p \<in> set ps \<and> \<not> is_loopback (of_ipv4 p) \<and> \<not> is_link_local p \<and> \<not> is_unspecified (of_ipv4 p))" for out
    by (induction ps arbitrary: out) (auto simp: reachable_step_def)
  then show ?thesis by (simp add: reachable_ipv4_def)
qed

lemma reachable_ipv4_distinct: "distinct (reachable_ipv4 ifaces)"
proof -
  have "distinct out \<Longrightarrow> distinct (fold reachable_step ps out)" for ps out
    by (induction ps arbitrary: out) (simp_all add: reachable_step_def)
  then show ?thesis by (cases ifaces) (simp_all add: reachable_ipv4_def)
qed

subsection \<open>The advertised host\<close>

definition is_concrete_advertise_host :: "string \<Rightarrow> bool" where
  "is_concrete_advertise_host host =
     (let h = trim host
      in h \<noteq> [] \<and> (case parse_ip h of Some ip \<Rightarrow> \<not> is_loopback ip \<and> \<not> is_unspecified ip | None \<Rightarrow> True))"

definition choose_advertise_host :: "string \<Rightarrow> string list \<Rightarrow> ipv4 list option \<Rightarrow> string" where
  "choose_advertise_host bind_host advertise_sans ifaces =
     (if is_concrete_advertise_host bind_host then bind_host
      else (case find is_concrete_advertise_host advertise_sans of
              Some adv \<Rightarrow> trim adv
            | None \<Rightarrow> (case reachable_ipv4 ifaces of ip # _ \<Rightarrow> show_ipv4 ip | [] \<Rightarrow> bind_host)))"

subsection \<open>The pairing URI\<close>

datatype pairing_trust = PinTrust string | CaTrust

record pairing_params =
  pp_host :: string
  pp_port :: "16 word"
  pp_trust :: pairing_trust
  pp_token :: string
  pp_read_only :: bool
  pp_label :: string

definition is_unreserved :: "char \<Rightarrow> bool" where
  "is_unreserved c \<longleftrightarrow> is_ascii_alphanumeric c \<or> c \<in> set ''-_.~''"

definition upper_hex :: "nat \<Rightarrow> char" where
  "upper_hex d = char_of (if d < 10 then 48 + d else 55 + d)"

definition percent_byte :: "char \<Rightarrow> string" where
  "percent_byte c =
     (if is_unreserved c then [c] else [CHR ''%'', upper_hex (byte c div 16), upper_hex (byte c mod 16)])"

definition percent_encode :: "string \<Rightarrow> string" where
  "percent_encode s = concat (map percent_byte s)"

definition trust_suffix :: "pairing_trust \<Rightarrow> string" where
  "trust_suffix t = (case t of PinTrust fp \<Rightarrow> ''tm=pin&fp='' @ fp | CaTrust \<Rightarrow> ''tm=ca'')"

text \<open>\<open>b64\<close> is \<open>URL_SAFE_NO_PAD.encode\<close>.\<close>

definition to_uri :: "(string \<Rightarrow> string) \<Rightarrow> pairing_params \<Rightarrow> string" where
  "to_uri b64 p =
     ''muxr://pair?v=2&h='' @ pp_host p @ ''&p='' @ dec (unat (pp_port p)) @ ''&t='' @ b64 (pp_token p) @
     ''&ro='' @ (if pp_read_only p then ''1'' else ''0'') @ ''&n='' @ percent_encode (pp_label p) @
     ''&'' @ trust_suffix (pp_trust p)"

subsection \<open>Reading a pairing URI back\<close>

text \<open>
  What the format described at the head of \<open>payload.rs\<close> says: the query is split at \<open>&\<close>, each
  field at its first \<open>=\<close>, percent escapes are undone in the label.
\<close>

fun split_at :: "char \<Rightarrow> string \<Rightarrow> string list" where
  "split_at d [] = [[]]"
| "split_at d (c # s) =
     (if c = d then [] # split_at d s
      else (case split_at d s of [] \<Rightarrow> [[c]] | w # ws \<Rightarrow> (c # w) # ws))"

definition uri_fields :: "string \<Rightarrow> (string \<times> string) option list option" where
  "uri_fields uri = map_option (\<lambda>q. map (split_once CHR ''='') (split_at CHR ''&'' q)) (strip_prefix ''muxr://pair?'' uri)"

fun percent_decode :: "string \<Rightarrow> string option" where
  "percent_decode [] = Some []"
| "percent_decode (c # s) =
     (if c = CHR ''%''
      then (case s of
              h # l # r \<Rightarrow>
                (case (to_digit 16 h, to_digit 16 l) of
                   (Some a, Some b) \<Rightarrow> map_option (Cons (char_of (16 * a + b))) (percent_decode r)
                 | _ \<Rightarrow> None)
            | _ \<Rightarrow> None)
      else map_option (Cons c) (percent_decode s))"

lemma split_at_last: "d \<notin> set w \<Longrightarrow> split_at d w = [w]"
  by (induction w) auto

lemma split_at_append: "d \<notin> set w \<Longrightarrow> split_at d (w @ d # s) = w # split_at d s"
  by (induction w) auto

lemma byte_lt: "byte c < 256"
  by (simp add: byte_def)

lemma upper_hex_digit: "d < 16 \<Longrightarrow> to_digit 16 (upper_hex d) = Some d"
proof -
  assume d: "d < 16"
  have "byte (upper_hex d) = (if d < 10 then 48 + d else 55 + d)"
    using d by (simp add: upper_hex_def byte_def)
  then show ?thesis using d by (simp add: to_digit_def is_ascii_digit_def is_ascii_lower_def is_ascii_upper_def)
qed

lemma percent_byte_decode: "percent_decode (percent_byte c @ s) = map_option (Cons c) (percent_decode s)"
proof (cases "is_unreserved c")
  case True
  then have "c \<noteq> CHR ''%''" by (auto simp: is_unreserved_def byte_classes)
  then show ?thesis using True by (simp add: percent_byte_def)
next
  case False
  have "byte c div 16 < 16" "byte c mod 16 < 16" using byte_lt[of c] by simp_all
  moreover have "char_of (16 * (byte c div 16) + byte c mod 16) = c"
    by (simp only: mult_div_mod_eq) (simp add: byte_def)
  ultimately show ?thesis using False by (simp add: percent_byte_def upper_hex_digit)
qed

lemma percent_decode_encode: "percent_decode (percent_encode s) = Some s"
  by (induction s) (simp_all add: percent_encode_def percent_byte_decode)


definition field :: "string \<Rightarrow> (string \<times> string) option \<Rightarrow> string option" where
  "field k f = (case f of Some (k', v) \<Rightarrow> if k' = k then Some v else None | None \<Rightarrow> None)"

definition read_trust :: "(string \<times> string) option list \<Rightarrow> pairing_trust option" where
  "read_trust fs =
     (case fs of
        [tm] \<Rightarrow> if field ''tm'' tm = Some ''ca'' then Some CaTrust else None
      | [tm, fp] \<Rightarrow> if field ''tm'' tm = Some ''pin'' then map_option PinTrust (field ''fp'' fp) else None
      | _ \<Rightarrow> None)"

definition read_pairing :: "(string \<Rightarrow> string option) \<Rightarrow> string \<Rightarrow> pairing_params option" where
  "read_pairing b64d uri =
     (case uri_fields uri of
        Some (v # h # p # t # ro # n # trust) \<Rightarrow>
          if field ''v'' v \<noteq> Some ''2'' then None
          else
            Option.bind (field ''h'' h) (\<lambda>host.
            Option.bind (Option.bind (field ''p'' p) (read_number 10 5 True 65536)) (\<lambda>(port, r).
            Option.bind (Option.bind (field ''t'' t) b64d) (\<lambda>token.
            Option.bind (field ''ro'' ro) (\<lambda>ro.
            Option.bind (Option.bind (field ''n'' n) percent_decode) (\<lambda>label.
            Option.bind (read_trust trust) (\<lambda>trust.
            if r = [] \<and> ro \<in> {''0'', ''1''}
            then Some \<lparr>pp_host = host, pp_port = of_nat port, pp_trust = trust, pp_token = token,
                       pp_read_only = ro = ''1'', pp_label = label\<rparr>
            else None))))))
      | _ \<Rightarrow> None)"

lemma nibble_amp: "CHR ''&'' \<noteq> upper_hex (byte c div 16)" "CHR ''&'' \<noteq> upper_hex (byte c mod 16)"
proof -
  have "upper_hex d \<noteq> CHR ''&''" if "d < 16" for d
  proof
    assume "upper_hex d = CHR ''&''"
    then have "to_digit 16 CHR ''&'' = Some d" using upper_hex_digit[OF that] by simp
    then show False by (simp add: to_digit_def byte_classes)
  qed
  moreover have "byte c div 16 < 16" "byte c mod 16 < 16" using byte_lt[of c] by simp_all
  ultimately show "CHR ''&'' \<noteq> upper_hex (byte c div 16)" "CHR ''&'' \<noteq> upper_hex (byte c mod 16)" by metis+
qed

lemma amp_reserved: "\<not> is_unreserved CHR ''&''"
  by (simp add: is_unreserved_def byte_classes)

lemma amp_free_percent: "CHR ''&'' \<notin> set (percent_encode s)"
  using nibble_amp amp_reserved by (auto simp: percent_encode_def percent_byte_def)

lemma amp_free_dec: "CHR ''&'' \<notin> set (dec n)"
proof
  assume "CHR ''&'' \<in> set (dec n)"
  then have "to_digit 10 CHR ''&'' \<noteq> None" using dec_digits[of n] by (auto simp: list_all_iff)
  then show False by (simp add: to_digit_def byte_classes)
qed

lemma split_once_named: "d \<notin> set k \<Longrightarrow> split_once d (k @ d # v) = Some (k, v)"
  by simp

lemma to_uri_fields:
  assumes "CHR ''&'' \<notin> set (pp_host p)" "CHR ''&'' \<notin> set (b64 (pp_token p))"
    "\<And>fp. pp_trust p = PinTrust fp \<Longrightarrow> CHR ''&'' \<notin> set fp"
  shows "uri_fields (to_uri b64 p) = Some (map Some
     ([(''v'', ''2''), (''h'', pp_host p), (''p'', dec (unat (pp_port p))), (''t'', b64 (pp_token p)),
       (''ro'', if pp_read_only p then ''1'' else ''0''), (''n'', percent_encode (pp_label p))] @
      (case pp_trust p of PinTrust fp \<Rightarrow> [(''tm'', ''pin''), (''fp'', fp)] | CaTrust \<Rightarrow> [(''tm'', ''ca'')])))"
proof -
  have q: "split_at CHR ''&'' (w @ CHR ''&'' # s) = w # split_at CHR ''&'' s" if "CHR ''&'' \<notin> set w" for w s
    using that by (rule split_at_append)
  note host = q[of "''h='' @ pp_host p"] and port = q[of "''p='' @ dec (unat (pp_port p))"]
    and token = q[of "''t='' @ b64 (pp_token p)"] and label = q[of "''n='' @ percent_encode (pp_label p)"]
  show ?thesis
  proof (cases "pp_trust p")
    case (PinTrust fp)
    have "split_at CHR ''&'' (''fp='' @ fp) = [''fp='' @ fp]"
      by (rule split_at_last) (use assms(3)[OF PinTrust] in simp)
    then show ?thesis
      using host port token label assms amp_free_dec amp_free_percent
      by (simp add: uri_fields_def to_uri_def trust_suffix_def PinTrust)
  next
    case CaTrust
    then show ?thesis
      using host port token label assms amp_free_dec amp_free_percent
      by (simp add: uri_fields_def to_uri_def trust_suffix_def)
  qed
qed

lemma dec_length: "n < 10 ^ k \<Longrightarrow> 0 < k \<Longrightarrow> length (dec n) \<le> k"
proof (induction k arbitrary: n)
  case (Suc k)
  show ?case
  proof (cases "n < 10")
    case True
    then show ?thesis by (simp add: dec.simps[of n])
  next
    case False
    have k: "0 < k" using False Suc.prems(1) by (cases k) simp_all
    have "n div 10 < 10 ^ k" using Suc.prems(1) by (simp add: less_mult_imp_div_less)
    from Suc.IH[OF this k] show ?thesis using False by (simp add: dec.simps[of n])
  qed
qed simp

lemma read_port: "n < 65536 \<Longrightarrow> read_number 10 5 True 65536 (dec n) = Some (n, [])"
  using take_digits_append[OF dec_digits, of "[]" n] dec_value[of n] dec_length[of n 5]
  by (simp add: read_number_def Let_def)

text \<open>
  C24 (a pairing URI). When neither the host nor the encoded token nor the fingerprint contains
  \<open>&\<close>, a pairing URI reads back as exactly what it was built from, whatever the label: the escapes
  keep every label inside its field.
\<close>

theorem pairing_uri_reads_back:
  assumes "CHR ''&'' \<notin> set (pp_host p)" "\<And>t. CHR ''&'' \<notin> set (b64 t)"
    "\<And>fp. pp_trust p = PinTrust fp \<Longrightarrow> CHR ''&'' \<notin> set fp" "\<And>t. b64d (b64 t) = Some t"
  shows "read_pairing b64d (to_uri b64 p) = Some p"
proof -
  have port: "unat (pp_port p) < 65536" using unsigned_less[of "pp_port p"] by simp
  show ?thesis
    using to_uri_fields[OF assms(1) assms(2) assms(3)] read_port[OF port] assms(4) percent_decode_encode
    by (simp add: read_pairing_def field_def read_trust_def split: pairing_trust.splits)
qed

definition demo_pairing :: pairing_params where
  "demo_pairing = \<lparr>pp_host = ''10.0.0.5'', pp_port = 50051, pp_trust = PinTrust ''a1b2'', pp_token = ''s3cret'',
     pp_read_only = True, pp_label = ''Home & away''\<rparr>"

text \<open>An injective encoding into letters, for the instance.\<close>

definition demo_b64 :: "string \<Rightarrow> string" where
  "demo_b64 s = concat (map (\<lambda>c. [upper_hex (byte c div 16), upper_hex (byte c mod 16)]) s)"

fun demo_b64d :: "string \<Rightarrow> string option" where
  "demo_b64d (h # l # r) =
     (case (to_digit 16 h, to_digit 16 l) of
        (Some a, Some b) \<Rightarrow> map_option (Cons (char_of (16 * a + b))) (demo_b64d r)
      | _ \<Rightarrow> None)"
| "demo_b64d r = (if r = [] then Some [] else None)"

lemma demo_b64_ok: "demo_b64d (demo_b64 s) = Some s" "CHR ''&'' \<notin> set (demo_b64 s)"
proof -
  have "char_of (16 * (byte c div 16) + byte c mod 16) = c" "byte c div 16 < 16" "byte c mod 16 < 16" for c
    using byte_lt[of c] by (simp_all only: mult_div_mod_eq) (simp_all add: byte_def)
  then show "demo_b64d (demo_b64 s) = Some s" by (induction s) (simp_all add: demo_b64_def upper_hex_digit)
  show "CHR ''&'' \<notin> set (demo_b64 s)" using nibble_amp by (auto simp: demo_b64_def)
qed

theorem pairing_uri_reads_back_witness:
  "read_pairing demo_b64d (to_uri demo_b64 demo_pairing) = Some demo_pairing"
  by (rule pairing_uri_reads_back) (simp_all add: demo_b64_ok demo_pairing_def)

end
