(* ===== verification/CtlState.thy ===== *)
theory CtlState
  imports CtlNet
begin

text \<open>
  The model of \<open>muxrctl\<close>, the terminal control panel: its state, messages and side effects
  (\<open>muxrctl/src/app/state\<close>, \<open>message.rs\<close>, \<open>action.rs\<close>). The application is written as a pure
  reducer from a state and a message to a state and a list of effects.

  The modal stack and the focus belong to the \<open>ratcn\<close> library. They are a parameter: a value of
  type \<open>'u\<close> with the operations \<open>ui_ops\<close>, of which the code relies on \<open>ui_laws\<close>. Messages for
  people (toasts, inline errors) are constructors, or the text a task reported.
\<close>

subsection \<open>Dialogs\<close>

datatype dialog_id =
    DConfig | DStopServer | DCert | DCertHelp | DCertRegenConfirm | DTokens | DTokenCreate | DTokenMinted
  | DTokenRevokeConfirm | DQr | DDevices | DDeviceRemoveConfirm | DWizard

fun dialog_name :: "dialog_id \<Rightarrow> string" where
  "dialog_name DConfig = ''config''"
| "dialog_name DStopServer = ''stop_server''"
| "dialog_name DCert = ''cert''"
| "dialog_name DCertHelp = ''cert_help''"
| "dialog_name DCertRegenConfirm = ''cert_regen_confirm''"
| "dialog_name DTokens = ''tokens''"
| "dialog_name DTokenCreate = ''token_create''"
| "dialog_name DTokenMinted = ''token_minted''"
| "dialog_name DTokenRevokeConfirm = ''token_revoke_confirm''"
| "dialog_name DQr = ''qr''"
| "dialog_name DDevices = ''devices''"
| "dialog_name DDeviceRemoveConfirm = ''device_remove_confirm''"
| "dialog_name DWizard = ''wizard''"

definition all_dialogs :: "dialog_id list" where
  "all_dialogs = [DConfig, DStopServer, DCert, DCertHelp, DCertRegenConfirm, DTokens, DTokenCreate, DTokenMinted,
     DTokenRevokeConfirm, DQr, DDevices, DDeviceRemoveConfirm, DWizard]"

definition dialog_parse :: "string \<Rightarrow> dialog_id option" where
  "dialog_parse s = find (\<lambda>d. dialog_name d = s) all_dialogs"

lemma dialog_parse_name [simp]: "dialog_parse (dialog_name d) = Some d"
  by (cases d) (simp_all add: dialog_parse_def all_dialogs_def)

lemma dialog_name_inj [simp]: "dialog_name d = dialog_name e \<longleftrightarrow> d = e"
  by (metis dialog_parse_name option.inject)

subsection \<open>The modal stack of the library\<close>

text \<open>
  \<open>ui_open\<close> is \<open>ModalState::open\<close> (\<open>None\<close>: it reports an error), \<open>ui_close\<close> is \<open>ModalState::close\<close>,
  \<open>ui_ids\<close> the open ids, innermost last, which \<open>top\<close> and \<open>is_open\<close> read, \<open>ui_focus\<close> the
  assignment of a focus and \<open>ui_intent\<close> is \<open>FocusState::intent\<close>.
\<close>

record ('u, 'f) ui_ops =
  ui_open :: "string \<Rightarrow> 'u \<Rightarrow> 'u option"
  ui_close :: "'u \<Rightarrow> (string \<times> 'u) option"
  ui_ids :: "'u \<Rightarrow> string list"
  ui_focus :: "'f \<Rightarrow> 'u \<Rightarrow> 'u"
  ui_intent :: "string list \<Rightarrow> 'f"

text \<open>
  What \<open>open_dialog\<close> and \<open>close_dialog\<close> document: re-opening the top is a no-op, opening one that is
  open below another is refused, a close pops the top.
\<close>

definition ui_laws :: "('u, 'f) ui_ops \<Rightarrow> bool" where
  "ui_laws u \<longleftrightarrow>
     (\<forall>i s s'. ui_open u i s = Some s' \<longrightarrow>
        ui_ids u s' = (if ui_ids u s \<noteq> [] \<and> List.last (ui_ids u s) = i then ui_ids u s else ui_ids u s @ [i])) \<and>
     (\<forall>i s. i \<notin> set (ui_ids u s) \<longrightarrow> ui_open u i s \<noteq> None) \<and>
     (\<forall>i s. i \<in> set (ui_ids u s) \<longrightarrow> List.last (ui_ids u s) \<noteq> i \<longrightarrow> ui_open u i s = None) \<and>
     (\<forall>s. ui_close u s = None \<longleftrightarrow> ui_ids u s = []) \<and>
     (\<forall>s i s'. ui_close u s = Some (i, s') \<longrightarrow> ui_ids u s = ui_ids u s' @ [i]) \<and>
     (\<forall>f s. ui_ids u (ui_focus u f s) = ui_ids u s)"

subsection \<open>Configuration, daemon, certificate\<close>

datatype ui_text = BindHostEmpty | BadPort | ConfigBusy | DaemonBusy | NoMintedSecret | CertReady | DeviceGone | Reported string

record config_state =
  cf_host :: string
  cf_port :: string
  cf_reachable :: "ipv4 list"
  cf_cursor :: "ipv4 option"
  cf_ip_open :: bool
  cf_cert_dir :: string
  cf_sans :: "string list"
  cf_loading :: bool
  cf_error :: "ui_text option"
  cf_pending_save :: bool

definition bind_addr :: "config_state \<Rightarrow> string" where
  "bind_addr c = cf_host c @ '':'' @ cf_port c"

definition apply_bind_addr :: "string \<Rightarrow> config_state \<Rightarrow> config_state" where
  "apply_bind_addr addr c =
     (case rsplit_once CHR '':'' addr of
        Some (h, p) \<Rightarrow> c\<lparr>cf_host := h, cf_port := p\<rparr>
      | None \<Rightarrow> c\<lparr>cf_host := addr, cf_port := ''50051''\<rparr>)"

datatype config_msg =
    HostChanged string | PortChanged string | IpOpenChanged bool | IpFocused ipv4 | IpPicked ipv4 | SaveConfig | CancelConfig

record server_info =
  si_version :: string
  si_bind_addr :: string
  si_pid :: "32 word"
  si_uptime_secs :: "64 word"
  si_client_count :: nat
  si_notify_relay_url :: "string option"
  si_push_device_count :: nat

record server_panel =
  sv_status :: "server_info option"
  sv_stopped :: bool
  sv_loading :: bool
  sv_tick_counter :: "32 word"

definition is_running :: "server_panel \<Rightarrow> bool" where
  "is_running s \<longleftrightarrow> sv_status s \<noteq> None \<and> \<not> sv_stopped s"

datatype server_msg = StartDaemon | StopRequested | StopConfirmed | StopCancelled | RefreshServer

datatype tls_mode = TlsSelfSigned | TlsExternal | TlsH2c

datatype advertise_trust = TrustAuto | TrustCa | TrustPin

fun trust_cycle :: "advertise_trust \<Rightarrow> advertise_trust" where
  "trust_cycle TrustAuto = TrustCa" | "trust_cycle TrustCa = TrustPin" | "trust_cycle TrustPin = TrustAuto"

fun trust_index :: "advertise_trust \<Rightarrow> nat" where
  "trust_index TrustAuto = 0" | "trust_index TrustCa = 1" | "trust_index TrustPin = 2"

definition trust_from_index :: "nat \<Rightarrow> advertise_trust" where
  "trust_from_index i = (if i = 1 then TrustCa else if i = 2 then TrustPin else TrustAuto)"

fun persist_str :: "advertise_trust \<Rightarrow> string" where
  "persist_str TrustAuto = ''auto''" | "persist_str TrustCa = ''ca''" | "persist_str TrustPin = ''pin''"

definition from_persist_str :: "string \<Rightarrow> advertise_trust" where
  "from_persist_str s =
     (let t = map ascii_lower (trim s)
      in if t = ''ca'' then TrustCa else if t = ''pin'' then TrustPin else TrustAuto)"

text \<open>\<open>server/ctl_state.rs\<close>: what is read back from the state file; \<open>None\<close> when it cannot be read.\<close>

definition parse_advertise_trust :: "string \<Rightarrow> string" where
  "parse_advertise_trust raw =
     (let t = map ascii_lower (trim raw)
      in if t = ''ca'' then ''ca'' else if t = ''pin'' then ''pin'' else ''auto'')"

definition load_advertise_trust :: "string option \<Rightarrow> string" where
  "load_advertise_trust file = (case file of Some content \<Rightarrow> parse_advertise_trust content | None \<Rightarrow> ''auto'')"

record cert_state =
  ce_fingerprint :: "string option"
  ce_sans :: "string list"
  ce_mode :: "tls_mode option"
  ce_loading :: bool
  ce_trust :: advertise_trust
  ce_help_scroll :: nat

datatype cert_msg =
    CloseCert | TrustChanged nat | OpenHelp | CloseHelp | HelpScrolled nat
  | RegenerateRequested | RegenerateConfirmed | RegenerateCancelled | RefreshCert

text \<open>A subject alternative name: an address or a DNS name.\<close>

datatype san = SanIp string | SanDns string

definition san_from_host :: "string \<Rightarrow> san" where
  "san_from_host host = (let h = trim host in if parse_ip h \<noteq> None then SanIp h else SanDns h)"

fun san_value :: "san \<Rightarrow> string" where
  "san_value (SanIp s) = s" | "san_value (SanDns s) = s"

subsection \<open>Tokens and devices\<close>

datatype expiry_choice = NeverExpires | ThirtyMinutes | OneHour | OneDay | SevenDays

definition all_expiries :: "expiry_choice list" where
  "all_expiries = [NeverExpires, ThirtyMinutes, OneHour, OneDay, SevenDays]"

fun expiry_index :: "expiry_choice \<Rightarrow> nat" where
  "expiry_index NeverExpires = 0" | "expiry_index ThirtyMinutes = 1" | "expiry_index OneHour = 2"
| "expiry_index OneDay = 3" | "expiry_index SevenDays = 4"

definition expiry_from_index :: "nat \<Rightarrow> expiry_choice" where
  "expiry_from_index i = all_expiries ! (i mod 5)"

fun ttl_secs :: "expiry_choice \<Rightarrow> int option" where
  "ttl_secs NeverExpires = None"
| "ttl_secs ThirtyMinutes = Some (30 * 60)"
| "ttl_secs OneHour = Some (60 * 60)"
| "ttl_secs OneDay = Some (24 * 60 * 60)"
| "ttl_secs SevenDays = Some (7 * 24 * 60 * 60)"

record ctl_token =
  tr_name :: string
  tr_created_at :: string
  tr_read_only :: bool

datatype qr_phase = Generating | Showing string string "16 word" string | QrConnected | QrFailed string

record qr_overlay =
  qr_phase :: qr_phase
  qr_seq :: "64 word"
  qr_baseline :: nat
  qr_token_name :: string
  qr_read_only :: bool
  qr_ticks :: "32 word"

record tokens_state =
  tk_tokens :: "ctl_token list"
  tk_focused :: "string option"
  tk_loading :: bool
  tk_minted :: "(string \<times> string \<times> bool) option"
  tk_form_name :: string
  tk_form_read_only :: bool
  tk_form_expiry :: expiry_choice
  tk_qr :: "qr_overlay option"

definition focused_record :: "tokens_state \<Rightarrow> ctl_token option" where
  "focused_record t = Option.bind (tk_focused t) (\<lambda>n. find (\<lambda>r. tr_name r = n) (tk_tokens t))"

definition reset_form :: "tokens_state \<Rightarrow> tokens_state" where
  "reset_form t = t\<lparr>tk_form_name := [], tk_form_read_only := False, tk_form_expiry := NeverExpires\<rparr>"

definition rw_ro_split :: "tokens_state \<Rightarrow> nat \<times> nat" where
  "rw_ro_split t = (let ro = length (filter tr_read_only (tk_tokens t)) in (length (tk_tokens t) - ro, ro))"

datatype tokens_msg =
    CloseTokens | TokenFocused string | CreateRequested | CreateNameChanged string | CreateReadOnlyChanged bool
  | CreateExpiryChanged nat | CreateSubmit | CreateCancel | MintedDone | MintedShowQr | RevokeRequested
  | RevokeConfirmed | RevokeCancelled | ShowQrForMinted | QrClose | RefreshTokens

record ctl_device =
  cd_name :: string
  cd_platform :: string
  cd_registered_at :: "64 word"
  cd_handle_prefix :: string

record devices_state =
  dv_devices :: "ctl_device list"
  dv_focused :: "string option"
  dv_loading :: bool
  dv_relay_url :: "string option"

definition focused_device :: "devices_state \<Rightarrow> ctl_device option" where
  "focused_device d = Option.bind (dv_focused d) (\<lambda>n. find (\<lambda>r. cd_name r = n) (dv_devices d))"

datatype devices_msg = CloseDevices | DeviceFocused string | RemoveRequested | RemoveConfirmed | RemoveCancelled | RefreshDevices

subsection \<open>The wizard\<close>

datatype wizard_step = Welcome | Network | Certificate | TokenStep | StartStep | Pair

definition all_steps :: "wizard_step list" where
  "all_steps = [Welcome, Network, Certificate, TokenStep, StartStep, Pair]"

fun step_index :: "wizard_step \<Rightarrow> nat" where
  "step_index Welcome = 0" | "step_index Network = 1" | "step_index Certificate = 2"
| "step_index TokenStep = 3" | "step_index StartStep = 4" | "step_index Pair = 5"

definition step_next :: "wizard_step \<Rightarrow> wizard_step" where
  "step_next s = all_steps ! min (step_index s + 1) 5"

definition step_previous :: "wizard_step \<Rightarrow> wizard_step" where
  "step_previous s = all_steps ! (step_index s - 1)"

record wizard_state =
  wz_step :: wizard_step
  wz_first_run_checked :: bool
  wz_busy :: bool
  wz_error :: "ui_text option"
  wz_cert_existed :: bool
  wz_regen_ack :: bool
  wz_cert_seen :: bool
  wz_tokens_seen :: bool
  wz_tokens_mark :: bool

datatype wizard_msg = WizClose | WizNext | WizBack | WizAck bool | WizFinish

subsection \<open>The application\<close>

datatype toast = ToastOk ui_text | ToastErr ui_text

text \<open>\<open>ap_toasts\<close> is what was pushed on the toast stack, oldest first.\<close>

record 'u app_state =
  ap_quit :: bool
  ap_ui :: 'u
  ap_toasts :: "toast list"
  ap_config :: config_state
  ap_server :: server_panel
  ap_cert :: cert_state
  ap_tokens :: tokens_state
  ap_devices :: devices_state
  ap_wizard :: wizard_state
  ap_qr_seq :: "64 word"

record config_snapshot =
  cs_bind_addr :: string
  cs_cert_dir :: string
  cs_reachable_ips :: "ipv4 list"
  cs_advertise_sans :: "string list"

datatype key_code =
    KChar string | KEnter | KBackspace | KDelete | KHome | KEnd | KLeft | KRight | KTab | KBackTab | KEsc | KOther

record key_event =
  ke_code :: key_code
  ke_ctrl :: bool
  ke_alt :: bool

datatype 'f ui_msg =
    UiFocus 'f | UiOpen dialog_id | UiClose | UiConfig config_msg | UiServer server_msg | UiCert cert_msg
  | UiTokens tokens_msg | UiDevices devices_msg | UiWizard wizard_msg

datatype 'f ctl_msg =
    Key key_event | Tick | QuitMsg | Ui "'f ui_msg"
  | StatusLoaded "server_info option"
  | ConfigLoaded config_snapshot
  | CertEnsured string "string list"
  | CertInfoLoaded "string option" "string list"
  | CertModeLoaded "tls_mode option"
  | ActionFailed string
  | ActionOk string
  | TokensLoaded "ctl_token list"
  | TokenCreated string string bool
  | TokensChanged
  | DevicesLoaded "ctl_device list" "string option"
  | DevicesChanged
  | TokenQrReady string string "16 word" string nat "64 word"
  | TokenQrFailed string "64 word"

datatype ctl_action =
    Quit | RefreshStatus | StartServer | StopServer | LoadConfig | SaveBind string | EnsureCert "san list"
  | LoadTokens | CreateToken "string option" bool "int option" | RevokeToken string | LoadDevices
  | RemoveDevice string | ShowTokenQr string bool "64 word" advertise_trust | LoadCertInfo | LoadCertMode
  | SaveAdvertiseTrust advertise_trust

definition new_app :: "'u \<Rightarrow> 'u app_state" where
  "new_app u = \<lparr>ap_quit = False, ap_ui = u, ap_toasts = [],
     ap_config = \<lparr>cf_host = [], cf_port = [], cf_reachable = [], cf_cursor = None, cf_ip_open = False,
       cf_cert_dir = [], cf_sans = [], cf_loading = False, cf_error = None, cf_pending_save = False\<rparr>,
     ap_server = \<lparr>sv_status = None, sv_stopped = False, sv_loading = False, sv_tick_counter = 0\<rparr>,
     ap_cert = \<lparr>ce_fingerprint = None, ce_sans = [], ce_mode = None, ce_loading = False, ce_trust = TrustAuto,
       ce_help_scroll = 0\<rparr>,
     ap_tokens = \<lparr>tk_tokens = [], tk_focused = None, tk_loading = False, tk_minted = None, tk_form_name = [],
       tk_form_read_only = False, tk_form_expiry = NeverExpires, tk_qr = None\<rparr>,
     ap_devices = \<lparr>dv_devices = [], dv_focused = None, dv_loading = False, dv_relay_url = None\<rparr>,
     ap_wizard = \<lparr>wz_step = Welcome, wz_first_run_checked = False, wz_busy = False, wz_error = None,
       wz_cert_existed = False, wz_regen_ack = False, wz_cert_seen = False, wz_tokens_seen = False,
       wz_tokens_mark = False\<rparr>,
     ap_qr_seq = 0\<rparr>"

subsection \<open>Small facts\<close>

lemma trust_index_from [simp]: "trust_from_index (trust_index t) = t"
  by (cases t) (simp_all add: trust_from_index_def)

lemma trust_cycle_index: "trust_cycle t = trust_from_index (Suc (trust_index t) mod 3)"
  by (cases t) (simp_all add: trust_from_index_def)

lemma expiry_index_from [simp]: "expiry_from_index (expiry_index e) = e"
  by (cases e) (simp_all add: expiry_from_index_def all_expiries_def)

lemma step_walk: "step_index (step_next s) = min (step_index s + 1) 5" "step_index (step_previous s) = step_index s - 1"
  by (cases s; simp add: step_next_def step_previous_def all_steps_def numeral_eq_Suc)+

lemma rsplit_once_append: "d \<notin> set p \<Longrightarrow> rsplit_once d (h @ d # p) = Some (h, p)"
  by (simp add: rsplit_once_def)

text \<open>The form reads back what it would save.\<close>

lemma bind_addr_round_trip:
  "CHR '':'' \<notin> set (cf_port c) \<Longrightarrow> apply_bind_addr (bind_addr c) c = c"
  by (simp add: apply_bind_addr_def bind_addr_def rsplit_once_append)

lemma persisted_trust: "from_persist_str (parse_advertise_trust s) = from_persist_str s"
proof -
  have "trim ''ca'' = ''ca''" "trim ''pin'' = ''pin''" "trim ''auto'' = ''auto''"
    by (simp_all add: trim_solid byte_classes)
  moreover have "map ascii_lower ''ca'' = ''ca''" "map ascii_lower ''pin'' = ''pin''" "map ascii_lower ''auto'' = ''auto''"
    by (simp_all add: ascii_lower_def byte_classes)
  ultimately show ?thesis by (simp add: from_persist_str_def parse_advertise_trust_def Let_def)
qed

end
