(* ===== verification/CtlUpdate.thy ===== *)
theory CtlUpdate
  imports CtlState
begin

text \<open>
  The feature reducers of \<open>muxrctl\<close>: the dialogs they open and close, the bind-address form, the
  daemon controls, the certificate, the tokens with their pairing QR, and the push devices
  (\<open>muxrctl/src/app/state/mod.rs\<close> and \<open>app/update/\<close> except the wizard). A reducer takes the state to
  the new state and the effects to perform.
\<close>

subsection \<open>Dialogs and toasts\<close>

definition open_dialog :: "('u, 'f) ui_ops \<Rightarrow> dialog_id \<Rightarrow> 'u app_state \<Rightarrow> 'u app_state" where
  "open_dialog u d s = (case ui_open u (dialog_name d) (ap_ui s) of Some ui \<Rightarrow> s\<lparr>ap_ui := ui\<rparr> | None \<Rightarrow> s)"

definition close_dialog :: "('u, 'f) ui_ops \<Rightarrow> 'u app_state \<Rightarrow> 'u app_state \<times> dialog_id option" where
  "close_dialog u s =
     (case ui_close u (ap_ui s) of
        None \<Rightarrow> (s, None)
      | Some (name, ui) \<Rightarrow> (s\<lparr>ap_ui := ui\<rparr>, dialog_parse name))"

definition top_dialog :: "('u, 'f) ui_ops \<Rightarrow> 'u app_state \<Rightarrow> dialog_id option" where
  "top_dialog u s = (case ui_ids u (ap_ui s) of [] \<Rightarrow> None | ids \<Rightarrow> dialog_parse (List.last ids))"

definition dialog_open :: "('u, 'f) ui_ops \<Rightarrow> dialog_id \<Rightarrow> 'u app_state \<Rightarrow> bool" where
  "dialog_open u d s \<longleftrightarrow> dialog_name d \<in> set (ui_ids u (ap_ui s))"

definition push_toast :: "toast \<Rightarrow> 'u app_state \<Rightarrow> 'u app_state" where
  "push_toast t s = s\<lparr>ap_toasts := ap_toasts s @ [t]\<rparr>"

text \<open>One feature of the state is changed.\<close>

definition in_config :: "(config_state \<Rightarrow> config_state) \<Rightarrow> 'u app_state \<Rightarrow> 'u app_state" where
  "in_config f s = s\<lparr>ap_config := f (ap_config s)\<rparr>"

definition in_server :: "(server_panel \<Rightarrow> server_panel) \<Rightarrow> 'u app_state \<Rightarrow> 'u app_state" where
  "in_server f s = s\<lparr>ap_server := f (ap_server s)\<rparr>"

definition in_cert :: "(cert_state \<Rightarrow> cert_state) \<Rightarrow> 'u app_state \<Rightarrow> 'u app_state" where
  "in_cert f s = s\<lparr>ap_cert := f (ap_cert s)\<rparr>"

definition in_tokens :: "(tokens_state \<Rightarrow> tokens_state) \<Rightarrow> 'u app_state \<Rightarrow> 'u app_state" where
  "in_tokens f s = s\<lparr>ap_tokens := f (ap_tokens s)\<rparr>"

definition in_devices :: "(devices_state \<Rightarrow> devices_state) \<Rightarrow> 'u app_state \<Rightarrow> 'u app_state" where
  "in_devices f s = s\<lparr>ap_devices := f (ap_devices s)\<rparr>"

definition in_wizard :: "(wizard_state \<Rightarrow> wizard_state) \<Rightarrow> 'u app_state \<Rightarrow> 'u app_state" where
  "in_wizard f s = s\<lparr>ap_wizard := f (ap_wizard s)\<rparr>"

lemmas in_parts = in_config_def in_server_def in_cert_def in_tokens_def in_devices_def in_wizard_def push_toast_def

definition open_hook :: "('u, 'f) ui_ops \<Rightarrow> dialog_id \<Rightarrow> 'u app_state \<Rightarrow> 'u app_state \<times> ctl_action list" where
  "open_hook u d s0 =
     (let s = open_dialog u d s0
      in case d of
           DConfig \<Rightarrow> (in_config (\<lambda>c. c\<lparr>cf_loading := True, cf_error := None\<rparr>) s, [LoadConfig])
         | DCert \<Rightarrow>
             (in_cert (\<lambda>c. c\<lparr>ce_loading := True\<rparr>) (in_config (\<lambda>c. c\<lparr>cf_loading := True\<rparr>) s),
              [LoadConfig, LoadCertInfo, LoadCertMode])
         | DTokens \<Rightarrow> (in_tokens (\<lambda>t. t\<lparr>tk_loading := True\<rparr>) s, [LoadTokens])
         | DDevices \<Rightarrow> (in_devices (\<lambda>d. d\<lparr>dv_loading := True\<rparr>) s, [LoadDevices])
         | _ \<Rightarrow> (s, []))"

definition refresh_after_close :: "dialog_id \<Rightarrow> 'u app_state \<Rightarrow> 'u app_state \<times> ctl_action list" where
  "refresh_after_close d s =
     (if d \<in> {DTokens, DTokenCreate, DTokenMinted} then (in_tokens (\<lambda>t. t\<lparr>tk_loading := True\<rparr>) s, [LoadTokens])
      else if d = DDevices then (in_devices (\<lambda>d. d\<lparr>dv_loading := True\<rparr>) s, [LoadDevices])
      else if d \<in> {DCert, DCertRegenConfirm} then (in_cert (\<lambda>c. c\<lparr>ce_loading := True\<rparr>) s, [LoadCertInfo])
      else if d = DConfig then (in_config (\<lambda>c. c\<lparr>cf_loading := True\<rparr>) s, [LoadConfig])
      else (s, []))"

definition close_top :: "('u, 'f) ui_ops \<Rightarrow> 'u app_state \<Rightarrow> 'u app_state \<times> ctl_action list" where
  "close_top u s = (case close_dialog u s of (s', Some d) \<Rightarrow> refresh_after_close d s' | (s', None) \<Rightarrow> (s', []))"

definition clear_loading :: "'u app_state \<Rightarrow> 'u app_state" where
  "clear_loading s =
     in_devices (\<lambda>d. d\<lparr>dv_loading := False\<rparr>) (in_tokens (\<lambda>t. t\<lparr>tk_loading := False\<rparr>)
       (in_server (\<lambda>v. v\<lparr>sv_loading := False\<rparr>) (in_cert (\<lambda>c. c\<lparr>ce_loading := False\<rparr>)
         (in_config (\<lambda>c. c\<lparr>cf_loading := False\<rparr>) s))))"

subsection \<open>The bind-address form\<close>

text \<open>\<open>u16::from_str\<close> of the port, as \<open>Ok(1..)\<close>: an optional plus sign and digits, in range.\<close>

definition port_ok :: "string \<Rightarrow> bool" where
  "port_ok p =
     (case digits_val (case p of [] \<Rightarrow> [] | c # ds \<Rightarrow> if c = CHR ''+'' then ds else p) of
        Some n \<Rightarrow> 1 \<le> n \<and> n \<le> 65535 | None \<Rightarrow> False)"

definition save_config :: "'u app_state \<Rightarrow> 'u app_state \<times> ctl_action list" where
  "save_config s =
     (let c = ap_config s
      in if cf_loading c then (s, [])
         else if trim (cf_host c) = [] then (in_config (\<lambda>c. c\<lparr>cf_error := Some BindHostEmpty\<rparr>) s, [])
         else if \<not> port_ok (trim (cf_port c)) then (in_config (\<lambda>c. c\<lparr>cf_error := Some BadPort\<rparr>) s, [])
         else (in_config (\<lambda>c. c\<lparr>cf_error := None, cf_loading := True, cf_pending_save := True\<rparr>) s,
               [SaveBind (bind_addr c)]))"

definition config_update :: "('u, 'f) ui_ops \<Rightarrow> config_msg \<Rightarrow> 'u app_state \<Rightarrow> 'u app_state \<times> ctl_action list" where
  "config_update u m s =
     (case m of
        HostChanged h \<Rightarrow> (in_config (\<lambda>c. c\<lparr>cf_host := h, cf_error := None\<rparr>) s, [])
      | PortChanged p \<Rightarrow> (in_config (\<lambda>c. c\<lparr>cf_port := filter is_ascii_digit p, cf_error := None\<rparr>) s, [])
      | IpOpenChanged b \<Rightarrow> (in_config (\<lambda>c. c\<lparr>cf_ip_open := b\<rparr>) s, [])
      | IpFocused ip \<Rightarrow> (in_config (\<lambda>c. c\<lparr>cf_cursor := Some ip\<rparr>) s, [])
      | IpPicked ip \<Rightarrow>
          (in_config (\<lambda>c. c\<lparr>cf_host := show_ipv4 ip, cf_cursor := Some ip, cf_ip_open := False, cf_error := None\<rparr>) s, [])
      | SaveConfig \<Rightarrow> save_config s
      | CancelConfig \<Rightarrow> close_top u s)"

definition on_config_loaded :: "config_snapshot \<Rightarrow> 'u app_state \<Rightarrow> 'u app_state" where
  "on_config_loaded n s =
     in_config (\<lambda>c.
       let c1 = (apply_bind_addr (cs_bind_addr n) c)\<lparr>cf_cert_dir := cs_cert_dir n,
             cf_reachable := cs_reachable_ips n, cf_sans := cs_advertise_sans n\<rparr>;
           c2 = (case cf_cursor c1 of
                   Some ip \<Rightarrow> if ip \<in> set (cf_reachable c1) then c1 else c1\<lparr>cf_cursor := None\<rparr>
                 | None \<Rightarrow> c1)
       in c2\<lparr>cf_loading := False\<rparr>) s"

subsection \<open>The pairing QR layer\<close>

definition qr_result :: "64 word \<Rightarrow> (qr_overlay \<Rightarrow> qr_overlay) \<Rightarrow> 'u app_state \<Rightarrow> 'u app_state" where
  "qr_result seq f s =
     (case tk_qr (ap_tokens s) of
        Some q \<Rightarrow> if qr_seq q = seq then in_tokens (\<lambda>t. t\<lparr>tk_qr := Some (f q)\<rparr>) s else s
      | None \<Rightarrow> s)"

definition on_qr_ready :: "string \<Rightarrow> string \<Rightarrow> 16 word \<Rightarrow> string \<Rightarrow> nat \<Rightarrow> 64 word \<Rightarrow> 'u app_state \<Rightarrow> 'u app_state" where
  "on_qr_ready uri host port fp baseline seq =
     qr_result seq (\<lambda>q. q\<lparr>qr_baseline := baseline, qr_phase := Showing uri host port fp\<rparr>)"

definition on_qr_failed :: "string \<Rightarrow> 64 word \<Rightarrow> 'u app_state \<Rightarrow> 'u app_state" where
  "on_qr_failed err seq = qr_result seq (\<lambda>q. q\<lparr>qr_phase := QrFailed err\<rparr>)"

definition is_showing :: "qr_overlay \<Rightarrow> bool" where
  "is_showing q = (case qr_phase q of Showing _ _ _ _ \<Rightarrow> True | _ \<Rightarrow> False)"

definition check_overlay_connection :: "nat \<Rightarrow> 'u app_state \<Rightarrow> 'u app_state" where
  "check_overlay_connection n s =
     (case tk_qr (ap_tokens s) of
        Some q \<Rightarrow>
          if is_showing q \<and> qr_baseline q < n
          then in_tokens (\<lambda>t. t\<lparr>tk_qr := Some (q\<lparr>qr_phase := QrConnected\<rparr>)\<rparr>) s else s
      | None \<Rightarrow> s)"

definition on_status_for_qr :: "nat option \<Rightarrow> 'u app_state \<Rightarrow> 'u app_state" where
  "on_status_for_qr clients s = (case clients of Some n \<Rightarrow> check_overlay_connection n s | None \<Rightarrow> s)"

definition tokens_tick :: "'u app_state \<Rightarrow> 'u app_state \<times> ctl_action list" where
  "tokens_tick s =
     (if sv_loading (ap_server s) then (s, [])
      else (case tk_qr (ap_tokens s) of
              None \<Rightarrow> (s, [])
            | Some q \<Rightarrow>
                if \<not> is_showing q then (s, [])
                else
                  (let q' = q\<lparr>qr_ticks := qr_ticks q + 1\<rparr>;
                       s' = in_tokens (\<lambda>t. t\<lparr>tk_qr := Some q'\<rparr>) s
                   in if qr_ticks q' mod 20 = 0 then (in_server (\<lambda>v. v\<lparr>sv_loading := True\<rparr>) s', [RefreshStatus])
                      else (s', []))))"

text \<open>The overlay and the effect that builds its QR, for the held secret.\<close>

definition start_qr :: "string \<times> string \<times> bool \<Rightarrow> 'u app_state \<Rightarrow> 'u app_state \<times> ctl_action" where
  "start_qr m s =
     (case m of (name, secret, ro) \<Rightarrow>
        (let seq = ap_qr_seq s + 1
         in (in_tokens (\<lambda>t. t\<lparr>tk_qr := Some \<lparr>qr_phase = Generating, qr_seq = seq, qr_baseline = 0,
                  qr_token_name = name, qr_read_only = ro, qr_ticks = 0\<rparr>\<rparr>) (s\<lparr>ap_qr_seq := seq\<rparr>),
             ShowTokenQr secret ro seq (ce_trust (ap_cert s)))))"

definition open_qr :: "('u, 'f) ui_ops \<Rightarrow> 'u app_state \<Rightarrow> 'u app_state \<times> ctl_action list" where
  "open_qr u s =
     (case tk_minted (ap_tokens s) of
        None \<Rightarrow> (push_toast (ToastErr NoMintedSecret) s, [])
      | Some m \<Rightarrow>
          (let (s1, a) = start_qr m s; (s2, acts) = open_hook u DQr s1
           in (s2, acts @ [a])))"

subsection \<open>The daemon\<close>

definition server_update :: "('u, 'f) ui_ops \<Rightarrow> server_msg \<Rightarrow> 'u app_state \<Rightarrow> 'u app_state \<times> ctl_action list" where
  "server_update u m s =
     (case m of
        StartDaemon \<Rightarrow>
          if sv_loading (ap_server s) then (s, [])
          else (in_server (\<lambda>v. v\<lparr>sv_loading := True, sv_stopped := False\<rparr>) s, [StartServer])
      | StopRequested \<Rightarrow> open_hook u DStopServer s
      | StopConfirmed \<Rightarrow>
          (let (s1, acts) = close_top u s
           in if sv_loading (ap_server s1) then (s1, acts)
              else (in_server (\<lambda>v. v\<lparr>sv_loading := True\<rparr>) s1, acts @ [StopServer]))
      | StopCancelled \<Rightarrow> close_top u s
      | RefreshServer \<Rightarrow>
          if sv_loading (ap_server s) then (s, [])
          else (in_server (\<lambda>v. v\<lparr>sv_loading := True\<rparr>) s, [RefreshStatus]))"

definition server_status_loaded :: "server_info option \<Rightarrow> 'u app_state \<Rightarrow> 'u app_state" where
  "server_status_loaded i s =
     on_status_for_qr (map_option si_client_count i)
       (in_server (\<lambda>v. v\<lparr>sv_status := i, sv_stopped := (i = None), sv_loading := False\<rparr>) s)"

subsection \<open>The certificate\<close>

definition is_wildcard :: "string \<Rightarrow> bool" where
  "is_wildcard h = (case parse_ip h of Some ip \<Rightarrow> is_unspecified ip | None \<Rightarrow> False)"

text \<open>One more name, unless it is empty, a wildcard or already in.\<close>

definition add_san :: "string \<Rightarrow> san list \<Rightarrow> san list" where
  "add_san entry sans =
     (let v = trim entry
      in if v = [] \<or> is_wildcard v \<or> v \<in> set (map san_value sans) then sans else sans @ [san_from_host v])"

definition add_reachable :: "ipv4 \<Rightarrow> san list \<Rightarrow> san list" where
  "add_reachable ip sans =
     (if is_unspecified (of_ipv4 ip) \<or> show_ipv4 ip \<in> set (map san_value sans) then sans
      else sans @ [SanIp (show_ipv4 ip)])"

definition build_sans_from_config :: "config_state \<Rightarrow> san list" where
  "build_sans_from_config c = fold add_san (cf_sans c) (add_san (cf_host c) (fold add_reachable (cf_reachable c) []))"

definition dedup :: "string list \<Rightarrow> string list" where
  "dedup vs = fold (\<lambda>v out. if v \<in> set out then out else out @ [v]) vs []"

definition built_in_sans :: "string list" where
  "built_in_sans = [''127.0.0.1'', ''localhost'']"

definition planned_sans :: "config_state \<Rightarrow> string list" where
  "planned_sans c = dedup (built_in_sans @ map san_value (build_sans_from_config c))"

definition current_sans :: "cert_state \<Rightarrow> string list" where
  "current_sans c = dedup (built_in_sans @ ce_sans c)"

definition cert_update :: "('u, 'f) ui_ops \<Rightarrow> cert_msg \<Rightarrow> 'u app_state \<Rightarrow> 'u app_state \<times> ctl_action list" where
  "cert_update u m s =
     (case m of
        CloseCert \<Rightarrow> close_top u s
      | CloseHelp \<Rightarrow> close_top u s
      | RegenerateCancelled \<Rightarrow> close_top u s
      | TrustChanged i \<Rightarrow>
          (in_cert (\<lambda>c. c\<lparr>ce_trust := trust_from_index i\<rparr>) s, [SaveAdvertiseTrust (trust_from_index i)])
      | OpenHelp \<Rightarrow> open_hook u DCertHelp (in_cert (\<lambda>c. c\<lparr>ce_help_scroll := 0\<rparr>) s)
      | HelpScrolled n \<Rightarrow> (in_cert (\<lambda>c. c\<lparr>ce_help_scroll := n\<rparr>) s, [])
      | RegenerateRequested \<Rightarrow> open_hook u DCertRegenConfirm s
      | RegenerateConfirmed \<Rightarrow>
          (let s1 = in_cert (\<lambda>c. c\<lparr>ce_loading := True\<rparr>) (fst (close_dialog u s))
           in (s1, [EnsureCert (build_sans_from_config (ap_config s1))]))
      | RefreshCert \<Rightarrow> (in_cert (\<lambda>c. c\<lparr>ce_loading := True\<rparr>) s, [LoadCertInfo, LoadCertMode]))"

definition cert_ensured :: "string \<Rightarrow> string list \<Rightarrow> 'u app_state \<Rightarrow> 'u app_state \<times> ctl_action list" where
  "cert_ensured fp sans s =
     (push_toast (ToastOk CertReady) (in_cert (\<lambda>c. c\<lparr>ce_fingerprint := Some fp, ce_sans := sans, ce_loading := False\<rparr>) s),
      [LoadCertInfo])"

definition cert_info_loaded :: "string option \<Rightarrow> string list \<Rightarrow> 'u app_state \<Rightarrow> 'u app_state" where
  "cert_info_loaded fp sans s = in_cert (\<lambda>c. c\<lparr>ce_fingerprint := fp, ce_sans := sans, ce_loading := False\<rparr>) s"

subsection \<open>Tokens\<close>

definition form_token :: "tokens_state \<Rightarrow> ctl_action" where
  "form_token t =
     (let name = trim (tk_form_name t)
      in CreateToken (if name = [] then None else Some name) (tk_form_read_only t) (ttl_secs (tk_form_expiry t)))"

definition tokens_update :: "('u, 'f) ui_ops \<Rightarrow> tokens_msg \<Rightarrow> 'u app_state \<Rightarrow> 'u app_state \<times> ctl_action list" where
  "tokens_update u m s =
     (case m of
        CloseTokens \<Rightarrow> close_top u s
      | TokenFocused n \<Rightarrow> (in_tokens (\<lambda>t. t\<lparr>tk_focused := Some n\<rparr>) s, [])
      | CreateRequested \<Rightarrow> open_hook u DTokenCreate (in_tokens reset_form s)
      | CreateNameChanged n \<Rightarrow> (in_tokens (\<lambda>t. t\<lparr>tk_form_name := n\<rparr>) s, [])
      | CreateReadOnlyChanged b \<Rightarrow> (in_tokens (\<lambda>t. t\<lparr>tk_form_read_only := b\<rparr>) s, [])
      | CreateExpiryChanged i \<Rightarrow> (in_tokens (\<lambda>t. t\<lparr>tk_form_expiry := expiry_from_index i\<rparr>) s, [])
      | CreateSubmit \<Rightarrow>
          if tk_loading (ap_tokens s) then (s, [])
          else (in_tokens (\<lambda>t. t\<lparr>tk_loading := True\<rparr>) s, [form_token (ap_tokens s)])
      | CreateCancel \<Rightarrow> close_top u s
      | MintedDone \<Rightarrow> close_top u s
      | MintedShowQr \<Rightarrow> open_qr u s
      | ShowQrForMinted \<Rightarrow> open_qr u s
      | RevokeRequested \<Rightarrow>
          if tk_loading (ap_tokens s) \<or> focused_record (ap_tokens s) = None then (s, [])
          else open_hook u DTokenRevokeConfirm s
      | RevokeConfirmed \<Rightarrow>
          (let (s1, acts) = close_top u s
           in case tk_focused (ap_tokens s1) of
                None \<Rightarrow> (s1, acts)
              | Some n \<Rightarrow>
                  (in_tokens (\<lambda>t. t\<lparr>tk_loading := True, tk_minted := None\<rparr>) s1, acts @ [RevokeToken n]))
      | RevokeCancelled \<Rightarrow> close_top u s
      | QrClose \<Rightarrow>
          (let s1 = in_tokens (\<lambda>t. t\<lparr>tk_qr := None\<rparr>) s
           in if top_dialog u s1 = Some DQr then close_top u s1 else (s1, []))
      | RefreshTokens \<Rightarrow> (in_tokens (\<lambda>t. t\<lparr>tk_loading := True\<rparr>) s, [LoadTokens]))"

definition tokens_loaded :: "ctl_token list \<Rightarrow> 'u app_state \<Rightarrow> 'u app_state" where
  "tokens_loaded rs s =
     in_tokens (\<lambda>t.
       let still = (case tk_focused t of Some n \<Rightarrow> n \<in> set (map tr_name rs) | None \<Rightarrow> False)
       in t\<lparr>tk_tokens := rs, tk_loading := False,
            tk_focused := (if still then tk_focused t
                           else (case rs of r # _ \<Rightarrow> Some (tr_name r) | [] \<Rightarrow> None))\<rparr>) s"

definition token_created :: "('u, 'f) ui_ops \<Rightarrow> string \<Rightarrow> string \<Rightarrow> bool \<Rightarrow> 'u app_state \<Rightarrow> 'u app_state \<times> ctl_action list" where
  "token_created u token name ro s =
     (let s1 = in_tokens (\<lambda>t. reset_form (t\<lparr>tk_minted := Some (name, token, ro), tk_loading := False\<rparr>)) s;
          s2 = (if top_dialog u s1 = Some DTokenCreate then fst (close_dialog u s1) else s1);
          (s3, acts) = open_hook u DTokenMinted s2
      in (s3, acts @ [LoadTokens]))"

definition tokens_changed :: "'u app_state \<Rightarrow> 'u app_state \<times> ctl_action list" where
  "tokens_changed s = (in_tokens (\<lambda>t. t\<lparr>tk_minted := None, tk_loading := True\<rparr>) s, [LoadTokens])"

subsection \<open>Push devices\<close>

definition devices_update :: "('u, 'f) ui_ops \<Rightarrow> devices_msg \<Rightarrow> 'u app_state \<Rightarrow> 'u app_state \<times> ctl_action list" where
  "devices_update u m s =
     (case m of
        CloseDevices \<Rightarrow> close_top u s
      | DeviceFocused n \<Rightarrow> (in_devices (\<lambda>d. d\<lparr>dv_focused := Some n\<rparr>) s, [])
      | RemoveRequested \<Rightarrow> if dv_focused (ap_devices s) \<noteq> None then open_hook u DDeviceRemoveConfirm s else (s, [])
      | RemoveConfirmed \<Rightarrow>
          (let (s1, acts) = close_top u s
           in case focused_device (ap_devices s1) of
                None \<Rightarrow> (s1, acts)
              | Some d \<Rightarrow> (in_devices (\<lambda>d. d\<lparr>dv_loading := True\<rparr>) s1, acts @ [RemoveDevice (cd_name d)]))
      | RemoveCancelled \<Rightarrow> close_top u s
      | RefreshDevices \<Rightarrow> (in_devices (\<lambda>d. d\<lparr>dv_loading := True\<rparr>) s, [LoadDevices]))"

definition devices_loaded :: "ctl_device list \<Rightarrow> string option \<Rightarrow> 'u app_state \<Rightarrow> 'u app_state" where
  "devices_loaded ds url s =
     in_devices (\<lambda>d.
       d\<lparr>dv_devices := ds, dv_relay_url := url, dv_loading := False,
         dv_focused := (case dv_focused d of
                          Some n \<Rightarrow> if n \<in> set (map cd_name ds) then Some n else None | None \<Rightarrow> None)\<rparr>) s"

definition devices_changed :: "'u app_state \<Rightarrow> 'u app_state \<times> ctl_action list" where
  "devices_changed s = (push_toast (ToastOk DeviceGone) (in_devices (\<lambda>d. d\<lparr>dv_loading := False\<rparr>) s), [LoadDevices])"

end
