(* ===== verification/CtlWizard.thy ===== *)
theory CtlWizard
  imports CtlUpdate
begin

text \<open>
  The setup wizard of \<open>muxrctl\<close> (\<open>app/update/wizard.rs\<close>), the letter shortcuts of the dialogs
  (\<open>app/shortcuts.rs\<close>) and the routing of every message (\<open>app/update/mod.rs\<close>), with the properties
  of the whole reducer. Closing the wizard pops layers until it is gone: a loop that is a
  \<open>partial_function\<close>, so \<open>ctl_update\<close> has the value \<open>None\<close> where it would not return.
\<close>

subsection \<open>Moving between the steps\<close>

definition primary_button :: "wizard_step \<Rightarrow> string" where
  "primary_button s = (if s = Pair then ''wiz_done'' else ''wiz_next'')"

definition park_focus :: "('u, 'f) ui_ops \<Rightarrow> 'u app_state \<Rightarrow> 'u app_state" where
  "park_focus u s =
     s\<lparr>ap_ui := ui_focus u (ui_intent u [dialog_name DWizard, primary_button (wz_step (ap_wizard s))]) (ap_ui s)\<rparr>"

definition waiting_on :: "('u, 'f) ui_ops \<Rightarrow> wizard_step \<Rightarrow> 'u app_state \<Rightarrow> bool" where
  "waiting_on u step s \<longleftrightarrow> dialog_open u DWizard s \<and> wz_busy (ap_wizard s) \<and> wz_step (ap_wizard s) = step"

definition enter_pair :: "'u app_state \<Rightarrow> 'u app_state \<times> ctl_action list" where
  "enter_pair s =
     (case tk_minted (ap_tokens s) of
        None \<Rightarrow> (in_tokens (\<lambda>t. t\<lparr>tk_qr := None\<rparr>) s, [])
      | Some m \<Rightarrow> (let (s', a) = start_qr m s in (s', [a])))"

definition goto_step :: "('u, 'f) ui_ops \<Rightarrow> wizard_step \<Rightarrow> 'u app_state \<Rightarrow> 'u app_state \<times> ctl_action list" where
  "goto_step u step s =
     (let s1 = park_focus u (in_wizard (\<lambda>w. w\<lparr>wz_step := step, wz_error := None\<rparr>) s)
      in if step = Pair then enter_pair s1 else (s1, []))"

definition advance :: "('u, 'f) ui_ops \<Rightarrow> 'u app_state \<Rightarrow> 'u app_state \<times> ctl_action list" where
  "advance u s = goto_step u (step_next (wz_step (ap_wizard s))) s"

definition busy_with :: "'u app_state \<Rightarrow> 'u app_state" where
  "busy_with s = in_wizard (\<lambda>w. w\<lparr>wz_busy := True, wz_error := None\<rparr>) s"

definition wizard_error :: "ui_text \<Rightarrow> 'u app_state \<Rightarrow> 'u app_state" where
  "wizard_error e s = in_wizard (\<lambda>w. w\<lparr>wz_error := Some e\<rparr>) s"

definition save_bind :: "('u, 'f) ui_ops \<Rightarrow> 'u app_state \<Rightarrow> 'u app_state \<times> ctl_action list" where
  "save_bind u s =
     (let (s1, acts) = config_update u SaveConfig (in_config (\<lambda>c. c\<lparr>cf_error := None\<rparr>) s)
      in case cf_error (ap_config s1) of
           Some e \<Rightarrow> (wizard_error e s1, [])
         | None \<Rightarrow> if acts = [] then (wizard_error ConfigBusy s1, []) else (busy_with s1, acts))"

definition wizard_cert :: "('u, 'f) ui_ops \<Rightarrow> 'u app_state \<Rightarrow> 'u app_state \<times> ctl_action list" where
  "wizard_cert u s =
     (if ce_fingerprint (ap_cert s) \<noteq> None \<and> \<not> wz_regen_ack (ap_wizard s) then advance u s
      else (in_cert (\<lambda>c. c\<lparr>ce_loading := True\<rparr>) (busy_with s), [EnsureCert (build_sans_from_config (ap_config s))]))"

definition create_token :: "'u app_state \<Rightarrow> 'u app_state \<times> ctl_action list" where
  "create_token s = (in_tokens (\<lambda>t. t\<lparr>tk_loading := True\<rparr>) (busy_with s), [form_token (ap_tokens s)])"

definition start_daemon :: "('u, 'f) ui_ops \<Rightarrow> 'u app_state \<Rightarrow> 'u app_state \<times> ctl_action list" where
  "start_daemon u s =
     (if sv_status (ap_server s) \<noteq> None then advance u s
      else (let (s1, acts) = server_update u StartDaemon s
            in if acts = [] then (wizard_error DaemonBusy s1, []) else (busy_with s1, acts)))"

definition wizard_next :: "('u, 'f) ui_ops \<Rightarrow> 'u app_state \<Rightarrow> 'u app_state \<times> ctl_action list" where
  "wizard_next u s =
     (if wz_busy (ap_wizard s) then (s, [])
      else (case wz_step (ap_wizard s) of
              Welcome \<Rightarrow> advance u (in_wizard (\<lambda>w. w\<lparr>wz_cert_existed := ce_fingerprint (ap_cert s) \<noteq> None\<rparr>) s)
            | Network \<Rightarrow> save_bind u s
            | Certificate \<Rightarrow> wizard_cert u s
            | TokenStep \<Rightarrow> create_token s
            | StartStep \<Rightarrow> start_daemon u s
            | Pair \<Rightarrow> (s, [])))"

definition wizard_back :: "('u, 'f) ui_ops \<Rightarrow> 'u app_state \<Rightarrow> 'u app_state" where
  "wizard_back u s =
     (let w = ap_wizard s
      in if wz_busy w \<or> wz_step w = Welcome then s
         else (let s1 = (if wz_step w = Pair then in_tokens (\<lambda>t. t\<lparr>tk_qr := None\<rparr>) s else s)
               in park_focus u (in_wizard (\<lambda>w. w\<lparr>wz_step := step_previous (wz_step w), wz_error := None\<rparr>) s1)))"

subsection \<open>Closing it\<close>

partial_function (option) close_layers ::
  "('u, 'f) ui_ops \<Rightarrow> 'u app_state \<Rightarrow> ctl_action list \<Rightarrow> ('u app_state \<times> ctl_action list) option" where
  "close_layers u s acts =
     (if dialog_open u DWizard s
      then (let (s', new) = close_top u s in close_layers u s' (acts @ new))
      else Some (s, acts))"

definition wizard_close :: "('u, 'f) ui_ops \<Rightarrow> 'u app_state \<Rightarrow> ('u app_state \<times> ctl_action list) option" where
  "wizard_close u s =
     close_layers u (in_tokens (\<lambda>t. t\<lparr>tk_qr := None\<rparr>) (in_wizard (\<lambda>w. w\<lparr>wz_busy := False, wz_error := None\<rparr>) s)) []"

definition wizard_finish :: "('u, 'f) ui_ops \<Rightarrow> 'u app_state \<Rightarrow> ('u app_state \<times> ctl_action list) option" where
  "wizard_finish u s =
     map_option (\<lambda>(s1, acts).
       (in_server (\<lambda>v. v\<lparr>sv_loading := True\<rparr>) (in_cert (\<lambda>c. c\<lparr>ce_loading := True\<rparr>)
          (in_tokens (\<lambda>t. t\<lparr>tk_loading := True\<rparr>) s1)),
        acts @ [LoadTokens, LoadCertInfo, RefreshStatus])) (wizard_close u s)"

definition wizard_update :: "('u, 'f) ui_ops \<Rightarrow> wizard_msg \<Rightarrow> 'u app_state \<Rightarrow> ('u app_state \<times> ctl_action list) option" where
  "wizard_update u m s =
     (case m of
        WizClose \<Rightarrow> wizard_close u s
      | WizNext \<Rightarrow> Some (wizard_next u s)
      | WizBack \<Rightarrow> Some (wizard_back u s, [])
      | WizAck b \<Rightarrow> Some (in_wizard (\<lambda>w. w\<lparr>wz_regen_ack := b\<rparr>) s, [])
      | WizFinish \<Rightarrow> wizard_finish u s)"

subsection \<open>What a result means for the wizard\<close>

definition maybe_auto_open :: "('u, 'f) ui_ops \<Rightarrow> 'u app_state \<Rightarrow> 'u app_state \<times> ctl_action list" where
  "maybe_auto_open u s =
     (let s1 = in_wizard (\<lambda>w. if wz_tokens_mark w then w\<lparr>wz_tokens_mark := False, wz_tokens_seen := True\<rparr>
                              else w\<lparr>wz_cert_seen := True\<rparr>) s;
          w = ap_wizard s1
      in if wz_first_run_checked w \<or> \<not> (wz_cert_seen w \<and> wz_tokens_seen w) then (s1, [])
         else
           (let s2 = in_wizard (\<lambda>w. w\<lparr>wz_first_run_checked := True\<rparr>) s1;
                first_run = (ce_fingerprint (ap_cert s2) = None \<and> tk_tokens (ap_tokens s2) = [])
            in if \<not> first_run \<or> top_dialog u s2 \<noteq> None then (s2, [])
               else
                 (let s3 = in_wizard (\<lambda>w. w\<lparr>wz_step := Welcome, wz_busy := False, wz_error := None\<rparr>) s2;
                      (s4, acts) = open_hook u DWizard s3
                  in (park_focus u s4, acts @ [LoadConfig]))))"

definition wizard_action_ok :: "('u, 'f) ui_ops \<Rightarrow> 'u app_state \<Rightarrow> 'u app_state \<times> ctl_action list" where
  "wizard_action_ok u s =
     (if waiting_on u Network s then advance u (in_wizard (\<lambda>w. w\<lparr>wz_busy := False\<rparr>) s) else (s, []))"

definition wizard_action_failed :: "('u, 'f) ui_ops \<Rightarrow> string \<Rightarrow> 'u app_state \<Rightarrow> 'u app_state" where
  "wizard_action_failed u msg s =
     (if \<not> dialog_open u DWizard s \<or> \<not> wz_busy (ap_wizard s) then s
      else park_focus u (in_wizard (\<lambda>w. w\<lparr>wz_busy := False, wz_error := Some (Reported msg)\<rparr>) s))"

definition wizard_cert_ensured :: "('u, 'f) ui_ops \<Rightarrow> 'u app_state \<Rightarrow> 'u app_state \<times> ctl_action list" where
  "wizard_cert_ensured u s =
     (if waiting_on u Certificate s then advance u (in_wizard (\<lambda>w. w\<lparr>wz_busy := False\<rparr>) s) else (s, []))"

definition wizard_token_created :: "('u, 'f) ui_ops \<Rightarrow> 'u app_state \<Rightarrow> 'u app_state \<times> ctl_action list" where
  "wizard_token_created u s =
     (if waiting_on u TokenStep s
      then (let s1 = in_wizard (\<lambda>w. w\<lparr>wz_busy := False\<rparr>) s;
                s2 = (if top_dialog u s1 = Some DTokenMinted then fst (close_dialog u s1) else s1)
            in advance u s2)
      else (s, []))"

definition wizard_status_loaded :: "('u, 'f) ui_ops \<Rightarrow> 'u app_state \<Rightarrow> 'u app_state \<times> ctl_action list" where
  "wizard_status_loaded u s =
     (if waiting_on u StartStep s \<and> sv_status (ap_server s) \<noteq> None
      then advance u (in_wizard (\<lambda>w. w\<lparr>wz_busy := False\<rparr>) s) else (s, []))"

definition wizard_tokens_loaded :: "'u app_state \<Rightarrow> 'u app_state" where
  "wizard_tokens_loaded s = in_wizard (\<lambda>w. w\<lparr>wz_tokens_seen := True, wz_tokens_mark := True\<rparr>) s"

subsection \<open>Letter shortcuts\<close>

definition shortcut :: "dialog_id \<Rightarrow> string \<Rightarrow> 'u app_state \<Rightarrow> 'f ui_msg option" where
  "shortcut d key s =
     (let t = ap_tokens s;
          enabled = (\<lambda>c m. if c then Some m else None)
      in case d of
           DTokens \<Rightarrow>
             if key = ''n'' then Some (UiTokens CreateRequested)
             else if key = ''s'' then enabled (tk_minted t \<noteq> None) (UiTokens ShowQrForMinted)
             else if key = ''x'' then enabled (focused_record t \<noteq> None \<and> \<not> tk_loading t) (UiTokens RevokeRequested)
             else if key = ''r'' then enabled (\<not> tk_loading t) (UiTokens RefreshTokens) else None
         | DTokenMinted \<Rightarrow>
             if key = ''s'' then Some (UiTokens MintedShowQr) else enabled (key = ''d'') (UiTokens MintedDone)
         | DTokenRevokeConfirm \<Rightarrow> enabled (key = ''y'') (UiTokens RevokeConfirmed)
         | DCert \<Rightarrow>
             if key = ''h'' then Some (UiCert OpenHelp)
             else if key = ''g'' then enabled (\<not> ce_loading (ap_cert s)) (UiCert RegenerateRequested)
             else enabled (key = ''r'') (UiCert RefreshCert)
         | DCertRegenConfirm \<Rightarrow> enabled (key = ''y'') (UiCert RegenerateConfirmed)
         | DStopServer \<Rightarrow> enabled (key = ''y'') (UiServer StopConfirmed)
         | DDevices \<Rightarrow>
             if key = ''x''
             then enabled (dv_focused (ap_devices s) \<noteq> None \<and> \<not> dv_loading (ap_devices s)) (UiDevices RemoveRequested)
             else enabled (key = ''r'') (UiDevices RefreshDevices)
         | DDeviceRemoveConfirm \<Rightarrow> enabled (key = ''y'') (UiDevices RemoveConfirmed)
         | _ \<Rightarrow> None)"

subsection \<open>Routing\<close>

definition handle_key :: "('u, 'f) ui_ops \<Rightarrow> key_event \<Rightarrow> 'u app_state \<Rightarrow> 'u app_state \<times> ctl_action list" where
  "handle_key u key s =
     (let code = ke_code key
      in if ke_ctrl key \<and> code = KChar ''c'' then (s\<lparr>ap_quit := True\<rparr>, [Quit])
         else if top_dialog u s \<noteq> None then (s, [])
         else if code = KChar ''q'' then (s\<lparr>ap_quit := True\<rparr>, [Quit])
         else if code = KChar ''c'' then open_hook u DConfig s
         else if code = KChar ''e'' then open_hook u DCert s
         else if code = KChar ''t'' then open_hook u DTokens s
         else if code = KChar ''d'' then open_hook u DDevices s
         else if code = KChar ''w'' then open_hook u DWizard s
         else if code = KChar ''s''
         then server_update u (if is_running (ap_server s) then StopRequested else StartDaemon) s
         else if code = KChar ''r'' then (s, [RefreshStatus, LoadConfig, LoadTokens, LoadCertInfo, LoadDevices])
         else (s, []))"

definition handle_tick :: "'u app_state \<Rightarrow> 'u app_state \<times> ctl_action list" where
  "handle_tick s =
     (let v = ap_server s;
          n = sv_tick_counter v + 1;
          (s1, acts1) =
            (if sv_loading v then (s, [])
             else if n mod 20 = 0
             then (in_server (\<lambda>v. v\<lparr>sv_tick_counter := n, sv_loading := True\<rparr>) s, [RefreshStatus])
             else (in_server (\<lambda>v. v\<lparr>sv_tick_counter := n\<rparr>) s, []));
          (s2, acts2) = tokens_tick s1
      in (s2, acts1 @ acts2))"

definition handle_ui :: "('u, 'f) ui_ops \<Rightarrow> 'f ui_msg \<Rightarrow> 'u app_state \<Rightarrow> ('u app_state \<times> ctl_action list) option" where
  "handle_ui u m s =
     (case m of
        UiFocus f \<Rightarrow> Some (s\<lparr>ap_ui := ui_focus u f (ap_ui s)\<rparr>, [])
      | UiOpen d \<Rightarrow> Some (open_hook u d s)
      | UiClose \<Rightarrow> Some (close_top u s)
      | UiConfig m \<Rightarrow> Some (config_update u m s)
      | UiServer m \<Rightarrow> Some (server_update u m s)
      | UiCert m \<Rightarrow> Some (cert_update u m s)
      | UiTokens m \<Rightarrow> Some (tokens_update u m s)
      | UiDevices m \<Rightarrow> Some (devices_update u m s)
      | UiWizard m \<Rightarrow> wizard_update u m s)"

text \<open>A second reducer runs after the first and its effects follow.\<close>

definition after :: "'u app_state \<times> ctl_action list \<Rightarrow> ('u app_state \<Rightarrow> 'u app_state \<times> ctl_action list) \<Rightarrow>
    'u app_state \<times> ctl_action list" where
  "after r f = (case r of (s, acts) \<Rightarrow> (let (s', acts') = f s in (s', acts @ acts')))"

definition action_ok :: "('u, 'f) ui_ops \<Rightarrow> string \<Rightarrow> 'u app_state \<Rightarrow> 'u app_state \<times> ctl_action list" where
  "action_ok u msg s =
     (let s1 = push_toast (ToastOk (Reported msg)) (clear_loading s);
          r = (if cf_pending_save (ap_config s1)
               then (let s2 = in_config (\<lambda>c. c\<lparr>cf_pending_save := False\<rparr>) s1
                     in if top_dialog u s2 = Some DConfig then close_top u s2 else (s2, []))
               else (s1, []))
      in after r (wizard_action_ok u))"

definition action_failed :: "('u, 'f) ui_ops \<Rightarrow> string \<Rightarrow> 'u app_state \<Rightarrow> 'u app_state" where
  "action_failed u msg s =
     (let s1 = push_toast (ToastErr (Reported msg)) (in_config (\<lambda>c. c\<lparr>cf_pending_save := False\<rparr>) (clear_loading s));
          s2 = (if dialog_open u DConfig s1 then in_config (\<lambda>c. c\<lparr>cf_error := Some (Reported msg)\<rparr>) s1 else s1)
      in wizard_action_failed u msg s2)"

definition ctl_update :: "('u, 'f) ui_ops \<Rightarrow> 'f ctl_msg \<Rightarrow> 'u app_state \<Rightarrow> ('u app_state \<times> ctl_action list) option" where
  "ctl_update u m s =
     (case m of
        Key k \<Rightarrow> Some (handle_key u k s)
      | Tick \<Rightarrow> Some (handle_tick s)
      | QuitMsg \<Rightarrow> Some (s\<lparr>ap_quit := True\<rparr>, [Quit])
      | Ui m \<Rightarrow> handle_ui u m s
      | StatusLoaded i \<Rightarrow> Some (wizard_status_loaded u (server_status_loaded i s))
      | ConfigLoaded n \<Rightarrow> Some (on_config_loaded n s, [])
      | CertEnsured fp sans \<Rightarrow> Some (after (cert_ensured fp sans s) (wizard_cert_ensured u))
      | CertInfoLoaded fp sans \<Rightarrow> Some (maybe_auto_open u (cert_info_loaded fp sans s))
      | CertModeLoaded mode \<Rightarrow> Some (in_cert (\<lambda>c. c\<lparr>ce_mode := mode\<rparr>) s, [])
      | ActionOk msg \<Rightarrow> Some (action_ok u msg s)
      | ActionFailed msg \<Rightarrow> Some (action_failed u msg s, [])
      | TokensLoaded rs \<Rightarrow> Some (maybe_auto_open u (wizard_tokens_loaded (tokens_loaded rs s)))
      | TokenCreated token name ro \<Rightarrow> Some (after (token_created u token name ro s) (wizard_token_created u))
      | TokensChanged \<Rightarrow> Some (tokens_changed s)
      | DevicesLoaded ds url \<Rightarrow> Some (devices_loaded ds url s, [])
      | DevicesChanged \<Rightarrow> Some (devices_changed s)
      | TokenQrReady uri host port fp n seq \<Rightarrow> Some (on_qr_ready uri host port fp n seq s, [])
      | TokenQrFailed err seq \<Rightarrow> Some (on_qr_failed err seq s, []))"

end
