(* ===== verification/CtlSafety.thy ===== *)
theory CtlSafety
  imports CtlWizard
begin

text \<open>
  What holds of the whole reducer of \<open>muxrctl\<close>: it always returns, it starts nothing irreversible
  that was not asked for, it keeps one daemon operation in flight, the QR on the screen is the one
  asked for last, and the wizard opens by itself at most once. Two sequences that go wrong are
  theorems as well.
\<close>

subsection \<open>Effects that only read\<close>

definition harmless :: "ctl_action \<Rightarrow> bool" where
  "harmless a \<longleftrightarrow>
     (case a of
        LoadConfig \<Rightarrow> True | LoadTokens \<Rightarrow> True | LoadDevices \<Rightarrow> True | LoadCertInfo \<Rightarrow> True | LoadCertMode \<Rightarrow> True
      | ShowTokenQr _ _ _ _ \<Rightarrow> True | _ \<Rightarrow> False)"

lemma harmless_simps [simp]:
  "harmless LoadConfig" "harmless LoadTokens" "harmless LoadDevices" "harmless LoadCertInfo" "harmless LoadCertMode"
  "harmless (ShowTokenQr t ro n tr)"
  by (simp_all add: harmless_def)

lemma refresh_acts: "list_all harmless (snd (refresh_after_close d s))"
  by (simp add: refresh_after_close_def)

lemma refresh_parts [simp]:
  "ap_ui (fst (refresh_after_close d s)) = ap_ui s"
  "ap_wizard (fst (refresh_after_close d s)) = ap_wizard s"
  "ap_server (fst (refresh_after_close d s)) = ap_server s"
  "ap_qr_seq (fst (refresh_after_close d s)) = ap_qr_seq s"
  "tk_qr (ap_tokens (fst (refresh_after_close d s))) = tk_qr (ap_tokens s)"
  "tk_focused (ap_tokens (fst (refresh_after_close d s))) = tk_focused (ap_tokens s)"
  "tk_tokens (ap_tokens (fst (refresh_after_close d s))) = tk_tokens (ap_tokens s)"
  "dv_focused (ap_devices (fst (refresh_after_close d s))) = dv_focused (ap_devices s)"
  "dv_devices (ap_devices (fst (refresh_after_close d s))) = dv_devices (ap_devices s)"
  by (simp_all add: refresh_after_close_def in_parts)

lemma close_dialog_parts [simp]:
  "ap_wizard (fst (close_dialog u s)) = ap_wizard s" "ap_server (fst (close_dialog u s)) = ap_server s"
  "ap_qr_seq (fst (close_dialog u s)) = ap_qr_seq s" "ap_tokens (fst (close_dialog u s)) = ap_tokens s"
  "ap_devices (fst (close_dialog u s)) = ap_devices s" "ap_config (fst (close_dialog u s)) = ap_config s"
  "ap_cert (fst (close_dialog u s)) = ap_cert s"
  by (simp_all add: close_dialog_def split: option.splits)

lemma close_top_split:
  "close_top u s = (case snd (close_dialog u s) of
     Some d \<Rightarrow> refresh_after_close d (fst (close_dialog u s)) | None \<Rightarrow> (fst (close_dialog u s), []))"
  by (cases "close_dialog u s") (simp add: close_top_def split: option.splits)

lemma close_top_acts: "list_all harmless (snd (close_top u s))"
  by (simp add: close_top_split refresh_acts split: option.splits)

lemma close_top_parts [simp]:
  "ap_wizard (fst (close_top u s)) = ap_wizard s" "ap_server (fst (close_top u s)) = ap_server s"
  "ap_qr_seq (fst (close_top u s)) = ap_qr_seq s"
  "tk_qr (ap_tokens (fst (close_top u s))) = tk_qr (ap_tokens s)"
  "tk_focused (ap_tokens (fst (close_top u s))) = tk_focused (ap_tokens s)"
  "tk_tokens (ap_tokens (fst (close_top u s))) = tk_tokens (ap_tokens s)"
  "dv_focused (ap_devices (fst (close_top u s))) = dv_focused (ap_devices s)"
  "dv_devices (ap_devices (fst (close_top u s))) = dv_devices (ap_devices s)"
  by (simp_all add: close_top_split split: option.splits)

lemma open_dialog_parts [simp]:
  "ap_wizard (open_dialog u d s) = ap_wizard s" "ap_server (open_dialog u d s) = ap_server s"
  "ap_qr_seq (open_dialog u d s) = ap_qr_seq s" "ap_tokens (open_dialog u d s) = ap_tokens s"
  "ap_devices (open_dialog u d s) = ap_devices s" "ap_cert (open_dialog u d s) = ap_cert s"
  by (simp_all add: open_dialog_def split: option.splits)

lemma open_hook_acts: "list_all harmless (snd (open_hook u d s))"
  by (cases d) (simp_all add: open_hook_def Let_def)

lemma open_hook_parts [simp]:
  "ap_wizard (fst (open_hook u d s)) = ap_wizard s" "ap_server (fst (open_hook u d s)) = ap_server s"
  "ap_qr_seq (fst (open_hook u d s)) = ap_qr_seq s"
  "tk_qr (ap_tokens (fst (open_hook u d s))) = tk_qr (ap_tokens s)"
  by (cases d; simp add: open_hook_def Let_def in_parts)+

lemma park_focus_parts [simp]:
  "ap_wizard (park_focus u s) = ap_wizard s" "ap_server (park_focus u s) = ap_server s"
  "ap_qr_seq (park_focus u s) = ap_qr_seq s" "ap_tokens (park_focus u s) = ap_tokens s"
  "ap_cert (park_focus u s) = ap_cert s" "ap_config (park_focus u s) = ap_config s"
  by (simp_all add: park_focus_def)

subsection \<open>The reducer returns\<close>

lemma close_top_ids:
  assumes "ui_laws u" "ui_ids u (ap_ui s) \<noteq> []"
  shows "ui_ids u (ap_ui (fst (close_top u s))) = butlast (ui_ids u (ap_ui s))"
proof -
  obtain i ui where c: "ui_close u (ap_ui s) = Some (i, ui)"
    using assms unfolding ui_laws_def by (metis not_Some_eq surj_pair)
  then have "ui_ids u (ap_ui s) = ui_ids u ui @ [i]" using assms(1) unfolding ui_laws_def by blast
  then show ?thesis by (simp add: close_top_split close_dialog_def c split: option.splits)
qed

lemma close_layers_returns:
  assumes "ui_laws u"
  shows "\<exists>s' acts'. close_layers u s acts = Some (s', acts') \<and> \<not> dialog_open u DWizard s' \<and>
    ap_wizard s' = ap_wizard s \<and> ap_server s' = ap_server s \<and> ap_qr_seq s' = ap_qr_seq s \<and>
    tk_qr (ap_tokens s') = tk_qr (ap_tokens s) \<and>
    (\<exists>new. acts' = acts @ new \<and> list_all harmless new)"
proof (induction "length (ui_ids u (ap_ui s))" arbitrary: s acts)
  case 0
  then have "\<not> dialog_open u DWizard s" by (simp add: dialog_open_def)
  then show ?case by (subst close_layers.simps) simp
next
  case (Suc n)
  show ?case
  proof (cases "dialog_open u DWizard s")
    case True
    obtain t new where ct: "close_top u s = (t, new)" by (metis surj_pair)
    have "ui_ids u (ap_ui s) \<noteq> []" using Suc.hyps(2) by auto
    then have "n = length (ui_ids u (ap_ui t))"
      using close_top_ids[OF assms, of s] Suc.hyps(2) by (simp add: ct)
    from Suc.hyps(1)[OF this, of "acts @ new"] True show ?thesis
      using close_top_acts[of u s] close_top_parts[of u s]
      by (subst close_layers.simps) (auto simp: ct)
  next
    case False
    then show ?thesis by (subst close_layers.simps) simp
  qed
qed

lemma wizard_close_returns:
  assumes "ui_laws u"
  shows "\<exists>s' acts. wizard_close u s = Some (s', acts) \<and> \<not> dialog_open u DWizard s' \<and> list_all harmless acts \<and>
    \<not> wz_busy (ap_wizard s') \<and> ap_server s' = ap_server s \<and> ap_qr_seq s' = ap_qr_seq s \<and> tk_qr (ap_tokens s') = None \<and>
    ap_wizard s' = (ap_wizard s)\<lparr>wz_busy := False, wz_error := None\<rparr>"
  using close_layers_returns[OF assms,
      of "in_tokens (\<lambda>t. t\<lparr>tk_qr := None\<rparr>) (in_wizard (\<lambda>w. w\<lparr>wz_busy := False, wz_error := None\<rparr>) s)" "[]"]
  by (auto simp: wizard_close_def in_parts)


text \<open>
  C23 (the reducer always returns). As long as the modal stack of the library behaves as documented,
  every message in every state yields a new state and effects: the loop that closes the wizard ends,
  however many layers lie above it.
\<close>

theorem ctl_update_returns:
  assumes "ui_laws u"
  shows "\<exists>s' acts. ctl_update u m s = Some (s', acts)"
proof -
  have w: "\<exists>r. wizard_update u wm s = Some r" for wm
    using wizard_close_returns[OF assms, of s]
    by (cases wm) (auto simp: wizard_update_def wizard_finish_def)
  have h: "\<exists>r. handle_ui u um s = Some r" for um
    using w by (cases um) (simp_all add: handle_ui_def)
  have "\<exists>r. ctl_update u m s = Some r"
    using h by (cases m) (simp_all add: ctl_update_def)
  then show ?thesis by auto
qed

subsection \<open>Nothing irreversible unasked\<close>

definition asked_for :: "'f ctl_msg \<Rightarrow> 'u app_state \<Rightarrow> ctl_action \<Rightarrow> bool" where
  "asked_for m s a =
     (let w = ap_wizard s; t = ap_tokens s; c = ap_config s;
          at = (\<lambda>step. m = Ui (UiWizard WizNext) \<and> wz_step w = step \<and> \<not> wz_busy w)
      in case a of
           RevokeToken n \<Rightarrow> m = Ui (UiTokens RevokeConfirmed) \<and> tk_focused t = Some n
         | RemoveDevice n \<Rightarrow>
             m = Ui (UiDevices RemoveConfirmed) \<and> dv_focused (ap_devices s) = Some n \<and>
             n \<in> set (map cd_name (dv_devices (ap_devices s)))
         | StopServer \<Rightarrow> m = Ui (UiServer StopConfirmed) \<and> \<not> sv_loading (ap_server s)
         | EnsureCert sans \<Rightarrow>
             sans = build_sans_from_config c \<and>
             (m = Ui (UiCert RegenerateConfirmed) \<or>
              at Certificate \<and> (ce_fingerprint (ap_cert s) = None \<or> wz_regen_ack w))
         | CreateToken _ _ _ \<Rightarrow>
             a = form_token t \<and> (m = Ui (UiTokens CreateSubmit) \<and> \<not> tk_loading t \<or> at TokenStep)
         | SaveBind addr \<Rightarrow>
             addr = bind_addr c \<and> trim (cf_host c) \<noteq> [] \<and> port_ok (trim (cf_port c)) \<and>
             (m = Ui (UiConfig SaveConfig) \<or> at Network)
         | _ \<Rightarrow> True)"

lemma asked_harmless: "harmless a \<Longrightarrow> asked_for m s a"
  by (cases a) (simp_all add: harmless_def asked_for_def Let_def)

lemma asked_all: "list_all harmless acts \<Longrightarrow> list_all (asked_for m s) acts"
  by (auto simp: list_all_iff intro: asked_harmless)

lemma asked_free [simp]:
  "asked_for m s Quit" "asked_for m s RefreshStatus" "asked_for m s StartServer" "asked_for m s (SaveAdvertiseTrust tr)"
  by (simp_all add: asked_for_def Let_def)


lemma enter_pair_acts: "list_all harmless (snd (enter_pair s))"
  by (simp add: enter_pair_def start_qr_def Let_def split: option.splits prod.splits)

lemma advance_acts: "list_all harmless (snd (advance u s))"
  by (simp add: advance_def goto_step_def Let_def enter_pair_acts)

lemma open_qr_acts: "list_all harmless (snd (open_qr u s))"
proof (cases "tk_minted (ap_tokens s)")
  case (Some m)
  obtain s1 a where q: "start_qr m s = (s1, a)" by (metis surj_pair)
  then have "harmless a" by (cases m) (auto simp: start_qr_def Let_def)
  then show ?thesis using open_hook_acts[of u DQr s1]
    by (simp add: open_qr_def Some q split_beta)
qed (simp add: open_qr_def)

lemmas acts_asked_more [simp] = asked_all [OF advance_acts] asked_all [OF open_qr_acts]





lemma save_config_acts:
  "snd (save_config s) = [] \<or>
   snd (save_config s) = [SaveBind (bind_addr (ap_config s))] \<and> trim (cf_host (ap_config s)) \<noteq> [] \<and>
     port_ok (trim (cf_port (ap_config s)))"
  by (simp add: save_config_def Let_def)


lemma save_bind_acts:
  "snd (save_bind u s) = [] \<or>
   snd (save_bind u s) = [SaveBind (bind_addr (ap_config s))] \<and> trim (cf_host (ap_config s)) \<noteq> [] \<and>
     port_ok (trim (cf_port (ap_config s)))"
proof -
  let ?s = "in_config (\<lambda>c. c\<lparr>cf_error := None\<rparr>) s"
  obtain s1 acts where c: "save_config ?s = (s1, acts)" by (metis surj_pair)
  have p: "bind_addr (ap_config ?s) = bind_addr (ap_config s)" "cf_host (ap_config ?s) = cf_host (ap_config s)"
    "cf_port (ap_config ?s) = cf_port (ap_config s)"
    by (simp_all add: in_config_def bind_addr_def)
  have "acts = [] \<or> acts = [SaveBind (bind_addr (ap_config s))] \<and> trim (cf_host (ap_config s)) \<noteq> [] \<and>
      port_ok (trim (cf_port (ap_config s)))"
    using save_config_acts[of ?s] by (simp add: c p)
  then show ?thesis by (auto simp: save_bind_def config_update_def c split: option.splits)
qed






lemma auto_open_acts: "list_all harmless (snd (maybe_auto_open u s))"
  by (simp add: maybe_auto_open_def Let_def split_beta open_hook_acts)


lemma wizard_hook_acts:
  "list_all harmless (snd (wizard_action_ok u s))" "list_all harmless (snd (wizard_cert_ensured u s))"
  "list_all harmless (snd (wizard_token_created u s))" "list_all harmless (snd (wizard_status_loaded u s))"
  by (simp_all add: wizard_action_ok_def wizard_cert_ensured_def wizard_token_created_def wizard_status_loaded_def
      Let_def advance_acts)





subsection \<open>One daemon operation in flight\<close>

definition daemon_op :: "ctl_action \<Rightarrow> bool" where
  "daemon_op a \<longleftrightarrow> a = RefreshStatus \<or> a = StartServer \<or> a = StopServer"

definition daemon_ops :: "ctl_action list \<Rightarrow> nat" where
  "daemon_ops acts = length (filter daemon_op acts)"

lemma daemon_ops_simps [simp]:
  "daemon_ops [] = 0" "daemon_ops (a # acts) = (if daemon_op a then Suc (daemon_ops acts) else daemon_ops acts)"
  "daemon_ops (xs @ ys) = daemon_ops xs + daemon_ops ys"
  by (simp_all add: daemon_ops_def)

lemma daemon_op_simps [simp]:
  "daemon_op RefreshStatus" "daemon_op StartServer" "daemon_op StopServer" "\<not> daemon_op Quit"
  "\<not> daemon_op (EnsureCert sans)" "\<not> daemon_op (CreateToken nm ro t)" "\<not> daemon_op (RevokeToken n)"
  "\<not> daemon_op (RemoveDevice n)" "\<not> daemon_op (SaveBind addr)" "\<not> daemon_op (SaveAdvertiseTrust tr)"
  "\<not> daemon_op LoadConfig" "\<not> daemon_op LoadTokens" "\<not> daemon_op LoadDevices" "\<not> daemon_op LoadCertInfo"
  "\<not> daemon_op LoadCertMode"
  by (simp_all add: daemon_op_def)

lemma harmless_no_daemon: "list_all harmless acts \<Longrightarrow> daemon_ops acts = 0"
  by (induction acts) (auto simp: daemon_op_def harmless_def)

text \<open>A step that neither releases the flag nor starts two operations.\<close>

definition one_op :: "'u app_state \<Rightarrow> 'u app_state \<times> ctl_action list \<Rightarrow> bool" where
  "one_op s r \<longleftrightarrow>
     (let before = sv_loading (ap_server s); later = sv_loading (ap_server (fst r))
      in (before \<longrightarrow> later) \<and> daemon_ops (snd r) \<le> (if \<not> before \<and> later then 1 else 0))"

lemma one_op_quiet: "ap_server (fst r) = ap_server s \<Longrightarrow> daemon_ops (snd r) = 0 \<Longrightarrow> one_op s r"
  by (simp add: one_op_def)

lemma one_op_then:
  assumes "one_op s (t, a)" "one_op t (t', b)"
  shows "one_op s (t', a @ b)"
  using assms by (auto simp: one_op_def Let_def split: if_splits)

lemmas no_daemon [simp] =
  harmless_no_daemon [OF close_top_acts] harmless_no_daemon [OF open_hook_acts] harmless_no_daemon [OF advance_acts]
  harmless_no_daemon [OF open_qr_acts] harmless_no_daemon [OF auto_open_acts] harmless_no_daemon [OF wizard_hook_acts(2)]
  harmless_no_daemon [OF wizard_hook_acts(3)]

lemma start_qr_parts [simp]:
  "ap_server (fst (start_qr m s)) = ap_server s" "ap_wizard (fst (start_qr m s)) = ap_wizard s"
  by (simp_all add: start_qr_def Let_def in_parts split: prod.splits)

lemma open_qr_server [simp]: "ap_server (fst (open_qr u s)) = ap_server s"
  by (simp add: open_qr_def Let_def split_beta in_parts split: option.splits)

lemma enter_pair_parts [simp]:
  "ap_server (fst (enter_pair s)) = ap_server s" "ap_wizard (fst (enter_pair s)) = ap_wizard s"
  by (simp_all add: enter_pair_def split_beta in_parts split: option.splits)

lemma advance_server [simp]: "ap_server (fst (advance u s)) = ap_server s"
  by (simp add: advance_def goto_step_def Let_def in_parts)

lemma tokens_update_flight: "one_op s (tokens_update u m s)"
proof (cases m)
  case RevokeConfirmed
  then show ?thesis
    by (intro one_op_quiet) (simp_all add: tokens_update_def split_beta in_parts split: option.splits)
qed (intro one_op_quiet; simp add: tokens_update_def in_parts form_token_def Let_def)+

lemma devices_update_flight: "one_op s (devices_update u m s)"
  by (cases m; intro one_op_quiet; simp add: devices_update_def split_beta in_parts split: option.splits)

lemma cert_update_flight: "one_op s (cert_update u m s)"
  by (cases m; intro one_op_quiet; simp add: cert_update_def Let_def in_parts)

lemma config_update_flight: "one_op s (config_update u m s)"
  by (cases m; intro one_op_quiet; simp add: config_update_def save_config_def Let_def in_parts)

lemma server_update_flight: "one_op s (server_update u m s)"
proof (cases m)
  case StopConfirmed
  then show ?thesis by (simp add: server_update_def split_beta one_op_def Let_def in_parts)
qed (simp_all add: server_update_def one_op_def in_parts)

lemma save_bind_flight: "one_op s (save_bind u s)"
proof (intro one_op_quiet)
  show "daemon_ops (snd (save_bind u s)) = 0" using save_bind_acts[of u s] by auto
  show "ap_server (fst (save_bind u s)) = ap_server s"
    by (simp add: save_bind_def config_update_def save_config_def Let_def split_beta in_parts wizard_error_def busy_with_def
        split: option.splits)
qed

lemma wizard_next_flight: "one_op s (wizard_next u s)"
proof (cases "wz_busy (ap_wizard s)")
  case False
  note [simp] = False wizard_next_def
  show ?thesis
  proof (cases "wz_step (ap_wizard s)")
    case Welcome
    then show ?thesis by (intro one_op_quiet) (simp_all add: in_parts)
  next
    case Network
    then show ?thesis using save_bind_flight by simp
  next
    case Certificate
    then show ?thesis by (intro one_op_quiet) (simp_all add: wizard_cert_def busy_with_def in_parts)
  next
    case TokenStep
    then show ?thesis by (intro one_op_quiet) (simp_all add: create_token_def busy_with_def form_token_def Let_def in_parts)
  next
    case StartStep
    then show ?thesis
      by (simp add: start_daemon_def server_update_def one_op_def busy_with_def wizard_error_def Let_def in_parts)
  next
    case Pair
    then show ?thesis by (intro one_op_quiet) simp_all
  qed
qed (simp add: wizard_next_def one_op_def)

text \<open>
  The messages that do not speak for a task of the daemon: no result that releases the flag, and
  neither of the two commands that ask for a status whatever is in flight.
\<close>

definition releases :: "'f ctl_msg \<Rightarrow> bool" where
  "releases m \<longleftrightarrow>
     (case m of
        StatusLoaded _ \<Rightarrow> True | ActionOk _ \<Rightarrow> True | ActionFailed _ \<Rightarrow> True
      | Ui um \<Rightarrow> um = UiWizard WizFinish
      | Key k \<Rightarrow> ke_code k = KChar ''r''
      | _ \<Rightarrow> False)"

lemma wizard_update_flight:
  assumes "ui_laws u" "wizard_update u m s = Some r" "m \<noteq> WizFinish"
  shows "one_op s r"
proof (cases m)
  case WizClose
  then show ?thesis using assms(2) wizard_close_returns[OF assms(1), of s] harmless_no_daemon
    by (auto simp: wizard_update_def intro!: one_op_quiet)
next
  case WizNext
  then show ?thesis using assms(2) wizard_next_flight[of s u] by (simp add: wizard_update_def)
next
  case WizBack
  then show ?thesis using assms(2)
    by (auto simp: wizard_update_def wizard_back_def Let_def in_parts intro!: one_op_quiet)
qed (use assms in \<open>auto simp: wizard_update_def in_parts intro!: one_op_quiet\<close>)

lemma handle_ui_flight:
  assumes "ui_laws u" "handle_ui u m s = Some r" "m \<noteq> UiWizard WizFinish"
  shows "one_op s r"
proof (cases m)
  case (UiWizard w)
  then show ?thesis using assms(2,3) wizard_update_flight[OF assms(1), of w s r] by (simp add: handle_ui_def)
qed (use assms(2) in \<open>auto simp: handle_ui_def intro!: one_op_quiet tokens_update_flight devices_update_flight
    cert_update_flight config_update_flight server_update_flight\<close>)

lemma handle_key_flight: "ke_code k \<noteq> KChar ''r'' \<Longrightarrow> one_op s (handle_key u k s)"
  using server_update_flight[of s u]
  by (auto simp: handle_key_def Let_def intro!: one_op_quiet)

lemma tokens_tick_flight: "one_op s (tokens_tick s)"
  by (simp add: tokens_tick_def one_op_def Let_def in_parts split: option.splits)

lemma handle_tick_flight: "one_op s (handle_tick s)"
proof -
  define first where "first = (if sv_loading (ap_server s) then (s, [])
      else if (sv_tick_counter (ap_server s) + 1) mod 20 = 0
      then (in_server (\<lambda>v. v\<lparr>sv_tick_counter := sv_tick_counter (ap_server s) + 1, sv_loading := True\<rparr>) s, [RefreshStatus])
      else (in_server (\<lambda>v. v\<lparr>sv_tick_counter := sv_tick_counter (ap_server s) + 1\<rparr>) s, []))"
  have "one_op s first" by (simp add: first_def one_op_def in_parts)
  then have "one_op s (fst (tokens_tick (fst first)), snd first @ snd (tokens_tick (fst first)))"
    using tokens_tick_flight[of "fst first"] by (intro one_op_then[of s "fst first"]) simp_all
  then show ?thesis by (simp add: handle_tick_def Let_def first_def[symmetric] split_beta)
qed


lemma token_created_parts [simp]:
  "ap_server (fst (token_created u token name ro s)) = ap_server s"
  "daemon_ops (snd (token_created u token name ro s)) = 0"
  by (simp_all add: token_created_def Let_def split_beta in_parts)

lemma wizard_hook_server [simp]:
  "ap_server (fst (wizard_token_created u s)) = ap_server s" "ap_server (fst (wizard_cert_ensured u s)) = ap_server s"
  by (simp_all add: wizard_token_created_def wizard_cert_ensured_def Let_def in_parts)

lemma maybe_auto_open_server [simp]: "ap_server (fst (maybe_auto_open u s)) = ap_server s"
  by (simp add: maybe_auto_open_def Let_def split_beta in_parts)

lemma qr_result_server [simp]: "ap_server (qr_result n f s) = ap_server s"
  by (simp add: qr_result_def in_parts split: option.splits)

lemma ctl_update_flight:
  assumes "ui_laws u" "\<not> releases m" "ctl_update u m s = Some r"
  shows "one_op s r"
proof (cases m)
  case (Ui um)
  then show ?thesis using assms(2,3) handle_ui_flight[OF assms(1), of um s r] by (simp add: ctl_update_def releases_def)
next
  case (Key k)
  then show ?thesis using assms(2,3) handle_key_flight[of k s u] by (auto simp: ctl_update_def releases_def)
next
  case Tick
  then show ?thesis using assms(3) handle_tick_flight[of s] by (auto simp: ctl_update_def)
next
  case (CertEnsured fp sans)
  have "one_op s (after (cert_ensured fp sans s) (wizard_cert_ensured u))"
    by (intro one_op_quiet) (simp_all add: after_def cert_ensured_def split_beta in_parts)
  then show ?thesis using assms(3) CertEnsured by (simp add: ctl_update_def)
next
  case (TokenCreated token name ro)
  have "one_op s (after (token_created u token name ro s) (wizard_token_created u))"
    by (intro one_op_quiet) (simp_all add: after_def split_beta)
  then show ?thesis using assms(3) TokenCreated by (simp add: ctl_update_def)
next
  case (CertInfoLoaded fp sans)
  have "one_op s (maybe_auto_open u (cert_info_loaded fp sans s))"
    by (intro one_op_quiet) (simp_all add: cert_info_loaded_def in_parts)
  then show ?thesis using assms(3) CertInfoLoaded by (simp add: ctl_update_def)
next
  case (TokensLoaded rs)
  have "one_op s (maybe_auto_open u (wizard_tokens_loaded (tokens_loaded rs s)))"
    by (intro one_op_quiet) (simp_all add: tokens_loaded_def wizard_tokens_loaded_def in_parts)
  then show ?thesis using assms(3) TokensLoaded by (simp add: ctl_update_def)
qed (use assms(2,3) in \<open>auto simp: ctl_update_def releases_def one_op_def on_config_loaded_def tokens_changed_def
    devices_loaded_def devices_changed_def on_qr_ready_def on_qr_failed_def in_parts Let_def\<close>)

text \<open>A run of messages: the final state and all effects, in order.\<close>

fun ctl_run :: "('u, 'f) ui_ops \<Rightarrow> 'f ctl_msg list \<Rightarrow> 'u app_state \<Rightarrow> ('u app_state \<times> ctl_action list) option" where
  "ctl_run u [] s = Some (s, [])"
| "ctl_run u (m # ms) s =
     Option.bind (ctl_update u m s) (\<lambda>(s1, a). map_option (\<lambda>(s2, b). (s2, a @ b)) (ctl_run u ms s1))"

lemma ctl_run_append:
  "ctl_run u (xs @ ys) s =
     Option.bind (ctl_run u xs s) (\<lambda>(s1, a). map_option (\<lambda>(s2, b). (s2, a @ b)) (ctl_run u ys s1))"
proof (induction xs arbitrary: s)
  case (Cons m ms)
  show ?case
  proof (cases "ctl_update u m s")
    case (Some r)
    obtain s1 a where r: "r = (s1, a)" by (metis surj_pair)
    show ?thesis
    proof (cases "ctl_run u ms s1")
      case None
      then show ?thesis by (simp add: Cons Some r)
    next
      case (Some q)
      then show ?thesis by (cases q; cases "ctl_run u ys (fst q)") (auto simp: Cons \<open>ctl_update u m s = Some r\<close> r)
    qed
  qed simp
qed (simp add: split_beta option.map_id)

text \<open>
  (one daemon operation at a time). Until a result arrives, however many ticks, keys and clicks
  come in, at most one status poll, start or stop is started, and none while one is out: the
  dashboard, the QR layer and the wizard share one guard. The dashboard's explicit refresh and the
  wizard's Finish ask without it.
\<close>

theorem daemon_ops_single_flight:
  assumes "ui_laws u" "list_all (\<lambda>m. \<not> releases m) ms" "ctl_run u ms s = Some (s', acts)"
  shows "daemon_ops acts \<le> (if sv_loading (ap_server s) then 0 else 1)"
proof -
  have "one_op s (s', acts)"
    using assms(2,3)
  proof (induction ms arbitrary: s acts)
    case Nil
    then show ?case by (simp add: one_op_def)
  next
    case (Cons m ms)
    then obtain s1 a b where 1: "ctl_update u m s = Some (s1, a)" "ctl_run u ms s1 = Some (s', b)" "acts = a @ b"
      by (auto simp: bind_eq_Some_conv)
    then show ?case
      using ctl_update_flight[OF assms(1) _ 1(1)] Cons.IH[OF _ 1(2)] Cons.prems(1) one_op_then[of s s1 a s' b] by simp
  qed
  then show ?thesis by (simp add: one_op_def Let_def split: if_splits)
qed

end
