(* ===== verification/CtlRuns.thy ===== *)
theory CtlRuns
  imports CtlSafety
begin

text \<open>
  What \<open>muxrctl\<close> shows over a whole run: the pairing QR, the wizard that opens by itself, the names
  a certificate is asked for; and the sequences in which the token dialogs do what nobody asked for.
  A run starts from the fresh state; \<open>ctl_trace\<close> keeps the messages that led to a state.
\<close>

inductive ctl_trace :: "('u, 'f) ui_ops \<Rightarrow> 'u \<Rightarrow> 'f ctl_msg list \<Rightarrow> 'u app_state \<Rightarrow> bool" for u ui where
  start: "ctl_trace u ui [] (new_app ui)"
| step: "ctl_trace u ui ms s \<Longrightarrow> ctl_update u m s = Some (s', acts) \<Longrightarrow> ctl_trace u ui (ms @ [m]) s'"

subsection \<open>The pairing QR\<close>

text \<open>
  A step leaves the overlay alone, removes it, hides its code, or replaces it by one that shows
  nothing yet, for the newest request.
\<close>

definition qr_kept :: "'u app_state \<Rightarrow> 'u app_state \<Rightarrow> bool" where
  "qr_kept s s' \<longleftrightarrow>
     (\<forall>q'. tk_qr (ap_tokens s') = Some q' \<longrightarrow>
        qr_seq q' = ap_qr_seq s' \<and> \<not> is_showing q' \<or>
        ap_qr_seq s' = ap_qr_seq s \<and>
        (\<exists>q. tk_qr (ap_tokens s) = Some q \<and> qr_seq q' = qr_seq q \<and> (qr_phase q' = qr_phase q \<or> \<not> is_showing q')))"

lemma qr_same: "tk_qr (ap_tokens s') = tk_qr (ap_tokens s) \<Longrightarrow> ap_qr_seq s' = ap_qr_seq s \<Longrightarrow> qr_kept s s'"
  by (simp add: qr_kept_def)


















lemma qr_close_dialog: "qr_kept s (fst (close_dialog u s))"
  by (intro qr_same) simp_all






lemma qr_clear: "qr_kept s (clear_loading s)"
  by (intro qr_same) (simp_all add: clear_loading_def in_parts)










subsection \<open>The wizard that opens by itself\<close>

definition cert_read :: "'f ctl_msg list \<Rightarrow> bool" where
  "cert_read ms = list_ex (\<lambda>m. case m of CertInfoLoaded _ _ \<Rightarrow> True | _ \<Rightarrow> False) ms"

definition tokens_read :: "'f ctl_msg list \<Rightarrow> bool" where
  "tokens_read ms = list_ex (\<lambda>m. case m of TokensLoaded _ \<Rightarrow> True | _ \<Rightarrow> False) ms"

lemma read_simps [simp]:
  "\<not> cert_read []" "\<not> tokens_read []"
  "cert_read (ms @ [m]) = (cert_read ms \<or> (case m of CertInfoLoaded _ _ \<Rightarrow> True | _ \<Rightarrow> False))"
  "tokens_read (ms @ [m]) = (tokens_read ms \<or> (case m of TokensLoaded _ \<Rightarrow> True | _ \<Rightarrow> False))"
  by (auto simp: cert_read_def tokens_read_def)

definition first_run_flags :: "wizard_state \<Rightarrow> bool \<times> bool \<times> bool \<times> bool" where
  "first_run_flags w = (wz_first_run_checked w, wz_cert_seen w, wz_tokens_seen w, wz_tokens_mark w)"

lemma flags_simps [simp]:
  "first_run_flags (w\<lparr>wz_step := x\<rparr>) = first_run_flags w" "first_run_flags (w\<lparr>wz_busy := b\<rparr>) = first_run_flags w"
  "first_run_flags (w\<lparr>wz_error := e\<rparr>) = first_run_flags w" "first_run_flags (w\<lparr>wz_regen_ack := b\<rparr>) = first_run_flags w"
  "first_run_flags (w\<lparr>wz_cert_existed := b\<rparr>) = first_run_flags w"
  by (simp_all add: first_run_flags_def)

abbreviation flags_of :: "'u app_state \<Rightarrow> bool \<times> bool \<times> bool \<times> bool" where
  "flags_of s \<equiv> first_run_flags (ap_wizard s)"

lemma flags_advance [simp]: "flags_of (fst (advance u s)) = flags_of s"
  by (simp add: advance_def goto_step_def Let_def in_parts)

lemma start_qr_wizard: "ap_wizard (fst (start_qr m s)) = ap_wizard s"
  by simp

lemma open_qr_wizard [simp]: "ap_wizard (fst (open_qr u s)) = ap_wizard s"
  by (simp add: open_qr_def Let_def split_beta in_parts split: option.splits)

lemma flags_config [simp]: "flags_of (fst (config_update u m s)) = flags_of s"
  by (cases m; simp add: config_update_def save_config_def Let_def in_parts)

lemma flags_server [simp]: "flags_of (fst (server_update u m s)) = flags_of s"
  by (cases m; simp add: server_update_def split_beta in_parts)

lemma flags_cert [simp]: "flags_of (fst (cert_update u m s)) = flags_of s"
  by (cases m; simp add: cert_update_def Let_def in_parts)

lemma flags_devices [simp]: "flags_of (fst (devices_update u m s)) = flags_of s"
  by (cases m; simp add: devices_update_def split_beta in_parts split: option.splits)

lemma flags_tokens_update [simp]: "flags_of (fst (tokens_update u m s)) = flags_of s"
proof (cases m)
  case RevokeConfirmed
  then show ?thesis by (simp add: tokens_update_def split_beta in_parts split: option.splits)
qed (simp_all add: tokens_update_def Let_def in_parts)

lemma flags_wizard_next [simp]: "flags_of (fst (wizard_next u s)) = flags_of s"
proof (cases "wz_step (ap_wizard s)")
  case Network
  have "flags_of (fst (save_bind u s)) = flags_of s"
    by (simp add: save_bind_def config_update_def save_config_def Let_def split_beta in_parts wizard_error_def
        busy_with_def split: option.splits)
  then show ?thesis using Network by (simp add: wizard_next_def)
next
  case StartStep
  then show ?thesis
    by (simp add: wizard_next_def start_daemon_def server_update_def busy_with_def wizard_error_def Let_def in_parts)
qed (simp_all add: wizard_next_def wizard_cert_def create_token_def busy_with_def in_parts)

lemma flags_handle_ui:
  assumes "ui_laws u" "handle_ui u m s = Some r"
  shows "flags_of (fst r) = flags_of s"
proof (cases m)
  case (UiWizard w)
  then show ?thesis using assms(2) wizard_close_returns[OF assms(1), of s]
    by (cases w) (auto simp: handle_ui_def wizard_update_def wizard_finish_def wizard_back_def Let_def in_parts)
qed (use assms(2) in \<open>auto simp: handle_ui_def\<close>)

lemma flags_hooks [simp]:
  "flags_of (fst (wizard_action_ok u s)) = flags_of s" "flags_of (fst (wizard_cert_ensured u s)) = flags_of s"
  "flags_of (fst (wizard_status_loaded u s)) = flags_of s" "flags_of (fst (wizard_token_created u s)) = flags_of s"
  by (simp_all add: wizard_action_ok_def wizard_cert_ensured_def wizard_status_loaded_def wizard_token_created_def
      Let_def in_parts)

lemma flags_results [simp]:
  "flags_of (fst (action_ok u msg s)) = flags_of s" "flags_of (action_failed u msg s) = flags_of s"
  "flags_of (fst (token_created u token name ro s)) = flags_of s"
  "flags_of (server_status_loaded i s) = flags_of s" "flags_of (fst (handle_tick s)) = flags_of s"
  "flags_of (fst (handle_key u k s)) = flags_of s"
  by (simp_all add: action_ok_def action_failed_def wizard_action_failed_def after_def clear_loading_def
      token_created_def server_status_loaded_def on_status_for_qr_def check_overlay_connection_def handle_tick_def
      tokens_tick_def handle_key_def Let_def split_beta in_parts split: option.splits)


definition marked_seen :: "bool \<times> bool \<times> bool \<times> bool \<Rightarrow> bool \<times> bool \<times> bool \<times> bool" where
  "marked_seen = (\<lambda>(checked, c, t, mark).
     (let c' = (c \<or> \<not> mark); t' = (t \<or> mark) in (checked \<or> c' \<and> t', c', t', False)))"

lemma flags_auto_open: "flags_of (fst (maybe_auto_open u s)) = marked_seen (flags_of s)"
  by (cases "wz_tokens_mark (ap_wizard s)")
    (auto simp: maybe_auto_open_def marked_seen_def first_run_flags_def Let_def split_beta in_parts)

lemma trace_flags:
  assumes "ui_laws u" "ctl_trace u ui ms s"
  shows "flags_of s = (cert_read ms \<and> tokens_read ms, cert_read ms, tokens_read ms, False)"
  using assms(2)
proof (induction rule: ctl_trace.induct)
  case start
  then show ?case by (simp add: new_app_def first_run_flags_def)
next
  case (step ms s m s' acts)
  note up = step.hyps(2)
  show ?case
  proof (cases m)
    case (Ui um)
    then show ?thesis using up flags_handle_ui[OF assms(1), of um s "(s', acts)"] step.IH by (simp add: ctl_update_def)
  next
    case (CertInfoLoaded fp sans)
    have "flags_of s' = marked_seen (flags_of (cert_info_loaded fp sans s))"
      using up CertInfoLoaded flags_auto_open[of u "cert_info_loaded fp sans s"] by (simp add: ctl_update_def)
    also have "flags_of (cert_info_loaded fp sans s) = flags_of s" by (simp add: cert_info_loaded_def in_parts)
    finally show ?thesis using step.IH CertInfoLoaded by (auto simp: marked_seen_def Let_def)
  next
    case (TokensLoaded rs)
    define t where "t = wizard_tokens_loaded (tokens_loaded rs s)"
    have "flags_of s' = marked_seen (flags_of t)"
      using up TokensLoaded flags_auto_open[of u t] by (simp add: ctl_update_def t_def)
    moreover have "flags_of t = (wz_first_run_checked (ap_wizard s), wz_cert_seen (ap_wizard s), True, True)"
      by (simp add: t_def wizard_tokens_loaded_def tokens_loaded_def in_parts first_run_flags_def)
    ultimately show ?thesis using step.IH TokensLoaded by (auto simp: marked_seen_def Let_def first_run_flags_def)
  next
    case (CertEnsured fp sans)
    have "flags_of s' = flags_of s"
      using up CertEnsured by (auto simp: ctl_update_def after_def split_beta cert_ensured_def in_parts dest!: arg_cong[of _ _ "flags_of \<circ> fst"])
    then show ?thesis using step.IH CertEnsured by simp
  next
    case (TokenCreated token name ro)
    have "flags_of s' = flags_of s"
      using up TokenCreated by (auto simp: ctl_update_def after_def split_beta dest!: arg_cong[of _ _ "flags_of \<circ> fst"])
    then show ?thesis using step.IH TokenCreated by simp
  next
    case (Key k)
    then show ?thesis using up step.IH flags_results(6)[of u k s] by (simp add: ctl_update_def)
  next
    case Tick
    then show ?thesis using up step.IH flags_results(5)[of s] by (simp add: ctl_update_def)
  next
    case (StatusLoaded i)
    then show ?thesis using up step.IH flags_hooks(3)[of u "server_status_loaded i s"] by (simp add: ctl_update_def)
  next
    case (ActionOk msg)
    then show ?thesis using up step.IH flags_results(1)[of u msg s] by (simp add: ctl_update_def)
  next
    case (ActionFailed msg)
    then show ?thesis using up step.IH flags_results(2)[of u msg s] by (auto simp: ctl_update_def)
  qed (use up step.IH in \<open>auto simp: ctl_update_def on_config_loaded_def tokens_changed_def devices_loaded_def
      devices_changed_def on_qr_ready_def on_qr_failed_def qr_result_def in_parts Let_def split: option.splits\<close>)
qed

lemma auto_open_guard:
  assumes "\<not> dialog_open u DWizard s" "dialog_open u DWizard (fst (maybe_auto_open u s))"
  shows "\<not> wz_first_run_checked (ap_wizard s) \<and> fst (marked_seen (flags_of s)) \<and>
    ce_fingerprint (ap_cert s) = None \<and> tk_tokens (ap_tokens s) = []"
  using assms
  by (auto simp: maybe_auto_open_def marked_seen_def first_run_flags_def dialog_open_def Let_def in_parts split: if_splits)

text \<open>
  (the wizard opens by itself once). A load opens the wizard only when it is the one that completes
  the first reading of both the certificate and the tokens, and only when there is neither a
  certificate nor a token: never on one of the two alone, and never again in a run.
\<close>

theorem wizard_opens_once:
  assumes "ui_laws u" "ctl_trace u ui ms s" "ctl_update u m s = Some (s', acts)"
    "case m of CertInfoLoaded _ _ \<Rightarrow> True | TokensLoaded _ \<Rightarrow> True | _ \<Rightarrow> False"
    "\<not> dialog_open u DWizard s" "dialog_open u DWizard s'"
  shows "\<not> (cert_read ms \<and> tokens_read ms) \<and> cert_read (ms @ [m]) \<and> tokens_read (ms @ [m]) \<and>
    (case m of CertInfoLoaded fp _ \<Rightarrow> fp = None \<and> tk_tokens (ap_tokens s) = []
     | TokensLoaded rs \<Rightarrow> rs = [] \<and> ce_fingerprint (ap_cert s) = None | _ \<Rightarrow> False)"
proof -
  have flags: "flags_of s = (cert_read ms \<and> tokens_read ms, cert_read ms, tokens_read ms, False)"
    by (rule trace_flags[OF assms(1,2)])
  then have old: "wz_first_run_checked (ap_wizard s) = (cert_read ms \<and> tokens_read ms)"
    "wz_cert_seen (ap_wizard s) = cert_read ms"
    by (simp_all add: first_run_flags_def)
  consider fp sans where "m = CertInfoLoaded fp sans" | rs where "m = TokensLoaded rs"
    using assms(4) by (cases m) auto
  then show ?thesis
  proof cases
    case 1
    define t where "t = cert_info_loaded fp sans s"
    have t: "flags_of t = flags_of s" "\<not> dialog_open u DWizard t" "ce_fingerprint (ap_cert t) = fp"
      "ap_tokens t = ap_tokens s" "ap_wizard t = ap_wizard s"
      using assms(5) by (simp_all add: t_def cert_info_loaded_def dialog_open_def in_parts)
    have "maybe_auto_open u t = (s', acts)" using assms(3) 1 by (simp add: ctl_update_def t_def)
    then show ?thesis using auto_open_guard[OF t(2)] assms(6) t flags old 1 by (auto simp: marked_seen_def Let_def)
  next
    case 2
    define t where "t = wizard_tokens_loaded (tokens_loaded rs s)"
    have t: "flags_of t = (wz_first_run_checked (ap_wizard s), wz_cert_seen (ap_wizard s), True, True)"
      "\<not> dialog_open u DWizard t" "tk_tokens (ap_tokens t) = rs" "ap_cert t = ap_cert s"
      "wz_first_run_checked (ap_wizard t) = wz_first_run_checked (ap_wizard s)"
      using assms(5)
      by (simp_all add: t_def wizard_tokens_loaded_def tokens_loaded_def dialog_open_def first_run_flags_def Let_def in_parts)
    have "maybe_auto_open u t = (s', acts)" using assms(3) 2 by (simp add: ctl_update_def t_def)
    then show ?thesis using auto_open_guard[OF t(2)] assms(6) t flags old 2 by (auto simp: marked_seen_def Let_def)
  qed
qed


subsection \<open>The names of a certificate\<close>

definition concrete_names :: "config_state \<Rightarrow> string set" where
  "concrete_names c =
     {show_ipv4 ip | ip. ip \<in> set (cf_reachable c) \<and> \<not> is_unspecified (of_ipv4 ip)} \<union>
     {trim e | e. e \<in> insert (cf_host c) (set (cf_sans c)) \<and> trim e \<noteq> [] \<and> \<not> is_wildcard (trim e)}"

lemma san_from_host_value [simp]: "san_value (san_from_host h) = trim h"
  by (simp add: san_from_host_def Let_def)

lemma add_san_values:
  "set (map san_value (add_san e sans)) =
     set (map san_value sans) \<union> (if trim e = [] \<or> is_wildcard (trim e) then {} else {trim e})"
  by (auto simp: add_san_def Let_def)

lemma add_reachable_values:
  "set (map san_value (add_reachable ip sans)) =
     set (map san_value sans) \<union> (if is_unspecified (of_ipv4 ip) then {} else {show_ipv4 ip})"
  by (auto simp: add_reachable_def)

lemma fold_add_san_values:
  "set (map san_value (fold add_san es sans)) =
     set (map san_value sans) \<union> {trim e | e. e \<in> set es \<and> trim e \<noteq> [] \<and> \<not> is_wildcard (trim e)}"
  by (induction es arbitrary: sans) (auto simp only: fold_simps add_san_values list.set split: if_splits; auto)+

lemma fold_add_reachable_values:
  "set (map san_value (fold add_reachable ips sans)) =
     set (map san_value sans) \<union> {show_ipv4 ip | ip. ip \<in> set ips \<and> \<not> is_unspecified (of_ipv4 ip)}"
proof (induction ips arbitrary: sans)
  case (Cons ip ips)
  show ?case unfolding fold_simps o_apply Cons add_reachable_values by (auto simp del: split_paired_Ex)
qed simp

lemma distinct_add_san: "distinct (map san_value sans) \<Longrightarrow> distinct (map san_value (add_san e sans))"
  by (auto simp: add_san_def Let_def)

lemma distinct_add_reachable: "distinct (map san_value sans) \<Longrightarrow> distinct (map san_value (add_reachable ip sans))"
  by (auto simp: add_reachable_def)

lemma distinct_fold: "(\<And>x s. P s \<Longrightarrow> P (f x s)) \<Longrightarrow> P s \<Longrightarrow> P (fold f xs s)"
  by (induction xs arbitrary: s) auto

text \<open>
  (the names asked for). The certificate the panel asks for carries every address of an
  interface, the bind host and every \<open>MUXRD_SAN\<close> entry, trimmed, each once, except the
  blank ones and the wildcards, and nothing else.
\<close>

theorem planned_names:
  "set (map san_value (build_sans_from_config c)) = concrete_names c \<and> distinct (map san_value (build_sans_from_config c))"
proof
  show "set (map san_value (build_sans_from_config c)) = concrete_names c"
    unfolding build_sans_from_config_def fold_add_san_values add_san_values fold_add_reachable_values concrete_names_def
    by auto
  show "distinct (map san_value (build_sans_from_config c))"
    unfolding build_sans_from_config_def
    by (intro distinct_fold[where P = "\<lambda>s. distinct (map san_value s)"] distinct_add_san distinct_add_reachable) simp_all
qed

text \<open>A reachable address is asked for as an address, never as a DNS name.\<close>

lemma reachable_is_ip: "ipv4_ok ip \<Longrightarrow> trim (show_ipv4 ip) = show_ipv4 ip \<Longrightarrow> san_from_host (show_ipv4 ip) = SanIp (show_ipv4 ip)"
  by (simp add: san_from_host_def parse_show_ipv4)

subsection \<open>What the dialogs do that nobody asked for\<close>


text \<open>
  (a failure of another task unlocks the wizard). While the wizard waits for the token it asked for,
  the failure of any other task ends the wait: Next then mints a second token while the first is
  still being made.
\<close>

theorem wizard_mints_twice:
  assumes "waiting_on u TokenStep s"
  shows "\<exists>s1 s2. ctl_update u (ActionFailed msg) s = Some (s1, []) \<and>
    ctl_update u (Ui (UiWizard WizNext)) s1 = Some (s2, [form_token (ap_tokens s)])"
proof -
  define s1 where "s1 = action_failed u msg s"
  have "ap_wizard s1 = (ap_wizard s)\<lparr>wz_busy := False, wz_error := Some (Reported msg)\<rparr>"
    using assms by (auto simp: s1_def action_failed_def wizard_action_failed_def waiting_on_def dialog_open_def
        clear_loading_def Let_def in_parts)
  moreover have "form_token (ap_tokens s1) = form_token (ap_tokens s)"
    by (simp add: s1_def action_failed_def wizard_action_failed_def clear_loading_def Let_def in_parts form_token_def)
  ultimately have "snd (wizard_next u s1) = [form_token (ap_tokens s)]"
    using assms by (simp add: wizard_next_def create_token_def waiting_on_def)
  moreover have "ctl_update u (Ui (UiWizard WizNext)) s1 = Some (wizard_next u s1)"
    by (simp add: ctl_update_def handle_ui_def wizard_update_def)
  ultimately show ?thesis
    by (intro exI[of _ s1] exI[of _ "fst (wizard_next u s1)"]) (simp add: ctl_update_def s1_def, metis prod.collapse)
qed

text \<open>A reload keeps the minted secret.\<close>

lemma reload_keeps_secret: "tk_minted (ap_tokens (tokens_loaded rs s)) = tk_minted (ap_tokens s)"
  by (simp add: tokens_loaded_def in_parts Let_def)


subsection \<open>A modal stack, and runs on it\<close>

text \<open>The stack as a list of ids, without a focus: an instance of what \<open>ui_laws\<close> asks.\<close>

definition list_ui :: "(string list, unit) ui_ops" where
  "list_ui = \<lparr>ui_open = (\<lambda>i s. if s \<noteq> [] \<and> List.last s = i then Some s else if i \<in> set s then None else Some (s @ [i])),
     ui_close = (\<lambda>s. if s = [] then None else Some (List.last s, butlast s)),
     ui_ids = (\<lambda>s. s), ui_focus = (\<lambda>_ s. s), ui_intent = (\<lambda>_. ())\<rparr>"

lemma list_ui_laws: "ui_laws list_ui"
  unfolding ui_laws_def list_ui_def by (auto simp: append_butlast_last_id split: if_splits)

lemma run_trace: "ctl_run u ms (new_app ui) = Some (s, acts) \<Longrightarrow> ctl_trace u ui ms s"
proof (induction ms arbitrary: s acts rule: rev_induct)
  case Nil
  then show ?case using ctl_trace.start[of u ui] by simp
next
  case (snoc m ms)
  then obtain s1 a b where r: "ctl_run u ms (new_app ui) = Some (s1, a)" "ctl_update u m s1 = Some (s, b)"
    by (auto simp: ctl_run_append bind_eq_Some_conv)
  show ?case by (rule ctl_trace.step[OF snoc.IH[OF r(1)] r(2)])
qed

lemmas ctl_eval = ctl_update_def handle_ui_def handle_key_def handle_tick_def tokens_tick_def server_update_def
  tokens_update_def open_hook_def open_dialog_def close_top_def close_dialog_def refresh_after_close_def
  top_dialog_def dialog_open_def new_app_def list_ui_def in_parts Let_def is_running_def


definition waiting_for_token :: "string list app_state" where
  "waiting_for_token = in_wizard (\<lambda>w. w\<lparr>wz_step := TokenStep, wz_busy := True\<rparr>) (new_app [''wizard''])"

theorem ctl_update_returns_witness:
  "\<exists>s' acts. ctl_update list_ui (Ui (UiWizard WizFinish)) (new_app [''wizard'', ''token_minted'']) = Some (s', acts)"
  by (rule ctl_update_returns[OF list_ui_laws])


theorem daemon_ops_single_flight_witness:
  "daemon_ops [StartServer] \<le> 1"
proof -
  let ?s = "\<lparr>ke_code = KChar ''s'', ke_ctrl = False, ke_alt = False\<rparr>"
  have "\<exists>s'. ctl_run list_ui [Tick, Key ?s, Tick, Key ?s] (new_app []) = Some (s', [StartServer])"
    by (simp add: ctl_eval)
  moreover have "list_all (\<lambda>m. \<not> releases m) [Tick, Key ?s, Tick, Key ?s :: unit ctl_msg]"
    by (simp add: releases_def)
  ultimately show ?thesis
    using daemon_ops_single_flight[OF list_ui_laws, of "[Tick, Key ?s, Tick, Key ?s]" "new_app []"]
    by (auto simp: new_app_def)
qed


theorem wizard_opens_once_witness:
  "\<not> (cert_read [CertInfoLoaded None [] :: unit ctl_msg] \<and> tokens_read [CertInfoLoaded None [] :: unit ctl_msg])"
proof -
  have "\<exists>s acts s' acts'. ctl_run list_ui [CertInfoLoaded None []] (new_app []) = Some (s, acts) \<and>
      ctl_update list_ui (TokensLoaded []) s = Some (s', acts') \<and> \<not> dialog_open list_ui DWizard s \<and>
      dialog_open list_ui DWizard s'"
    by (simp add: ctl_eval cert_info_loaded_def maybe_auto_open_def tokens_loaded_def wizard_tokens_loaded_def park_focus_def)
  then obtain s acts s' acts' where r: "ctl_run list_ui [CertInfoLoaded None []] (new_app []) = Some (s, acts)"
      "ctl_update list_ui (TokensLoaded []) s = Some (s', acts')" "\<not> dialog_open list_ui DWizard s"
      "dialog_open list_ui DWizard s'"
    by blast
  show ?thesis using wizard_opens_once[OF list_ui_laws run_trace[OF r(1)] r(2) _ r(3,4)] by simp
qed


theorem wizard_mints_twice_witness:
  "\<exists>s1 s2. ctl_update list_ui (ActionFailed ''list devices failed'') waiting_for_token = Some (s1, []) \<and>
    ctl_update list_ui (Ui (UiWizard WizNext)) s1 = Some (s2, [form_token (ap_tokens waiting_for_token)])"
proof -
  have "waiting_on list_ui TokenStep waiting_for_token"
    by (simp add: waiting_on_def waiting_for_token_def ctl_eval)
  then show ?thesis by (rule wizard_mints_twice)
qed

end
