(* ===== verification/FileOps.thy ===== *)
theory FileOps
  imports Prelude
begin

text \<open>
  The file operations the configuration and certificate code is made of (\<open>std::fs\<close>): a file
  is its bytes and its permission bits, a directory a map from paths. An operation that is
  interrupted - the process dies or the call returns an error - leaves the effect of the
  operations before it, and of a write any prefix of the bytes.
\<close>

type_synonym files = "string \<rightharpoonup> string \<times> nat"

datatype file_op = WriteFile string string | Chmod string nat | RenameFile string string | RemoveFile string

text \<open>\<open>Path::join\<close> with a relative name.\<close>

definition path_join :: "string \<Rightarrow> string \<Rightarrow> string" where
  "path_join d n = (if d = [] \<or> List.last d = CHR ''/'' then d @ n else d @ CHR ''/'' # n)"

lemma path_join_eq [simp]: "path_join d n = path_join d n' \<longleftrightarrow> n = n'"
  by (simp add: path_join_def)

text \<open>
  \<open>std::fs::write\<close> creates with the mode the umask leaves (\<open>dm\<close>) and keeps the mode of a file
  that is there; \<open>rename\<close> replaces its target.
\<close>

definition write_file :: "nat \<Rightarrow> string \<Rightarrow> string \<Rightarrow> files \<Rightarrow> files" where
  "write_file dm p c fs = fs(p \<mapsto> (c, case fs p of Some (_, m) \<Rightarrow> m | None \<Rightarrow> dm))"

fun file_apply :: "nat \<Rightarrow> file_op \<Rightarrow> files \<Rightarrow> files" where
  "file_apply dm (WriteFile p c) fs = write_file dm p c fs"
| "file_apply dm (Chmod p m) fs = (case fs p of Some (c, _) \<Rightarrow> fs(p \<mapsto> (c, m)) | None \<Rightarrow> fs)"
| "file_apply dm (RenameFile p q) fs = (case fs p of Some f \<Rightarrow> (fs(p := None))(q \<mapsto> f) | None \<Rightarrow> fs)"
| "file_apply dm (RemoveFile p) fs = fs(p := None)"

definition file_run :: "nat \<Rightarrow> file_op list \<Rightarrow> files \<Rightarrow> files" where
  "file_run dm ops fs = fold (file_apply dm) ops fs"

declare file_apply.simps(2-4) [simp del]

lemma file_run_simps [simp]:
  "file_run dm [] fs = fs" "file_run dm (op # ops) fs = file_run dm ops (file_apply dm op fs)"
  "file_run dm (ops @ ops') fs = file_run dm ops' (file_run dm ops fs)"
  by (simp_all add: file_run_def)

text \<open>What a run that stops before its end may leave.\<close>

inductive interrupted :: "nat \<Rightarrow> file_op list \<Rightarrow> files \<Rightarrow> files \<Rightarrow> bool" for dm where
  stopped: "interrupted dm ops fs fs"
| torn: "interrupted dm (WriteFile p c # ops) fs (write_file dm p (take k c) fs)"
| on: "interrupted dm ops (file_apply dm op fs) fs' \<Longrightarrow> interrupted dm (op # ops) fs fs'"

inductive_cases interrupted_nilE: "interrupted dm [] fs fs'"
inductive_cases interrupted_writeE: "interrupted dm (WriteFile p c # ops) fs fs'"
inductive_cases interrupted_chmodE: "interrupted dm (Chmod p m # ops) fs fs'"
inductive_cases interrupted_renameE: "interrupted dm (RenameFile p q # ops) fs fs'"

lemmas interruptedE = interrupted_nilE interrupted_writeE interrupted_chmodE interrupted_renameE

lemma interrupted_run: "interrupted dm ops fs (file_run dm ops fs)"
  by (induction ops arbitrary: fs) (auto intro: interrupted.intros)

lemma interrupted_append: "interrupted dm ops' (file_run dm ops fs) fs' \<Longrightarrow> interrupted dm (ops @ ops') fs fs'"
  by (induction ops arbitrary: fs) (auto intro: interrupted.intros)

text \<open>The content of a file, and of the one a write leaves.\<close>

definition content :: "files \<Rightarrow> string \<Rightarrow> string option" where
  "content fs p = map_option fst (fs p)"

lemma content_write [simp]: "content (write_file dm p c fs) q = (if q = p then Some c else content fs q)"
  by (simp add: content_def write_file_def)

lemma content_apply [simp]:
  "content (file_apply dm (Chmod p m) fs) q = content fs q"
  "content (file_apply dm (RenameFile p p') fs) q =
     (if content fs p = None then content fs q
      else if q = p' then content fs p else if q = p then None else content fs q)"
  "content (file_apply dm (RemoveFile p) fs) q = (if q = p then None else content fs q)"
  by (auto simp: content_def file_apply.simps split: option.split)

text \<open>A file no operation names keeps its content.\<close>

fun touches :: "file_op \<Rightarrow> string \<Rightarrow> bool" where
  "touches (WriteFile p c) q = (q = p)"
| "touches (Chmod p m) q = False"
| "touches (RenameFile p p') q = (q = p \<or> q = p')"
| "touches (RemoveFile p) q = (q = p)"

lemma apply_untouched: "\<not> touches op q \<Longrightarrow> content (file_apply dm op fs) q = content fs q"
  by (cases op) simp_all

lemma interrupted_untouched:
  "interrupted dm ops fs fs' \<Longrightarrow> list_all (\<lambda>op. \<not> touches op q) ops \<Longrightarrow> content fs' q = content fs q"
  by (induction rule: interrupted.induct) (simp_all add: apply_untouched)

lemma run_untouched: "list_all (\<lambda>op. \<not> touches op q) ops \<Longrightarrow> content (file_run dm ops fs) q = content fs q"
  by (rule interrupted_untouched[OF interrupted_run])

end
