(* ===== verification/ServerConfig.thy ===== *)
theory ServerConfig
  imports CtlNet FileOps
begin

text \<open>
  The effective configuration of the daemon, \<open>muxrd/src/config.rs\<close>: the precedence of command
  line, environment, file and defaults, the choice of the transport, the guard against plaintext
  on a public address, and the update of the bind address in the file. The TOML reader and
  writer, the URL parser of the \<open>http\<close> crate, the creation of the data directory and whether a
  file can be read as text are parameters (\<open>host\<close>).
\<close>

subsection \<open>What the daemon finds\<close>

record file_config =
  fc_bind_addr :: "string option"
  fc_cert_dir :: "string option"
  fc_log_path :: "string option"
  fc_notify_relay_url :: "string option"
  fc_notify_verbosity :: "string option"

definition no_file_config :: file_config where
  "no_file_config = \<lparr>fc_bind_addr = None, fc_cert_dir = None, fc_log_path = None,
     fc_notify_relay_url = None, fc_notify_verbosity = None\<rparr>"

record effective_config =
  ec_bind_addr :: string
  ec_cert_dir :: string
  ec_log_path :: string
  ec_config_file :: string
  ec_notify_relay_url :: "string option"
  ec_notify_verbosity :: string

text \<open>
  \<open>hs_data_dir\<close>: the data directory, when it could be created and restricted; \<open>hs_text\<close>: whether
  \<open>read_to_string\<close> succeeds on a file with this content; \<open>hs_uri\<close>: scheme and host of a URL.
\<close>

record host =
  hs_env :: "string \<Rightarrow> string option"
  hs_data_dir :: "string option"
  hs_text :: "string \<Rightarrow> bool"
  hs_toml :: "string \<Rightarrow> file_config option"
  hs_to_toml :: "file_config \<Rightarrow> string option"
  hs_uri :: "string \<Rightarrow> (string option \<times> string option) option"

datatype config_error =
    NoDataDir | CannotRead | NotAUrl | BadScheme | NoUrlHost | BadVerbosity | NotWritten
  | H2cWithCert | CertWithoutKey | KeyWithoutCert | PublicPlaintext

definition DEFAULT_BIND :: string where "DEFAULT_BIND = ''127.0.0.1:50051''"
definition DEFAULT_NOTIFY_RELAY_URL :: string where "DEFAULT_NOTIFY_RELAY_URL = ''https://noti.muxr.app''"
definition DEFAULT_NOTIFY_VERBOSITY :: string where "DEFAULT_NOTIFY_VERBOSITY = ''normal''"

definition config_file_path :: "host \<Rightarrow> string option" where
  "config_file_path h = map_option (\<lambda>d. path_join d ''config.toml'') (hs_data_dir h)"

text \<open>\<open>Option::or\<close>.\<close>

definition first_set :: "'a option \<Rightarrow> 'a option \<Rightarrow> 'a option" where
  "first_set a b = (case a of Some x \<Rightarrow> Some x | None \<Rightarrow> b)"

lemma first_set_simps [simp]: "first_set (Some x) b = Some x" "first_set None b = b"
  by (simp_all add: first_set_def)

definition unwrap_or :: "'a option \<Rightarrow> 'a \<Rightarrow> 'a" where
  "unwrap_or a d = (case a of Some x \<Rightarrow> x | None \<Rightarrow> d)"

lemma unwrap_or_simps [simp]: "unwrap_or (Some x) d = x" "unwrap_or None d = d"
  by (simp_all add: unwrap_or_def)

text \<open>A missing file and one that does not parse are the defaults; one that cannot be read is an error.\<close>

definition read_file_config :: "host \<Rightarrow> files \<Rightarrow> string \<Rightarrow> config_error + file_config" where
  "read_file_config h fs path =
     (case content fs path of
        None \<Rightarrow> Inr no_file_config
      | Some raw \<Rightarrow> if hs_text h raw then Inr (unwrap_or (hs_toml h raw) no_file_config) else Inl CannotRead)"

definition resolve_notify_relay_url :: "host \<Rightarrow> string \<Rightarrow> config_error + string option" where
  "resolve_notify_relay_url h raw =
     (let trimmed = trim raw
      in if trimmed = [] then Inr None
         else (case hs_uri h trimmed of
                 None \<Rightarrow> Inl NotAUrl
               | Some (scheme, host) \<Rightarrow>
                   if scheme \<noteq> Some ''http'' \<and> scheme \<noteq> Some ''https'' then Inl BadScheme
                   else if host = None \<or> host = Some [] then Inl NoUrlHost
                   else Inr (Some trimmed)))"

definition resolve_notify_verbosity :: "string option \<Rightarrow> config_error + string" where
  "resolve_notify_verbosity raw =
     (case raw of
        None \<Rightarrow> Inr DEFAULT_NOTIFY_VERBOSITY
      | Some v \<Rightarrow> if v = ''normal'' \<or> v = ''generic'' then Inr v else Inl BadVerbosity)"

definition resolve :: "host \<Rightarrow> files \<Rightarrow> string option \<Rightarrow> config_error + effective_config" where
  "resolve h fs bind_override =
     (case hs_data_dir h of
        None \<Rightarrow> Inl NoDataDir
      | Some dir \<Rightarrow>
          let config_file = path_join dir ''config.toml''
          in case read_file_config h fs config_file of
               Inl e \<Rightarrow> Inl e
             | Inr fc \<Rightarrow>
                 (let bind = unwrap_or (first_set bind_override (first_set (hs_env h ''MUXRD_BIND'') (fc_bind_addr fc))) DEFAULT_BIND;
                      cert = unwrap_or (fc_cert_dir fc) dir;
                      log = unwrap_or (fc_log_path fc) (path_join dir ''muxrd.log'');
                      raw = unwrap_or (first_set (hs_env h ''MUXRD_NOTIFY_RELAY_URL'') (fc_notify_relay_url fc)) DEFAULT_NOTIFY_RELAY_URL
                  in case resolve_notify_relay_url h raw of
                       Inl e \<Rightarrow> Inl e
                     | Inr url \<Rightarrow>
                         (case resolve_notify_verbosity (fc_notify_verbosity fc) of
                            Inl e \<Rightarrow> Inl e
                          | Inr v \<Rightarrow> Inr \<lparr>ec_bind_addr = bind, ec_cert_dir = cert, ec_log_path = log,
                                          ec_config_file = config_file, ec_notify_relay_url = url, ec_notify_verbosity = v\<rparr>)))"

subsection \<open>The transport\<close>

datatype cert_source = SelfSigned | External string string | H2c

datatype cert_mode = SelfSignedMode | ExternalMode | H2cMode

fun cert_mode_of :: "cert_source \<Rightarrow> cert_mode" where
  "cert_mode_of SelfSigned = SelfSignedMode"
| "cert_mode_of (External cert key) = ExternalMode"
| "cert_mode_of H2c = H2cMode"

text \<open>An environment variable that is set, not empty and not \<open>0\<close>; one that is set and not empty.\<close>

definition env_true :: "host \<Rightarrow> string \<Rightarrow> bool" where
  "env_true h name = (case hs_env h name of Some v \<Rightarrow> v \<noteq> [] \<and> v \<noteq> ''0'' | None \<Rightarrow> False)"

definition env_path :: "host \<Rightarrow> string \<Rightarrow> string option" where
  "env_path h name = (case hs_env h name of Some v \<Rightarrow> if v \<noteq> [] then Some v else None | None \<Rightarrow> None)"

definition resolve_cert_source ::
  "host \<Rightarrow> string option \<Rightarrow> string option \<Rightarrow> bool \<Rightarrow> config_error + cert_source" where
  "resolve_cert_source h cli_cert cli_key cli_h2c =
     (let cert = first_set cli_cert (env_path h ''MUXRD_TLS_CERT'');
          key = first_set cli_key (env_path h ''MUXRD_TLS_KEY'');
          h2c = (cli_h2c \<or> env_true h ''MUXRD_H2C'')
      in if h2c \<and> (cert \<noteq> None \<or> key \<noteq> None) then Inl H2cWithCert
         else if h2c then Inr H2c
         else (case (cert, key) of
                 (Some c, Some k) \<Rightarrow> Inr (External c k)
               | (Some _, None) \<Rightarrow> Inl CertWithoutKey
               | (None, Some _) \<Rightarrow> Inl KeyWithoutCert
               | (None, None) \<Rightarrow> Inr SelfSigned))"

definition check_h2c_bind_safety :: "cert_source \<Rightarrow> ip \<Rightarrow> bool \<Rightarrow> config_error + unit" where
  "check_h2c_bind_safety source addr allow_public =
     (if source \<noteq> H2c then Inr ()
      else if is_loopback addr then Inr ()
      else if allow_public then Inr () else Inl PublicPlaintext)"

subsection \<open>Updating the file\<close>

text \<open>
  The commented template. Its text is built from the data directory and the defaults; every line
  is a comment.
\<close>

definition config_template :: "string \<Rightarrow> string" where
  "config_template dir =
     concat (map (\<lambda>l. CHR ''#'' # l @ [CHR 0x0A])
       ['' muxrd configuration file'', '' All fields are optional; missing fields use built-in defaults.'', [],
        '' bind_addr = '' @ CHR 0x22 # DEFAULT_BIND @ [CHR 0x22],
        '' cert_dir  = '' @ CHR 0x22 # dir @ [CHR 0x22],
        '' log_path  = '' @ CHR 0x22 # path_join dir ''muxrd.log'' @ [CHR 0x22], [],
        '' Push-notification relay. Set to '' @ [CHR 0x22, CHR 0x22] @ '' to disable push notifications'',
        '' entirely (no outbound traffic to any relay).'',
        '' notify_relay_url = '' @ CHR 0x22 # DEFAULT_NOTIFY_RELAY_URL @ [CHR 0x22],
        '' notify_verbosity = '' @ CHR 0x22 # DEFAULT_NOTIFY_VERBOSITY @ CHR 0x22 # '' # '' @
          CHR 0x22 # ''normal'' @ CHR 0x22 # '' | '' @ CHR 0x22 # ''generic'' @ [CHR 0x22]])"

definition ensure_config_file :: "host \<Rightarrow> files \<Rightarrow> config_error + file_op list" where
  "ensure_config_file h fs =
     (case hs_data_dir h of
        None \<Rightarrow> Inl NoDataDir
      | Some dir \<Rightarrow>
          (let path = path_join dir ''config.toml''
           in if content fs path \<noteq> None then Inr [] else Inr [WriteFile path (config_template dir)]))"

text \<open>The operations in order; one that fails ends the call with what was done before it.\<close>

definition set_bind_addr :: "host \<Rightarrow> nat \<Rightarrow> files \<Rightarrow> string \<Rightarrow> config_error + file_op list" where
  "set_bind_addr h dm fs addr =
     (case (ensure_config_file h fs, hs_data_dir h) of
        (Inr ops, Some dir) \<Rightarrow>
          let path = path_join dir ''config.toml'';
              temp = path_join dir ''.config.toml.tmp''
          in (case read_file_config h (file_run dm ops fs) path of
                Inl e \<Rightarrow> Inl e
              | Inr fc \<Rightarrow>
                  (case hs_to_toml h (fc\<lparr>fc_bind_addr := Some addr\<rparr>) of
                     None \<Rightarrow> Inl NotWritten
                   | Some text \<Rightarrow> Inr (ops @ [WriteFile temp text, Chmod temp 384, RenameFile temp path])))
      | _ \<Rightarrow> Inl NoDataDir)"

subsection \<open>What holds of them\<close>

text \<open>A parsed configuration: what the notifier and the clients may rely on.\<close>

lemma resolve_url_cases:
  "resolve_notify_relay_url h raw = Inr (Some url) \<Longrightarrow>
     url = trim raw \<and> url \<noteq> [] \<and>
     (\<exists>scheme host. hs_uri h url = Some (Some scheme, Some host) \<and> scheme \<in> {''http'', ''https''} \<and> host \<noteq> [])"
  by (auto simp: resolve_notify_relay_url_def Let_def split: option.splits if_splits)

lemma resolve_verbosity_cases: "resolve_notify_verbosity raw = Inr v \<Longrightarrow> v = ''normal'' \<or> v = ''generic''"
  by (auto simp: resolve_notify_verbosity_def DEFAULT_NOTIFY_VERBOSITY_def split: option.splits if_splits)

lemma resolve_cases:
  assumes "resolve h fs bind = Inr c"
  obtains dir fc where "hs_data_dir h = Some dir" "read_file_config h fs (path_join dir ''config.toml'') = Inr fc"
    "ec_bind_addr c = unwrap_or (first_set bind (first_set (hs_env h ''MUXRD_BIND'') (fc_bind_addr fc))) DEFAULT_BIND"
    "ec_cert_dir c = unwrap_or (fc_cert_dir fc) dir"
    "resolve_notify_relay_url h (unwrap_or (first_set (hs_env h ''MUXRD_NOTIFY_RELAY_URL'') (fc_notify_relay_url fc))
       DEFAULT_NOTIFY_RELAY_URL) = Inr (ec_notify_relay_url c)"
    "resolve_notify_verbosity (fc_notify_verbosity fc) = Inr (ec_notify_verbosity c)"
  using assms by (auto simp: resolve_def Let_def split: option.splits sum.splits)

text \<open>
  C39 (the effective configuration). A configuration that resolves has a verbosity of the two the
  notifier knows, and a relay URL that is absent or a trimmed \<open>http\<close> or \<open>https\<close> URL with a host,
  whatever the environment and the file say.
\<close>

theorem resolved_config_well_formed:
  assumes "resolve h fs bind = Inr c"
  shows "ec_notify_verbosity c \<in> {''normal'', ''generic''} \<and>
    (case ec_notify_relay_url c of None \<Rightarrow> True
     | Some url \<Rightarrow> trim url = url \<and> url \<noteq> [] \<and>
         (\<exists>scheme host. hs_uri h url = Some (Some scheme, Some host) \<and> scheme \<in> {''http'', ''https''} \<and> host \<noteq> []))"
proof -
  obtain fc :: file_config and raw where "resolve_notify_relay_url h raw = Inr (ec_notify_relay_url c)"
    "resolve_notify_verbosity (fc_notify_verbosity fc) = Inr (ec_notify_verbosity c)"
    using assms by (rule resolve_cases) blast
  then show ?thesis
    using resolve_url_cases[of h raw] resolve_verbosity_cases[of "fc_notify_verbosity fc"]
    by (auto split: option.split)
qed

text \<open>
  The parameters of the model at one host, for the witnesses: an absent field is \<open>N\<close>, a present
  one \<open>S\<close>, its characters behind a \<open>c\<close> each, and \<open>e\<close>.
\<close>

definition demo_field :: "string option \<Rightarrow> string" where
  "demo_field f = (case f of None \<Rightarrow> ''N'' | Some s \<Rightarrow> CHR ''S'' # concat (map (\<lambda>c. [CHR ''c'', c]) s) @ ''e'')"

fun demo_chars :: "string \<Rightarrow> (string \<times> string) option" where
  "demo_chars (k # c # r) =
     (if k = CHR ''e'' then Some ([], c # r) else map_option (\<lambda>(s, t). (c # s, t)) (demo_chars r))"
| "demo_chars r = (if r = [] then None else Some ([], []))"

definition demo_read :: "string \<Rightarrow> (string option \<times> string) option" where
  "demo_read s = (case s of [] \<Rightarrow> None
     | c # r \<Rightarrow> if c = CHR ''N'' then Some (None, r) else map_option (\<lambda>(t, r). (Some t, r)) (demo_chars r))"

lemma demo_read_field: "demo_read (demo_field f @ r) = Some (f, r)"
proof -
  have "demo_chars (concat (map (\<lambda>c. [CHR ''c'', c]) s) @ CHR ''e'' # r) = Some (s, r)" for s
    by (induction s) (cases r; simp)+
  then show ?thesis by (cases f) (simp_all add: demo_read_def demo_field_def)
qed

definition demo_to_toml :: "file_config \<Rightarrow> string option" where
  "demo_to_toml c = Some (demo_field (fc_bind_addr c) @ demo_field (fc_cert_dir c) @ demo_field (fc_log_path c) @
     demo_field (fc_notify_relay_url c) @ demo_field (fc_notify_verbosity c))"

definition demo_toml :: "string \<Rightarrow> file_config option" where
  "demo_toml s =
     Option.bind (demo_read s) (\<lambda>(a, s). Option.bind (demo_read s) (\<lambda>(b, s). Option.bind (demo_read s) (\<lambda>(c, s).
     Option.bind (demo_read s) (\<lambda>(d, s). Option.bind (demo_read (s @ [])) (\<lambda>(e, s).
     Some \<lparr>fc_bind_addr = a, fc_cert_dir = b, fc_log_path = c, fc_notify_relay_url = d, fc_notify_verbosity = e\<rparr>)))))"

lemma demo_toml_round: "demo_to_toml c = Some text \<Longrightarrow> demo_toml text = Some c"
  using demo_read_field[of "fc_notify_verbosity c" "[]"]
  by (auto simp: demo_to_toml_def demo_toml_def demo_read_field)

definition demo_host :: host where
  "demo_host = \<lparr>hs_env = (\<lambda>_. None), hs_data_dir = Some ''/d'', hs_text = (\<lambda>_. True),
     hs_toml = demo_toml, hs_to_toml = demo_to_toml, hs_uri = (\<lambda>u. Some (Some ''https'', Some u))\<rparr>"

lemma default_relay: "trim DEFAULT_NOTIFY_RELAY_URL = DEFAULT_NOTIFY_RELAY_URL" "DEFAULT_NOTIFY_RELAY_URL \<noteq> []"
proof -
  have "List.last DEFAULT_NOTIFY_RELAY_URL = CHR ''p''" by (simp add: DEFAULT_NOTIFY_RELAY_URL_def)
  then show "trim DEFAULT_NOTIFY_RELAY_URL = DEFAULT_NOTIFY_RELAY_URL"
    by (intro trim_solid) (simp_all add: DEFAULT_NOTIFY_RELAY_URL_def byte_classes)
  show "DEFAULT_NOTIFY_RELAY_URL \<noteq> []" by (simp add: DEFAULT_NOTIFY_RELAY_URL_def)
qed

lemma demo_host_simps [simp]:
  "hs_env demo_host v = None" "hs_data_dir demo_host = Some ''/d''" "hs_text demo_host t" "hs_toml demo_host = demo_toml"
  "hs_to_toml demo_host = demo_to_toml" "hs_uri demo_host u = Some (Some ''https'', Some u)"
  by (simp_all add: demo_host_def)

theorem resolved_config_well_formed_witness:
  "\<exists>c. resolve demo_host (\<lambda>_. None) None = Inr c \<and> ec_notify_verbosity c \<in> {''normal'', ''generic''}"
proof -
  obtain c where c: "resolve demo_host (\<lambda>_. None) None = Inr c"
    by (simp add: resolve_def read_file_config_def content_def no_file_config_def
        resolve_notify_relay_url_def resolve_notify_verbosity_def default_relay Let_def)
  then show ?thesis using resolved_config_well_formed[OF c] by blast
qed

subsection \<open>An interrupted update\<close>

lemma temp_is_not_config [simp]: "path_join d ''.config.toml.tmp'' \<noteq> path_join d ''config.toml''"
  by simp

lemma rename_ops:
  assumes "interrupted dm [WriteFile temp text, Chmod temp m, RenameFile temp path] fs fs'" "temp \<noteq> path"
  shows "content fs' path = content fs path \<or> content fs' path = Some text"
  using assms by (auto elim!: interruptedE)

text \<open>
  C40 (the bind address in the file). When a configuration file is there, an update of the bind
  address that is interrupted anywhere - between two of its file operations or inside a write -
  leaves a file that reads as the configuration of before or as that one with the new address:
  no field is lost and no half-written file is ever read. The TOML library reads back what it
  writes.
\<close>

theorem bind_update_atomic:
  assumes "\<And>c text. hs_to_toml h c = Some text \<Longrightarrow> hs_toml h text = Some c \<and> hs_text h text"
    "config_file_path h = Some path" "content fs path \<noteq> None" "read_file_config h fs path = Inr fc"
    "set_bind_addr h dm fs addr = Inr ops" "interrupted dm ops fs fs'"
  shows "read_file_config h fs' path \<in> {Inr fc, Inr (fc\<lparr>fc_bind_addr := Some addr\<rparr>)}"
proof -
  obtain dir where dir: "hs_data_dir h = Some dir" "path = path_join dir ''config.toml''"
    using assms(2) by (auto simp: config_file_path_def)
  have e: "ensure_config_file h fs = Inr []" using assms(3) by (simp add: ensure_config_file_def dir)
  obtain toml where t: "hs_to_toml h (fc\<lparr>fc_bind_addr := Some addr\<rparr>) = Some toml"
    "ops = (let temp = path_join dir ''.config.toml.tmp'' in [WriteFile temp toml, Chmod temp 384, RenameFile temp path])"
    using assms(5) assms(4) by (auto simp: set_bind_addr_def e dir Let_def split: option.splits)
  then have "content fs' path = content fs path \<or> content fs' path = Some toml"
    using assms(6) rename_ops[of dm "path_join dir ''.config.toml.tmp''" toml 384 path fs fs'] by (simp add: dir Let_def)
  then show ?thesis using assms(4) assms(1)[OF t(1)] by (auto simp: read_file_config_def)
qed

definition demo_text :: "string \<Rightarrow> string" where
  "demo_text addr = the (demo_to_toml (no_file_config\<lparr>fc_bind_addr := Some addr\<rparr>))"

theorem bind_update_atomic_witness:
  "read_file_config demo_host ((\<lambda>_. None)(''/d/config.toml'' \<mapsto> (demo_text ''x'', 420),
       ''/d/.config.toml.tmp'' \<mapsto> (take 3 (demo_text ''y''), 420))) ''/d/config.toml''
     \<in> {Inr (no_file_config\<lparr>fc_bind_addr := Some ''x''\<rparr>), Inr (no_file_config\<lparr>fc_bind_addr := Some ''x'', fc_bind_addr := Some ''y''\<rparr>)}"
proof -
  let ?fs = "(\<lambda>_. None)(''/d/config.toml'' \<mapsto> (demo_text ''x'', 420)) :: files"
  have written: "demo_to_toml (no_file_config\<lparr>fc_bind_addr := Some a\<rparr>) = Some (demo_text a)" for a
    by (simp add: demo_text_def demo_to_toml_def)
  have read: "read_file_config demo_host ?fs ''/d/config.toml'' = Inr (no_file_config\<lparr>fc_bind_addr := Some ''x''\<rparr>)"
    using demo_toml_round[OF written] by (simp add: read_file_config_def content_def)
  have paths: "path_join ''/d'' ''config.toml'' = ''/d/config.toml''" "path_join ''/d'' ''.config.toml.tmp'' = ''/d/.config.toml.tmp''"
    by (simp_all add: path_join_def)
  have ops: "set_bind_addr demo_host 420 ?fs ''y'' = Inr [WriteFile ''/d/.config.toml.tmp'' (demo_text ''y''),
      Chmod ''/d/.config.toml.tmp'' 384, RenameFile ''/d/.config.toml.tmp'' ''/d/config.toml'']"
    using read written[of "''y''"] by (simp add: set_bind_addr_def ensure_config_file_def content_def paths Let_def)
  show ?thesis
    using bind_update_atomic[of demo_host "''/d/config.toml''" ?fs, OF _ _ _ read ops
        torn[of 420 "''/d/.config.toml.tmp''" "demo_text ''y''" _ ?fs 3]]
    by (simp add: demo_toml_round config_file_path_def paths content_def write_file_def)
qed

end
