(* ===== verification/TlsIdentity.thy ===== *)
theory TlsIdentity
  imports ServerConfig
begin

text \<open>
  The certificate of the daemon, \<open>muxrd/src/tls.rs\<close>: the names a certificate is asked for, the
  record of them beside it, and the load-or-generate step that keeps one certificate across
  restarts. Key generation and signing, JSON and PEM are libraries: parameters of the model,
  with the laws \<open>crypto_laws\<close>.
\<close>

subsection \<open>Names\<close>

datatype san_entry = EntryIp ip | EntryDns string

definition parse_entry :: "string \<Rightarrow> san_entry" where
  "parse_entry s = (case parse_ip (trim s) of Some a \<Rightarrow> EntryIp a | None \<Rightarrow> EntryDns (trim s))"

definition entries_from_env :: "host \<Rightarrow> san_entry list" where
  "entries_from_env h =
     map parse_entry (filter (\<lambda>s. s \<noteq> []) (map trim (split_at CHR '','' (unwrap_or (hs_env h ''MUXRD_SAN'') []))))"

text \<open>
  \<open>Display\<close> of an address: an IPv6 one in hexadecimal groups, an IPv4-mapped one with the IPv4
  text, and otherwise with the first longest run of two or more zero groups as \<open>::\<close>.
\<close>

definition hex_lower :: "nat \<Rightarrow> char" where
  "hex_lower d = (if d < 10 then digit_char d else char_of (d + 87))"

function hex_group :: "nat \<Rightarrow> string" where
  "hex_group n = (if n < 16 then [hex_lower n] else hex_group (n div 16) @ [hex_lower (n mod 16)])"
  by pat_completeness auto
termination
  by (relation "measure id") auto

declare hex_group.simps [simp del]

fun join_groups :: "nat list \<Rightarrow> string" where
  "join_groups [] = []"
| "join_groups [g] = hex_group g"
| "join_groups (g # gs) = hex_group g @ CHR '':'' # join_groups gs"

definition zero_run :: "nat list \<Rightarrow> nat" where
  "zero_run gs = length (takeWhile (\<lambda>g. g = 0) gs)"

text \<open>Start and length of the first longest run of zeros.\<close>

definition longest_zeros :: "nat list \<Rightarrow> nat \<times> nat" where
  "longest_zeros gs =
     fold (\<lambda>i (s, l). if l < zero_run (drop i gs) then (i, zero_run (drop i gs)) else (s, l)) [0..<length gs] (0, 0)"

fun show_ip :: "ip \<Rightarrow> string" where
  "show_ip (V4 a b c d) = show_ipv4 (a, b, c, d)"
| "show_ip (V6 gs) =
     (if take 6 gs = [0, 0, 0, 0, 0, 65535]
      then ''::ffff:'' @ show_ipv4 (gs ! 6 div 256, gs ! 6 mod 256, gs ! 7 div 256, gs ! 7 mod 256)
      else (let (s, l) = longest_zeros gs
            in if 1 < l then join_groups (take s gs) @ ''::'' @ join_groups (drop (s + l) gs)
               else join_groups gs))"

fun show_entry :: "san_entry \<Rightarrow> string" where
  "show_entry (EntryIp a) = show_ip a"
| "show_entry (EntryDns d) = d"

text \<open>An entry whose printed form is read as that entry.\<close>

definition reads_back :: "san_entry \<Rightarrow> bool" where
  "reads_back e \<longleftrightarrow> parse_entry (show_entry e) = e"

lemma show_ipv4_ends:
  "show_ipv4 p \<noteq> [] \<and> is_ascii_alphanumeric (hd (show_ipv4 p)) \<and> is_ascii_alphanumeric (List.last (show_ipv4 p))"
proof -
  have digit: "to_digit 10 c \<noteq> None \<Longrightarrow> is_ascii_alphanumeric c" for c
    by (auto simp: to_digit_def is_ascii_alphanumeric_def Let_def split: if_splits)
  have ne: "dec n \<noteq> []" for n by (simp add: dec.simps[of n])
  have "is_ascii_alphanumeric c" if "c \<in> set (dec n)" for c n
    using digit that dec_digits[of n] by (auto simp: list_all_iff)
  then have "is_ascii_alphanumeric (hd (dec n))" "is_ascii_alphanumeric (List.last (dec n))" for n
    using ne[of n] by (meson hd_in_set last_in_set)+
  then show ?thesis using ne by (auto simp: show_ipv4_def split: prod.splits)
qed

lemma ipv4_reads_back: "ipv4_ok p \<Longrightarrow> reads_back (EntryIp (of_ipv4 p))"
proof -
  assume ok: "ipv4_ok p"
  have "show_ip (of_ipv4 p) = show_ipv4 p" by (auto simp: of_ipv4_def split: prod.splits)
  moreover have "trim (show_ipv4 p) = show_ipv4 p" using show_ipv4_ends by (blast intro: trim_solid)
  ultimately show ?thesis by (simp add: reads_back_def parse_entry_def parse_show_ipv4[OF ok])
qed

lemma parsed_dns_reads_back: "parse_entry s = EntryDns d \<Longrightarrow> reads_back (EntryDns d)"
  by (auto simp: reads_back_def parse_entry_def split: option.splits)

lemma dns_reads_back: "reads_back (EntryDns d) \<longleftrightarrow> trim d = d \<and> parse_ip d = None"
  by (auto simp: reads_back_def parse_entry_def split: option.splits)

subsection \<open>The files\<close>

text \<open>
  \<open>cy_sign n names\<close>: the certificate and key that the \<open>n\<close>-th call of the generator makes for
  these names; it fails when a name is no DNS name. \<open>cy_names\<close> and \<open>cy_pairs\<close>: the names in a
  certificate and whether a key belongs to it; \<open>cy_fingerprint\<close>: the SHA-256 of its first
  block, when it has one.
\<close>

record crypto =
  cy_sign :: "nat \<Rightarrow> san_entry list \<Rightarrow> (string \<times> string) option"
  cy_names :: "string \<Rightarrow> san_entry list"
  cy_pairs :: "string \<Rightarrow> string \<Rightarrow> bool"
  cy_to_json :: "san_entry list \<Rightarrow> string"
  cy_of_json :: "string \<Rightarrow> san_entry list option"
  cy_fingerprint :: "string \<Rightarrow> string option"
  cy_key_block :: "string \<Rightarrow> bool option"

definition crypto_laws :: "host \<Rightarrow> crypto \<Rightarrow> bool" where
  "crypto_laws h cy \<longleftrightarrow>
     (\<forall>n names c k. cy_sign cy n names = Some (c, k) \<longrightarrow>
        cy_names cy c = names \<and> cy_pairs cy c k \<and> hs_text h c \<and> hs_text h k \<and> cy_fingerprint cy c \<noteq> None) \<and>
     (\<forall>es. cy_of_json cy (cy_to_json cy es) = Some es \<and> hs_text h (cy_to_json cy es))"

lemma crypto_lawsD:
  assumes "crypto_laws h cy"
  shows "cy_sign cy n names = Some (c, k) \<Longrightarrow> cy_names cy c = names \<and> cy_pairs cy c k \<and> hs_text h c \<and> hs_text h k"
    and "cy_sign cy n names = Some (c, k) \<Longrightarrow> cy_fingerprint cy c \<noteq> None"
    and "cy_of_json cy (cy_to_json cy es) = Some es" "hs_text h (cy_to_json cy es)"
  using assms by (auto simp: crypto_laws_def)

datatype tls_error = NoCertDir | Unreadable string | GenerateFailed | NoCertificate | NoPrivateKey | BadPem

definition crt_path :: "string \<Rightarrow> string" where "crt_path dir = path_join dir ''server.crt''"
definition key_path :: "string \<Rightarrow> string" where "key_path dir = path_join dir ''server.key''"
definition san_path :: "string \<Rightarrow> string" where "san_path dir = path_join dir ''server.san.json''"

lemma identity_paths [simp]:
  "crt_path d \<noteq> key_path d" "crt_path d \<noteq> san_path d" "key_path d \<noteq> san_path d"
  "key_path d \<noteq> crt_path d" "san_path d \<noteq> crt_path d" "san_path d \<noteq> key_path d"
  by (simp_all add: crt_path_def key_path_def san_path_def)

definition read_san_sidecar :: "host \<Rightarrow> crypto \<Rightarrow> files \<Rightarrow> string \<Rightarrow> san_entry list" where
  "read_san_sidecar h cy fs dir =
     (case content fs (san_path dir) of
        None \<Rightarrow> []
      | Some raw \<Rightarrow> if hs_text h raw then unwrap_or (cy_of_json cy raw) [] else [])"

definition sidecar_covers :: "san_entry list \<Rightarrow> san_entry list \<Rightarrow> bool" where
  "sidecar_covers stored requested \<longleftrightarrow> list_all (\<lambda>r. r \<in> set stored) requested"

definition write_restricted :: "string \<Rightarrow> string \<Rightarrow> file_op list" where
  "write_restricted p c = [WriteFile p c, Chmod p 384]"

text \<open>\<open>localhost\<close> and \<open>127.0.0.1\<close> are always among the names.\<close>

definition subject_alt_names :: "san_entry list \<Rightarrow> san_entry list" where
  "subject_alt_names extra = EntryDns ''localhost'' # EntryIp (V4 127 0 0 1) # extra"

definition generate_self_signed_pem :: "crypto \<Rightarrow> nat \<Rightarrow> san_entry list \<Rightarrow> (string \<times> string) option" where
  "generate_self_signed_pem cy n extra = cy_sign cy n (subject_alt_names extra)"

text \<open>
  What is served and the file operations done. \<open>dir\<close> is the directory of \<open>cert_dir()\<close>, which is
  the data directory whatever the configuration says.
\<close>

definition load_or_generate_identity ::
  "host \<Rightarrow> crypto \<Rightarrow> string option \<Rightarrow> nat \<Rightarrow> files \<Rightarrow> san_entry list \<Rightarrow> tls_error + (string \<times> string) \<times> file_op list" where
  "load_or_generate_identity h cy dir n fs extra =
     (case dir of
        None \<Rightarrow> Inl NoCertDir
      | Some d \<Rightarrow>
          let generate = (case generate_self_signed_pem cy n extra of
                            None \<Rightarrow> Inl GenerateFailed
                          | Some (c, k) \<Rightarrow>
                              Inr ((c, k), write_restricted (crt_path d) c @ write_restricted (key_path d) k @
                                           write_restricted (san_path d) (cy_to_json cy extra)))
          in case (content fs (crt_path d), content fs (key_path d)) of
               (Some c, Some k) \<Rightarrow>
                 if sidecar_covers (read_san_sidecar h cy fs d) extra
                 then (if \<not> hs_text h c then Inl (Unreadable (crt_path d))
                       else if \<not> hs_text h k then Inl (Unreadable (key_path d)) else Inr ((c, k), []))
                 else generate
             | _ \<Rightarrow> generate)"

text \<open>The certificate and key of the operator are read and checked, never written.\<close>

definition load_external_identity ::
  "host \<Rightarrow> crypto \<Rightarrow> files \<Rightarrow> string \<Rightarrow> string \<Rightarrow> tls_error + string \<times> string" where
  "load_external_identity h cy fs cert key =
     (case content fs cert of
        None \<Rightarrow> Inl (Unreadable cert)
      | Some c \<Rightarrow>
          if \<not> hs_text h c then Inl (Unreadable cert)
          else (case content fs key of
                  None \<Rightarrow> Inl (Unreadable key)
                | Some k \<Rightarrow>
                    if \<not> hs_text h k then Inl (Unreadable key)
                    else if cy_fingerprint cy c = None then Inl NoCertificate
                    else (case cy_key_block cy k of
                            None \<Rightarrow> Inl BadPem
                          | Some found \<Rightarrow> if found then Inr (c, k) else Inl NoPrivateKey)))"

text \<open>The identity a transport serves with: none for plaintext.\<close>

fun cert_identity ::
  "host \<Rightarrow> crypto \<Rightarrow> string option \<Rightarrow> nat \<Rightarrow> files \<Rightarrow> cert_source \<Rightarrow> san_entry list \<Rightarrow>
     tls_error + (string \<times> string) option \<times> file_op list" where
  "cert_identity h cy dir n fs SelfSigned extra =
     (case load_or_generate_identity h cy dir n fs extra of Inl e \<Rightarrow> Inl e | Inr (p, ops) \<Rightarrow> Inr (Some p, ops))"
| "cert_identity h cy dir n fs (External c k) extra =
     (case load_external_identity h cy fs c k of Inl e \<Rightarrow> Inl e | Inr p \<Rightarrow> Inr (Some p, []))"
| "cert_identity h cy dir n fs H2c extra = Inr (None, [])"

subsection \<open>One identity across restarts\<close>

text \<open>
  What the directory holds between calls: a certificate and a key that belong together, and a
  record of no more names than the certificate has.
\<close>

definition identity_sound :: "host \<Rightarrow> crypto \<Rightarrow> string \<Rightarrow> files \<Rightarrow> bool" where
  "identity_sound h cy d fs \<longleftrightarrow>
     (case (content fs (crt_path d), content fs (key_path d)) of
        (Some c, Some k) \<Rightarrow> cy_pairs cy c k \<and> set (subject_alt_names (read_san_sidecar h cy fs d)) \<subseteq> set (cy_names cy c)
      | _ \<Rightarrow> True)"

lemma generated_files:
  assumes "ops = write_restricted (crt_path d) c @ write_restricted (key_path d) k @ write_restricted (san_path d) j"
  shows "content (file_run dm ops fs) (crt_path d) = Some c" "content (file_run dm ops fs) (key_path d) = Some k"
    "content (file_run dm ops fs) (san_path d) = Some j"
  by (simp_all add: assms write_restricted_def)

lemma load_cases:
  assumes "load_or_generate_identity h cy (Some d) n fs extra = Inr ((c, k), ops)"
  obtains (stored) "ops = []" "content fs (crt_path d) = Some c" "content fs (key_path d) = Some k"
      "sidecar_covers (read_san_sidecar h cy fs d) extra" "hs_text h c" "hs_text h k"
    | (fresh) "cy_sign cy n (subject_alt_names extra) = Some (c, k)"
      "ops = write_restricted (crt_path d) c @ write_restricted (key_path d) k @ write_restricted (san_path d) (cy_to_json cy extra)"
      "content fs (crt_path d) = None \<or> content fs (key_path d) = None \<or> \<not> sidecar_covers (read_san_sidecar h cy fs d) extra"
  using assms
  by (auto simp: load_or_generate_identity_def generate_self_signed_pem_def Let_def split: option.splits if_splits prod.splits)

lemma load_sound:
  assumes "crypto_laws h cy" "identity_sound h cy d fs"
    "load_or_generate_identity h cy (Some d) n fs extra = Inr ((c, k), ops)"
  shows "cy_pairs cy c k" "set (subject_alt_names extra) \<subseteq> set (cy_names cy c)"
    "identity_sound h cy d (file_run dm ops fs)" "content (file_run dm ops fs) (crt_path d) = Some c"
proof -
  have "cy_pairs cy c k \<and> set (subject_alt_names extra) \<subseteq> set (cy_names cy c) \<and>
      identity_sound h cy d (file_run dm ops fs) \<and> content (file_run dm ops fs) (crt_path d) = Some c"
    using assms(3)
  proof (cases rule: load_cases)
    case stored
    then show ?thesis
      using assms(2) by (auto simp: identity_sound_def sidecar_covers_def list_all_iff subject_alt_names_def)
  next
    case fresh
    have "read_san_sidecar h cy (file_run dm ops fs) d = extra"
      using crypto_lawsD(3,4)[OF assms(1), of extra] generated_files(3)[OF fresh(2)]
      by (simp add: read_san_sidecar_def)
    then show ?thesis
      using crypto_lawsD(1)[OF assms(1) fresh(1)] generated_files[OF fresh(2), of dm fs] by (simp add: identity_sound_def)
  qed
  then show "cy_pairs cy c k" "set (subject_alt_names extra) \<subseteq> set (cy_names cy c)"
    "identity_sound h cy d (file_run dm ops fs)" "content (file_run dm ops fs) (crt_path d) = Some c" by simp_all
qed

text \<open>
  The directory after any number of calls that ran to their end, with other files changed in
  between.
\<close>

inductive cert_history :: "host \<Rightarrow> crypto \<Rightarrow> string \<Rightarrow> nat \<Rightarrow> files \<Rightarrow> bool" for h cy d dm where
  no_cert: "content fs (crt_path d) = None \<Longrightarrow> cert_history h cy d dm fs"
| called: "cert_history h cy d dm fs \<Longrightarrow> load_or_generate_identity h cy (Some d) n fs extra = Inr (p, ops) \<Longrightarrow>
    cert_history h cy d dm (file_run dm ops fs)"
| elsewhere: "cert_history h cy d dm fs \<Longrightarrow> content fs' (crt_path d) = content fs (crt_path d) \<Longrightarrow>
    content fs' (key_path d) = content fs (key_path d) \<Longrightarrow> content fs' (san_path d) = content fs (san_path d) \<Longrightarrow>
    cert_history h cy d dm fs'"

lemma history_sound:
  assumes "crypto_laws h cy" "cert_history h cy d dm fs"
  shows "identity_sound h cy d fs"
  using assms(2)
proof (induction rule: cert_history.induct)
  case (no_cert fs)
  then show ?case by (simp add: identity_sound_def)
next
  case (called fs n extra p ops)
  then show ?case using load_sound(3)[OF assms(1), of d fs n extra "fst p" "snd p" ops dm] by simp
next
  case (elsewhere fs fs')
  have "read_san_sidecar h cy fs' d = read_san_sidecar h cy fs d"
    by (simp add: read_san_sidecar_def elsewhere.hyps(4))
  then show ?case using elsewhere by (auto simp: identity_sound_def split: option.splits)
qed

text \<open>
  (the served certificate). After any history of calls that ran to their end, what the daemon
  serves is a certificate with the key that belongs to it, and it names \<open>localhost\<close>, \<open>127.0.0.1\<close>
  and every name asked for - whether the stored pair is loaded or a new one is made.
\<close>

theorem served_identity_covers:
  assumes "crypto_laws h cy" "cert_history h cy d dm fs"
    "load_or_generate_identity h cy (Some d) n fs extra = Inr ((c, k), ops)"
  shows "cy_pairs cy c k \<and> set (subject_alt_names extra) \<subseteq> set (cy_names cy c)"
  using load_sound(1,2)[OF assms(1) history_sound[OF assms(1,2)] assms(3)] by simp


subsection \<open>An instance of the libraries\<close>

text \<open>
  Numbers as a text, entries as numbers; a certificate is its number and the names, its key the
  number.
\<close>

fun demo_unary :: "nat list \<Rightarrow> string" where
  "demo_unary [] = []"
| "demo_unary (n # ns) = replicate n CHR ''i'' @ CHR ''e'' # demo_unary ns"

fun demo_numbers :: "nat \<Rightarrow> string \<Rightarrow> nat list" where
  "demo_numbers n [] = []"
| "demo_numbers n (c # s) = (if c = CHR ''i'' then demo_numbers (Suc n) s else n # demo_numbers 0 s)"

lemma demo_numbers_unary: "demo_numbers 0 (demo_unary ns) = ns"
proof -
  have "demo_numbers m (replicate n CHR ''i'' @ CHR ''e'' # s) = (m + n) # demo_numbers 0 s" for m n s
    by (induction n arbitrary: m) simp_all
  then show ?thesis by (induction ns) simp_all
qed

fun demo_entry :: "san_entry \<Rightarrow> nat list" where
  "demo_entry (EntryIp (V4 a b c d)) = [0, a, b, c, d]"
| "demo_entry (EntryIp (V6 gs)) = 1 # length gs # gs"
| "demo_entry (EntryDns s) = 2 # length s # map of_char s"

fun demo_entries :: "nat \<Rightarrow> nat list \<Rightarrow> san_entry list" where
  "demo_entries 0 ns = []"
| "demo_entries (Suc k) [] = []"
| "demo_entries (Suc k) (t # ns) =
     (if t = 0 then EntryIp (V4 (ns ! 0) (ns ! 1) (ns ! 2) (ns ! 3)) # demo_entries k (drop 4 ns)
      else (let v = take (hd ns) (tl ns)
            in (if t = 1 then EntryIp (V6 v) else EntryDns (map char_of v)) # demo_entries k (drop (hd ns) (tl ns))))"

lemma demo_entries_back: "length es \<le> k \<Longrightarrow> demo_entries k (concat (map demo_entry es)) = es"
proof (induction es arbitrary: k)
  case Nil
  then show ?case by (cases k) simp_all
next
  case (Cons e es)
  then obtain k' where k: "k = Suc k'" "length es \<le> k'" by (cases k) simp_all
  then have ih: "demo_entries k' (concat (map demo_entry es)) = es" by (rule_tac Cons.IH)
  show ?case by (cases e rule: demo_entry.cases) (simp_all add: k(1) ih Let_def o_def numeral_2_eq_2 numeral_3_eq_3)
qed

definition demo_crypto :: crypto where
  "demo_crypto = \<lparr>
     cy_sign = (\<lambda>n names. Some (demo_unary (n # length names # concat (map demo_entry names)), demo_unary [n])),
     cy_names = (\<lambda>c. case demo_numbers 0 c of _ # l # ns \<Rightarrow> demo_entries l ns | _ \<Rightarrow> []),
     cy_pairs = (\<lambda>c k. take 1 (demo_numbers 0 c) = demo_numbers 0 k),
     cy_to_json = (\<lambda>es. demo_unary (length es # concat (map demo_entry es))),
     cy_of_json = (\<lambda>j. case demo_numbers 0 j of l # ns \<Rightarrow> Some (demo_entries l ns) | _ \<Rightarrow> None),
     cy_fingerprint = Some, cy_key_block = (\<lambda>_. Some True)\<rparr>"

lemma demo_crypto_laws: "(\<And>s. hs_text h s) \<Longrightarrow> crypto_laws h demo_crypto"
  by (auto simp: crypto_laws_def demo_crypto_def demo_numbers_unary demo_entries_back simp del: demo_unary.simps)

theorem served_identity_covers_witness:
  "cy_pairs demo_crypto (fst (the (cy_sign demo_crypto 7 (subject_alt_names [EntryDns ''a'']))))
     (snd (the (cy_sign demo_crypto 7 (subject_alt_names [EntryDns ''a'']))))
   \<and> set (subject_alt_names [EntryDns ''a''])
     \<subseteq> set (cy_names demo_crypto (fst (the (cy_sign demo_crypto 7 (subject_alt_names [EntryDns ''a''])))))"
proof -
  let ?p = "the (cy_sign demo_crypto 7 (subject_alt_names [EntryDns ''a'']))"
  have load: "load_or_generate_identity demo_host demo_crypto (Some ''/d'') 7 (\<lambda>_. None) [EntryDns ''a''] =
      Inr ((fst ?p, snd ?p), write_restricted (crt_path ''/d'') (fst ?p) @ write_restricted (key_path ''/d'') (snd ?p) @
        write_restricted (san_path ''/d'') (cy_to_json demo_crypto [EntryDns ''a'']))"
    by (simp add: load_or_generate_identity_def generate_self_signed_pem_def content_def demo_crypto_def Let_def)
  have "content (\<lambda>_. None) (crt_path ''/d'') = None" by (simp add: content_def)
  from served_identity_covers[OF demo_crypto_laws no_cert[OF this] load] show ?thesis by simp
qed


end
