(* ===== verification/StartPlan.thy ===== *)
theory StartPlan
  imports TlsIdentity Routing
begin

text \<open>
  What \<open>muxrd start\<close> decides before it touches a file or a port
  (\<open>muxrd/src/bin/muxrd.rs\<close>, \<open>multiplexer/detect.rs\<close>, \<open>cli.rs\<close>): the backends it serves,
  the configuration, the transport and the names of the certificate; and \<open>muxrd init\<close>, which
  makes the files. The binaries and sockets a probe finds are a parameter (\<open>machine\<close>).
\<close>

subsection \<open>Backends\<close>

text \<open>The outcome of running \<open>zellij --version\<close> in a thread with a five-second limit.\<close>

datatype version_run = NoThread | NotRun | TimedOut | Exited bool string

record machine =
  mc_which_zellij :: "string option"
  mc_version_run :: version_run
  mc_linked :: string
  mc_herdr_socket :: bool
  mc_herdr_lists :: bool

text \<open>\<open>split_whitespace\<close>: the words between blanks.\<close>

fun next_word :: "string \<Rightarrow> string \<times> string" where
  "next_word [] = ([], [])"
| "next_word (c # s) =
     (if strip_one ws_codes (c # s) \<noteq> None then ([], c # s) else (let (w, r) = next_word s in (c # w, r)))"

lemma next_word_length: "length (snd (next_word s)) \<le> length s"
  by (induction s) (auto simp: Let_def split: prod.splits)

lemma trim_start_length: "length (trim_start s) \<le> length s"
  using strip_all_suffix[of s ws_codes] by (metis trim_start_def le_add2 length_append)

function split_whitespace :: "string \<Rightarrow> string list" where
  "split_whitespace s =
     (case trim_start s of
        [] \<Rightarrow> []
      | c # t \<Rightarrow> (let (w, r) = next_word t in (c # w) # split_whitespace r))"
  by pat_completeness auto
termination
proof (relation "measure length")
  fix s c t x w r
  assume a: "trim_start s = c # t" "x = next_word t" "(w, r) = x"
  then have "length r \<le> length t" using next_word_length[of t] by (metis snd_conv)
  moreover have "length (c # t) \<le> length s" using a(1) trim_start_length[of s] by simp
  ultimately show "(r, s) \<in> measure length" by simp
qed simp

declare split_whitespace.simps [simp del]

definition parse_zellij_version :: "string \<Rightarrow> string" where
  "parse_zellij_version out = (case rev (split_whitespace out) of [] \<Rightarrow> [] | w # _ \<Rightarrow> trim w)"

definition probe_zellij :: "host \<Rightarrow> machine \<Rightarrow> bool" where
  "probe_zellij h m =
     (if env_true h ''MUXRD_SKIP_VERSION_CHECK'' then mc_which_zellij m \<noteq> None
      else mc_which_zellij m \<noteq> None \<and>
        (case mc_version_run m of
           Exited success out \<Rightarrow>
             success \<and> parse_zellij_version out \<noteq> [] \<and> parse_zellij_version out = mc_linked m
         | _ \<Rightarrow> False))"

definition probe_herdr :: "machine \<Rightarrow> bool" where
  "probe_herdr m \<longleftrightarrow> mc_herdr_socket m \<and> mc_herdr_lists m"

fun probe :: "host \<Rightarrow> machine \<Rightarrow> backend_kind \<Rightarrow> bool" where
  "probe h m Zellij = probe_zellij h m"
| "probe h m Herdr = probe_herdr m"

datatype start_error =
    BackendUnavailable backend_kind | NoBackend | VersionMismatch
  | ConfigError config_error | TlsError tls_error | BadBindAddress

definition detect_backends :: "host \<Rightarrow> machine \<Rightarrow> backend_kind option \<Rightarrow> start_error + backend_kind list" where
  "detect_backends h m override_kind =
     (case override_kind of
        Some kind \<Rightarrow> if probe h m kind then Inr [kind] else Inl (BackendUnavailable kind)
      | None \<Rightarrow>
          (let available = filter (probe h m) [Zellij, Herdr]
           in if available = [] then Inl NoBackend else Inr available))"

definition check_zellij_version :: "host \<Rightarrow> machine \<Rightarrow> start_error + string" where
  "check_zellij_version h m =
     (if \<not> probe_zellij h m then Inl VersionMismatch
      else (case mc_which_zellij m of Some p \<Rightarrow> Inr p | None \<Rightarrow> Inl VersionMismatch))"

subsection \<open>Arguments and addresses\<close>

record start_args =
  sa_daemonize :: bool
  sa_san :: "string list"
  sa_tls_cert :: "string option"
  sa_tls_key :: "string option"
  sa_insecure_h2c :: bool
  sa_h2c_allow_public :: bool
  sa_backend :: "backend_kind option"

record init_args =
  ia_san :: "string list"
  ia_tls_cert :: "string option"
  ia_tls_key :: "string option"
  ia_insecure_h2c :: bool

text \<open>
  The command line wins over \<open>MUXRD_BACKEND\<close>; a value that is no backend is ignored.
  \<open>to_lowercase\<close> makes one of the two names only of its ASCII spellings.
\<close>

definition backend_override :: "host \<Rightarrow> backend_kind option \<Rightarrow> backend_kind option" where
  "backend_override h cli =
     first_set cli (Option.bind (hs_env h ''MUXRD_BACKEND'') (\<lambda>v.
       if map ascii_lower v = ''zellij'' then Some Zellij
       else if map ascii_lower v = ''herdr'' then Some Herdr else None))"

text \<open>\<open>SocketAddr::from_str\<close>: an IPv4 address or a bracketed IPv6 one with an optional scope, and a port.\<close>

definition read_colon_port :: "string \<Rightarrow> (nat \<times> string) option" where
  "read_colon_port s =
     (case s of [] \<Rightarrow> None | c # r \<Rightarrow> if c = CHR '':'' then read_number 10 (length r) True 65536 r else None)"

definition read_scope :: "string \<Rightarrow> string option" where
  "read_scope s =
     (case s of
        c # r \<Rightarrow> if c = CHR ''%'' then map_option snd (read_number 10 (length r) True 4294967296 r) else Some s
      | [] \<Rightarrow> Some s)"

definition read_bracketed :: "string \<Rightarrow> (nat list \<times> string) option" where
  "read_bracketed s =
     (case s of
        c # r \<Rightarrow>
          if c \<noteq> CHR ''['' then None
          else Option.bind (read_ipv6 r) (\<lambda>(gs, r1). Option.bind (read_scope r1) (\<lambda>r2.
            (case r2 of e # r3 \<Rightarrow> if e = CHR '']'' then Some (gs, r3) else None | [] \<Rightarrow> None)))
      | [] \<Rightarrow> None)"

definition parse_socket_addr :: "string \<Rightarrow> (ip \<times> nat) option" where
  "parse_socket_addr s =
     (case Option.bind (read_ipv4 s) (\<lambda>((a, b, c, d), r). map_option (\<lambda>(p, t). (V4 a b c d, p, t)) (read_colon_port r)) of
        Some (a, p, t) \<Rightarrow> if t = [] then Some (a, p) else None
      | None \<Rightarrow>
          (case Option.bind (read_bracketed s) (\<lambda>(gs, r). map_option (\<lambda>(p, t). (V6 gs, p, t)) (read_colon_port r)) of
             Some (a, p, t) \<Rightarrow> if t = [] then Some (a, p) else None
           | None \<Rightarrow> None))"

definition trim_brackets :: "string \<Rightarrow> string" where
  "trim_brackets s =
     (let p = (\<lambda>c. c = CHR ''['' \<or> c = CHR '']'') in rev (dropWhile p (rev (dropWhile p s))))"

text \<open>The names of the command line and of \<open>MUXRD_SAN\<close>, and the bind address when it names a host.\<close>

definition collect_sans :: "host \<Rightarrow> string list \<Rightarrow> string \<Rightarrow> san_entry list" where
  "collect_sans h cli bind_addr =
     (let sans = map parse_entry cli @ entries_from_env h
      in case rsplit_once CHR '':'' bind_addr of
           None \<Rightarrow> sans
         | Some (host, _) \<Rightarrow>
             (case parse_ip (trim_brackets host) of
                None \<Rightarrow> sans
              | Some a \<Rightarrow>
                  if is_loopback a \<or> is_unspecified a \<or> EntryIp a \<in> set sans then sans else sans @ [EntryIp a]))"

subsection \<open>The plan of a start\<close>

record start_plan =
  pl_kinds :: "backend_kind list"
  pl_config :: effective_config
  pl_addr :: "ip \<times> nat"
  pl_source :: cert_source
  pl_sans :: "san_entry list"

text \<open>\<open>cmd_start\<close> up to the pidfile.\<close>

definition start_plan :: "host \<Rightarrow> machine \<Rightarrow> files \<Rightarrow> string option \<Rightarrow> start_args \<Rightarrow> start_error + start_plan" where
  "start_plan h m fs bind args =
     (case detect_backends h m (backend_override h (sa_backend args)) of
        Inl e \<Rightarrow> Inl e
      | Inr kinds \<Rightarrow>
          if Zellij \<in> set kinds \<and> (case check_zellij_version h m of Inl _ \<Rightarrow> True | Inr _ \<Rightarrow> False) then Inl VersionMismatch
          else (case resolve h fs bind of
                  Inl e \<Rightarrow> Inl (ConfigError e)
                | Inr cfg \<Rightarrow>
                    (case parse_socket_addr (ec_bind_addr cfg) of
                       None \<Rightarrow> Inl BadBindAddress
                     | Some addr \<Rightarrow>
                         (case resolve_cert_source h (sa_tls_cert args) (sa_tls_key args) (sa_insecure_h2c args) of
                            Inl e \<Rightarrow> Inl (ConfigError e)
                          | Inr source \<Rightarrow>
                              (case check_h2c_bind_safety source (fst addr)
                                      (sa_h2c_allow_public args \<or> env_true h ''MUXRD_H2C_ALLOW_PUBLIC'') of
                                 Inl e \<Rightarrow> Inl (ConfigError e)
                               | Inr _ \<Rightarrow> Inr \<lparr>pl_kinds = kinds, pl_config = cfg, pl_addr = addr, pl_source = source,
                                              pl_sans = collect_sans h (sa_san args) (ec_bind_addr cfg)\<rparr>)))))"

text \<open>\<open>cmd_init\<close>: the file operations, and the identity that was made or checked.\<close>

definition cmd_init ::
  "host \<Rightarrow> crypto \<Rightarrow> nat \<Rightarrow> nat \<Rightarrow> files \<Rightarrow> string option \<Rightarrow> init_args \<Rightarrow> start_error + (string \<times> string) option \<times> file_op list" where
  "cmd_init h cy dm n fs bind args =
     (case ensure_config_file h fs of
        Inl e \<Rightarrow> Inl (ConfigError e)
      | Inr ops \<Rightarrow>
          let fs1 = file_run dm ops fs
          in case resolve h fs1 bind of
               Inl e \<Rightarrow> Inl (ConfigError e)
             | Inr cfg \<Rightarrow>
                 (case resolve_cert_source h (ia_tls_cert args) (ia_tls_key args) (ia_insecure_h2c args) of
                    Inl e \<Rightarrow> Inl (ConfigError e)
                  | Inr source \<Rightarrow>
                      (case cert_identity h cy (hs_data_dir h) n fs1 source (collect_sans h (ia_san args) (ec_bind_addr cfg)) of
                         Inl e \<Rightarrow> Inl (TlsError e)
                       | Inr (p, ops') \<Rightarrow> Inr (p, ops @ ops'))))"

subsection \<open>What a start may do\<close>

lemma start_plan_cases:
  assumes "start_plan h m fs bind args = Inr pl"
  obtains cfg where "detect_backends h m (backend_override h (sa_backend args)) = Inr (pl_kinds pl)"
    "Zellij \<in> set (pl_kinds pl) \<Longrightarrow> probe_zellij h m" "resolve h fs bind = Inr cfg" "pl_config pl = cfg"
    "parse_socket_addr (ec_bind_addr cfg) = Some (pl_addr pl)"
    "resolve_cert_source h (sa_tls_cert args) (sa_tls_key args) (sa_insecure_h2c args) = Inr (pl_source pl)"
    "check_h2c_bind_safety (pl_source pl) (fst (pl_addr pl)) (sa_h2c_allow_public args \<or> env_true h ''MUXRD_H2C_ALLOW_PUBLIC'') = Inr ()"
    "pl_sans pl = collect_sans h (sa_san args) (ec_bind_addr cfg)"
  using assms
  by (auto simp: start_plan_def check_zellij_version_def split: sum.splits if_splits option.splits)



text \<open>The backends served: those whose probe passed, each once and in order; the requested one alone.\<close>

lemma detected_backends:
  "detect_backends h m want = Inr kinds \<Longrightarrow>
     kinds \<noteq> [] \<and> distinct kinds \<and> list_all (probe h m) kinds \<and> (\<forall>k. want = Some k \<longrightarrow> kinds = [k])"
  by (auto simp: detect_backends_def Let_def split: option.splits if_splits)

subsection \<open>Init, then start\<close>

lemma load_again:
  assumes "crypto_laws h cy" "load_or_generate_identity h cy (Some d) n fs extra = Inr (p, ops)"
  shows "load_or_generate_identity h cy (Some d) n' (file_run dm ops fs) extra = Inr (p, [])"
proof -
  obtain c k where p: "p = (c, k)" by (cases p)
  show ?thesis
    using assms(2)[unfolded p]
  proof (cases rule: load_cases)
    case stored
    then show ?thesis by (simp add: p load_or_generate_identity_def)
  next
    case fresh
    have "read_san_sidecar h cy (file_run dm ops fs) d = extra"
      using crypto_lawsD(3,4)[OF assms(1), of extra] generated_files(3)[OF fresh(2)] by (simp add: read_san_sidecar_def)
    then show ?thesis
      using crypto_lawsD(1)[OF assms(1) fresh(1)] generated_files(1,2)[OF fresh(2), of dm fs]
      by (simp add: p load_or_generate_identity_def sidecar_covers_def list_all_iff)
  qed
qed

lemma identity_leaves_config:
  assumes "load_or_generate_identity h cy (Some d) n fs extra = Inr (p, ops)"
  shows "content (file_run dm ops fs) (path_join d ''config.toml'') = content fs (path_join d ''config.toml'')"
proof -
  obtain c k where p: "p = (c, k)" by (cases p)
  have "list_all (\<lambda>op. \<not> touches op (path_join d ''config.toml'')) ops"
    using assms[unfolded p]
    by (cases rule: load_cases) (simp_all add: write_restricted_def crt_path_def key_path_def san_path_def)
  then show ?thesis by (rule run_untouched)
qed

lemma resolve_content: "content fs' (path_join d ''config.toml'') = content fs (path_join d ''config.toml'') \<Longrightarrow>
    hs_data_dir h = Some d \<Longrightarrow> resolve h fs' bind = resolve h fs bind"
  by (simp add: resolve_def read_file_config_def)

text \<open>
  C37 (what was made is served). After an \<open>init\<close> that made or found a self-signed certificate, a start
  with the same names, address and environment serves exactly that certificate and key and writes
  nothing: a phone that pinned it keeps its pin.
\<close>

theorem init_then_start:
  assumes "crypto_laws h cy" "cmd_init h cy dm n fs bind ia = Inr (Some p, ops)"
    "start_plan h m (file_run dm ops fs) bind args = Inr pl" "pl_source pl = SelfSigned"
    "sa_san args = ia_san ia" "sa_tls_cert args = ia_tls_cert ia" "sa_tls_key args = ia_tls_key ia"
    "sa_insecure_h2c args = ia_insecure_h2c ia"
  shows "cert_identity h cy (hs_data_dir h) n' (file_run dm ops fs) (pl_source pl) (pl_sans pl) = Inr (Some p, [])"
proof -
  obtain ops0 cfg0 source ops1 where i: "ensure_config_file h fs = Inr ops0" "resolve h (file_run dm ops0 fs) bind = Inr cfg0"
    "resolve_cert_source h (ia_tls_cert ia) (ia_tls_key ia) (ia_insecure_h2c ia) = Inr source"
    "cert_identity h cy (hs_data_dir h) n (file_run dm ops0 fs) source (collect_sans h (ia_san ia) (ec_bind_addr cfg0)) = Inr (Some p, ops1)"
    "ops = ops0 @ ops1"
    using assms(2) by (auto simp: cmd_init_def Let_def split: sum.splits)
  obtain d where d: "hs_data_dir h = Some d" using i(2) by (auto simp: resolve_def split: option.splits)
  obtain cfg where c: "resolve h (file_run dm ops fs) bind = Inr cfg" "pl_sans pl = collect_sans h (sa_san args) (ec_bind_addr cfg)"
    "resolve_cert_source h (sa_tls_cert args) (sa_tls_key args) (sa_insecure_h2c args) = Inr (pl_source pl)"
    using assms(3) by (cases rule: start_plan_cases) auto
  have s: "source = SelfSigned" using c(3) i(3) assms(4,6-8) by simp
  then have l: "load_or_generate_identity h cy (Some d) n (file_run dm ops0 fs) (collect_sans h (ia_san ia) (ec_bind_addr cfg0)) = Inr (p, ops1)"
    using i(4) by (auto simp: d split: sum.splits)
  have "cfg = cfg0"
    using c(1) i(2) resolve_content[OF identity_leaves_config[OF l, of dm] d, of bind] by (simp add: i(5))
  then show ?thesis using load_again[OF assms(1) l, of n' dm] by (simp add: assms(4,5) c(2) d i(5))
qed

subsection \<open>Concrete starts\<close>

definition demo_machine :: machine where
  "demo_machine = \<lparr>mc_which_zellij = None, mc_version_run = NotRun, mc_linked = ''0.45.1'', mc_herdr_socket = True, mc_herdr_lists = True\<rparr>"

definition demo_args :: "bool \<Rightarrow> start_args" where
  "demo_args h2c = \<lparr>sa_daemonize = False, sa_san = [], sa_tls_cert = None, sa_tls_key = None, sa_insecure_h2c = h2c,
     sa_h2c_allow_public = False, sa_backend = None\<rparr>"

lemma trim_Nil [simp]: "trim [] = []"
proof -
  have "strip_one ps [] = None" for ps by (rule strip_one_None) simp
  then show ?thesis by (simp add: trim_def trim_start_def strip_all_id)
qed

lemma read_ipv4_show:
  assumes "ipv4_ok (a, b, c, d)" "stops r"
  shows "read_ipv4 (show_ipv4 (a, b, c, d) @ r) = Some ((a, b, c, d), r)"
proof -
  have lt: "a < 256" "b < 256" "c < 256" "d < 256" using assms(1) by (simp_all add: ipv4_ok_def)
  have d': "read_octet 3 (CHR ''.'' # dec d @ r) = Some (d, r)"
    using read_octet_dec(2)[of d r 2] lt assms(2) by (simp add: numeral_3_eq_3)
  show ?thesis
    using read_octet_dec(2)[of b "''.'' @ dec c @ ''.'' @ dec d @ r" 0]
      read_octet_dec(2)[of c "''.'' @ dec d @ r" 1] lt d'
    by (simp add: show_ipv4_def read_ipv4_def read_octet_dec numeral_2_eq_2)
qed

lemma demo_entries_env: "entries_from_env demo_host = []"
  by (simp add: entries_from_env_def)

lemma demo_detect: "detect_backends demo_host demo_machine (backend_override demo_host None) = Inr [Herdr]"
  by (simp add: detect_backends_def backend_override_def probe_zellij_def probe_herdr_def env_true_def demo_machine_def)

lemma demo_resolve:
  assumes "content fs ''/d/config.toml'' = Some []"
  shows "\<exists>c. resolve demo_host fs None = Inr c \<and> ec_bind_addr c = DEFAULT_BIND"
proof -
  have "read_file_config demo_host fs (path_join ''/d'' ''config.toml'') = Inr no_file_config"
    using assms by (simp add: read_file_config_def path_join_def demo_toml_def demo_read_def)
  then show ?thesis
    by (simp add: resolve_def no_file_config_def resolve_notify_relay_url_def resolve_notify_verbosity_def default_relay Let_def)
qed

lemma demo_bind: "parse_socket_addr DEFAULT_BIND = Some (V4 127 0 0 1, 50051)" "collect_sans demo_host [] DEFAULT_BIND = []"
proof -
  have digits: "digit_char 0 = CHR ''0''" "digit_char 1 = CHR ''1''" "digit_char 2 = CHR ''2''"
    "digit_char 5 = CHR ''5''" "digit_char 7 = CHR ''7''" by code_simp+
  have digits': "digit_char (Suc 0) = CHR ''1''" using digits by simp
  have d: "dec 127 = ''127''" "dec 0 = ''0''" "dec 1 = ''1''" "dec 50051 = ''50051''"
    by (simp_all add: dec.simps digits digits')
  then have bind: "DEFAULT_BIND = show_ipv4 (127, 0, 0, 1) @ CHR '':'' # dec 50051"
    by (simp add: DEFAULT_BIND_def show_ipv4_def)
  have "read_ipv4 DEFAULT_BIND = Some ((127, 0, 0, 1), CHR '':'' # dec 50051)"
    unfolding bind by (rule read_ipv4_show) (simp_all add: ipv4_ok_def stops_def to_digit_def byte_classes)
  moreover have "read_colon_port (CHR '':'' # dec 50051) = Some (50051, [])"
  proof -
    have "length (dec 50051) = 5" by (simp add: d)
    moreover have "read_number 10 5 True 65536 (dec 50051) = Some (50051, [])" by (rule read_port) simp
    ultimately show ?thesis by (simp only: read_colon_port_def list.case simp_thms if_True)
  qed
  ultimately show "parse_socket_addr DEFAULT_BIND = Some (V4 127 0 0 1, 50051)" by (simp add: parse_socket_addr_def)
  have "rsplit_once CHR '':'' DEFAULT_BIND = Some (show_ipv4 (127, 0, 0, 1), dec 50051)"
    by (simp add: rsplit_once_def DEFAULT_BIND_def show_ipv4_def d d(3)[simplified])
  moreover have "trim_brackets (show_ipv4 (127, 0, 0, 1)) = show_ipv4 (127, 0, 0, 1)"
    by (simp add: trim_brackets_def show_ipv4_def d d(3)[simplified])
  ultimately show "collect_sans demo_host [] DEFAULT_BIND = []"
    using parse_show_ipv4[of "(127, 0, 0, 1)"] by (simp add: collect_sans_def demo_entries_env ipv4_ok_def of_ipv4_def)
qed

lemma demo_started:
  assumes "content fs ''/d/config.toml'' = Some []"
  shows "\<exists>pl. start_plan demo_host demo_machine fs None (demo_args h2c) = Inr pl \<and>
    pl_source pl = (if h2c then H2c else SelfSigned) \<and> pl_addr pl = (V4 127 0 0 1, 50051) \<and> pl_sans pl = []"
proof -
  obtain c where c: "resolve demo_host fs None = Inr c" "ec_bind_addr c = DEFAULT_BIND" using demo_resolve[OF assms] by blast
  show ?thesis
    by (simp add: start_plan_def demo_args_def demo_detect c demo_bind resolve_cert_source_def env_path_def env_true_def
        check_h2c_bind_safety_def Let_def)
qed


theorem init_then_start_witness:
  "\<exists>fs p. cert_identity demo_host demo_crypto (Some ''/d'') 9 fs SelfSigned [] = Inr (Some p, []) \<and>
     content fs (crt_path ''/d'') = Some (fst p)"
proof -
  let ?fs = "\<lambda>p. if p = ''/d/config.toml'' then Some ([], 384) else (None :: (string \<times> nat) option)"
  let ?ia = "\<lparr>ia_san = [], ia_tls_cert = None, ia_tls_key = None, ia_insecure_h2c = False\<rparr>"
  have f: "content ?fs ''/d/config.toml'' = Some []" "path_join ''/d'' ''config.toml'' = ''/d/config.toml''"
    by (simp_all add: content_def path_join_def)
  obtain c where c: "resolve demo_host ?fs None = Inr c" "ec_bind_addr c = DEFAULT_BIND" using demo_resolve[OF f(1)] by blast
  have none: "content ?fs (crt_path ''/d'') = None" by (simp add: content_def crt_path_def path_join_def)
  obtain p ops where l: "load_or_generate_identity demo_host demo_crypto (Some ''/d'') 7 ?fs [] = Inr (p, ops)"
    using none by (simp add: load_or_generate_identity_def generate_self_signed_pem_def demo_crypto_def Let_def)
  have i: "cmd_init demo_host demo_crypto 420 7 ?fs None ?ia = Inr (Some p, ops)"
    using f c l by (simp add: cmd_init_def ensure_config_file_def resolve_cert_source_def env_path_def env_true_def demo_bind)
  have "content (file_run 420 ops ?fs) ''/d/config.toml'' = Some []"
    using identity_leaves_config[OF l, of 420] f by simp
  then obtain pl where pl: "start_plan demo_host demo_machine (file_run 420 ops ?fs) None (demo_args False) = Inr pl"
    "pl_source pl = SelfSigned" "pl_sans pl = []"
    using demo_started[of "file_run 420 ops ?fs" False] by auto
  have "cert_identity demo_host demo_crypto (Some ''/d'') 9 (file_run 420 ops ?fs) SelfSigned [] = Inr (Some p, [])"
    using init_then_start[OF demo_crypto_laws i pl(1,2), of 9] pl by (simp add: demo_args_def)
  moreover have "content (file_run 420 ops ?fs) (crt_path ''/d'') = Some (fst p)"
  proof -
    obtain c k where p: "p = (c, k)" by (cases p)
    have "identity_sound demo_host demo_crypto ''/d'' ?fs" using none by (simp add: identity_sound_def)
    then show ?thesis using load_sound(4)[OF demo_crypto_laws _ l[unfolded p], of 420] by (simp add: p)
  qed
  ultimately show ?thesis by blast
qed

end
