(* ===== verification/Lifecycle.thy ===== *)
theory Lifecycle
  imports ServerConfig Wire
begin

text \<open>
  The life of a daemon on one machine: the control socket (\<open>muxrd/src/control.rs\<close>) and the
  commands \<open>start\<close>, \<open>status\<close> and \<open>stop\<close> (\<open>muxrd/src/bin/muxrd.rs\<close>), which find a running
  daemon by that socket and by the pidfile. JSON is a parameter, and so is what the system does:
  which processes live, whether a port is free, whether a daemon answers in time.
\<close>

subsection \<open>Messages of the control socket\<close>

record status_info =
  st_version :: string
  st_bind_addr :: string
  st_pid :: "32 word"
  st_uptime_secs :: "64 word"
  st_client_count :: nat
  st_cert_mode :: cert_mode
  st_notify_relay_url :: "string option"
  st_push_device_count :: nat

datatype control_request = ShutdownRequest | StatusRequest
datatype control_response = ControlOk | ControlStatus status_info
datatype control_error = MsgTooLarge | MsgCut | MsgOverLimit nat | MsgNotJson

definition MAX_CONTROL_MSG :: nat where "MAX_CONTROL_MSG = 64 * 1024"

definition write_msg :: "('m \<Rightarrow> bytes) \<Rightarrow> 'm \<Rightarrow> control_error + bytes" where
  "write_msg enc m =
     (let bytes = enc m
      in if 2 ^ 32 \<le> length bytes then Inl MsgTooLarge else Inr (to_le_bytes (of_nat (length bytes)) @ bytes))"

text \<open>The length is checked before a buffer of that size is made.\<close>

definition read_msg :: "(bytes \<Rightarrow> 'm option) \<Rightarrow> bytes \<Rightarrow> control_error + 'm \<times> bytes" where
  "read_msg decode s =
     (case s of
        a # b # c # d # r \<Rightarrow>
          let len = unat (from_le_bytes a b c d)
          in if MAX_CONTROL_MSG < len then Inl (MsgOverLimit len)
             else if length r < len then Inl MsgCut
             else (case decode (take len r) of None \<Rightarrow> Inl MsgNotJson | Some m \<Rightarrow> Inr (m, drop len r))
      | _ \<Rightarrow> Inl MsgCut)"

text \<open>What the listener answers, from what it was spawned with and the counts of the moment.\<close>

record listener =
  li_version :: string
  li_bind_addr :: string
  li_pid :: "32 word"
  li_cert_mode :: cert_mode
  li_notify_relay_url :: "string option"

definition control_reply ::
  "listener \<Rightarrow> 64 word \<Rightarrow> nat \<Rightarrow> nat option \<Rightarrow> control_request \<Rightarrow> control_response" where
  "control_reply l uptime clients devices req =
     (case req of
        ShutdownRequest \<Rightarrow> ControlOk
      | StatusRequest \<Rightarrow>
          ControlStatus \<lparr>st_version = li_version l, st_bind_addr = li_bind_addr l, st_pid = li_pid l,
            st_uptime_secs = uptime, st_client_count = clients, st_cert_mode = li_cert_mode l,
            st_notify_relay_url = li_notify_relay_url l, st_push_device_count = unwrap_or devices 0\<rparr>)"

text \<open>
  One connection to the accept loop: a request that cannot be read is dropped and the loop goes
  on; a shutdown fires the trigger once and ends the loop, whether or not the reply is written.
\<close>

record accept_loop =
  al_accepting :: bool
  al_trigger :: bool
  al_shutdown :: bool

definition accept_turn :: "control_request option \<Rightarrow> accept_loop \<Rightarrow> accept_loop" where
  "accept_turn req l =
     (if \<not> al_accepting l then l
      else (case req of
              Some ShutdownRequest \<Rightarrow>
                l\<lparr>al_accepting := False, al_shutdown := al_shutdown l \<or> al_trigger l, al_trigger := False\<rparr>
            | _ \<Rightarrow> l))"

subsection \<open>The machine\<close>

text \<open>
  A daemon is launched (its pidfile is written), serving (its control socket is bound) or
  draining (a shutdown was requested: the accept loop has ended and the server waits for its
  open connections).
\<close>

datatype phase = Launched | Serving | Draining

record daemon_proc =
  dn_foreground :: bool
  dn_phase :: phase

text \<open>
  \<open>wd_socket\<close>: the process that bound the socket file, \<open>wd_foreign\<close>: the processes that are no
  daemons, \<open>wd_group\<close>: whom a signal to a pid that is not positive reaches, \<open>wd_stops\<close>: the
  \<open>stop\<close> commands that still have to clean up.
\<close>

record life_world =
  wd_pidfile :: "string option"
  wd_socket :: "int option"
  wd_daemons :: "int \<rightharpoonup> daemon_proc"
  wd_foreign :: "int \<Rightarrow> bool"
  wd_group :: "int \<Rightarrow> int \<Rightarrow> bool"
  wd_stops :: nat

definition parse_pid :: "string \<Rightarrow> int option" where
  "parse_pid s = (case parse_i64 s of Some n \<Rightarrow> if - 2147483648 \<le> n \<and> n < 2147483648 then Some n else None | None \<Rightarrow> None)"

definition read_pidfile :: "life_world \<Rightarrow> int option" where
  "read_pidfile w = Option.bind (wd_pidfile w) (\<lambda>raw. parse_pid (trim raw))"


text \<open>
  A round trip on the control socket: no answer (nothing happens), the request taken but the
  answer too late, or answered. Only a serving daemon accepts.
\<close>

datatype query_answer = NoAnswer | LateAnswer | Answered



definition set_phase :: "int \<Rightarrow> phase \<Rightarrow> life_world \<Rightarrow> life_world" where
  "set_phase p ph w = w\<lparr>wd_daemons := (wd_daemons w)(p := map_option (\<lambda>d. d\<lparr>dn_phase := ph\<rparr>) (wd_daemons w p))\<rparr>"


text \<open>\<open>control::cleanup\<close> and \<open>cleanup_stale\<close>.\<close>

definition control_cleanup :: "life_world \<Rightarrow> life_world" where
  "control_cleanup w = w\<lparr>wd_socket := None\<rparr>"

definition cleanup_stale :: "life_world \<Rightarrow> life_world" where
  "cleanup_stale w = (control_cleanup w)\<lparr>wd_pidfile := None\<rparr>"

subsection \<open>The commands\<close>







definition killed :: "int \<Rightarrow> life_world \<Rightarrow> life_world" where
  "killed p w =
     (let hit = (if 0 < p then (\<lambda>q. q = p) else wd_group w p)
      in w\<lparr>wd_daemons := (\<lambda>q. if hit q then None else wd_daemons w q), wd_foreign := (\<lambda>q. wd_foreign w q \<and> \<not> hit q)\<rparr>)"






subsection \<open>Runs\<close>








lemma read_pidfile_simps [simp]:
  "read_pidfile (w\<lparr>wd_pidfile := Some r\<rparr>) = parse_pid (trim r)"
  "read_pidfile (set_phase p ph w) = read_pidfile w" "read_pidfile (w\<lparr>wd_socket := x\<rparr>) = read_pidfile w"
  "read_pidfile (w\<lparr>wd_foreign := f\<rparr>) = read_pidfile w" "read_pidfile (control_cleanup w) = read_pidfile w"
  "read_pidfile (w\<lparr>wd_daemons := ds\<rparr>) = read_pidfile w" "read_pidfile (cleanup_stale w) = None"
  "read_pidfile (killed q w) = read_pidfile w"
  by (simp_all add: read_pidfile_def set_phase_def control_cleanup_def cleanup_stale_def killed_def Let_def)













subsection \<open>The framing of the control socket\<close>

lemma le_bytes_split: "\<exists>a b c d. to_le_bytes n = [a, b, c, d] \<and> from_le_bytes a b c d = n"
  by (simp add: to_le_bytes_def from_to_le_bytes)

text \<open>
  (a control message). A message of at most 64 KiB is read back as it was written, and the bytes
  after it stay for the next reader; a longer one is refused on its length, before its bytes are
  looked at.
\<close>

theorem control_message_roundtrip:
  assumes "decode (enc m) = Some m" "write_msg enc m = Inr s"
  shows "read_msg decode (s @ r) =
    (if length (enc m) \<le> MAX_CONTROL_MSG then Inr (m, r) else Inl (MsgOverLimit (length (enc m))))"
proof -
  have n: "length (enc m) < 2 ^ 32" "s = to_le_bytes (of_nat (length (enc m))) @ enc m"
    using assms(2) by (auto simp: write_msg_def Let_def split: if_splits)
  then have u: "unat (of_nat (length (enc m)) :: 32 word) = length (enc m)" by (simp add: unat_of_nat take_bit_nat_eq_self)
  obtain a b c d where l: "to_le_bytes (of_nat (length (enc m))) = [a, b, c, d]"
    "from_le_bytes a b c d = of_nat (length (enc m))" using le_bytes_split by blast
  show ?thesis using u assms(1) by (simp add: read_msg_def n(2) l Let_def)
qed

theorem control_message_roundtrip_witness:
  "read_msg (\<lambda>b. if b = [1] then Some ShutdownRequest else None) ([1, 0, 0, 0, 1] @ [9]) = Inr (ShutdownRequest, [9])"
proof -
  have "write_msg (\<lambda>_. [1]) ShutdownRequest = Inr [1, 0, 0, 0, 1]"
    by (simp add: write_msg_def to_le_bytes_def)
  from control_message_roundtrip[OF _ this, of "\<lambda>b. if b = [1] then Some ShutdownRequest else None" "[9]"]
  show ?thesis by (simp add: MAX_CONTROL_MSG_def)
qed

end
