(* ===== verification/CtlServer.thy ===== *)
theory CtlServer
  imports StartPlan Lifecycle CtlUpdate Devices
begin

text \<open>
  Where \<open>muxrctl\<close> meets the daemon: the facade \<open>muxrctl/src/server/mod.rs\<close> (status, the
  arguments a daemon is started with, the certificate) with its \<open>devices.rs\<close>, and the tasks of
  \<open>muxrctl/src/tui/runner.rs\<close> that read the configuration and the certificate and build the
  pairing QR. The answers of the control socket are parameters, one per query.
\<close>

subsection \<open>Conversions\<close>

definition server_info_from :: "status_info \<Rightarrow> server_info" where
  "server_info_from i = \<lparr>si_version = st_version i, si_bind_addr = st_bind_addr i, si_pid = st_pid i,
     si_uptime_secs = st_uptime_secs i, si_client_count = st_client_count i,
     si_notify_relay_url = st_notify_relay_url i, si_push_device_count = st_push_device_count i\<rparr>"

text \<open>An IP entry that does not parse becomes a DNS name, so that it does not disappear.\<close>

fun san_entry_from :: "san \<Rightarrow> san_entry" where
  "san_entry_from (SanIp s) = (case parse_ip s of Some a \<Rightarrow> EntryIp a | None \<Rightarrow> EntryDns s)"
| "san_entry_from (SanDns d) = EntryDns d"

fun tls_mode_of :: "cert_mode \<Rightarrow> tls_mode" where
  "tls_mode_of SelfSignedMode = TlsSelfSigned" | "tls_mode_of ExternalMode = TlsExternal" | "tls_mode_of H2cMode = TlsH2c"

text \<open>\<open>status()\<close>, \<open>server_cert_mode()\<close> and \<open>client_count()\<close>, on the reply of their query.\<close>

definition status_of :: "control_response option \<Rightarrow> server_info option" where
  "status_of reply = (case reply of Some (ControlStatus i) \<Rightarrow> Some (server_info_from i) | _ \<Rightarrow> None)"

definition cert_mode_of_reply :: "control_response option \<Rightarrow> cert_mode option" where
  "cert_mode_of_reply reply = (case reply of Some (ControlStatus i) \<Rightarrow> Some (st_cert_mode i) | _ \<Rightarrow> None)"

definition client_count_of :: "control_response option \<Rightarrow> nat option" where
  "client_count_of reply = map_option si_client_count (status_of reply)"

definition device_record_from :: "push_device \<Rightarrow> ctl_device" where
  "device_record_from d = \<lparr>cd_name = device_name d, cd_platform = platform d,
     cd_registered_at = of_nat (registered_at d), cd_handle_prefix = take_chars HANDLE_PREFIX_LEN (push_handle d)\<rparr>"

text \<open>\<open>devices::relay_url\<close>: of the running daemon, or of the configuration.\<close>

definition shown_relay_url :: "control_response option \<Rightarrow> host \<Rightarrow> files \<Rightarrow> string option" where
  "shown_relay_url reply h fs =
     (case status_of reply of
        Some i \<Rightarrow> si_notify_relay_url i
      | None \<Rightarrow> (case resolve h fs None of Inl _ \<Rightarrow> None | Inr c \<Rightarrow> ec_notify_relay_url c))"

subsection \<open>The certificate\<close>

definition env_extra_sans :: "host \<Rightarrow> string list" where
  "env_extra_sans h = map show_entry (entries_from_env h)"

definition persisted_extra_sans :: "host \<Rightarrow> crypto \<Rightarrow> files \<Rightarrow> string list" where
  "persisted_extra_sans h cy fs =
     (case resolve h fs None of
        Inl _ \<Rightarrow> []
      | Inr cfg \<Rightarrow> map show_entry (read_san_sidecar h cy fs (ec_cert_dir cfg)))"

text \<open>The certificate, and the file operations done to have it.\<close>

definition ensure_cert :: "host \<Rightarrow> crypto \<Rightarrow> nat \<Rightarrow> files \<Rightarrow> san list \<Rightarrow> tls_error + string \<times> file_op list" where
  "ensure_cert h cy n fs sans =
     (case load_or_generate_identity h cy (hs_data_dir h) n fs (map san_entry_from sans) of
        Inl e \<Rightarrow> Inl e
      | Inr ((c, k), ops) \<Rightarrow> Inr (c, ops))"

datatype facade_error = ConfigFailed config_error | CertUnreadable | NoFingerprint

definition current_cert_fingerprint :: "host \<Rightarrow> crypto \<Rightarrow> files \<Rightarrow> facade_error + string option" where
  "current_cert_fingerprint h cy fs =
     (case resolve h fs None of
        Inl e \<Rightarrow> Inl (ConfigFailed e)
      | Inr cfg \<Rightarrow>
          (case content fs (crt_path (ec_cert_dir cfg)) of
             None \<Rightarrow> Inr None
           | Some pem \<Rightarrow>
               if \<not> hs_text h pem then Inl CertUnreadable
               else (case cy_fingerprint cy pem of None \<Rightarrow> Inl NoFingerprint | Some fp \<Rightarrow> Inr (Some fp))))"

subsection \<open>Starting the daemon\<close>

definition build_daemon_args :: "string \<Rightarrow> string list \<Rightarrow> string \<Rightarrow> string list" where
  "build_daemon_args addr extra_sans default_bind =
     [''start'', ''--daemonize''] @ (if addr \<noteq> default_bind then [''--bind'', addr] else []) @
     concat (map (\<lambda>s. [''--san'', s]) extra_sans)"

text \<open>The command line of \<open>start_daemon\<close>.\<close>

definition daemon_args :: "host \<Rightarrow> crypto \<Rightarrow> files \<Rightarrow> string list" where
  "daemon_args h cy fs =
     (case resolve h fs None of
        Inl _ \<Rightarrow> build_daemon_args DEFAULT_BIND [] DEFAULT_BIND
      | Inr cfg \<Rightarrow> build_daemon_args (ec_bind_addr cfg) (persisted_extra_sans h cy fs) DEFAULT_BIND)"

definition find_server_binary :: "string option \<Rightarrow> bool \<Rightarrow> string" where
  "find_server_binary exe_dir candidate_exists =
     (case exe_dir of
        Some d \<Rightarrow> if candidate_exists then path_join d ''muxrd'' else ''muxrd''
      | None \<Rightarrow> ''muxrd'')"

text \<open>
  The command line as \<open>cli.rs\<close> declares it for \<open>start\<close>: flags, options with one value that does
  not begin with a hyphen, each once except \<open>--san\<close>.
\<close>

definition no_args :: start_args where
  "no_args = \<lparr>sa_daemonize = False, sa_san = [], sa_tls_cert = None, sa_tls_key = None, sa_insecure_h2c = False,
     sa_h2c_allow_public = False, sa_backend = None\<rparr>"

definition take_value :: "string list \<Rightarrow> (string \<times> string list) option" where
  "take_value ts = (case ts of v # r \<Rightarrow> if v \<noteq> [] \<and> hd v = CHR ''-'' then None else Some (v, r) | [] \<Rightarrow> None)"

lemma take_value_shorter: "take_value ts = Some (v, r) \<Longrightarrow> ts = v # r"
  by (auto simp: take_value_def split: list.splits if_splits)

function read_flags :: "string list \<Rightarrow> string option \<Rightarrow> start_args \<Rightarrow> (string option \<times> start_args) option" where
  "read_flags [] b a = Some (b, a)"
| "read_flags (t # ts) b a =
     (if t = ''--daemonize'' then (if sa_daemonize a then None else read_flags ts b (a\<lparr>sa_daemonize := True\<rparr>))
      else if t = ''--insecure-h2c'' then (if sa_insecure_h2c a then None else read_flags ts b (a\<lparr>sa_insecure_h2c := True\<rparr>))
      else if t = ''--i-know-this-is-behind-a-proxy''
           then (if sa_h2c_allow_public a then None else read_flags ts b (a\<lparr>sa_h2c_allow_public := True\<rparr>))
      else (case take_value ts of
              None \<Rightarrow> None
            | Some (v, r) \<Rightarrow>
                if t = ''--san'' then read_flags r b (a\<lparr>sa_san := sa_san a @ [v]\<rparr>)
                else if t = ''--bind'' then (if b \<noteq> None then None else read_flags r (Some v) a)
                else if t = ''--tls-cert''
                     then (if sa_tls_cert a \<noteq> None then None else read_flags r b (a\<lparr>sa_tls_cert := Some v\<rparr>))
                else if t = ''--tls-key''
                     then (if sa_tls_key a \<noteq> None then None else read_flags r b (a\<lparr>sa_tls_key := Some v\<rparr>))
                else if t = ''--backend''
                     then (if sa_backend a \<noteq> None then None
                           else if v = ''zellij'' then read_flags r b (a\<lparr>sa_backend := Some Zellij\<rparr>)
                           else if v = ''herdr'' then read_flags r b (a\<lparr>sa_backend := Some Herdr\<rparr>) else None)
                else None))"
  by pat_completeness auto
termination
  by (relation "measure (\<lambda>(ts, b, a). length ts)") (auto dest: take_value_shorter)

declare read_flags.simps(2) [simp del]

definition read_start_args :: "string list \<Rightarrow> (string option \<times> start_args) option" where
  "read_start_args ts = (case ts of t # r \<Rightarrow> if t = ''start'' then read_flags r None no_args else None | [] \<Rightarrow> None)"

subsection \<open>The tasks of the runner\<close>

text \<open>The host and the port of the bind address; a port that is no \<open>u16\<close> is 50051.\<close>

definition parse_u16 :: "string \<Rightarrow> 16 word option" where
  "parse_u16 s =
     (case digits_val (case s of c # ds \<Rightarrow> if c = CHR ''+'' then ds else s | [] \<Rightarrow> []) of
        Some n \<Rightarrow> if n < 65536 then Some (of_int n) else None
      | None \<Rightarrow> None)"

definition bind_host_port :: "string \<Rightarrow> string \<times> 16 word" where
  "bind_host_port addr =
     (case rsplit_once CHR '':'' addr of
        Some (h, p) \<Rightarrow> (h, unwrap_or (parse_u16 p) 50051)
      | None \<Rightarrow> (addr, 50051))"

fun resolve_auto_trust :: "cert_mode option \<Rightarrow> bool" where
  "resolve_auto_trust (Some ExternalMode) = False"
| "resolve_auto_trust (Some H2cMode) = False"
| "resolve_auto_trust m = True"

text \<open>\<open>say\<close> is the text of an error; the dash of the message is U+2014.\<close>

definition no_certificate_yet :: string where
  "no_certificate_yet =
     ''No certificate yet '' @ [CHR 0xE2, CHR 0x80, CHR 0x94] @ '' open the Certificate dialog (e) and regenerate first.''"

definition pin_or_error :: "(facade_error \<Rightarrow> string) \<Rightarrow> facade_error + string option \<Rightarrow> string + pairing_trust" where
  "pin_or_error say fp =
     (case fp of
        Inr (Some f) \<Rightarrow> Inr (PinTrust f)
      | Inr None \<Rightarrow> Inl no_certificate_yet
      | Inl e \<Rightarrow> Inl (''cert fingerprint: '' @ say e))"

definition pairing_trust_for ::
  "(facade_error \<Rightarrow> string) \<Rightarrow> facade_error + string option \<Rightarrow> cert_mode option \<Rightarrow> advertise_trust \<Rightarrow> string + pairing_trust" where
  "pairing_trust_for say fp mode trust =
     (case trust of
        TrustCa \<Rightarrow> Inr CaTrust
      | TrustPin \<Rightarrow> pin_or_error say fp
      | TrustAuto \<Rightarrow> if resolve_auto_trust mode then pin_or_error say fp else Inr CaTrust)"

text \<open>
  The QR of a token: \<open>up\<close>, \<open>mode\<close> and \<open>count\<close> are the replies to the three queries it makes,
  \<open>b64\<close> the encoding of the token, \<open>ifaces\<close> the addresses of the interfaces. The ellipsis of the
  short fingerprint is U+2026.
\<close>

definition short_fingerprint :: "pairing_trust \<Rightarrow> string" where
  "short_fingerprint t =
     (case t of
        CaTrust \<Rightarrow> ''CA trust (no pin)''
      | PinTrust f \<Rightarrow> if 16 < length f then take 16 f @ [CHR 0xE2, CHR 0x80, CHR 0xA6] else f)"

definition build_token_qr_task ::
  "(facade_error \<Rightarrow> string) \<Rightarrow> (string \<Rightarrow> string) \<Rightarrow> host \<Rightarrow> crypto \<Rightarrow> files \<Rightarrow> ipv4 list option \<Rightarrow>
     control_response option \<Rightarrow> control_response option \<Rightarrow> control_response option \<Rightarrow>
     string \<Rightarrow> bool \<Rightarrow> 64 word \<Rightarrow> advertise_trust \<Rightarrow> 'f ctl_msg" where
  "build_token_qr_task say b64 h cy fs ifaces up mode count token read_only seq trust =
     (if status_of up = None then TokenQrFailed ''Start the server first.'' seq
      else (case resolve h fs None of
              Inl e \<Rightarrow> TokenQrFailed (''config: '' @ say (ConfigFailed e)) seq
            | Inr cfg \<Rightarrow>
                (let (bind_host, port) = bind_host_port (ec_bind_addr cfg);
                     advertise = choose_advertise_host bind_host (env_extra_sans h) ifaces
                 in case pairing_trust_for say (current_cert_fingerprint h cy fs) (cert_mode_of_reply mode) trust of
                      Inl err \<Rightarrow> TokenQrFailed err seq
                    | Inr t \<Rightarrow>
                        TokenQrReady (to_uri b64 \<lparr>pp_host = advertise, pp_port = port, pp_trust = t, pp_token = token,
                            pp_read_only = read_only, pp_label = ''muxrd''\<rparr>)
                          advertise port (short_fingerprint t) (unwrap_or (client_count_of count) 0) seq)))"

definition load_config_snapshot :: "(facade_error \<Rightarrow> string) \<Rightarrow> host \<Rightarrow> files \<Rightarrow> ipv4 list option \<Rightarrow> 'f ctl_msg" where
  "load_config_snapshot say h fs ifaces =
     (case resolve h fs None of
        Inl e \<Rightarrow> ActionFailed (''Config load failed: '' @ say (ConfigFailed e))
      | Inr cfg \<Rightarrow> ConfigLoaded \<lparr>cs_bind_addr = ec_bind_addr cfg, cs_cert_dir = ec_cert_dir cfg,
          cs_reachable_ips = reachable_ipv4 ifaces, cs_advertise_sans = env_extra_sans h\<rparr>)"

definition load_cert_info_task :: "(facade_error \<Rightarrow> string) \<Rightarrow> host \<Rightarrow> crypto \<Rightarrow> files \<Rightarrow> 'f ctl_msg" where
  "load_cert_info_task say h cy fs =
     (case current_cert_fingerprint h cy fs of
        Inl e \<Rightarrow> ActionFailed (''cert info: '' @ say e)
      | Inr fp \<Rightarrow> CertInfoLoaded fp (persisted_extra_sans h cy fs))"

definition ensure_cert_task ::
  "(tls_error + facade_error \<Rightarrow> string) \<Rightarrow> host \<Rightarrow> crypto \<Rightarrow> nat \<Rightarrow> files \<Rightarrow> san list \<Rightarrow> 'f ctl_msg \<times> file_op list" where
  "ensure_cert_task say h cy n fs sans =
     (case ensure_cert h cy n fs sans of
        Inl e \<Rightarrow> (ActionFailed (''Cert generation failed: '' @ say (Inl e)), [])
      | Inr (pem, ops) \<Rightarrow>
          (case cy_fingerprint cy pem of
             None \<Rightarrow> (ActionFailed (''Fingerprint failed: '' @ say (Inr NoFingerprint)), ops)
           | Some fp \<Rightarrow> (CertEnsured fp (map san_value sans), ops)))"

subsection \<open>The command line reads back\<close>

lemma read_san_flags:
  "read_flags (concat (map (\<lambda>s. [''--san'', s]) sans)) b a = Some (b', a') \<Longrightarrow> b' = b \<and> a' = a\<lparr>sa_san := sa_san a @ sans\<rparr>"
proof (induction sans arbitrary: a)
  case (Cons s sans)
  show ?case
  proof (cases "s \<noteq> [] \<and> hd s = CHR ''-''")
    case True
    then show ?thesis using Cons.prems by (simp add: read_flags.simps(2) take_value_def)
  next
    case False
    then have "read_flags (concat (map (\<lambda>s. [''--san'', s]) sans)) b (a\<lparr>sa_san := sa_san a @ [s]\<rparr>) = Some (b', a')"
      using Cons.prems by (auto simp: read_flags.simps(2)[of "''--san''"] take_value_def)
    then show ?thesis using Cons.IH by fastforce
  qed
qed simp

lemma read_daemon_args:
  assumes "read_start_args (build_daemon_args addr sans def) = Some (b, a)"
  shows "b = (if addr = def then None else Some addr) \<and> a = no_args\<lparr>sa_daemonize := True, sa_san := sans\<rparr>"
proof (cases "addr = def")
  case True
  then have "read_flags (concat (map (\<lambda>s. [''--san'', s]) sans)) None (no_args\<lparr>sa_daemonize := True\<rparr>) = Some (b, a)"
    using assms by (simp add: read_start_args_def build_daemon_args_def read_flags.simps(2)[of "''--daemonize''"] no_args_def)
  from read_san_flags[OF this] True show ?thesis by (simp add: no_args_def)
next
  case False
  then have "read_flags (concat (map (\<lambda>s. [''--san'', s]) sans)) (Some addr) (no_args\<lparr>sa_daemonize := True\<rparr>) = Some (b, a)"
    using assms
    by (auto simp: read_start_args_def build_daemon_args_def read_flags.simps(2)[of "''--daemonize''"]
        read_flags.simps(2)[of "''--bind''"] take_value_def no_args_def split: if_splits)
  from read_san_flags[OF this] False show ?thesis by (simp add: no_args_def)
qed

subsection \<open>The pinned certificate is the served one\<close>

lemma resolve_bind_override:
  assumes "resolve h fs None = Inr cfg"
  shows "resolve h fs (if ec_bind_addr cfg = DEFAULT_BIND then None else Some (ec_bind_addr cfg)) = Inr cfg"
  using assms by (auto simp: resolve_def Let_def split: option.splits sum.splits)

lemma collect_cases: "set (collect_sans h cli addr) \<subseteq> set (map parse_entry cli) \<union> set (collect_sans h [] addr)"
proof (cases "rsplit_once CHR '':'' addr")
  case None
  then show ?thesis by (simp add: collect_sans_def)
next
  case (Some p)
  obtain x y where p: "p = (x, y)" by (cases p)
  show ?thesis using Some by (cases "parse_ip (trim_brackets x)") (auto simp: collect_sans_def p Let_def split: if_splits)
qed

lemma collect_subset:
  assumes "set (collect_sans h [] addr) \<subseteq> S" "list_all (\<lambda>e. reads_back e \<and> e \<in> S) es"
  shows "set (collect_sans h (map show_entry es) addr) \<subseteq> S"
proof -
  have "map parse_entry (map show_entry es) = es"
    using assms(2) by (induction es) (simp_all add: reads_back_def)
  moreover have "set es \<subseteq> S" using assms(2) by (auto simp: list_all_iff)
  ultimately show ?thesis using assms(1) collect_cases[of h "map show_entry es" addr] by (metis Un_least order_trans)
qed

text \<open>
  C34 (a pin survives the start). After \<open>muxrctl\<close> has made or found the certificate, the fingerprint it
  shows and pins is that of the certificate a daemon started by it serves, and the start writes
  nothing: the names of the record go through the command line and come back as the same names.
  The record has the names of the environment and of the bind address, its entries read back from
  their printed form, and the certificate directory is the default one.
\<close>

theorem pinned_cert_is_served:
  assumes "crypto_laws h cy" "hs_data_dir h = Some d" "ensure_cert h cy n fs sans = Inr (pem, ops)"
    "resolve h (file_run dm ops fs) None = Inr cfg" "ec_cert_dir cfg = d"
    "list_all reads_back (read_san_sidecar h cy (file_run dm ops fs) d)"
    "set (collect_sans h [] (ec_bind_addr cfg)) \<subseteq> set (read_san_sidecar h cy (file_run dm ops fs) d)"
    "read_start_args (daemon_args h cy (file_run dm ops fs)) = Some (b, args)"
    "start_plan h m (file_run dm ops fs) b args = Inr pl" "pl_source pl = SelfSigned"
    "current_cert_fingerprint h cy (file_run dm ops fs) = Inr (Some fp)"
  shows "\<exists>k. cert_identity h cy (Some d) n' (file_run dm ops fs) (pl_source pl) (pl_sans pl) = Inr (Some (pem, k), []) \<and>
    cy_fingerprint cy pem = Some fp"
proof -
  let ?fs = "file_run dm ops fs" and ?side = "read_san_sidecar h cy (file_run dm ops fs) d"
  obtain k where l: "load_or_generate_identity h cy (Some d) n fs (map san_entry_from sans) = Inr ((pem, k), ops)"
    using assms(3) by (auto simp: ensure_cert_def assms(2) split: sum.splits)
  from load_again[OF assms(1) l, of n' dm]
  have again: "content ?fs (crt_path d) = Some pem" "content ?fs (key_path d) = Some k" "hs_text h pem" "hs_text h k"
    by (auto elim!: load_cases simp: generated_files write_restricted_def)
  have a: "b = (if ec_bind_addr cfg = DEFAULT_BIND then None else Some (ec_bind_addr cfg))"
    "args = no_args\<lparr>sa_daemonize := True, sa_san := map show_entry ?side\<rparr>"
    using read_daemon_args assms(8) by (simp_all add: daemon_args_def assms(4,5) persisted_extra_sans_def)
  obtain cfg' where c: "resolve h ?fs b = Inr cfg'" "pl_sans pl = collect_sans h (sa_san args) (ec_bind_addr cfg')"
    using assms(9) by (cases rule: start_plan_cases) auto
  have "cfg' = cfg" using c(1) resolve_bind_override[OF assms(4)] by (simp add: a(1))
  then have "set (pl_sans pl) \<subseteq> set ?side"
    using collect_subset[OF assms(7), of ?side] assms(6) by (simp add: c(2) a(2) no_args_def list_all_iff)
  then have "sidecar_covers ?side (pl_sans pl)" by (auto simp: sidecar_covers_def list_all_iff)
  then have "load_or_generate_identity h cy (Some d) n' ?fs (pl_sans pl) = Inr ((pem, k), [])"
    using again by (simp add: load_or_generate_identity_def)
  moreover have "cy_fingerprint cy pem = Some fp"
    using assms(11) again by (simp add: current_cert_fingerprint_def assms(4,5) split: option.splits)
  ultimately show ?thesis by (simp add: assms(10))
qed

text \<open>
  (a certificate directory of one's own). The configuration offers \<open>cert_dir\<close>, and \<open>muxrctl\<close>
  reads the certificate there; but the certificate is always made in the data directory. With
  another directory set, a certificate that was just made is not found, and pairing is refused
  with the advice to make one.
\<close>

theorem own_cert_dir_never_pins:
  assumes "hs_data_dir h = Some d" "ensure_cert h cy n fs sans = Inr (pem, ops)"
    "resolve h (file_run dm ops fs) None = Inr cfg" "crt_path (ec_cert_dir cfg) \<noteq> crt_path d"
    "content fs (crt_path (ec_cert_dir cfg)) = None" "status_of up \<noteq> None"
  shows "build_token_qr_task say b64 h cy (file_run dm ops fs) ifaces up mode count token ro seq TrustPin =
    TokenQrFailed no_certificate_yet seq"
proof -
  obtain k where l: "load_or_generate_identity h cy (Some d) n fs (map san_entry_from sans) = Inr ((pem, k), ops)"
    using assms(2) by (auto simp: ensure_cert_def assms(1) split: sum.splits)
  have ends: "List.last (crt_path x) = CHR ''t''" "List.last (key_path x) = CHR ''y''" "List.last (san_path x) = CHR ''n''" for x
    by (simp_all add: crt_path_def key_path_def san_path_def path_join_def)
  have "CHR ''t'' \<noteq> CHR ''y''" "CHR ''t'' \<noteq> CHR ''n''" by simp_all
  then have other: "crt_path x \<noteq> key_path y" "crt_path x \<noteq> san_path y" for x y
    using ends(1)[of x] ends(2,3)[of y] by metis+
  have "list_all (\<lambda>op. \<not> touches op (crt_path (ec_cert_dir cfg))) ops"
    using l assms(4) other by (cases rule: load_cases) (simp_all add: write_restricted_def)
  then have "content (file_run dm ops fs) (crt_path (ec_cert_dir cfg)) = None"
    using assms(5) by (simp add: run_untouched)
  then have "current_cert_fingerprint h cy (file_run dm ops fs) = Inr None"
    by (simp add: current_cert_fingerprint_def assms(3))
  moreover obtain i where "status_of up = Some i" using assms(6) by blast
  ultimately show ?thesis
    using assms(3) by (simp add: build_token_qr_task_def pairing_trust_for_def pin_or_error_def split: prod.splits)
qed

subsection \<open>Addresses that are not checked\<close>

lemma read_ipv4_needs_digit: "to_digit 10 c = None \<Longrightarrow> read_ipv4 (c # s) = None"
  by (simp add: read_ipv4_def read_octet_def read_separator_def read_number_def)

lemma bracket_is_no_ip: "parse_ip (CHR ''['' # s) = None"
proof -
  have d: "to_digit 10 CHR ''['' = None" "to_digit 16 CHR ''['' = None" by (simp_all add: to_digit_def byte_classes)
  have "read_groups 0 (Suc n) (CHR ''['' # s) = ([], False, CHR ''['' # s)" for n
    using read_ipv4_needs_digit[OF d(1), of s] d(2) by (simp add: read_separator_def read_number_def)
  from this[of 7] have "read_groups 0 8 (CHR ''['' # s) = ([], False, CHR ''['' # s)" by (simp only: Suc_numeral semiring_norm)
  then show ?thesis using read_ipv4_needs_digit[OF d(1), of s] by (simp add: parse_ip_def read_ipv6_def split: list.splits)
qed

text \<open>A text whose ends are visible ASCII characters has nothing to trim.\<close>

lemma ws_code_range:
  assumes "q \<in> set ws_codes"
  shows "q \<noteq> [] \<and> (byte (hd q) \<le> 32 \<or> 128 \<le> byte (hd q)) \<and> (byte (List.last q) \<le> 32 \<or> 128 \<le> byte (List.last q))"
proof -
  have "map byte q \<in> set white_space"
    using assms by (auto simp: ws_codes_def white_space_def byte_def o_def)
  moreover have "list_all (\<lambda>bs. bs \<noteq> [] \<and> (hd bs \<le> 32 \<or> 128 \<le> hd bs) \<and> (List.last bs \<le> 32 \<or> 128 \<le> List.last bs)) white_space"
    by (simp add: white_space_def upt_rec)
  ultimately have e: "map byte q \<noteq> [] \<and> (hd (map byte q) \<le> 32 \<or> 128 \<le> hd (map byte q)) \<and>
      (List.last (map byte q) \<le> 32 \<or> 128 \<le> List.last (map byte q))"
    by (auto simp only: list_all_iff)
  then have "q \<noteq> []" by simp
  with e show ?thesis by (simp add: hd_map last_map)
qed

lemma trim_visible:
  assumes "s \<noteq> []" "32 < byte (hd s)" "byte (hd s) < 128" "32 < byte (List.last s)" "byte (List.last s) < 128"
  shows "trim s = s"
proof -
  have h: "hd s \<noteq> hd q" and l: "List.last s \<noteq> List.last q" if "q \<in> set ws_codes" for q
    using ws_code_range[OF that] assms by auto
  have "strip_one ws_codes s = None"
  proof (rule strip_one_None)
    show "s \<noteq> p @ t" if "p \<in> set ws_codes" "p \<noteq> []" for p t
      using h[OF that(1)] that(2) by auto
  qed
  moreover have "strip_one (map rev ws_codes) (rev s) = None"
  proof (rule strip_one_None)
    fix p t
    assume p: "p \<in> set (map rev ws_codes)" "p \<noteq> []"
    then obtain q where q: "q \<in> set ws_codes" "p = rev q" by auto
    show "rev s \<noteq> p @ t"
    proof
      assume "rev s = p @ t"
      then have "s = rev t @ q" using q(2) by (metis rev_append rev_rev_ident)
      moreover have "q \<noteq> []" using q(2) p(2) by simp
      ultimately show False using l[OF q(1)] by (simp add: last_append)
    qed
  qed
  ultimately show ?thesis by (simp add: trim_def trim_start_def strip_all_id)
qed

text \<open>
  (an IPv6 bind address in the QR). The host of the bind address is compared with its brackets,
  as which it is no IP address and so counts as a name the operator chose: a daemon bound to the
  wildcard \<open>[::]\<close> or to the loopback \<open>[::1]\<close> is advertised to the phone under just that, whatever
  addresses the environment or the interfaces offer.
\<close>

theorem bracketed_host_advertised:
  assumes "resolve h fs None = Inr cfg" "ec_bind_addr cfg = CHR ''['' # s @ CHR '']'' # CHR '':'' # p" "CHR '':'' \<notin> set p"
    "build_token_qr_task say b64 h cy fs ifaces up mode count token ro seq trust = TokenQrReady uri shown port short n seq'"
  shows "shown = CHR ''['' # s @ '']''"
proof -
  let ?host = "CHR ''['' # s @ '']''"
  have "rsplit_once CHR '':'' (ec_bind_addr cfg) = Some (?host, p)"
    using rsplit_once_append[of "CHR '':''" p ?host] assms(3) by (simp add: assms(2))
  then have bind: "fst (bind_host_port (ec_bind_addr cfg)) = ?host" by (simp add: bind_host_port_def)
  have "trim ?host = ?host" by (rule trim_visible) (simp_all add: byte_def)
  then have "is_concrete_advertise_host ?host" by (simp add: is_concrete_advertise_host_def bracket_is_no_ip)
  then have "choose_advertise_host ?host x ifaces = ?host" for x by (simp add: choose_advertise_host_def)
  then show ?thesis
    using assms(4) bind
    by (auto simp: build_token_qr_task_def assms(1) Let_def split: prod.splits sum.splits if_splits)
qed

text \<open>
  (a saved address). The bind form checks the trimmed host and port but saves them as typed. A
  host with a blank before it passes the check and is written to the configuration; the daemon
  refuses to start with it.
\<close>

theorem padded_bind_saved:
  assumes "cf_host (ap_config s) = CHR '' '' # host" "trim (CHR '' '' # host) \<noteq> []" "port_ok (trim (cf_port (ap_config s)))"
    "\<not> cf_loading (ap_config s)"
    "resolve h fs b = Inr cfg" "ec_bind_addr cfg = bind_addr (ap_config s)" "start_plan h m fs b args = r"
  shows "snd (save_config s) = [SaveBind (bind_addr (ap_config s))] \<and> (case r of Inl e \<Rightarrow> True | Inr pl \<Rightarrow> False)"
proof -
  have "to_digit 10 CHR '' '' = None" by (simp add: to_digit_def byte_classes)
  from read_ipv4_needs_digit[OF this] have "parse_socket_addr (bind_addr (ap_config s)) = None"
    by (simp add: parse_socket_addr_def bind_addr_def assms(1) read_bracketed_def)
  then have "(case r of Inl e \<Rightarrow> True | Inr pl \<Rightarrow> False)"
    using assms(5-7) by (auto simp: start_plan_def split: sum.splits if_splits)
  then show ?thesis using assms(1-4) by (simp add: save_config_def Let_def)
qed

subsection \<open>Concrete runs\<close>

text \<open>A configuration file with one or two fields set, and what resolves from it.\<close>

definition demo_fs :: "string option \<Rightarrow> string option \<Rightarrow> files" where
  "demo_fs bind cert_dir = (\<lambda>p. if p = ''/d/config.toml''
     then Some (the (demo_to_toml (no_file_config\<lparr>fc_bind_addr := bind, fc_cert_dir := cert_dir\<rparr>)), 384) else None)"

lemma demo_fs_resolve:
  assumes "content fs ''/d/config.toml'' = content (demo_fs bind cert_dir) ''/d/config.toml''"
  shows "\<exists>c. resolve demo_host fs None = Inr c \<and> ec_bind_addr c = unwrap_or bind DEFAULT_BIND \<and> ec_cert_dir c = unwrap_or cert_dir ''/d''"
proof -
  let ?fc = "no_file_config\<lparr>fc_bind_addr := bind, fc_cert_dir := cert_dir\<rparr>"
  have "demo_toml (the (demo_to_toml ?fc)) = Some ?fc" by (rule demo_toml_round) (simp add: demo_to_toml_def)
  moreover have "content fs ''/d/config.toml'' = Some (the (demo_to_toml ?fc))"
  proof -
    have "content (demo_fs bind cert_dir) ''/d/config.toml'' = Some (the (demo_to_toml ?fc))"
      by (simp add: content_def demo_fs_def)
    with assms show ?thesis by simp
  qed
  ultimately have "read_file_config demo_host fs (path_join ''/d'' ''config.toml'') = Inr ?fc"
    by (simp add: read_file_config_def path_join_def)
  then show ?thesis
    by (simp add: resolve_def no_file_config_def resolve_notify_relay_url_def resolve_notify_verbosity_def default_relay Let_def)
qed

lemma demo_fs_none [simp]: "content (demo_fs b c) (crt_path d) = None" "content (demo_fs b c) (key_path d) = None"
proof -
  have "List.last (crt_path d) = CHR ''t''" "List.last (key_path d) = CHR ''y''" by (simp_all add: crt_path_def key_path_def path_join_def)
  then have "crt_path d \<noteq> ''/d/config.toml''" "key_path d \<noteq> ''/d/config.toml''" by auto
  then show "content (demo_fs b c) (crt_path d) = None" "content (demo_fs b c) (key_path d) = None"
    by (simp_all add: content_def demo_fs_def)
qed

lemma demo_ensure:
  "\<exists>pem k ops. load_or_generate_identity demo_host demo_crypto (Some ''/d'') 7 (demo_fs b c) [] = Inr ((pem, k), ops) \<and>
     ensure_cert demo_host demo_crypto 7 (demo_fs b c) [] = Inr (pem, ops) \<and> ops \<noteq> []"
  by (simp add: ensure_cert_def load_or_generate_identity_def generate_self_signed_pem_def demo_crypto_def write_restricted_def Let_def)

definition demo_status :: control_response where
  "demo_status = ControlStatus \<lparr>st_version = ''1'', st_bind_addr = DEFAULT_BIND, st_pid = 7, st_uptime_secs = 0,
     st_client_count = 0, st_cert_mode = SelfSignedMode, st_notify_relay_url = None, st_push_device_count = 0\<rparr>"

theorem own_cert_dir_never_pins_witness:
  "\<exists>fs. content fs (crt_path ''/d'') \<noteq> None \<and>
     build_token_qr_task (\<lambda>_. []) demo_b64 demo_host demo_crypto fs None (Some demo_status) None None ''t'' False 1 TrustPin =
       (TokenQrFailed no_certificate_yet 1 :: unit ctl_msg)"
proof -
  let ?fs = "demo_fs None (Some ''/e'')"
  obtain pem k ops where e: "load_or_generate_identity demo_host demo_crypto (Some ''/d'') 7 ?fs [] = Inr ((pem, k), ops)"
    "ensure_cert demo_host demo_crypto 7 ?fs [] = Inr (pem, ops)" using demo_ensure by blast
  have p: "path_join ''/d'' ''config.toml'' = ''/d/config.toml''" by (simp add: path_join_def)
  obtain c where c: "resolve demo_host (file_run 420 ops ?fs) None = Inr c" "ec_cert_dir c = ''/e''"
    using demo_fs_resolve identity_leaves_config[OF e(1), of 420] by (fastforce simp: p)
  have "crt_path ''/e'' \<noteq> crt_path ''/d''" by (simp add: crt_path_def path_join_def)
  then have "build_token_qr_task (\<lambda>_. []) demo_b64 demo_host demo_crypto (file_run 420 ops ?fs) None (Some demo_status) None None ''t'' False 1 TrustPin =
       (TokenQrFailed no_certificate_yet 1 :: unit ctl_msg)"
    by (intro own_cert_dir_never_pins[OF _ e(2) c(1)]) (simp_all add: c(2) status_of_def demo_status_def)
  moreover have "content (file_run 420 ops ?fs) (crt_path ''/d'') = Some pem"
    using load_sound(4)[OF demo_crypto_laws _ e(1), of 420] by (simp add: identity_sound_def)
  ultimately show ?thesis by (metis option.distinct(1))
qed

theorem pinned_cert_is_served_witness:
  "\<exists>fs pem k. cert_identity demo_host demo_crypto (Some ''/d'') 9 fs SelfSigned [] = Inr (Some (pem, k), []) \<and>
     current_cert_fingerprint demo_host demo_crypto fs = Inr (Some pem)"
proof -
  obtain pem k ops where e: "load_or_generate_identity demo_host demo_crypto (Some ''/d'') 7 (demo_fs None None) [] = Inr ((pem, k), ops)"
    "ensure_cert demo_host demo_crypto 7 (demo_fs None None) [] = Inr (pem, ops)" "ops \<noteq> []" using demo_ensure by blast
  let ?fs = "file_run 420 ops (demo_fs None None)"
  have p: "path_join ''/d'' ''config.toml'' = ''/d/config.toml''" by (simp add: path_join_def)
  obtain c where c: "resolve demo_host ?fs None = Inr c" "ec_cert_dir c = ''/d''" "ec_bind_addr c = DEFAULT_BIND"
    using demo_fs_resolve identity_leaves_config[OF e(1), of 420] by (fastforce simp: p)
  have side: "read_san_sidecar demo_host demo_crypto ?fs ''/d'' = []"
    using e(1,3)
  proof (cases rule: load_cases)
    case stored
    then show ?thesis using e(3) by simp
  next
    case fresh
    then show ?thesis
      using crypto_lawsD(3)[OF demo_crypto_laws, of demo_host "[]"] generated_files(3)[OF fresh(2), of 420]
      by (simp add: read_san_sidecar_def)
  qed
  have args: "read_start_args (daemon_args demo_host demo_crypto ?fs) = Some (None, no_args\<lparr>sa_daemonize := True\<rparr>)"
    by (simp add: daemon_args_def persisted_extra_sans_def c side build_daemon_args_def read_start_args_def
        read_flags.simps(2)[of "''--daemonize''"] no_args_def)
  obtain pl where pl: "start_plan demo_host demo_machine ?fs None (no_args\<lparr>sa_daemonize := True\<rparr>) = Inr pl" "pl_source pl = SelfSigned" "pl_sans pl = []"
    by (simp add: start_plan_def no_args_def demo_detect c demo_bind resolve_cert_source_def env_path_def env_true_def
        check_h2c_bind_safety_def Let_def)
  have "content ?fs (crt_path ''/d'') = Some pem"
    using load_sound(4)[OF demo_crypto_laws _ e(1), of 420] by (simp add: identity_sound_def)
  then have fp: "current_cert_fingerprint demo_host demo_crypto ?fs = Inr (Some pem)"
    by (simp add: current_cert_fingerprint_def c demo_crypto_def)
  have "\<exists>k. cert_identity demo_host demo_crypto (Some ''/d'') 9 ?fs (pl_source pl) (pl_sans pl) = Inr (Some (pem, k), []) \<and>
      cy_fingerprint demo_crypto pem = Some pem"
    by (rule pinned_cert_is_served[OF demo_crypto_laws _ e(2) c(1,2) _ _ args pl(1,2) fp])
      (simp_all add: side c(3) demo_bind)
  then show ?thesis using fp pl(2,3) by auto
qed

theorem bracketed_host_advertised_witness:
  "\<exists>uri port. build_token_qr_task (\<lambda>_. []) demo_b64 demo_host demo_crypto (demo_fs (Some ''[::]:50051'') None) None
     (Some demo_status) None None ''t'' False 1 TrustCa = (TokenQrReady uri ''[::]'' port ''CA trust (no pin)'' 0 1 :: unit ctl_msg)"
proof -
  obtain c where c: "resolve demo_host (demo_fs (Some ''[::]:50051'') None) None = Inr c" "ec_bind_addr c = ''[::]:50051''"
    using demo_fs_resolve[of "demo_fs (Some ''[::]:50051'') None" "Some ''[::]:50051''" None] by auto
  obtain host port where hp: "bind_host_port (ec_bind_addr c) = (host, port)" by (cases "bind_host_port (ec_bind_addr c)")
  obtain uri shown where q: "build_token_qr_task (\<lambda>_. []) demo_b64 demo_host demo_crypto (demo_fs (Some ''[::]:50051'') None) None
     (Some demo_status) None None ''t'' False 1 TrustCa = (TokenQrReady uri shown port ''CA trust (no pin)'' 0 1 :: unit ctl_msg)"
    by (simp add: build_token_qr_task_def c(1) hp pairing_trust_for_def short_fingerprint_def status_of_def demo_status_def
        client_count_of_def Let_def)
  have "shown = CHR ''['' # ''::'' @ '']''"
    by (rule bracketed_host_advertised[OF c(1) _ _ q, of _ "''50051''"]) (simp_all add: c(2))
  with q show ?thesis by auto
qed

theorem padded_bind_saved_witness:
  "\<exists>s :: unit app_state. snd (save_config s) = [SaveBind '' h:1''] \<and>
     (case start_plan demo_host demo_machine (demo_fs (Some '' h:1'') None) None no_args of Inl e \<Rightarrow> True | Inr pl \<Rightarrow> False)"
proof -
  let ?s = "in_config (\<lambda>c. c\<lparr>cf_host := '' h'', cf_port := ''1''\<rparr>) (new_app ())"
  have s: "cf_host (ap_config ?s) = '' h''" "cf_port (ap_config ?s) = ''1''" "\<not> cf_loading (ap_config ?s)"
    by (simp_all add: in_config_def new_app_def)
  obtain c where c: "resolve demo_host (demo_fs (Some '' h:1'') None) None = Inr c" "ec_bind_addr c = '' h:1''"
    using demo_fs_resolve[of "demo_fs (Some '' h:1'') None" "Some '' h:1''" None] by auto
  have "trim ''1'' = ''1''" by (rule trim_solid) (simp_all add: byte_classes)
  then have "port_ok (trim (cf_port (ap_config ?s)))" by (simp add: s port_ok_def digits_val_def byte_classes)
  moreover have "trim '' h'' \<noteq> []"
  proof -
    have "strip_one ws_codes '' h'' = Some ''h''" by code_simp
    then have "trim_start '' h'' = strip_all ws_codes ''h''" by (simp add: trim_start_def strip_all.simps[of ws_codes "'' h''"])
    also have "\<dots> = trim_start ''h''" by (simp add: trim_start_def)
    finally have "trim '' h'' = trim ''h''" by (simp add: trim_def)
    moreover have "trim ''h'' = ''h''" by (rule trim_solid) (simp_all add: byte_classes)
    ultimately show ?thesis by simp
  qed
  ultimately have "snd (save_config ?s) = [SaveBind (bind_addr (ap_config ?s))] \<and>
     (case start_plan demo_host demo_machine (demo_fs (Some '' h:1'') None) None no_args of Inl e \<Rightarrow> True | Inr pl \<Rightarrow> False)"
    by (intro padded_bind_saved[of ?s "''h''", OF _ _ _ _ c(1)]) (simp_all add: s c(2) bind_addr_def)
  then show ?thesis by (auto simp: s bind_addr_def)
qed

end
