(* ===== verification/CtlInput.thy ===== *)
theory CtlInput
  imports CtlState
begin

text \<open>
  How \<open>muxrctl\<close> takes input: the queue of terminal events and the heartbeat
  (\<open>InputPump\<close> of \<open>muxrctl/src/tui/runner.rs\<close>), what a routed event becomes (\<open>message_for\<close>),
  and the text field (\<open>muxrctl/src/tui/components/text_input.rs\<close>). The terminal is a list of
  events that are ready; routing them through the declared surface is the ratcn library's.
\<close>

subsection \<open>The queue\<close>

text \<open>A pointer event is a move or not; anything else of the terminal is a resize or a focus change.\<close>

datatype ct_event = CtKey bool key_event | CtMouse bool nat nat | CtPaste string | CtOther

text \<open>\<open>CtKey True\<close> is a press; releases and repeats, resizes and focus changes are not routed.\<close>

fun keep_event :: "ct_event \<Rightarrow> bool" where
  "keep_event (CtKey press k) = press"
| "keep_event (CtMouse moved x y) = True"
| "keep_event (CtPaste s) = True"
| "keep_event CtOther = False"

fun is_move :: "ct_event \<Rightarrow> bool" where
  "is_move (CtMouse moved x y) = moved"
| "is_move e = False"

definition coalesce_step :: "ct_event \<Rightarrow> ct_event list \<Rightarrow> ct_event list" where
  "coalesce_step e out = (if is_move e \<and> out \<noteq> [] \<and> is_move (List.last out) then butlast out else out) @ [e]"

definition coalesce_moves :: "ct_event list \<Rightarrow> ct_event list" where
  "coalesce_moves es = fold coalesce_step es []"

text \<open>Times in milliseconds.\<close>

definition TICK :: nat where "TICK = 50"
definition MAX_EVENTS_PER_TICK :: nat where "MAX_EVENTS_PER_TICK = 256"

record input_pump =
  ip_pending :: "ct_event list"
  ip_last_tick :: nat

text \<open>
  \<open>fill\<close>: the events that are ready - the first within the wait for the heartbeat, the others at
  once -, at most 256 of them, and what stays in the terminal.
\<close>

definition pump_fill :: "ct_event list \<Rightarrow> input_pump \<Rightarrow> input_pump \<times> ct_event list" where
  "pump_fill ready p =
     (if ip_pending p \<noteq> [] \<or> ready = [] then (p, ready)
      else (p\<lparr>ip_pending := coalesce_moves (filter keep_event (take MAX_EVENTS_PER_TICK ready))\<rparr>, drop MAX_EVENTS_PER_TICK ready))"

fun pop_next :: "ct_event list \<Rightarrow> (ct_event \<times> ct_event list) option" where
  "pop_next [] = None"
| "pop_next [e] = Some (e, [])"
| "pop_next (e # f # es) = (if is_move e \<and> is_move f then pop_next (f # es) else Some (e, f # es))"

definition pump_next :: "input_pump \<Rightarrow> ct_event option \<times> input_pump" where
  "pump_next p = (case pop_next (ip_pending p) of
     None \<Rightarrow> (None, p)
   | Some (e, es) \<Rightarrow> (Some e, p\<lparr>ip_pending := es\<rparr>))"

definition heartbeat_due :: "nat \<Rightarrow> input_pump \<Rightarrow> bool \<times> input_pump" where
  "heartbeat_due now p =
     (if TICK \<le> now - ip_last_tick p then (True, p\<lparr>ip_last_tick := now\<rparr>) else (False, p))"

datatype 'm event_result = Emit 'm | Consumed | Ignored

definition message_for :: "'f ui_msg event_result \<Rightarrow> key_event option \<Rightarrow> 'f ctl_msg option" where
  "message_for r key = (case r of Emit m \<Rightarrow> Some (Ui m) | Consumed \<Rightarrow> None | Ignored \<Rightarrow> map_option Key key)"

subsection \<open>The text field\<close>

record text_input =
  ti_bound :: bool
  ti_digits_only :: bool
  ti_max_len :: "nat option"
  ti_disabled :: bool
  ti_submits :: bool

text \<open>\<open>str::chars\<close>, each character as its bytes.\<close>

function chars_of :: "string \<Rightarrow> string list" where
  "chars_of [] = []"
| "chars_of (c # s) = (c # takeWhile is_cont s) # chars_of (dropWhile is_cont s)"
  by pat_completeness auto
termination
  by (relation "measure length") (simp_all add: length_dropWhile_le le_imp_less_Suc)

definition can_act :: "text_input \<Rightarrow> bool" where
  "can_act t \<longleftrightarrow> \<not> ti_disabled t \<and> ti_bound t"

definition input_accepts :: "text_input \<Rightarrow> string \<Rightarrow> bool" where
  "input_accepts t ch \<longleftrightarrow> \<not> ti_digits_only t \<or> (case ch of [c] \<Rightarrow> is_ascii_digit c | _ \<Rightarrow> False)"

definition append_char :: "text_input \<Rightarrow> string \<Rightarrow> string \<times> bool \<Rightarrow> string \<times> bool" where
  "append_char t ch =
     (\<lambda>(cur, changed).
        if \<not> input_accepts t ch then (cur, changed)
        else if (case ti_max_len t of Some n \<Rightarrow> n \<le> char_count cur | None \<Rightarrow> False) then (cur, changed)
        else (cur @ ch, True))"

definition input_append :: "text_input \<Rightarrow> string \<Rightarrow> string \<Rightarrow> string option" where
  "input_append t current input =
     (let (cur, changed) = fold (append_char t) (chars_of input) (current, False)
      in if changed then Some cur else None)"

text \<open>\<open>String::pop\<close>: the last character, with all its bytes.\<close>

definition pop_char :: "string \<Rightarrow> string" where
  "pop_char s = rev (tl (dropWhile is_cont (rev s)))"

definition input_backspace :: "string \<Rightarrow> string option" where
  "input_backspace current = (if current = [] then None else Some (pop_char current))"

text \<open>\<open>edit\<close>, \<open>submit\<close>, \<open>handle_key\<close> and \<open>handle_event\<close>; an emitted edit is the new value, a submit \<open>None\<close>.\<close>

definition input_edit :: "text_input \<Rightarrow> string option \<Rightarrow> string option event_result" where
  "input_edit t r = (if \<not> ti_bound t then Ignored else case r of Some v \<Rightarrow> Emit (Some v) | None \<Rightarrow> Consumed)"

definition input_submit :: "text_input \<Rightarrow> string option event_result" where
  "input_submit t = (if ti_submits t then Emit None else Ignored)"

definition input_key :: "text_input \<Rightarrow> string \<Rightarrow> key_event \<Rightarrow> string option event_result" where
  "input_key t current k =
     (if ke_ctrl k \<or> ke_alt k then Ignored
      else (case ke_code k of
              KChar c \<Rightarrow> input_edit t (input_append t current c)
            | KBackspace \<Rightarrow> input_edit t (input_backspace current)
            | KDelete \<Rightarrow> input_edit t (input_backspace current)
            | KHome \<Rightarrow> Consumed | KEnd \<Rightarrow> Consumed | KLeft \<Rightarrow> Consumed | KRight \<Rightarrow> Consumed
            | KEnter \<Rightarrow> input_submit t
            | _ \<Rightarrow> Ignored))"

definition input_event :: "text_input \<Rightarrow> string \<Rightarrow> ct_event \<Rightarrow> string option event_result" where
  "input_event t current e =
     (if \<not> can_act t then Ignored
      else (case e of
              CtKey press k \<Rightarrow> input_key t current k
            | CtPaste s \<Rightarrow> input_edit t (input_append t current s)
            | _ \<Rightarrow> Ignored))"

text \<open>The longest suffix of whole characters within a width; \<open>w\<close> is the display width of a text.\<close>

fun take_width :: "(string \<Rightarrow> nat) \<Rightarrow> nat \<Rightarrow> string list \<Rightarrow> string list" where
  "take_width w room [] = []"
| "take_width w room (ch # chs) = (if room < w ch then [] else ch # take_width w (room - w ch) chs)"

definition tail_to_width :: "(string \<Rightarrow> nat) \<Rightarrow> string \<Rightarrow> nat \<Rightarrow> string" where
  "tail_to_width w s width =
     (if width = 0 \<or> s = [] then []
      else if w s \<le> width then s
      else concat (rev (take_width w width (rev (chars_of s)))))"

subsection \<open>No click is lost, and none moves\<close>

text \<open>
  The reference: every kept event is routed. What counts is each event that is no move, with the
  position the pointer has then, and where the pointer is at the end.
\<close>

fun pointer_after :: "(nat \<times> nat) option \<Rightarrow> ct_event \<Rightarrow> (nat \<times> nat) option" where
  "pointer_after p (CtMouse moved x y) = (if moved then Some (x, y) else p)"
| "pointer_after p e = p"

definition pointer_end :: "(nat \<times> nat) option \<Rightarrow> ct_event list \<Rightarrow> (nat \<times> nat) option" where
  "pointer_end p es = foldl pointer_after p es"

fun acted :: "(nat \<times> nat) option \<Rightarrow> ct_event list \<Rightarrow> (ct_event \<times> (nat \<times> nat) option) list" where
  "acted p [] = []"
| "acted p (e # es) = (if is_move e then acted (pointer_after p e) es else (e, p) # acted p es)"

text \<open>All events the queue gives out.\<close>

lemma pop_next_shorter: "pop_next es = Some (e, r) \<Longrightarrow> length r < length es"
  by (induction es rule: pop_next.induct) (auto split: if_splits)

function pump_drain :: "ct_event list \<Rightarrow> ct_event list" where
  "pump_drain es = (case pop_next es of None \<Rightarrow> [] | Some (e, r) \<Rightarrow> e # pump_drain r)"
  by pat_completeness auto
termination
  by (relation "measure length") (auto dest: pop_next_shorter)

declare pump_drain.simps [simp del]

lemma not_move_pointer: "\<not> is_move e \<Longrightarrow> pointer_after p e = p"
  by (cases e) simp_all

lemma move_pointer: "is_move e \<Longrightarrow> pointer_after p e = pointer_after q e"
  by (cases e) (simp_all split: if_splits)

lemma pointer_end_simps [simp]:
  "pointer_end p [] = p" "pointer_end p (e # es) = pointer_end (pointer_after p e) es"
  "pointer_end p (es @ fs) = pointer_end (pointer_end p es) fs"
  by (simp_all add: pointer_end_def)

lemma acted_append: "acted p (es @ fs) = acted p es @ acted (pointer_end p es) fs"
  by (induction es arbitrary: p) (simp_all add: not_move_pointer)

definition same_effect :: "ct_event list \<Rightarrow> ct_event list \<Rightarrow> bool" where
  "same_effect es fs \<longleftrightarrow> (\<forall>p. acted p es = acted p fs \<and> pointer_end p es = pointer_end p fs)"

lemma same_effect_refl [simp]: "same_effect es es"
  by (simp add: same_effect_def)

lemma same_effect_trans: "same_effect a b \<Longrightarrow> same_effect b c \<Longrightarrow> same_effect a c"
  by (simp add: same_effect_def)

lemma same_effect_append: "same_effect a b \<Longrightarrow> same_effect (xs @ a @ ys) (xs @ b @ ys)"
  by (simp add: same_effect_def acted_append)

lemma superseded: "is_move m \<Longrightarrow> is_move e \<Longrightarrow> same_effect [e] [m, e]"
  using move_pointer[of e] by (simp add: same_effect_def)

lemma coalesce_step_effect: "same_effect (coalesce_step e out @ es) (out @ e # es)"
proof (cases "is_move e \<and> out \<noteq> [] \<and> is_move (List.last out)")
  case True
  then have "same_effect (butlast out @ [e] @ es) (butlast out @ [List.last out, e] @ es)"
    by (intro same_effect_append superseded) simp_all
  moreover have "butlast out @ List.last out # e # es = out @ e # es"
    using True append_butlast_last_id[of out] by (metis append_Cons append_Nil append_assoc)
  ultimately show ?thesis using True by (simp add: coalesce_step_def)
next
  case False
  then have "coalesce_step e out @ es = out @ e # es" by (auto simp: coalesce_step_def)
  then show ?thesis by simp
qed

lemma coalesce_effect: "same_effect (fold coalesce_step es out) (out @ es)"
proof (induction es arbitrary: out)
  case (Cons e es)
  then show ?case using same_effect_trans[OF Cons[of "coalesce_step e out"] coalesce_step_effect[of e out es]] by simp
qed simp

lemma pop_next_effect: "pop_next es = Some (e, r) \<Longrightarrow> same_effect (e # r) es"
proof (induction es rule: pop_next.induct)
  case (3 a b es)
  show ?case
  proof (cases "is_move a \<and> is_move b")
    case True
    then have "same_effect (e # r) (b # es)" using 3 by simp
    moreover have "same_effect ([] @ [b] @ es) ([] @ [a, b] @ es)" using True by (intro same_effect_append superseded) simp_all
    ultimately show ?thesis by (simp add: same_effect_trans)
  next
    case False
    then have "e # r = a # b # es" using 3(2) by (auto split: if_splits)
    then show ?thesis by simp
  qed
qed simp_all

lemma pop_next_None: "pop_next es = None \<Longrightarrow> es = []"
  by (induction es rule: pop_next.induct) (auto split: if_splits)

lemma drain_effect: "same_effect (pump_drain es) es"
proof (induction es rule: pump_drain.induct)
  case (1 es)
  show ?case
  proof (cases "pop_next es")
    case None
    then have "es = []" by (rule pop_next_None)
    then show ?thesis by (simp add: pump_drain.simps)
  next
    case (Some x)
    obtain e r where x: "x = (e, r)" by (cases x)
    have "same_effect ([e] @ pump_drain r @ []) ([e] @ r @ [])"
      by (intro same_effect_append 1) (use Some x in auto)
    then show ?thesis using pop_next_effect[of es e r] Some x by (simp add: pump_drain.simps[of es] same_effect_trans)
  qed
qed

text \<open>
  (the input queue). The events one read takes, merged as they are read and again as they are
  given out, do to the surface what routing every kept event does: each key, click and paste is
  routed once, in order, with the pointer where it was, and the pointer ends where it ended.
\<close>

theorem merged_input_same_effect:
  "same_effect (pump_drain (coalesce_moves (filter keep_event es))) (filter keep_event es)"
  using same_effect_trans[OF drain_effect coalesce_effect[of "filter keep_event es" "[]"]] by (simp add: coalesce_moves_def)

subsection \<open>One heartbeat per tick\<close>

fun heartbeats :: "nat list \<Rightarrow> input_pump \<Rightarrow> nat" where
  "heartbeats [] p = 0"
| "heartbeats (t # ts) p = (let (due, p') = heartbeat_due t p in (if due then 1 else 0) + heartbeats ts p')"

text \<open>
  (heartbeats). However often and at whatever times the loop asks, it never has more heartbeats
  than whole ticks have passed: a flood of input or a stall makes no backlog of them.
\<close>

theorem heartbeats_bounded:
  assumes "list_all (\<lambda>t. t \<le> T) ts"
  shows "TICK * heartbeats ts p \<le> T - ip_last_tick p"
  using assms
proof (induction ts arbitrary: p)
  case (Cons t ts)
  show ?case
  proof (cases "TICK \<le> t - ip_last_tick p")
    case True
    have "TICK * heartbeats ts (p\<lparr>ip_last_tick := t\<rparr>) \<le> T - t" using Cons.IH[of "p\<lparr>ip_last_tick := t\<rparr>"] Cons.prems by simp
    moreover have "heartbeats (t # ts) p = Suc (heartbeats ts (p\<lparr>ip_last_tick := t\<rparr>))"
      using True by (simp add: heartbeat_due_def)
    ultimately show ?thesis using True Cons.prems by (auto simp: TICK_def)
  next
    case False
    then show ?thesis using Cons by (simp add: heartbeat_due_def)
  qed
qed simp

theorem heartbeats_bounded_witness:
  "TICK * heartbeats [10, 60, 70, 200] \<lparr>ip_pending = [], ip_last_tick = 0\<rparr> \<le> 200 - ip_last_tick \<lparr>ip_pending = [], ip_last_tick = 0\<rparr>"
  by (rule heartbeats_bounded) simp

subsection \<open>Editing\<close>

lemma takeWhile_cont_count: "char_count (takeWhile is_cont s) = 0"
  by (induction s) simp_all

lemma chars_count: "ch \<in> set (chars_of s) \<Longrightarrow> char_count ch \<le> 1 \<and> ch \<noteq> []"
  by (induction s rule: chars_of.induct) (auto simp: takeWhile_cont_count)

lemma concat_chars: "concat (chars_of s) = s"
  by (induction s rule: chars_of.induct) simp_all

lemma fold_append_char:
  assumes "fold (append_char t) chs (cur, ch0) = (v, changed)" "list_all (\<lambda>ch. char_count ch \<le> 1) chs"
  shows "\<exists>added. v = cur @ concat added \<and> set added \<subseteq> set chs \<and> list_all (input_accepts t) added \<and>
    (changed \<longrightarrow> ch0 \<or> added \<noteq> []) \<and>
    (case ti_max_len t of Some n \<Rightarrow> char_count cur \<le> n \<longrightarrow> char_count v \<le> n | None \<Rightarrow> True)"
  using assms
proof (induction chs arbitrary: cur ch0)
  case Nil
  then show ?case by (auto split: option.split intro!: exI[of _ "[]"])
next
  case (Cons ch chs)
  obtain cur1 c1 where s: "append_char t ch (cur, ch0) = (cur1, c1)" by (cases "append_char t ch (cur, ch0)")
  have "fold (append_char t) chs (cur1, c1) = (v, changed)" "list_all (\<lambda>ch. char_count ch \<le> 1) chs"
    using Cons.prems s by simp_all
  from Cons.IH[OF this] obtain added where a: "v = cur1 @ concat added" "set added \<subseteq> set chs" "list_all (input_accepts t) added"
    "changed \<longrightarrow> c1 \<or> added \<noteq> []" "case ti_max_len t of Some n \<Rightarrow> char_count cur1 \<le> n \<longrightarrow> char_count v \<le> n | None \<Rightarrow> True"
    by blast
  show ?case
  proof (cases "input_accepts t ch \<and> \<not> (case ti_max_len t of Some n \<Rightarrow> n \<le> char_count cur | None \<Rightarrow> False)")
    case True
    then have "cur1 = cur @ ch" using s by (auto simp: append_char_def split: if_splits)
    moreover have "char_count ch \<le> 1" using Cons.prems(2) by simp
    ultimately have "case ti_max_len t of Some n \<Rightarrow> char_count cur \<le> n \<longrightarrow> char_count v \<le> n | None \<Rightarrow> True"
      using a(5) True by (auto split: option.splits)
    then show ?thesis using a(1-3) True \<open>cur1 = cur @ ch\<close> by (intro exI[of _ "ch # added"]) auto
  next
    case False
    then have "cur1 = cur" "c1 = ch0" using s by (auto simp: append_char_def split: if_splits option.splits)
    then show ?thesis using a by auto
  qed
qed

text \<open>
  (typing and pasting). An edit appends to the value some characters of what was typed or pasted
  and changes nothing else; a field for digits gets only digits, and one with a maximum that is
  within it stays within it, however long the paste.
\<close>

theorem field_stays_in_bounds:
  assumes "input_append t current input = Some v"
  shows "\<exists>added. v = current @ concat added \<and> added \<noteq> [] \<and> set added \<subseteq> set (chars_of input) \<and>
    (ti_digits_only t \<longrightarrow> list_all is_ascii_digit (concat added)) \<and>
    (case ti_max_len t of Some n \<Rightarrow> char_count current \<le> n \<longrightarrow> char_count v \<le> n | None \<Rightarrow> True)"
proof -
  have f: "fold (append_char t) (chars_of input) (current, False) = (v, True)"
    using assms by (auto simp: input_append_def Let_def split: prod.splits if_splits)
  have "list_all (\<lambda>ch. char_count ch \<le> 1) (chars_of input)" using chars_count by (auto simp: list_all_iff)
  from fold_append_char[OF f this] obtain added where a: "v = current @ concat added" "set added \<subseteq> set (chars_of input)"
    "list_all (input_accepts t) added" "added \<noteq> []"
    "case ti_max_len t of Some n \<Rightarrow> char_count current \<le> n \<longrightarrow> char_count v \<le> n | None \<Rightarrow> True" by blast
  have "ti_digits_only t \<Longrightarrow> list_all is_ascii_digit (concat added)"
    using a(3) by (induction added) (auto simp: input_accepts_def split: list.splits)
  with a show ?thesis by blast
qed

text \<open>Backspace takes back what one key typed, whatever the number of its bytes.\<close>

lemma backspace_undoes:
  assumes "input_append t current (c # cs) = Some v" "\<not> is_cont c" "list_all is_cont cs"
  shows "input_backspace v = Some current"
proof -
  have chars: "takeWhile is_cont cs = cs" "dropWhile is_cont cs = []"
    using assms(3) by (auto simp: takeWhile_eq_all_conv dropWhile_eq_Nil_conv list_all_iff)
  have v: "v = current @ c # cs"
    using assms(1) by (auto simp: input_append_def chars append_char_def split: if_splits)
  have "dropWhile is_cont (rev cs @ c # rev current) = c # rev current"
    using assms(2,3) by (subst dropWhile_append2) (auto simp: list_all_iff)
  then show ?thesis by (simp add: v input_backspace_def pop_char_def)
qed

theorem field_stays_in_bounds_witness:
  "\<exists>added. ''502'' = ''5'' @ concat added \<and> added \<noteq> [] \<and> set added \<subseteq> set (chars_of ''x02'')"
proof -
  let ?t = "\<lparr>ti_bound = True, ti_digits_only = True, ti_max_len = Some 5, ti_disabled = False, ti_submits = False\<rparr>"
  have "chars_of ''x02'' = [''x'', ''0'', ''2'']" by (simp add: is_cont_def byte_def)
  then have "input_append ?t ''5'' ''x02'' = Some ''502''"
    by (simp add: input_append_def append_char_def input_accepts_def byte_classes is_cont_def)
  from field_stays_in_bounds[OF this] show ?thesis by blast
qed

end
