(* ===== verification/ZellijCli.thy ===== *)
theory ZellijCli
  imports RelayReader FileOps Json
begin

text \<open>
  The short-lived connections of the zellij backend: \<open>muxrd/src/actions.rs\<close>, \<open>query.rs\<close>, the
  methods of \<open>multiplexer/zellij.rs\<close> that use them and the session helpers of \<open>ipc.rs\<close>. A
  connection is validated, opened, told one message and read until the reply is complete. The
  server is an input: whether its socket exists and accepts, and what each read brings, with the
  deadline that may have passed. What the code does to the outside is the list of effects beside
  its result. A read that never returns is outside the model: a query bounds it with a receive
  timeout, an action does not. zellij's messages and actions are the constructors the code names;
  its JSON decoder is a parameter.
\<close>

subsection \<open>Actions and messages\<close>

datatype zj_pane = TerminalPane "32 word" | PluginPane "32 word"
datatype zj_resize = ResizeIncrease | ResizeDecrease
datatype zj_direction = ToLeft | ToRight | ToUp | ToDown

text \<open>\<open>FloatingPaneCoordinates\<close>: percentages, and whether the frame is dropped.\<close>

record zj_coordinates =
  co_x :: "nat option"
  co_y :: "nat option"
  co_width :: "nat option"
  co_height :: "nat option"
  co_borderless :: "bool option"

text \<open>A mouse event: a press at (line, column), with the two wheel flags.\<close>

record zj_mouse =
  zm_line :: int
  zm_column :: "16 word"
  zm_wheel_up :: bool
  zm_wheel_down :: bool

datatype zj_action =
    WriteToPaneId string zj_pane
  | FocusPaneByPaneId zj_pane
  | CloseTerminalPane "32 word"
  | ClosePluginPane "32 word"
  | NewFloatingPane "string option"
  | NewPane "string option"
  | RenameTerminalPane "32 word" string
  | RenamePluginPane "32 word" string
  | ResizeByPaneId zj_pane zj_resize "zj_direction option"
  | TogglePaneEmbedOrFloatingByPaneId zj_pane
  | ToggleFocusNoUiFullscreenByPaneId zj_pane
  | ZjNewTab "string option"
  | CloseTabById "64 word"
  | GoToTabById "64 word"
  | RenameTabById "64 word" string
  | ScrollUpByPaneId zj_pane
  | ScrollDownByPaneId zj_pane
  | ScrollToTopByPaneId zj_pane
  | ScrollToBottomByPaneId zj_pane
  | PageScrollUpByPaneId zj_pane
  | PageScrollDownByPaneId zj_pane
  | HalfPageScrollUpByPaneId zj_pane
  | HalfPageScrollDownByPaneId zj_pane
  | RenameSession string
  | ListTabs
  | ListPanes
  | ToggleFloatingPanes
  | ChangeFloatingPaneCoordinates zj_pane zj_coordinates
  | ToggleFocusNoUiFullscreen
  | WriteChars string
  | WriteBytes string
  | ZjMouseEvent zj_mouse

text \<open>To the server; the flag of an action is \<open>is_cli_client\<close>.\<close>

datatype client_msg =
    AttachClient "16 word" "16 word"
  | ActionMsg zj_action bool
  | KillSessionMsg
  | TerminalResize "16 word" "16 word"
  | ClientExitedMsg

text \<open>From the server; every message the code does not look at is \<open>SrvOther\<close>.\<close>

datatype zj_server_msg =
    SrvLog "string list"
  | SrvLogError "string list"
  | SrvExit string
  | SrvUnblockInput
  | SrvRender string
  | SrvRenamedSession string
  | SrvConfigFileUpdated
  | SrvSwitchSession "string option"
  | SrvOther

subsection \<open>A short connection\<close>

datatype zj_error =
    BadSessionName | NoSocket | ConnectFailed | SendFailed | TimedOutAfter nat | StreamClosed
  | SessionExited string | RepliedError "string list" | DrainLimit | EmptyReply | BadJson
  | NoTabs | ZeroArea | ListFailed | NoBinary | SpawnFailed | NeverAppeared

datatype zj_effect = ConnectTo string | Say string client_msg | Spawn string "string list"

text \<open>\<open>zc_turn i\<close>: whether the deadline has passed when the loop comes to message \<open>i\<close>, and what the read brings.\<close>

record zj_conn =
  zc_exists :: bool
  zc_connects :: bool
  zc_sends :: bool
  zc_turn :: "nat \<Rightarrow> bool \<times> zj_server_msg option"

definition session_socket_path :: "string \<Rightarrow> string \<Rightarrow> string" where
  "session_socket_path dir sess = path_join dir sess"

definition open_socket :: "(string \<Rightarrow> bool) \<Rightarrow> string \<Rightarrow> zj_conn \<Rightarrow> string \<Rightarrow> (zj_error + unit) \<times> zj_effect list" where
  "open_socket zok dir c sess =
     (if \<not> validate_session_name zok sess then (Inl BadSessionName, [])
      else if \<not> zc_exists c then (Inl NoSocket, [])
      else let path = session_socket_path dir sess
           in if \<not> zc_connects c then (Inl ConnectFailed, [ConnectTo path]) else (Inr (), [ConnectTo path]))"

definition zj_converse :: "(string \<Rightarrow> bool) \<Rightarrow> string \<Rightarrow> zj_conn \<Rightarrow> string \<Rightarrow> client_msg \<Rightarrow> zj_error + 'r \<Rightarrow> (zj_error + 'r) \<times> zj_effect list" where
  "zj_converse zok dir c sess msg reply =
     (case open_socket zok dir c sess of
        (Inl e, fx) \<Rightarrow> (Inl e, fx)
      | (Inr _, fx) \<Rightarrow>
          if zc_sends c then (reply, fx @ [Say (session_socket_path dir sess) msg]) else (Inl SendFailed, fx))"

text \<open>The loop that reads the reply: \<open>f\<close> takes a message and ends the loop (\<open>Inl\<close>) or goes on (\<open>Inr\<close>).\<close>

fun drain_turns :: "('s \<Rightarrow> zj_server_msg \<Rightarrow> (zj_error + 'r) + 's) \<Rightarrow> (nat \<Rightarrow> bool \<times> zj_server_msg option) \<Rightarrow> nat list \<Rightarrow> 's \<Rightarrow> zj_error + 'r" where
  "drain_turns f turn [] s = Inl DrainLimit"
| "drain_turns f turn (i # is) s =
     (if fst (turn i) then Inl (TimedOutAfter i)
      else (case snd (turn i) of
              None \<Rightarrow> Inl StreamClosed
            | Some m \<Rightarrow> (case f s m of Inl r \<Rightarrow> r | Inr s' \<Rightarrow> drain_turns f turn is s')))"

subsection \<open>Actions and their acknowledgement\<close>

definition DRAIN_LIMIT :: nat where "DRAIN_LIMIT = 500"

fun join_lines :: "string list \<Rightarrow> string" where
  "join_lines [] = []"
| "join_lines [l] = l"
| "join_lines (l # m # ls) = l @ CHR 0x0A # join_lines (m # ls)"

definition lines_option :: "string list \<Rightarrow> string option" where
  "lines_option ls = (if ls = [] then None else Some (join_lines ls))"

text \<open>The state of the loop: the info lines and the error lines read so far.\<close>

definition ack_turn :: "string list \<times> string list \<Rightarrow> zj_server_msg \<Rightarrow> (zj_error + action_ack) + string list \<times> string list" where
  "ack_turn s m =
     (let (logs, errors) = s
      in case m of
           SrvUnblockInput \<Rightarrow>
             Inl (Inr \<lparr>a_ok = (lines_option errors = None), a_error = lines_option errors, a_info = lines_option logs\<rparr>)
         | SrvLog lines \<Rightarrow> Inr (logs @ lines, errors)
         | SrvLogError lines \<Rightarrow> Inr (logs, errors @ lines)
         | SrvExit reason \<Rightarrow> Inl (Inl (SessionExited reason))
         | _ \<Rightarrow> Inr s)"

definition send_action :: "(string \<Rightarrow> bool) \<Rightarrow> string \<Rightarrow> zj_conn \<Rightarrow> string \<Rightarrow> zj_action \<Rightarrow> (zj_error + action_ack) \<times> zj_effect list" where
  "send_action zok dir c sess action =
     zj_converse zok dir c sess (ActionMsg action True) (drain_turns ack_turn (zc_turn c) [0..<DRAIN_LIMIT] ([], []))"

definition pane_id_from_target :: "32 word \<Rightarrow> bool \<Rightarrow> zj_pane" where
  "pane_id_from_target i plugin = (if plugin then PluginPane i else TerminalPane i)"

definition to_pane_id :: "pane_ref \<Rightarrow> zj_pane" where
  "to_pane_id p = pane_id_from_target (pane_id p) (is_plugin p)"

definition from_pane_id :: "zj_pane \<Rightarrow> pane_ref" where
  "from_pane_id p = (case p of TerminalPane i \<Rightarrow> \<lparr>pane_id = i, is_plugin = False\<rparr> | PluginPane i \<Rightarrow> \<lparr>pane_id = i, is_plugin = True\<rparr>)"

fun to_resize :: "resize_kind \<Rightarrow> zj_resize" where
  "to_resize Increase = ResizeIncrease" | "to_resize Decrease = ResizeDecrease"

fun to_direction :: "resize_dir \<Rightarrow> zj_direction" where
  "to_direction DirLeft = ToLeft" | "to_direction DirRight = ToRight"
| "to_direction DirUp = ToUp" | "to_direction DirDown = ToDown"

definition close_action :: "zj_pane \<Rightarrow> zj_action" where
  "close_action p = (case p of TerminalPane i \<Rightarrow> CloseTerminalPane i | PluginPane i \<Rightarrow> ClosePluginPane i)"

definition new_pane_action :: "bool \<Rightarrow> string option \<Rightarrow> zj_action" where
  "new_pane_action floating name = (if floating then NewFloatingPane name else NewPane name)"

definition rename_action :: "zj_pane \<Rightarrow> string \<Rightarrow> zj_action" where
  "rename_action p name = (case p of TerminalPane i \<Rightarrow> RenameTerminalPane i name | PluginPane i \<Rightarrow> RenamePluginPane i name)"

fun scroll_action :: "zj_pane \<Rightarrow> scroll_dir \<Rightarrow> zj_action" where
  "scroll_action p ScrUp = ScrollUpByPaneId p"
| "scroll_action p ScrDown = ScrollDownByPaneId p"
| "scroll_action p ToTop = ScrollToTopByPaneId p"
| "scroll_action p ToBottom = ScrollToBottomByPaneId p"
| "scroll_action p PageUp = PageScrollUpByPaneId p"
| "scroll_action p PageDown = PageScrollDownByPaneId p"
| "scroll_action p HalfPageUp = HalfPageScrollUpByPaneId p"
| "scroll_action p HalfPageDown = HalfPageScrollDownByPaneId p"

text \<open>The action of each operation of the backend.\<close>

fun op_action :: "backend_op \<Rightarrow> zj_action" where
  "op_action (OpWriteToPane p bytes) = WriteToPaneId bytes (to_pane_id p)"
| "op_action (OpFocusPane p) = FocusPaneByPaneId (to_pane_id p)"
| "op_action (OpClosePane p) = close_action (to_pane_id p)"
| "op_action (OpNewPane floating name) = new_pane_action floating name"
| "op_action (OpRenamePane p name) = rename_action (to_pane_id p) name"
| "op_action (OpResizePane p kind dir) = ResizeByPaneId (to_pane_id p) (to_resize kind) (map_option to_direction dir)"
| "op_action (OpTogglePaneFloating p) = TogglePaneEmbedOrFloatingByPaneId (to_pane_id p)"
| "op_action (OpTogglePaneFullscreen p) = ToggleFocusNoUiFullscreenByPaneId (to_pane_id p)"
| "op_action (OpScrollPane p dir) = scroll_action (to_pane_id p) dir"
| "op_action (OpNewTab name) = ZjNewTab name"
| "op_action (OpCloseTab t) = CloseTabById t"
| "op_action (OpGoToTab t) = GoToTabById t"
| "op_action (OpRenameTab t name) = RenameTabById t name"

definition zj_backend_op :: "(string \<Rightarrow> bool) \<Rightarrow> string \<Rightarrow> zj_conn \<Rightarrow> string \<Rightarrow> backend_op \<Rightarrow> (zj_error + action_ack) \<times> zj_effect list" where
  "zj_backend_op zok dir c sess op = send_action zok dir c sess (op_action op)"

definition zj_rename_session :: "(string \<Rightarrow> bool) \<Rightarrow> string \<Rightarrow> zj_conn \<Rightarrow> string \<Rightarrow> string \<Rightarrow> (zj_error + action_ack) \<times> zj_effect list" where
  "zj_rename_session zok dir c sess new_name = send_action zok dir c sess (RenameSession new_name)"

text \<open>The kill is one message with no reply.\<close>

definition zj_kill_session :: "(string \<Rightarrow> bool) \<Rightarrow> string \<Rightarrow> zj_conn \<Rightarrow> string \<Rightarrow> (zj_error + action_ack) \<times> zj_effect list" where
  "zj_kill_session zok dir c sess =
     zj_converse zok dir c sess KillSessionMsg (Inr \<lparr>a_ok = True, a_error = None, a_info = None\<rparr>)"

subsection \<open>Queries\<close>

definition LOG_DRAIN_LIMIT :: nat where "LOG_DRAIN_LIMIT = 200"

definition query_turn :: "unit \<Rightarrow> zj_server_msg \<Rightarrow> (zj_error + string list) + unit" where
  "query_turn s m =
     (case m of
        SrvLog lines \<Rightarrow> Inl (Inr lines)
      | SrvLogError lines \<Rightarrow> Inl (Inl (RepliedError lines))
      | SrvExit reason \<Rightarrow> Inl (Inl (SessionExited reason))
      | _ \<Rightarrow> Inr ())"

definition query_session :: "(string \<Rightarrow> bool) \<Rightarrow> string \<Rightarrow> zj_conn \<Rightarrow> string \<Rightarrow> zj_action \<Rightarrow> (zj_error + string list) \<times> zj_effect list" where
  "query_session zok dir c sess action =
     zj_converse zok dir c sess (ActionMsg action True) (drain_turns query_turn (zc_turn c) [0..<LOG_DRAIN_LIMIT] ())"

definition query_json :: "(zj_error + string list) \<times> zj_effect list \<Rightarrow> (zj_error + string) \<times> zj_effect list" where
  "query_json r =
     (case r of
        (Inl e, fx) \<Rightarrow> (Inl e, fx)
      | (Inr lines, fx) \<Rightarrow> (if join_lines lines = [] then Inl EmptyReply else Inr (join_lines lines), fx))"

definition query_list_tabs_json :: "(string \<Rightarrow> bool) \<Rightarrow> string \<Rightarrow> zj_conn \<Rightarrow> string \<Rightarrow> (zj_error + string) \<times> zj_effect list" where
  "query_list_tabs_json zok dir c sess = query_json (query_session zok dir c sess ListTabs)"

definition query_list_panes_json :: "(string \<Rightarrow> bool) \<Rightarrow> string \<Rightarrow> zj_conn \<Rightarrow> string \<Rightarrow> (zj_error + string) \<times> zj_effect list" where
  "query_list_panes_json zok dir c sess = query_json (query_session zok dir c sess ListPanes)"

text \<open>zellij's \<open>TabInfo\<close> and \<open>PaneListEntry\<close>, as far as they are read, and their decoder.\<close>

record zj_tab =
  zt_position :: "64 word"
  zt_name :: string
  zt_active :: bool
  zt_bell :: bool
  zt_panes_to_hide :: "64 word"
  zt_fullscreen_active :: bool
  zt_floating_visible :: bool
  zt_tab_id :: "64 word"
  zt_area_rows :: "64 word"
  zt_area_cols :: "64 word"

record zj_entry =
  en_id :: "32 word"
  en_title :: string
  en_focused :: bool
  en_floating :: bool
  en_exited :: bool
  en_command :: "string option"
  en_cwd :: "string option"
  en_x :: "64 word"
  en_y :: "64 word"
  en_rows :: "64 word"
  en_cols :: "64 word"
  en_plugin :: bool
  en_fullscreen :: bool
  en_tab_id :: "64 word"
  en_tab_position :: "64 word"

record zj_decode =
  jd_values :: "string \<Rightarrow> json list option"
  jd_tab :: "json \<Rightarrow> zj_tab option"
  jd_panes :: "string \<Rightarrow> zj_entry list option"

definition fill_position :: "nat \<Rightarrow> json \<Rightarrow> json" where
  "fill_position i v =
     (case v of
        JObject kvs \<Rightarrow> if map_of kvs ''position'' = None then JObject (kvs @ [(''position'', JNumber (dec i))]) else v
      | _ \<Rightarrow> v)"

definition parse_list_tabs_json :: "zj_decode \<Rightarrow> string \<Rightarrow> zj_tab list option" where
  "parse_list_tabs_json d s =
     (case jd_values d s of
        None \<Rightarrow> None
      | Some vs \<Rightarrow> those (map (\<lambda>(i, v). jd_tab d (fill_position i v)) (enumerate 0 vs)))"

definition clamp_usize_dim :: "64 word \<Rightarrow> 16 word" where
  "clamp_usize_dim v = (if v < 65535 then ucast v else 65535)"

definition active_or_first :: "zj_tab list \<Rightarrow> zj_tab option" where
  "active_or_first ts = (case find zt_active ts of Some t \<Rightarrow> Some t | None \<Rightarrow> (case ts of t # _ \<Rightarrow> Some t | [] \<Rightarrow> None))"

definition zj_session_size ::
  "(string \<Rightarrow> bool) \<Rightarrow> string \<Rightarrow> zj_decode \<Rightarrow> zj_conn \<Rightarrow> string \<Rightarrow> (zj_error + 16 word \<times> 16 word) \<times> zj_effect list" where
  "zj_session_size zok dir d c sess =
     (case query_list_tabs_json zok dir c sess of
        (Inl e, fx) \<Rightarrow> (Inl e, fx)
      | (Inr j, fx) \<Rightarrow>
          ((case parse_list_tabs_json d j of
              None \<Rightarrow> Inl BadJson
            | Some ts \<Rightarrow>
                (case active_or_first ts of
                   None \<Rightarrow> Inl NoTabs
                 | Some t \<Rightarrow>
                     (let rows = clamp_usize_dim (zt_area_rows t); cols = clamp_usize_dim (zt_area_cols t)
                      in if rows = 0 \<or> cols = 0 then Inl ZeroArea else Inr (rows, cols)))), fx))"

text \<open>
  Whether a pane floats, whether the active tab shows its floating panes, and the focused one of
  them. The tabs are asked only when the pane floats, over a second connection.
\<close>

definition entry_pane :: "zj_entry \<Rightarrow> zj_pane" where
  "entry_pane e = pane_id_from_target (en_id e) (en_plugin e)"

definition focused_floating :: "zj_entry list \<Rightarrow> zj_tab option \<Rightarrow> zj_pane option" where
  "focused_floating es active =
     (case active of
        None \<Rightarrow> None
      | Some t \<Rightarrow> map_option entry_pane (find (\<lambda>e. en_tab_position e = zt_position t \<and> en_floating e \<and> en_focused e) es))"

definition zj_pane_floating ::
  "(string \<Rightarrow> bool) \<Rightarrow> string \<Rightarrow> zj_decode \<Rightarrow> zj_conn \<Rightarrow> zj_conn \<Rightarrow> string \<Rightarrow> zj_pane \<Rightarrow>
     (zj_error + bool \<times> bool \<times> zj_pane option) \<times> zj_effect list" where
  "zj_pane_floating zok dir d c c' sess p =
     (case query_list_panes_json zok dir c sess of
        (Inl e, fx) \<Rightarrow> (Inl e, fx)
      | (Inr j, fx) \<Rightarrow>
          (case jd_panes d j of
             None \<Rightarrow> (Inl BadJson, fx)
           | Some es \<Rightarrow>
               if \<not> list_ex (\<lambda>e. entry_pane e = p \<and> en_floating e) es then (Inr (False, False, None), fx)
               else (case query_list_tabs_json zok dir c' sess of
                       (Inl e, fx') \<Rightarrow> (Inl e, fx @ fx')
                     | (Inr j', fx') \<Rightarrow>
                         (case parse_list_tabs_json d j' of
                            None \<Rightarrow> (Inl BadJson, fx @ fx')
                          | Some ts \<Rightarrow>
                              (let active = active_or_first ts
                               in (Inr (True, (case active of Some t \<Rightarrow> zt_floating_visible t | None \<Rightarrow> False),
                                       focused_floating es active), fx @ fx'))))))"

text \<open>A duration is its seconds and nanoseconds.\<close>

definition zj_list_sessions ::
  "(string \<times> 64 word \<times> 32 word) list option \<Rightarrow> (string \<times> 64 word \<times> 32 word) list \<Rightarrow> zj_error + (string \<times> 64 word \<times> bool) list" where
  "zj_list_sessions running resurrectable =
     (case running of
        None \<Rightarrow> Inl ListFailed
      | Some ls \<Rightarrow>
          Inr (map (\<lambda>(n, s, _). (n, s, False)) ls @
               map (\<lambda>(n, s, _). (n, s, True)) (filter (\<lambda>(n, _). n \<notin> fst ` set ls) resurrectable)))"

subsection \<open>Creating a session\<close>

definition CREATE_SESSION_TIMEOUT :: nat where "CREATE_SESSION_TIMEOUT = 10000"
definition CREATE_SESSION_POLL :: nat where "CREATE_SESSION_POLL = 50"

definition build_create_session_args :: "string \<Rightarrow> string option \<Rightarrow> string list" where
  "build_create_session_args name layout =
     (case layout of Some l \<Rightarrow> if l \<noteq> [] then [''--layout'', l] else [] | None \<Rightarrow> []) @
     [''attach'', ''--create-background'', name]"

text \<open>The bundled layout, written on every call; \<open>can_mkdir\<close> and \<open>can_write\<close> are what the file system answers.\<close>

definition ensure_default_session_layout :: "string option \<Rightarrow> string \<Rightarrow> bool \<Rightarrow> bool \<Rightarrow> string option \<times> file_op list" where
  "ensure_default_session_layout data_dir kdl can_mkdir can_write =
     (case data_dir of
        None \<Rightarrow> (None, [])
      | Some d \<Rightarrow>
          (let path = path_join (path_join d ''layouts'') ''muxr-bundled.kdl''
           in if can_mkdir \<and> can_write then (Some path, [WriteFile path kdl]) else (None, [])))"

definition resolved_layout :: "string option \<Rightarrow> string option \<Rightarrow> string option" where
  "resolved_layout layout bundled =
     (case layout of Some l \<Rightarrow> if l \<noteq> [] then Some l else bundled | None \<Rightarrow> bundled)"

definition which_zellij :: "string option \<Rightarrow> string option \<Rightarrow> (string \<Rightarrow> bool) \<Rightarrow> zj_error + string" where
  "which_zellij on_path home there =
     (case on_path of
        Some p \<Rightarrow> Inr p
      | None \<Rightarrow>
          (case home of
             Some d \<Rightarrow> (let p = path_join (path_join d ''bin'') ''zellij'' in if there p then Inr p else Inl NoBinary)
           | None \<Rightarrow> Inl NoBinary))"

text \<open>
  The poll for the socket. \<open>up k\<close>: whether the socket is there at poll \<open>k\<close>, \<open>clock k\<close>: the
  milliseconds that have passed at its deadline check. \<open>None\<close>: the fuel is used up.
\<close>

fun poll_live :: "(nat \<Rightarrow> bool) \<Rightarrow> (nat \<Rightarrow> nat) \<Rightarrow> nat \<Rightarrow> nat \<Rightarrow> (zj_error + unit) option" where
  "poll_live up clock 0 k = None"
| "poll_live up clock (Suc fuel) k =
     (if up k then Some (Inr ())
      else if CREATE_SESSION_TIMEOUT \<le> clock k then Some (Inl NeverAppeared)
      else poll_live up clock fuel (Suc k))"

definition zj_create_session ::
  "(string \<Rightarrow> bool) \<Rightarrow> zj_error + string \<Rightarrow> string option \<Rightarrow> bool \<Rightarrow> (nat \<Rightarrow> bool) \<Rightarrow> (nat \<Rightarrow> nat) \<Rightarrow> nat \<Rightarrow> string \<Rightarrow> string option \<Rightarrow>
     (zj_error + action_ack) option \<times> zj_effect list" where
  "zj_create_session zok binary bundled spawns up clock fuel name layout =
     (if \<not> validate_session_name zok name then (Some (Inl BadSessionName), [])
      else (case binary of
              Inl e \<Rightarrow> (Some (Inl e), [])
            | Inr bin \<Rightarrow>
                if \<not> spawns then (Some (Inl SpawnFailed), [])
                else (map_option (map_sum id (\<lambda>_. \<lparr>a_ok = True, a_error = None, a_info = Some name\<rparr>)) (poll_live up clock fuel 0),
                      [Spawn bin (build_create_session_args name (resolved_layout layout bundled))])))"

text \<open>The socket appears at or after poll \<open>k\<close>, before the deadline is seen to have passed.\<close>

definition appears :: "(nat \<Rightarrow> bool) \<Rightarrow> (nat \<Rightarrow> nat) \<Rightarrow> nat \<Rightarrow> bool" where
  "appears up clock k \<longleftrightarrow> (\<exists>j \<ge> k. up j \<and> (\<forall>i. k \<le> i \<and> i < j \<longrightarrow> clock i < CREATE_SESSION_TIMEOUT))"

lemma appears_step: "appears up clock k \<longleftrightarrow> up k \<or> clock k < CREATE_SESSION_TIMEOUT \<and> appears up clock (Suc k)"
proof
  assume "appears up clock k"
  then obtain j where j: "k \<le> j" "up j" "\<And>i. k \<le> i \<Longrightarrow> i < j \<Longrightarrow> clock i < CREATE_SESSION_TIMEOUT"
    by (auto simp: appears_def)
  show "up k \<or> clock k < CREATE_SESSION_TIMEOUT \<and> appears up clock (Suc k)"
  proof (cases "j = k")
    case False
    then have "Suc k \<le> j" using j(1) by simp
    then show ?thesis using j unfolding appears_def by (metis Suc_leD Suc_le_lessD le_refl)
  qed (use j in simp)
next
  assume "up k \<or> clock k < CREATE_SESSION_TIMEOUT \<and> appears up clock (Suc k)"
  then show "appears up clock k"
  proof
    assume "up k"
    then show ?thesis unfolding appears_def by (intro exI[of _ k]) simp
  next
    assume "clock k < CREATE_SESSION_TIMEOUT \<and> appears up clock (Suc k)"
    then obtain j where c: "clock k < CREATE_SESSION_TIMEOUT" and j: "Suc k \<le> j" "up j"
      "\<And>i. Suc k \<le> i \<Longrightarrow> i < j \<Longrightarrow> clock i < CREATE_SESSION_TIMEOUT" by (auto simp: appears_def)
    have "clock i < CREATE_SESSION_TIMEOUT" if "k \<le> i" "i < j" for i
      using that c j(3)[of i] by (cases "i = k") simp_all
    then show ?thesis using j(1,2) by (auto simp: appears_def intro!: exI[of _ j])
  qed
qed

lemma poll_live_returns:
  assumes "\<And>k. CREATE_SESSION_POLL * k \<le> clock k" "200 \<le> k + n"
  shows "poll_live up clock (Suc n) k = Some (if appears up clock k then Inr () else Inl NeverAppeared)"
  using assms(2)
proof (induction n arbitrary: k)
  case 0
  then have "CREATE_SESSION_TIMEOUT \<le> clock k"
    using assms(1)[of k] by (simp add: CREATE_SESSION_TIMEOUT_def CREATE_SESSION_POLL_def)
  then show ?case by (simp add: appears_step[of up clock k])
next
  case (Suc n)
  show ?case
    using Suc.IH[of "Suc k"] Suc.prems appears_step[of up clock k] by (simp del: poll_live.simps add: poll_live.simps(2)[of up clock "Suc n"])
qed

text \<open>
  C31 (creating a session returns). Between two polls the code sleeps at least 50 ms, so whatever
  the new session does, 201 polls are enough: the call answers, and it answers with the session
  exactly when its socket appears before the deadline of ten seconds is seen to have passed.
\<close>

theorem create_session_returns:
  assumes "\<And>k. CREATE_SESSION_POLL * k \<le> clock k" "validate_session_name zok name" "binary = Inr bin"
  shows "fst (zj_create_session zok binary bundled True up clock 201 name layout) =
    Some (if \<exists>j. up j \<and> (\<forall>i<j. clock i < CREATE_SESSION_TIMEOUT)
          then Inr \<lparr>a_ok = True, a_error = None, a_info = Some name\<rparr> else Inl NeverAppeared)"
proof -
  have "poll_live up clock 201 0 =
      Some (if \<exists>j. up j \<and> (\<forall>i<j. clock i < CREATE_SESSION_TIMEOUT) then Inr () else Inl NeverAppeared)"
    using poll_live_returns[OF assms(1), of 0 200 up] by (simp add: appears_def del: poll_live.simps)
  then show ?thesis using assms(2,3) by (simp add: zj_create_session_def)
qed

theorem create_session_returns_witness:
  "fst (zj_create_session zellij_check (Inr ''/bin/zellij'') None True (\<lambda>k. k = 2) (\<lambda>k. 60 * k) 201 ''dev'' None) =
     Some (Inr \<lparr>a_ok = True, a_error = None, a_info = Some ''dev''\<rparr>)"
proof -
  have "\<exists>j. (j::nat) = 2 \<and> (\<forall>i<j. 60 * i < CREATE_SESSION_TIMEOUT)" by (simp add: CREATE_SESSION_TIMEOUT_def)
  moreover have "validate_session_name zellij_check ''dev''"
    by (simp add: validate_session_name_def zellij_check_def session_char_def byte_classes)
  ultimately show ?thesis
    using create_session_returns[of "\<lambda>k. 60 * k" zellij_check "''dev''" "Inr ''/bin/zellij''" "''/bin/zellij''" None "\<lambda>k. k = 2" None]
    by (simp add: CREATE_SESSION_POLL_def)
qed

subsection \<open>What the acknowledgement says\<close>

definition log_lines :: "zj_server_msg list \<Rightarrow> string list" where
  "log_lines ms = concat (map (\<lambda>m. case m of SrvLog ls \<Rightarrow> ls | _ \<Rightarrow> []) ms)"

definition error_lines :: "zj_server_msg list \<Rightarrow> string list" where
  "error_lines ms = concat (map (\<lambda>m. case m of SrvLogError ls \<Rightarrow> ls | _ \<Rightarrow> []) ms)"

text \<open>The reads from \<open>i\<close> on bring \<open>ms\<close>, none of which ends the reply, and then the terminator, in time.\<close>

definition replied :: "(nat \<Rightarrow> bool \<times> zj_server_msg option) \<Rightarrow> nat \<Rightarrow> zj_server_msg list \<Rightarrow> bool" where
  "replied turn i ms \<longleftrightarrow>
     (\<forall>j < length ms. turn (i + j) = (False, Some (ms ! j))) \<and> turn (i + length ms) = (False, Some SrvUnblockInput) \<and>
     list_all (\<lambda>m. m \<noteq> SrvUnblockInput \<and> (\<forall>r. m \<noteq> SrvExit r)) ms"

lemma replied_Nil: "replied turn i [] \<longleftrightarrow> turn i = (False, Some SrvUnblockInput)"
  by (simp add: replied_def)

lemma replied_Cons:
  "replied turn i (m # ms) \<longleftrightarrow>
     turn i = (False, Some m) \<and> m \<noteq> SrvUnblockInput \<and> (\<forall>r. m \<noteq> SrvExit r) \<and> replied turn (Suc i) ms"
  by (auto simp: replied_def All_less_Suc2)

lemma lines_simps [simp]:
  "log_lines [] = []" "error_lines [] = []"
  "log_lines (m # ms) = (case m of SrvLog ls \<Rightarrow> ls | _ \<Rightarrow> []) @ log_lines ms"
  "error_lines (m # ms) = (case m of SrvLogError ls \<Rightarrow> ls | _ \<Rightarrow> []) @ error_lines ms"
  by (simp_all add: log_lines_def error_lines_def)

lemma ack_turn_simps:
  "ack_turn (logs, errs) SrvUnblockInput =
     Inl (Inr \<lparr>a_ok = (lines_option errs = None), a_error = lines_option errs, a_info = lines_option logs\<rparr>)"
  "ack_turn (logs, errs) (SrvLog ls) = Inr (logs @ ls, errs)"
  "ack_turn (logs, errs) (SrvLogError ls) = Inr (logs, errs @ ls)"
  "ack_turn (logs, errs) (SrvExit r) = Inl (Inl (SessionExited r))"
  "ack_turn (logs, errs) (SrvRender bs) = Inr (logs, errs)"
  "ack_turn (logs, errs) (SrvRenamedSession nm) = Inr (logs, errs)"
  "ack_turn (logs, errs) SrvConfigFileUpdated = Inr (logs, errs)"
  "ack_turn (logs, errs) (SrvSwitchSession c) = Inr (logs, errs)"
  "ack_turn (logs, errs) SrvOther = Inr (logs, errs)"
  by (simp_all add: ack_turn_def)

lemma drain_ack:
  "drain_turns ack_turn turn [i..<n] (logs, errs) = Inr a \<longleftrightarrow>
     (\<exists>ms. i + length ms < n \<and> replied turn i ms \<and>
        a = \<lparr>a_ok = (lines_option (errs @ error_lines ms) = None), a_error = lines_option (errs @ error_lines ms),
             a_info = lines_option (logs @ log_lines ms)\<rparr>)"
proof (induction "n - i" arbitrary: i logs errs)
  case (Suc d)
  then have i: "i < n" and IH: "\<And>logs errs. drain_turns ack_turn turn [Suc i..<n] (logs, errs) = Inr a \<longleftrightarrow>
     (\<exists>ms. Suc i + length ms < n \<and> replied turn (Suc i) ms \<and>
        a = \<lparr>a_ok = (lines_option (errs @ error_lines ms) = None), a_error = lines_option (errs @ error_lines ms),
             a_info = lines_option (logs @ log_lines ms)\<rparr>)" by simp_all
  have ex: "(\<exists>ms. P ms) \<longleftrightarrow> P [] \<or> (\<exists>m ms. P (m # ms))" for P :: "zj_server_msg list \<Rightarrow> bool"
    by (metis list.exhaust)
  obtain late r where t: "turn i = (late, r)" by (metis surj_pair)
  show ?case
  proof (cases "late \<or> r = None")
    case True
    then show ?thesis using i by (subst upt_rec, subst ex) (auto simp: t replied_Nil replied_Cons)
  next
    case False
    then obtain m where m: "turn i = (False, Some m)" using t by auto
    show ?thesis
      using i by (subst upt_rec, subst ex) (cases m; auto simp: m ack_turn_simps IH replied_Nil replied_Cons)
  qed
qed simp

lemma lines_option_None [simp]: "lines_option ls = None \<longleftrightarrow> ls = []"
  by (simp add: lines_option_def)

lemma converse_Inr:
  "fst (zj_converse zok dir c sess msg reply) = Inr a \<longleftrightarrow>
     validate_session_name zok sess \<and> zc_exists c \<and> zc_connects c \<and> zc_sends c \<and> reply = Inr a"
  by (simp add: zj_converse_def open_socket_def Let_def)

text \<open>
  C28 (an acknowledgement tells the replies). An action is acknowledged exactly when its connection
  could be used and the terminator came in time among the first 500 messages, with no exit
  before it. The acknowledgement is then what the server said: it is a success exactly when no
  error line was among the messages, its error is all the error lines and its info all the log
  lines, each in the order they came.
\<close>

theorem ack_tells_replies:
  "fst (send_action zok dir c sess action) = Inr a \<longleftrightarrow>
     validate_session_name zok sess \<and> zc_exists c \<and> zc_connects c \<and> zc_sends c \<and>
     (\<exists>ms. length ms < DRAIN_LIMIT \<and> replied (zc_turn c) 0 ms \<and>
        a = \<lparr>a_ok = (error_lines ms = []), a_error = lines_option (error_lines ms), a_info = lines_option (log_lines ms)\<rparr>)"
  by (auto simp: send_action_def converse_Inr drain_ack)

subsection \<open>Both loops give up\<close>

text \<open>
  The contract of a reply loop: which messages end it does not depend on what was read before.
  A loop with it answers only on such a message, and a server that sends nothing but others is
  given up after the limit.
\<close>

locale reply_loop =
  fixes f :: "'s \<Rightarrow> zj_server_msg \<Rightarrow> (zj_error + 'r) + 's" and final :: "zj_server_msg \<Rightarrow> bool"
  assumes ends: "final m \<Longrightarrow> \<exists>r. f s m = Inl r"
    and goes_on: "\<not> final m \<Longrightarrow> \<exists>s'. f s m = Inr s'"
begin

lemma answer_needs_final:
  "drain_turns f turn is s = Inr r \<Longrightarrow> \<exists>i \<in> set is. \<exists>m. turn i = (False, Some m) \<and> final m"
proof (induction "is" arbitrary: s)
  case (Cons i "is")
  then obtain m where m: "turn i = (False, Some m)"
    by (cases "turn i") (auto split: if_splits option.splits)
  show ?case
  proof (cases "final m")
    case False
    then obtain s' where "f s m = Inr s'" using goes_on by blast
    then show ?thesis using Cons m by auto
  qed (use m in auto)
qed simp

lemma gives_up:
  "(\<And>i. i \<in> set is \<Longrightarrow> \<exists>m. turn i = (False, Some m) \<and> \<not> final m) \<Longrightarrow> drain_turns f turn is s = Inl DrainLimit"
proof (induction "is" arbitrary: s)
  case (Cons i "is")
  then obtain m where m: "turn i = (False, Some m)" "\<not> final m" by force
  then obtain s' where "f s m = Inr s'" using goes_on by blast
  then show ?case using Cons m by simp
qed simp

end

definition ack_final :: "zj_server_msg \<Rightarrow> bool" where
  "ack_final m = (case m of SrvUnblockInput \<Rightarrow> True | SrvExit _ \<Rightarrow> True | _ \<Rightarrow> False)"

definition query_final :: "zj_server_msg \<Rightarrow> bool" where
  "query_final m = (case m of SrvLog _ \<Rightarrow> True | SrvLogError _ \<Rightarrow> True | SrvExit _ \<Rightarrow> True | _ \<Rightarrow> False)"

interpretation ack: reply_loop ack_turn ack_final
  by unfold_locales (auto simp: ack_turn_def ack_final_def split: prod.splits zj_server_msg.splits)

interpretation qry: reply_loop query_turn query_final
  by unfold_locales (auto simp: query_turn_def query_final_def split: zj_server_msg.splits)

text \<open>A server that floods a connection with other messages is given up by both.\<close>

lemma flood_given_up:
  assumes "\<And>i. \<exists>m. zc_turn c i = (False, Some m) \<and> \<not> ack_final m \<and> \<not> query_final m"
    "validate_session_name zok sess" "zc_exists c" "zc_connects c" "zc_sends c"
  shows "fst (send_action zok dir c sess a) = Inl DrainLimit" "fst (query_session zok dir c sess a) = Inl DrainLimit"
proof -
  have "drain_turns ack_turn (zc_turn c) [0..<DRAIN_LIMIT] ([], []) = Inl DrainLimit"
    "drain_turns query_turn (zc_turn c) [0..<LOG_DRAIN_LIMIT] () = Inl DrainLimit"
    by (rule ack.gives_up; use assms(1) in blast) (rule qry.gives_up; use assms(1) in blast)
  then show "fst (send_action zok dir c sess a) = Inl DrainLimit" "fst (query_session zok dir c sess a) = Inl DrainLimit"
    using assms(2-5) by (simp_all add: send_action_def query_session_def zj_converse_def open_socket_def Let_def)
qed

subsection \<open>Whom the connections reach\<close>

text \<open>What one of the calls may do: reach the socket of its session and say one message that is no attach.\<close>

definition confined :: "(string \<Rightarrow> bool) \<Rightarrow> string \<Rightarrow> string \<Rightarrow> zj_effect \<Rightarrow> bool" where
  "confined zok dir sess e \<longleftrightarrow>
     validate_session_name zok sess \<and>
     (case e of
        ConnectTo path \<Rightarrow> path = path_join dir sess
      | Say path msg \<Rightarrow> path = path_join dir sess \<and> (msg = KillSessionMsg \<or> (\<exists>a. msg = ActionMsg a True))
      | Spawn bin args \<Rightarrow> \<exists>opts. args = opts @ [''attach'', ''--create-background'', sess])"

lemma converse_confined:
  assumes "e \<in> set (snd (zj_converse zok dir c sess msg reply))" "msg = KillSessionMsg \<or> (\<exists>a. msg = ActionMsg a True)"
  shows "confined zok dir sess e"
  using assms by (auto simp: zj_converse_def open_socket_def confined_def session_socket_path_def Let_def split: if_splits)

lemma snd_query_json: "snd (query_json r) = snd r"
  by (simp add: query_json_def split: prod.splits sum.splits)

lemma query_confined:
  "e \<in> set (snd (query_list_tabs_json zok dir c sess)) \<Longrightarrow> confined zok dir sess e"
  "e \<in> set (snd (query_list_panes_json zok dir c sess)) \<Longrightarrow> confined zok dir sess e"
  by (auto simp: query_list_tabs_json_def query_list_panes_json_def snd_query_json query_session_def intro: converse_confined)

datatype zj_call =
    CallOp backend_op
  | CallRename string
  | CallKill
  | CallSize
  | CallFloating zj_pane
  | CallCreate "zj_error + string" "string option" bool "nat \<Rightarrow> bool" "nat \<Rightarrow> nat" nat "string option"

text \<open>The effects of a call on a session; a second connection is used by one of them only.\<close>

fun call_effects :: "(string \<Rightarrow> bool) \<Rightarrow> string \<Rightarrow> zj_decode \<Rightarrow> zj_conn \<Rightarrow> zj_conn \<Rightarrow> string \<Rightarrow> zj_call \<Rightarrow> zj_effect list" where
  "call_effects zok dir d c c' sess (CallOp op) = snd (zj_backend_op zok dir c sess op)"
| "call_effects zok dir d c c' sess (CallRename new) = snd (zj_rename_session zok dir c sess new)"
| "call_effects zok dir d c c' sess CallKill = snd (zj_kill_session zok dir c sess)"
| "call_effects zok dir d c c' sess CallSize = snd (zj_session_size zok dir d c sess)"
| "call_effects zok dir d c c' sess (CallFloating p) = snd (zj_pane_floating zok dir d c c' sess p)"
| "call_effects zok dir d c c' sess (CallCreate b l sp up clock fuel layout) =
     snd (zj_create_session zok b l sp up clock fuel sess layout)"

lemma size_effects: "snd (zj_session_size zok dir d c sess) = snd (query_list_tabs_json zok dir c sess)"
  by (simp add: zj_session_size_def split: prod.splits sum.splits)

lemma floating_effects:
  "set (snd (zj_pane_floating zok dir d c c' sess p)) \<subseteq>
     set (snd (query_list_panes_json zok dir c sess)) \<union> set (snd (query_list_tabs_json zok dir c' sess))"
  by (simp add: zj_pane_floating_def Let_def split: prod.splits sum.splits option.splits)

lemma call_confined: "e \<in> set (call_effects zok dir d c c' sess cl) \<Longrightarrow> confined zok dir sess e"
proof (cases cl)
  case (CallFloating p)
  assume "e \<in> set (call_effects zok dir d c c' sess cl)"
  then show ?thesis
    using floating_effects[of zok dir d c c' sess p] query_confined unfolding CallFloating by fastforce
next
  case (CallCreate b l sp up clock fuel layout)
  assume "e \<in> set (call_effects zok dir d c c' sess cl)"
  then show ?thesis unfolding CallCreate
    by (auto simp: zj_create_session_def confined_def build_create_session_args_def split: if_splits sum.splits)
qed (auto simp: zj_backend_op_def zj_rename_session_def zj_kill_session_def send_action_def size_effects
       intro: converse_confined query_confined)

text \<open>
  C30 (a call stays with its session). Whatever name a call is given, it reaches nothing unless the
  name is one file name of harmless characters; then it connects to that socket under zellij's
  directory only, never attaches - which would resize and refocus the tab of somebody else - and
  a new session's command line ends in the name as one argument.
\<close>

theorem zellij_calls_confined:
  assumes "e \<in> set (call_effects zok dir d c c' sess cl)"
  shows "sess \<noteq> [] \<and> list_all session_char sess \<and>
    (case e of
       ConnectTo path \<Rightarrow> path = path_join dir sess
     | Say path msg \<Rightarrow> path = path_join dir sess \<and> (\<forall>rows cols. msg \<noteq> AttachClient rows cols)
     | Spawn bin args \<Rightarrow> \<exists>opts. args = opts @ [''attach'', ''--create-background'', sess])"
  using call_confined[OF assms] by (auto simp: confined_def validate_session_name_def split: zj_effect.splits)

theorem zellij_calls_confined_witness:
  "ConnectTo ''/run/dev'' \<in>
     set (call_effects zellij_check ''/run'' \<lparr>jd_values = \<lambda>_. None, jd_tab = \<lambda>_. None, jd_panes = \<lambda>_. None\<rparr>
        \<lparr>zc_exists = True, zc_connects = True, zc_sends = True, zc_turn = \<lambda>_. (False, None)\<rparr>
        \<lparr>zc_exists = True, zc_connects = True, zc_sends = True, zc_turn = \<lambda>_. (False, None)\<rparr> ''dev'' CallKill) \<and>
   list_all session_char ''dev''"
proof -
  let ?c = "\<lparr>zc_exists = True, zc_connects = True, zc_sends = True, zc_turn = \<lambda>_. (False, None)\<rparr>"
  let ?d = "\<lparr>jd_values = \<lambda>_. None, jd_tab = \<lambda>_. None, jd_panes = \<lambda>_. None\<rparr>"
  have v: "validate_session_name zellij_check ''dev''"
    by (simp add: validate_session_name_def zellij_check_def session_char_def byte_classes)
  have "ConnectTo ''/run/dev'' \<in> set (call_effects zellij_check ''/run'' ?d ?c ?c ''dev'' CallKill)"
    by (simp add: zj_kill_session_def zj_converse_def open_socket_def v session_socket_path_def path_join_def Let_def)
  then show ?thesis using zellij_calls_confined by blast
qed

text \<open>
  (resurrectable sessions are listed once). The listing starts with the live sessions, and when
  zellij lists no name twice, neither does it.
\<close>

lemma listed_sessions_distinct:
  assumes "zj_list_sessions (Some ls) rs = Inr out" "distinct (map fst ls)" "distinct (map fst rs)"
  shows "distinct (map fst out)"
  using assms by (auto simp: zj_list_sessions_def comp_def case_prod_beta distinct_map_filter) force

end
