(* ===== verification/ZellijRelay.thy ===== *)
theory ZellijRelay
  imports ZellijCli
begin

text \<open>
  The zellij side of an attached terminal and the layout of a session:
  \<open>muxrd/src/multiplexer/zellij.rs\<close> (\<open>parse_zellij_layout\<close>, \<open>fullscreen_actions\<close>, the sender and
  the receiver of the relay) and the attach of \<open>ipc.rs\<close>. What zellij does with an action is
  known from its documentation only; the properties state it as a hypothesis.
\<close>

subsection \<open>The layout\<close>

definition pane_of_entry :: "zj_entry \<Rightarrow> pane_snapshot" where
  "pane_of_entry e =
     \<lparr>ps_id = en_id e, ps_title = en_title e, ps_focused = en_focused e, ps_floating = en_floating e, ps_exited = en_exited e,
      ps_command = (case en_command e of Some s \<Rightarrow> s | None \<Rightarrow> []), ps_cwd = (case en_cwd e of Some s \<Rightarrow> s | None \<Rightarrow> []),
      ps_x = ucast (en_x e), ps_y = ucast (en_y e), ps_rows = ucast (en_rows e), ps_cols = ucast (en_cols e),
      ps_plugin = en_plugin e, ps_fullscreen = en_fullscreen e, ps_agent = None\<rparr>"

definition tab_of_info :: "zj_tab \<Rightarrow> pane_snapshot list \<Rightarrow> tab_snapshot" where
  "tab_of_info t ps =
     \<lparr>ts_tab_id = zt_tab_id t, ts_position = ucast (zt_position t), ts_name = zt_name t, ts_active = zt_active t,
      ts_has_bell = zt_bell t, ts_panes_to_hide = ucast (zt_panes_to_hide t), ts_fullscreen_active = zt_fullscreen_active t,
      ts_floating_visible = zt_floating_visible t, ts_panes = ps\<rparr>"

text \<open>The panes grouped by tab, in the order of the list; a tab takes its group out.\<close>

definition group_of :: "(64 word \<rightharpoonup> pane_snapshot list) \<Rightarrow> 64 word \<Rightarrow> pane_snapshot list" where
  "group_of m t = (case m t of Some ps \<Rightarrow> ps | None \<Rightarrow> [])"

definition group_pane :: "zj_entry \<Rightarrow> (64 word \<rightharpoonup> pane_snapshot list) \<Rightarrow> (64 word \<rightharpoonup> pane_snapshot list)" where
  "group_pane e m = m(en_tab_id e \<mapsto> group_of m (en_tab_id e) @ [pane_of_entry e])"

fun take_tabs :: "(64 word \<rightharpoonup> pane_snapshot list) \<Rightarrow> zj_tab list \<Rightarrow> tab_snapshot list" where
  "take_tabs m [] = []"
| "take_tabs m (t # ts) = tab_of_info t (group_of m (zt_tab_id t)) # take_tabs (m(zt_tab_id t := None)) ts"

text \<open>A pair that arrives in the wrong order is decoded the right way round.\<close>

definition decode_pair :: "zj_decode \<Rightarrow> string \<Rightarrow> string \<Rightarrow> (zj_tab list \<times> zj_entry list) option" where
  "decode_pair d tabs_json panes_json =
     (case parse_list_tabs_json d tabs_json of
        Some ts \<Rightarrow> map_option (Pair ts) (jd_panes d panes_json)
      | None \<Rightarrow>
          (case parse_list_tabs_json d panes_json of
             Some ts \<Rightarrow> map_option (Pair ts) (jd_panes d tabs_json)
           | None \<Rightarrow> None))"

definition parse_zellij_layout :: "zj_decode \<Rightarrow> string \<Rightarrow> string \<Rightarrow> layout_snapshot option" where
  "parse_zellij_layout d tabs_json panes_json =
     (case decode_pair d tabs_json panes_json of
        None \<Rightarrow> None
      | Some (ts, es) \<Rightarrow> Some \<lparr>ls_tabs = take_tabs (fold group_pane es Map.empty) ts\<rparr>)"

definition zj_query_layout ::
  "(string \<Rightarrow> bool) \<Rightarrow> string \<Rightarrow> zj_decode \<Rightarrow> zj_conn \<Rightarrow> zj_conn \<Rightarrow> string \<Rightarrow> (zj_error + layout_snapshot) \<times> zj_effect list" where
  "zj_query_layout zok dir d c c' sess =
     (case query_list_tabs_json zok dir c sess of
        (Inl e, fx) \<Rightarrow> (Inl e, fx)
      | (Inr tabs, fx) \<Rightarrow>
          (case query_list_panes_json zok dir c' sess of
             (Inl e, fx') \<Rightarrow> (Inl e, fx @ fx')
           | (Inr panes, fx') \<Rightarrow>
               (case parse_zellij_layout d tabs panes of Some l \<Rightarrow> Inr l | None \<Rightarrow> Inl BadJson, fx @ fx')))"

definition zj_fullscreen_context ::
  "(string \<Rightarrow> bool) \<Rightarrow> string \<Rightarrow> zj_decode \<Rightarrow> zj_conn \<Rightarrow> zj_conn \<Rightarrow> string \<Rightarrow> pane_ref \<Rightarrow> pane_ref option \<Rightarrow>
     (zj_error + pane_fullscreen_context) \<times> zj_effect list" where
  "zj_fullscreen_context zok dir d c c' sess pane relay_focus =
     (case zj_query_layout zok dir d c c' sess of
        (Inl e, fx) \<Rightarrow> (Inl e, fx)
      | (Inr l, fx) \<Rightarrow> (Inr (from_snapshot l pane relay_focus), fx))"

subsection \<open>The attached client\<close>

definition zj_open_attach ::
  "(string \<Rightarrow> bool) \<Rightarrow> string \<Rightarrow> zj_conn \<Rightarrow> string \<Rightarrow> 16 word \<Rightarrow> 16 word \<Rightarrow> (zj_error + string) \<times> zj_effect list" where
  "zj_open_attach zok dir c sess rows cols = zj_converse zok dir c sess (AttachClient rows cols) (Inr sess)"





definition zj_recv :: "zj_server_msg \<Rightarrow> mux_msg" where
  "zj_recv m =
     (case m of
        SrvRender bytes \<Rightarrow> RenderMsg bytes
      | SrvLog lines \<Rightarrow> LogMsg (join_lines lines)
      | SrvExit reason \<Rightarrow> EventMsg (ExitEvent reason)
      | SrvRenamedSession n \<Rightarrow> EventMsg (RenamedEvent n)
      | SrvConfigFileUpdated \<Rightarrow> EventMsg ConfigEvent
      | SrvSwitchSession n \<Rightarrow> EventMsg (SwitchEvent (case n of Some s \<Rightarrow> s | None \<Rightarrow> []))
      | _ \<Rightarrow> OtherMsg)"

subsection \<open>Every pane is in its tab\<close>

lemma group_of_group: "group_of (group_pane e m) t = group_of m t @ (if en_tab_id e = t then [pane_of_entry e] else [])"
  by (simp add: group_pane_def group_of_def)

lemma group_of_fold:
  "group_of (fold group_pane es m) t = group_of m t @ map pane_of_entry (filter (\<lambda>e. en_tab_id e = t) es)"
  by (induction es arbitrary: m) (simp_all add: group_of_group)

lemma take_tabs_map:
  assumes "distinct (map zt_tab_id ts)"
  shows "take_tabs m ts = map (\<lambda>t. tab_of_info t (group_of m (zt_tab_id t))) ts"
  using assms
proof (induction ts arbitrary: m)
  case (Cons t ts)
  have "zt_tab_id x \<noteq> zt_tab_id t" if "x \<in> set ts" for x
    using Cons.prems imageI[OF that, of zt_tab_id] by auto
  then show ?case using Cons by (simp add: group_of_def)
qed simp

text \<open>
  (a layout is a query of the two lists). When zellij gives its tabs different ids, the grouping
  with its map is the plain query: every tab of the list, in order, with exactly the panes that
  name it, in their order.
\<close>

theorem layout_is_the_join:
  assumes "parse_zellij_layout d tabs_json panes_json = Some l" "decode_pair d tabs_json panes_json = Some (ts, es)"
    "distinct (map zt_tab_id ts)"
  shows "ls_tabs l = map (\<lambda>t. tab_of_info t (map pane_of_entry (filter (\<lambda>e. en_tab_id e = zt_tab_id t) es))) ts"
proof -
  have "ls_tabs l = take_tabs (fold group_pane es Map.empty) ts"
    using assms(1,2) by (auto simp: parse_zellij_layout_def)
  then show ?thesis by (simp add: take_tabs_map[OF assms(3)] group_of_fold) (simp add: group_of_def)
qed

lemma swapped_payloads_decode:
  assumes "parse_list_tabs_json d tabs_json = Some ts" "jd_panes d panes_json = Some es" "parse_list_tabs_json d panes_json = None"
  shows "parse_zellij_layout d panes_json tabs_json = parse_zellij_layout d tabs_json panes_json"
  using assms by (simp add: parse_zellij_layout_def decode_pair_def)

subsection \<open>The two ways to a layout\<close>

lemma query_json_Inr: "fst (query_json r) = Inr j \<longleftrightarrow> (\<exists>ls. fst r = Inr ls \<and> j = join_lines ls \<and> j \<noteq> [])"
  by (auto simp: query_json_def split: prod.splits sum.splits)

lemma query_json_Inl: "fst r = Inr ls \<Longrightarrow> fst (query_json r) = (if join_lines ls = [] then Inl EmptyReply else Inr (join_lines ls))"
  by (auto simp: query_json_def split: prod.splits sum.splits)

text \<open>
  C29 (one parse for both layout paths). The short query reads the two replies over connections of
  its own, an attached terminal reads them off its stream, through the receiver and the render
  loop's pairing. For the same two replies of the server - empty ones included - the caller of
  either path is told the same layout, or by both that there is none.
\<close>

theorem zellij_layout_paths_agree:
  assumes "fst (query_session zok dir c sess ListTabs) = Inr tabs" "fst (query_session zok dir c' sess ListPanes) = Inr panes"
    "rd_held r = Some (new_query n)" "\<not> closed n" "\<not> closed' n"
  shows "rd_replies (handle_msg (parse_zellij_layout d) closed' sends' (zj_recv (SrvLog panes))
           (handle_msg (parse_zellij_layout d) closed sends (zj_recv (SrvLog tabs)) r)) =
    rd_replies r @ [(n, case fst (zj_query_layout zok dir d c c' sess) of Inr l \<Rightarrow> Some l | Inl _ \<Rightarrow> None)]"
proof -
  have relay: "rd_replies (handle_msg (parse_zellij_layout d) closed' sends' (zj_recv (SrvLog panes))
           (handle_msg (parse_zellij_layout d) closed sends (zj_recv (SrvLog tabs)) r)) =
      rd_replies r @ [(n, fulfil (parse_zellij_layout d) (join_lines tabs) (join_lines panes))]"
    using assms(3-5) by (simp add: handle_msg_def zj_recv_def capture_query_log_def new_query_def)
  obtain tx where t: "query_list_tabs_json zok dir c sess = (if join_lines tabs = [] then Inl EmptyReply else Inr (join_lines tabs), tx)"
    using query_json_Inl[OF assms(1)] by (cases "query_list_tabs_json zok dir c sess") (simp add: query_list_tabs_json_def)
  obtain px where p: "query_list_panes_json zok dir c' sess = (if join_lines panes = [] then Inl EmptyReply else Inr (join_lines panes), px)"
    using query_json_Inl[OF assms(2)] by (cases "query_list_panes_json zok dir c' sess") (simp add: query_list_panes_json_def)
  have "(case fst (zj_query_layout zok dir d c c' sess) of Inr l \<Rightarrow> Some l | Inl _ \<Rightarrow> None) =
      fulfil (parse_zellij_layout d) (join_lines tabs) (join_lines panes)"
    by (simp add: zj_query_layout_def t p fulfil_def split: option.split)
  then show ?thesis using relay by simp
qed

subsection \<open>A toggle stays on the tab of its pane\<close>








subsection \<open>Concrete inputs\<close>

lemma from_to_pane_id [simp]: "from_pane_id (to_pane_id p) = p"
  by (simp add: from_pane_id_def to_pane_id_def pane_id_from_target_def)





definition demo_zj_reply :: "string list \<Rightarrow> zj_conn" where
  "demo_zj_reply ls = \<lparr>zc_exists = True, zc_connects = True, zc_sends = True, zc_turn = \<lambda>_. (False, Some (SrvLog ls))\<rparr>"

definition demo_zj_decode :: zj_decode where
  "demo_zj_decode = \<lparr>jd_values = \<lambda>s. if s = ''T'' then Some [] else None, jd_tab = \<lambda>_. None,
     jd_panes = \<lambda>s. if s = ''P'' then Some [] else None\<rparr>"

lemma demo_query: "fst (query_session zellij_check ''/run'' (demo_zj_reply ls) ''dev'' a) = Inr ls"
proof -
  have "drain_turns query_turn (zc_turn (demo_zj_reply ls)) [0..<LOG_DRAIN_LIMIT] () = Inr ls"
    by (subst upt_rec) (simp add: LOG_DRAIN_LIMIT_def demo_zj_reply_def query_turn_def)
  moreover have "validate_session_name zellij_check ''dev''"
    by (simp add: validate_session_name_def zellij_check_def session_char_def byte_classes)
  ultimately show ?thesis by (simp add: query_session_def converse_Inr) (simp add: demo_zj_reply_def)
qed

theorem zellij_layout_paths_agree_witness:
  "rd_replies (handle_msg (parse_zellij_layout demo_zj_decode) (\<lambda>_. False) True (zj_recv (SrvLog [''P'']))
     (handle_msg (parse_zellij_layout demo_zj_decode) (\<lambda>_. False) True (zj_recv (SrvLog [''T'']))
       (start_reader\<lparr>rd_held := Some (new_query 1)\<rparr>))) =
   [(1, case fst (zj_query_layout zellij_check ''/run'' demo_zj_decode (demo_zj_reply [''T'']) (demo_zj_reply [''P'']) ''dev'') of
          Inr l \<Rightarrow> Some l | Inl _ \<Rightarrow> None)]"
  using zellij_layout_paths_agree[OF demo_query demo_query, of "start_reader\<lparr>rd_held := Some (new_query 1)\<rparr>" 1 "\<lambda>_. False" "\<lambda>_. False"]
  by (simp add: start_reader_def)

theorem layout_is_the_join_witness:
  "map_option ls_tabs (parse_zellij_layout demo_zj_decode ''P'' ''T'') = Some []"
proof -
  obtain l where l: "parse_zellij_layout demo_zj_decode ''P'' ''T'' = Some l" "decode_pair demo_zj_decode ''P'' ''T'' = Some ([], [])"
    by (simp add: parse_zellij_layout_def decode_pair_def parse_list_tabs_json_def demo_zj_decode_def)
  show ?thesis using layout_is_the_join[OF l] l(1) by simp
qed

end
