(* ===== verification/Spec2Isabelle.thy ===== *)
theory Spec2Isabelle
  imports Registry PaneOps AttachEviction Auth RateLimit Notifier ClientCount Wire AgentWatch HerdrBackend EventLoop
    LayoutOps RelayAttach HerdrSwap CtlRuns CtlServer CtlInput ZellijRelay
begin

text \<open>
  A verification development for muxr-core: the daemon \<open>muxrd\<close> that lets a phone drive
  terminal multiplexers (zellij and herdr) over gRPC, its terminal user interface \<open>muxrctl\<close>, and
  the push relay \<open>muxr-notify\<close> that forwards its notifications to FCM.

  How a request travels: the rate limiter sheds it by client address (\<open>RateLimit\<close>), the bearer
  layer authenticates it and stashes whether its token is read-only (\<open>Auth\<close>, with the expiry
  overlay of \<open>TokenExpiry\<close>), the handler gates and validates it (\<open>PaneOps\<close>, \<open>SpaceOps\<close>, \<open>SessionOps\<close>,
  \<open>LayoutOps\<close>, \<open>AgentWatch\<close>, \<open>Devices\<close>), its session id is resolved to a backend (\<open>Routing\<close>), and
  view changes are routed to the caller's own relay (\<open>ControlRoute\<close>) or run against the backend:
  zellij over short connections (\<open>ZellijCli\<close>), herdr over its control client (\<open>HerdrControl\<close>,
  \<open>HerdrBackend\<close>), whose opaque ids the registries translate (\<open>Registry\<close>). An attached terminal is a
  relay (\<open>RelayAttach\<close>, \<open>RelayInbound\<close>, \<open>RelayReader\<close>) over a zellij stream (\<open>ZellijRelay\<close>) or a herdr
  one (\<open>HerdrAttach\<close>, \<open>HerdrSwap\<close>, \<open>Wire\<close>); the leases of relays evict one another (\<open>AttachEviction\<close>) and
  their number is counted (\<open>ClientCount\<close>). herdr's events come through the event kernel
  (\<open>EventKernel\<close>, \<open>EventLoop\<close>), reach watching clients (\<open>AgentWatch\<close>) and fan out to registered
  devices (\<open>Notifier\<close>) through the relay service (\<open>RelayApi\<close>, \<open>RelaySafety\<close>, \<open>NotifyRateLimit\<close>). The
  daemon is configured, given a certificate, started and stopped by \<open>ServerConfig\<close>, \<open>TlsIdentity\<close>,
  \<open>StartPlan\<close> and \<open>Lifecycle\<close>, from the command line or from \<open>muxrctl\<close> (the \<open>Ctl\<close> theories).

  Theories, sources (under \<open>muxrd/src\<close> unless another crate is named) and what the lemmas show:

  \<^item> \<open>Prelude\<close>: status codes, bytes and UTF-8 characters, trimming, number parsing and printing,
    checked and wrapping integers, and the generic lemmas on them. \<open>Json\<close>: JSON values. \<open>FileOps\<close>:
    file operations and what an interrupted sequence of them leaves. \<open>Layout\<close>, \<open>Events\<close>: the neutral
    layout and agent types (\<open>multiplexer/types.rs\<close>, \<open>multiplexer/events.rs\<close>).
  \<^item> \<open>Registry\<close> (\<open>multiplexer/herdr/registry.rs\<close>): pane and tab id registries; an id never changes
    its meaning and distinct panes have distinct ids until the counter is exhausted. The locale
    \<open>id_registry\<close> is interpreted on both registries.
  \<^item> \<open>Routing\<close> (\<open>multiplexer/routing.rs\<close>, \<open>multiplexer/mod.rs\<close>, \<open>ipc.rs\<close>): \<open>make_id\<close> and
    \<open>resolve_session\<close> are inverse, and a resolved bare name is safe as a socket name.
  \<^item> \<open>ControlRoute\<close> (\<open>grpc/helpers.rs\<close>): \<open>try_route_control\<close> reaches only the caller's own relay or
    a writable one of the same session, its acknowledgement is truthful; validators and gates.
  \<^item> \<open>PaneOps\<close> (\<open>grpc/pane_ops.rs\<close>, \<open>grpc/tab_ops.rs\<close>), \<open>SpaceOps\<close>, \<open>SessionOps\<close>, \<open>LayoutOps\<close>,
    \<open>AgentWatch\<close> (\<open>grpc/space_ops.rs\<close>, \<open>session_ops.rs\<close>, \<open>layout.rs\<close>, \<open>agent_ops.rs\<close>): all handlers; what
    a request can do to a backend or a relay, read-only callers included; that a watching client is
    in step with the inventory, catches up, and is cut off when its token is revoked.
  \<^item> \<open>TokenExpiry\<close> (\<open>token_expiry.rs\<close>), \<open>Auth\<close> (\<open>auth.rs\<close>, \<open>grpc/token_ops.rs\<close>): deadlines, the
    bearer check, login, token administration, and whole requests from header to backend call.
  \<^item> \<open>TokenBucket\<close>: \<open>f64\<close> time arithmetic and the contract of a keyed limiter, the locale
    \<open>rate_limiter\<close>, interpreted by \<open>RateLimit\<close> (\<open>ratelimit.rs\<close>) and \<open>NotifyRateLimit\<close>
    (\<open>muxr-notify/src/ratelimit.rs\<close>): the sustained rate, the burst, isolation of keys, bounded memory,
    and eviction that nobody can observe.
  \<^item> \<open>Devices\<close> (\<open>notify/devices.rs\<close>, \<open>grpc/push_ops.rs\<close>): the device registry as a map from names,
    its invariant over all requests and I/O failures.
  \<^item> \<open>RelayApi\<close>, \<open>RelaySafety\<close> (\<open>muxr-notify\<close>): configuration, table, FCM outcomes and HTTP handlers;
    the handler of a notification is split where it waits for Google, and the step relation
    interleaves any requests in between: the daily cap and its overshoot, gone handles, spoofed
    addresses.
  \<^item> \<open>Notifier\<close> (\<open>multiplexer/events.rs\<close>, \<open>notify/sender.rs\<close>): trigger filter, debouncing, fan-out and
    pruning. The locale \<open>relay_transport\<close> is interpreted on the HTTP mapping over the relay model,
    so that pruning is shown safe across both programs.
  \<^item> \<open>ClientCount\<close> (\<open>client_count.rs\<close>), \<open>AttachEviction\<close> (\<open>relay/types.rs\<close>): a session's count is the
    number of its live guards; at most one un-evicted relay for each client instance.
  \<^item> \<open>RelayAttach\<close>, \<open>RelayInbound\<close>, \<open>RelayReader\<close> (\<open>relay/mod.rs\<close>, \<open>relay/inbound.rs\<close>, \<open>relay/reader.rs\<close>): the
    life of an attached terminal from its first frame to what its end undoes; a read-only stream
    cannot write, tracked tabs and panes agree, layout replies belong to their queries.
  \<^item> \<open>ZellijCli\<close> (\<open>actions.rs\<close>, \<open>query.rs\<close>), \<open>ZellijRelay\<close> (\<open>multiplexer/zellij.rs\<close>): the acknowledgement
    tells what zellij replied, a call reaches its own session only, creating a session returns, both
    layout paths agree, a fullscreen toggle leaves other tabs alone. The locale \<open>reply_loop\<close> is
    interpreted on the two loops that wait for a reply.
  \<^item> \<open>HerdrApi\<close>, \<open>HerdrControl\<close>, \<open>HerdrBackend\<close> (\<open>api.rs\<close>, \<open>control.rs\<close>, \<open>backend.rs\<close> of
    \<open>multiplexer/herdr\<close>): requests and responses, the two ways to read a layout and that they agree,
    every operation of the backend.
  \<^item> \<open>HerdrAttach\<close>, \<open>HerdrSwap\<close> (\<open>multiplexer/herdr/relay.rs\<close>), \<open>Wire\<close> (\<open>multiplexer/herdr/wire.rs\<close>): the
    resume ladder, attach and re-attach, the hand-over of a connection between two threads as a
    step relation; framing, and a reader that skips what it does not mirror.
  \<^item> \<open>LineReader\<close>, \<open>EventKernel\<close>, \<open>EventTables\<close>, \<open>EventLoop\<close> (\<open>multiplexer/herdr/subscribe.rs\<close>): no pane is
    left without a subscription, the bus tells exactly what the tables hold, the loop recovers.
  \<^item> \<open>ServerConfig\<close> (\<open>config.rs\<close>), \<open>TlsIdentity\<close> (\<open>tls.rs\<close>), \<open>StartPlan\<close> (\<open>multiplexer/detect.rs\<close>,
    \<open>bin/muxrd.rs\<close>), \<open>Lifecycle\<close> (\<open>control.rs\<close>, \<open>bin/muxrd.rs\<close>): resolved configurations are well formed
    and their update atomic, the served certificate covers what was asked, plaintext stays local
    unless it was allowed, one daemon runs and can be found - and the runs in which it is not.
  \<^item> \<open>CtlNet\<close>, \<open>CtlState\<close>, \<open>CtlUpdate\<close>, \<open>CtlWizard\<close>, \<open>CtlSafety\<close>, \<open>CtlRuns\<close> (\<open>muxrctl/src/app\<close>,
    \<open>muxrctl/src/pairing\<close>): the state and the reducers of the interface; nothing irreversible happens
    unasked, the update returns, the QR shown is the latest; runs in which a dialog acts on
    something else. \<open>CtlServer\<close>, \<open>CtlInput\<close> (\<open>muxrctl/src/server\<close>, \<open>muxrctl/src/tui\<close>): the certificate
    that is pinned is the one the daemon serves; the event pump and the text field.

  Conventions. A \<open>Status\<close> is its code; messages for people and log lines are left out unless a client
  reads them, so the model assumes that formatting them does not fail (\<open>short_conn\<close> is modelled
  because it can). A lock-protected operation is one step. A map that is only looked up in is a
  function, one that is iterated over an association list in iteration order. A Rust \<open>String\<close> is its
  UTF-8 bytes. An \<open>f64\<close> is a rational and each operation on it rounds with a parameter; long-run
  bounds are stated for exact arithmetic. What the code gets from elsewhere is an argument: zellij
  and herdr, the token database, SHA-256, key generation, TOML and JSON, clocks, the outcome of
  I/O, SQLite, Google, bincode, random bytes. A property that relies on such code names what it
  relies on (\<open>crypto_laws\<close>, \<open>zellij_tabs\<close>, \<open>truthful_read\<close>).

  Loops that end by themselves terminate by a measure or are structural. One loop waits for the
  outside with no bound of its own: the poll of \<open>zj_create_session\<close> has fuel, and 201 polls are
  shown to be enough, since each sleeps 50 ms and the deadline is ten seconds. Loops that run as
  long as the program (the relay loops, the event kernel, the agent watch, the daemon) are step
  functions or step relations, and their properties hold after any number of steps.

  Not modelled: \<open>multiplexer/herdr/paths.rs\<close> and the gRPC glue (\<open>grpc/mod.rs\<close>), the commands of the
  binary that only print, the painting of \<open>muxrctl\<close> (views, widgets, theme), the wrappers of the
  token store, examples, tests, build scripts and the clients in other languages. They hold no
  decision of their own, or leave it to a library. The manifest lists each of them.
\<close>

end
